(* ===== verification/Prelude.thy ===== *)
theory Prelude
  imports Main "HOL-Library.Word" "HOL-Library.State_Monad"
begin

text \<open>
  Shared vocabulary of the development: PJSIP status codes, C strings and the formatting the
  program does with \<^verbatim>\<open>snprintf\<close>, the array helpers of pjlib, the state monad every stateful
  function is written in, and a small calculus of preserved properties.
  The theory collections are \<open>run_simps\<close> (how a primitive acts on a state) and
  \<open>keeps_intro\<close> (which commands leave a view of the state alone), \<open>pres_intro\<close> (which preserve a property).
\<close>

named_theorems run_simps \<open>unfolding of the monadic primitives on a state\<close>
named_theorems keeps_intro \<open>commands that keep a view of the state\<close>
named_theorems pres_intro \<open>commands that preserve a property of the state\<close>

section \<open>Machine integers and status codes\<close>

type_synonym u32 = "32 word"

text \<open>
  A \<^verbatim>\<open>pj_status_t\<close> is an int, zero for success. The codes below are the ones the modelled
  functions return (pjlib/include/pj/errno.h, pjmedia/include/pjmedia/errno.h).
\<close>

type_synonym pj_status = int

abbreviation PJ_SUCCESS :: pj_status where "PJ_SUCCESS \<equiv> 0"
abbreviation PJ_EINVAL :: pj_status where "PJ_EINVAL \<equiv> 70004"
abbreviation PJ_ENAMETOOLONG :: pj_status where "PJ_ENAMETOOLONG \<equiv> 70005"
abbreviation PJ_EBUG :: pj_status where "PJ_EBUG \<equiv> 70008"
abbreviation PJ_ETOOMANY :: pj_status where "PJ_ETOOMANY \<equiv> 70010"
abbreviation PJ_ENOTSUP :: pj_status where "PJ_ENOTSUP \<equiv> 70012"
abbreviation PJ_EINVALIDOP :: pj_status where "PJ_EINVALIDOP \<equiv> 70013"
abbreviation PJSIP_EBUSY :: pj_status where "PJSIP_EBUSY \<equiv> 171001"
abbreviation PJSIP_EINVALIDURI :: pj_status where "PJSIP_EINVALIDURI \<equiv> 171039"
abbreviation PJSIP_EINVALIDSCHEME :: pj_status where "PJSIP_EINVALIDSCHEME \<equiv> 171040"
abbreviation PJSIP_EURITOOLONG :: pj_status where "PJSIP_EURITOOLONG \<equiv> 171043"
abbreviation PJMEDIA_ENCCHANNEL :: pj_status where "PJMEDIA_ENCCHANNEL \<equiv> 220166"
abbreviation PJMEDIA_EAUD_NODEVICES :: pj_status where "PJMEDIA_EAUD_NODEVICES \<equiv> 420005"
abbreviation PJSUA_INVALID_ID :: int where "PJSUA_INVALID_ID \<equiv> -1"

section \<open>C strings\<close>

text \<open>
  A NUL-terminated \<^verbatim>\<open>char\<close> array is the list of its bytes before the NUL. A pointer that may
  be NULL is a \<open>string option\<close>. \<open>snprintf(buf, n, ...)\<close> and the program's
  \<open>strncpy(buf, s, n - 1); buf[n - 1] = 0\<close> both leave the first \<open>n - 1\<close> bytes.
\<close>

definition c_trunc :: "nat \<Rightarrow> string \<Rightarrow> string" where
  "c_trunc n s = take (n - 1) s"

lemma length_c_trunc: "length (c_trunc n s) \<le> n - 1"
  by (simp add: c_trunc_def)

lemma length_c_trunc_less: "0 < n \<Longrightarrow> length (c_trunc n s) < n"
  by (simp add: c_trunc_def)

lemma c_trunc_id: "length s < n \<Longrightarrow> c_trunc n s = s"
  by (simp add: c_trunc_def)

lemma c_trunc_c_trunc: "c_trunc m (c_trunc n s) = c_trunc (min m n) s"
  by (simp add: c_trunc_def min_diff)

text \<open>What \<open>%s\<close> prints for a pointer, and the program's own spelling of NULL.\<close>

definition pct_s :: "string option \<Rightarrow> string" where
  "pct_s p = (case p of None \<Rightarrow> ''(null)'' | Some s \<Rightarrow> s)"

definition or_null :: "string option \<Rightarrow> string" where
  "or_null p = (case p of None \<Rightarrow> ''<null>'' | Some s \<Rightarrow> s)"

definition nonempty :: "string option \<Rightarrow> bool" where
  "nonempty p \<longleftrightarrow> (\<exists>s. p = Some s \<and> s \<noteq> [])"

lemma nonempty_code [code, simp]:
  "nonempty None = False"
  "nonempty (Some s) = (s \<noteq> [])"
  by (auto simp: nonempty_def)

definition digit_char :: "nat \<Rightarrow> char" where
  "digit_char d = ''0123456789abcdef'' ! d"

fun dec_nat :: "nat \<Rightarrow> string" where
  "dec_nat n = (if n < 10 then [digit_char n] else dec_nat (n div 10) @ [digit_char (n mod 10)])"

fun hex_nat :: "nat \<Rightarrow> string" where
  "hex_nat n = (if n < 16 then [digit_char n] else hex_nat (n div 16) @ [digit_char (n mod 16)])"

declare dec_nat.simps [simp del] hex_nat.simps [simp del]

text \<open>\<open>%d\<close>, \<open>%u\<close> and \<open>%x\<close>.\<close>

definition dec :: "int \<Rightarrow> string" where
  "dec i = (if i < 0 then CHR ''-'' # dec_nat (nat (- i)) else dec_nat (nat i))"

text \<open>The UTF-8 bytes of the em dash the log messages use.\<close>

definition em_dash :: string where
  "em_dash = [CHR 0xE2, CHR 0x80, CHR 0x94]"

text \<open>\<^verbatim>\<open>pj_tolower\<close> on the ASCII letters.\<close>

definition pj_tolower :: "char \<Rightarrow> char" where
  "pj_tolower c = (let n = (of_char c :: nat) in if 65 \<le> n \<and> n \<le> 90 then char_of (n + 32) else c)"

section \<open>Arrays\<close>

text \<open>
  An array with a live prefix is the list of that prefix. \<open>erase_at\<close> is \<^verbatim>\<open>pj_array_erase\<close>;
  \<open>index_of\<close> is the search loop \<open>for (i = 0; i < cnt; ++i) if (a[i] == x) break;\<close> and
  gives \<open>cnt\<close> when nothing is found.
\<close>

definition erase_at :: "nat \<Rightarrow> 'a list \<Rightarrow> 'a list" where
  "erase_at i xs = take i xs @ drop (Suc i) xs"

fun index_of :: "('a \<Rightarrow> bool) \<Rightarrow> 'a list \<Rightarrow> nat" where
  "index_of P [] = 0"
| "index_of P (x # xs) = (if P x then 0 else Suc (index_of P xs))"

lemma index_of_le: "index_of P xs \<le> length xs"
  by (induction xs) auto

lemma index_of_less_iff: "index_of P xs < length xs \<longleftrightarrow> (\<exists>x \<in> set xs. P x)"
  by (induction xs) auto

lemma index_of_eq_iff: "index_of P xs = length xs \<longleftrightarrow> (\<forall>x \<in> set xs. \<not> P x)"
  using index_of_less_iff [of P xs] index_of_le [of P xs] by (metis less_le)

lemma index_of_holds: "index_of P xs < length xs \<Longrightarrow> P (xs ! index_of P xs)"
  by (induction xs) auto

lemma index_of_before: "i < index_of P xs \<Longrightarrow> \<not> P (xs ! i)"
  by (induction xs arbitrary: i) (auto simp: nth_Cons split: if_splits nat.splits)

lemma length_erase_at: "i < length xs \<Longrightarrow> length (erase_at i xs) = length xs - 1"
  by (simp add: erase_at_def)

lemma set_erase_at:
  assumes "distinct xs" "i < length xs"
  shows "set (erase_at i xs) = set xs - {xs ! i}"
proof -
  have split: "xs = take i xs @ xs ! i # drop (Suc i) xs"
    using assms(2) by (rule id_take_nth_drop)
  with assms(1) have "distinct (take i xs @ xs ! i # drop (Suc i) xs)" by simp
  moreover from split have "set xs = set (take i xs @ xs ! i # drop (Suc i) xs)" by simp
  ultimately show ?thesis by (auto simp: erase_at_def)
qed

lemma distinct_erase_at: "distinct xs \<Longrightarrow> distinct (erase_at i xs)"
  unfolding erase_at_def by (simp add: set_take_disj_set_drop_if_distinct)

section \<open>The state monad\<close>

abbreviation ret :: "'a \<Rightarrow> ('s, 'a) state" where
  "ret \<equiv> State_Monad.return"

definition gets :: "('s \<Rightarrow> 'a) \<Rightarrow> ('s, 'a) state" where
  "gets f = State (\<lambda>s. (f s, s))"

definition modify :: "('s \<Rightarrow> 's) \<Rightarrow> ('s, unit) state" where
  "modify f = State (\<lambda>s. ((), f s))"

definition only_if :: "bool \<Rightarrow> ('s, unit) state \<Rightarrow> ('s, unit) state" where
  "only_if b m = (if b then m else ret ())"

text \<open>A \<open>for\<close> loop over a list of values.\<close>

fun for_each :: "'a list \<Rightarrow> ('a \<Rightarrow> ('s, unit) state) \<Rightarrow> ('s, unit) state" where
  "for_each [] f = ret ()"
| "for_each (x # xs) f = do { f x; for_each xs f }"

abbreviation exec :: "('s, 'a) state \<Rightarrow> 's \<Rightarrow> 's" where
  "exec m s \<equiv> snd (run_state m s)"

abbreviation result :: "('s, 'a) state \<Rightarrow> 's \<Rightarrow> 'a" where
  "result m s \<equiv> fst (run_state m s)"

lemma run_gets [simp, run_simps]: "run_state (gets f) s = (f s, s)"
  by (simp add: gets_def)

lemma run_modify [simp, run_simps]: "run_state (modify f) s = ((), f s)"
  by (simp add: modify_def)

lemma run_if [run_simps]: "run_state (if b then m else n) s = (if b then run_state m s else run_state n s)"
  by simp

lemma run_only_if [simp, run_simps]: "run_state (only_if b m) s = (if b then run_state m s else ((), s))"
  by (simp add: only_if_def)

text \<open>\<open>keeps f m\<close>: the command \<open>m\<close> leaves the view \<open>f\<close> of the state alone.\<close>

definition keeps :: "('s \<Rightarrow> 'v) \<Rightarrow> ('s, 'a) state \<Rightarrow> bool" where
  "keeps f m \<longleftrightarrow> (\<forall>s. f (exec m s) = f s)"

lemma keepsD: "keeps f m \<Longrightarrow> f (exec m s) = f s"
  by (simp add: keeps_def)

lemma keepsI: "(\<And>s. f (exec m s) = f s) \<Longrightarrow> keeps f m"
  by (simp add: keeps_def)

lemma keeps_ret [intro, keeps_intro]: "keeps f (ret x)"
  by (simp add: keeps_def)

lemma keeps_gets [intro, keeps_intro]: "keeps f (gets g)"
  by (simp add: keeps_def)

lemma keeps_modify [keeps_intro]: "(\<And>s. f (g s) = f s) \<Longrightarrow> keeps f (modify g)"
  by (simp add: keeps_def)

lemma keeps_bind [intro, keeps_intro]:
  assumes "keeps f m" "\<And>x. keeps f (n x)"
  shows "keeps f (State_Monad.bind m n)"
  using assms by (auto simp: keeps_def split: prod.splits) (metis snd_conv)

lemma keeps_if [intro, keeps_intro]: "keeps f m \<Longrightarrow> keeps f n \<Longrightarrow> keeps f (if b then m else n)"
  by simp

lemma keeps_only_if [intro, keeps_intro]: "(b \<Longrightarrow> keeps f m) \<Longrightarrow> keeps f (only_if b m)"
  by (auto simp: only_if_def)

lemma keeps_option [intro, keeps_intro]:
  "keeps f m \<Longrightarrow> (\<And>x. keeps f (n x)) \<Longrightarrow> keeps f (case y of None \<Rightarrow> m | Some x \<Rightarrow> n x)"
  by (cases y) auto

lemma keeps_prod [intro, keeps_intro]:
  "(\<And>x z. keeps f (n x z)) \<Longrightarrow> keeps f (case y of (x, z) \<Rightarrow> n x z)"
  by (cases y) auto

lemma keeps_for_each [intro, keeps_intro]: "(\<And>x. keeps f (g x)) \<Longrightarrow> keeps f (for_each xs g)"
  by (induction xs) auto

section \<open>Preservation\<close>

text \<open>\<open>pres I m\<close>: the command \<open>m\<close> preserves the property \<open>I\<close> of the state.\<close>

definition pres :: "('s \<Rightarrow> bool) \<Rightarrow> ('s, 'a) state \<Rightarrow> bool" where
  "pres I m \<longleftrightarrow> (\<forall>s. I s \<longrightarrow> I (exec m s))"

lemma presD: "pres I m \<Longrightarrow> I s \<Longrightarrow> I (exec m s)"
  by (simp add: pres_def)

lemma pres_keeps: "keeps f m \<Longrightarrow> (\<And>s. I s = J (f s)) \<Longrightarrow> pres I m"
  by (simp add: pres_def keeps_def)

lemma pres_ret [pres_intro]: "pres I (ret x)"
  by (simp add: pres_def)

lemma pres_gets [pres_intro]: "pres I (gets f)"
  by (simp add: pres_def)

lemma pres_modify: "(\<And>s. I s \<Longrightarrow> I (f s)) \<Longrightarrow> pres I (modify f)"
  by (simp add: pres_def)

lemma pres_bind_result:
  assumes "pres I m" "\<And>s. I s \<Longrightarrow> Q (result m s)" "\<And>x. Q x \<Longrightarrow> pres I (n x)"
  shows "pres I (State_Monad.bind m n)"
  unfolding pres_def
proof (intro allI impI)
  fix s assume s: "I s"
  obtain x t where m: "run_state m s = (x, t)" by fastforce
  have "I t" "Q x" using presD [OF assms(1) s] assms(2) [OF s] m by simp_all
  then show "I (exec (State_Monad.bind m n) s)" using presD [OF assms(3)] m by simp
qed

lemma pres_bind [pres_intro]: "pres I m \<Longrightarrow> (\<And>x. pres I (n x)) \<Longrightarrow> pres I (State_Monad.bind m n)"
  by (rule pres_bind_result [where Q = "\<lambda>_. True"]) simp_all

lemma pres_if [pres_intro]: "(b \<Longrightarrow> pres I m) \<Longrightarrow> (\<not> b \<Longrightarrow> pres I n) \<Longrightarrow> pres I (if b then m else n)"
  by simp

lemma pres_only_if [pres_intro]: "(b \<Longrightarrow> pres I m) \<Longrightarrow> pres I (only_if b m)"
  by (simp add: only_if_def pres_ret)

lemma pres_option [pres_intro]:
  "(y = None \<Longrightarrow> pres I m) \<Longrightarrow> (\<And>x. y = Some x \<Longrightarrow> pres I (n x)) \<Longrightarrow>
   pres I (case y of None \<Rightarrow> m | Some x \<Rightarrow> n x)"
  by (cases y) auto

lemma pres_prod [pres_intro]: "(\<And>x z. y = (x, z) \<Longrightarrow> pres I (n x z)) \<Longrightarrow> pres I (case y of (x, z) \<Rightarrow> n x z)"
  by (cases y) auto

lemma pres_for_each [pres_intro]: "(\<And>x. pres I (f x)) \<Longrightarrow> pres I (for_each xs f)"
  by (induction xs) (auto intro: pres_intro)

section \<open>Commands that lead from one property to another\<close>

definition leads :: "('s \<Rightarrow> bool) \<Rightarrow> ('s, 'a) state \<Rightarrow> ('a \<Rightarrow> 's \<Rightarrow> bool) \<Rightarrow> bool" where
  "leads P m Q \<longleftrightarrow> (\<forall>s. P s \<longrightarrow> Q (result m s) (exec m s))"

lemma leadsD: "leads P m Q \<Longrightarrow> P s \<Longrightarrow> Q (result m s) (exec m s)"
  by (simp add: leads_def)

lemma leads_bind: "leads P m R \<Longrightarrow> (\<And>x. leads (R x) (n x) Q) \<Longrightarrow> leads P (State_Monad.bind m n) Q"
  by (simp add: leads_def split_beta)

lemma leads_ret: "(\<And>s. P s \<Longrightarrow> Q x s) \<Longrightarrow> leads P (ret x) Q"
  by (simp add: leads_def)

lemma leads_if: "(b \<Longrightarrow> leads P m Q) \<Longrightarrow> (\<not> b \<Longrightarrow> leads P n Q) \<Longrightarrow> leads P (if b then m else n) Q"
  by simp

lemma leads_only_if: "(b \<Longrightarrow> leads P m Q) \<Longrightarrow> (\<And>s. \<not> b \<Longrightarrow> P s \<Longrightarrow> Q () s) \<Longrightarrow> leads P (only_if b m) Q"
  by (cases b) (simp_all add: leads_def)

lemma leads_prod: "(\<And>x y. leads P (n x y) Q) \<Longrightarrow> leads P (case z of (x, y) \<Rightarrow> n x y) Q"
  by (cases z) simp

lemma leads_pres: "pres P m \<Longrightarrow> leads P m (\<lambda>_. P)"
  by (simp add: leads_def pres_def)

lemma leads_pre: "leads R m Q \<Longrightarrow> (\<And>s. P s \<Longrightarrow> R s) \<Longrightarrow> leads P m Q"
  by (simp add: leads_def)

lemma leads_post: "leads P m R \<Longrightarrow> (\<And>x s. R x s \<Longrightarrow> Q x s) \<Longrightarrow> leads P m Q"
  by (simp add: leads_def)

lemma leads_then: "pres P m \<Longrightarrow> (\<And>x. leads P (n x) Q) \<Longrightarrow> leads P (State_Monad.bind m n) Q"
  by (rule leads_bind [OF leads_pres])

lemma leads_gets: "(\<And>x. leads P (n x) Q) \<Longrightarrow> leads P (State_Monad.bind (gets f) n) Q"
  by (simp add: leads_def)

lemma leads_skip: "(\<And>x. leads (\<lambda>_. True) (n x) Q) \<Longrightarrow> leads P (State_Monad.bind m n) Q"
  by (simp add: leads_def split_beta)

lemma leads_option: "(y = None \<Longrightarrow> leads P m Q) \<Longrightarrow> (\<And>x. y = Some x \<Longrightarrow> leads P (n x) Q) \<Longrightarrow>
    leads P (case y of None \<Rightarrow> m | Some x \<Rightarrow> n x) Q"
  by (cases y) auto

lemma leads_conj: "leads P m Q \<Longrightarrow> leads P m R \<Longrightarrow> leads P m (\<lambda>r s. Q r s \<and> R r s)"
  by (simp add: leads_def)

lemma pres_conj: "pres I m \<Longrightarrow> pres J m \<Longrightarrow> pres (\<lambda>s. I s \<and> J s) m"
  by (simp add: pres_def)

end
