(* ===== verification/Conf_Bridge.thy ===== *)
theory Conf_Bridge
  imports Prelude
begin

text \<open>
  The conference bridge of PJMEDIA (engine_pjsip/pjproject/pjmedia/src/pjmedia/conference.c):
  the table of ports and the connections between them, which is what PacketDial switches when it
  connects, mutes, merges and records calls. Modelled: the port table, creation of ports,
  adding and removing ports, connecting and disconnecting them, their level adjustments and
  enumeration. The mixing of audio frames is not modelled here.

  Counters are 32-bit unsigned as in the code. A port's \<open>listener_slots\<close> is the live prefix of the
  C array (its length is \<open>listener_cnt\<close>). The mutex is not modelled: each operation is one step.
  The contract is \<open>conf_ok\<close>; the abstract view of a bridge is the set of its occupied slots and the
  set of its connections, \<open>nodes\<close> and \<open>edges\<close>.
\<close>

section \<open>State\<close>

datatype port_op = PORT_NO_CHANGE | PORT_DISABLE | PORT_MUTE | PORT_ENABLE

text \<open>What the bridge reads of a \<^verbatim>\<open>pjmedia_port\<close>: its identity, name and audio format.\<close>

record media_port =
  mp_id :: nat
  mp_name :: string
  mp_clock_rate :: nat
  mp_samples_per_frame :: nat
  mp_channel_count :: nat

abbreviation NORMAL_LEVEL :: int where "NORMAL_LEVEL \<equiv> 128"

record conf_port =
  cp_name :: string
  cp_port :: "media_port option"
  rx_setting :: port_op
  tx_setting :: port_op
  listener_slots :: "nat list"
  listener_adj_level :: "int list"
  transmitter_cnt :: u32
  cp_clock_rate :: nat
  cp_samples_per_frame :: nat
  cp_channel_count :: nat
  tx_adj_level :: int
  rx_adj_level :: int
  rx_resample :: bool
  tx_resample :: bool
  rx_buf_cap :: nat
  tx_buf_cap :: nat
  last_mix_adj :: int
  delay_buf :: bool

record pjmedia_conf =
  max_ports :: nat
  port_cnt :: u32
  connect_cnt :: u32
  ports :: "conf_port option list"
  conf_clock_rate :: nat
  conf_channel_count :: nat
  conf_samples_per_frame :: nat
  conf_bits_per_sample :: nat

section \<open>Creating ports\<close>

text \<open>
  The buffer size of a port whose format differs from the bridge's. \<open>div\<close> is C's unsigned
  division; the rates in use keep the products far below the 32-bit range.
\<close>

definition port_buf_cap :: "pjmedia_conf \<Rightarrow> nat \<Rightarrow> nat \<Rightarrow> nat \<Rightarrow> nat" where
  "port_buf_cap conf rate spf cc =
     (let port_ptime = spf div cc * 1000 div rate;
          conf_ptime = conf_samples_per_frame conf div conf_channel_count conf * 1000
                       div conf_clock_rate conf;
          buff_ptime = (if port_ptime > conf_ptime
                        then port_ptime + (if port_ptime mod conf_ptime \<noteq> 0 then conf_ptime else 0)
                        else conf_ptime + (if conf_ptime mod port_ptime \<noteq> 0 then port_ptime else 0));
          cap = rate * buff_ptime div 1000
      in cap * (if cc > conf_channel_count conf then cc else conf_channel_count conf))"

text \<open>
  \<open>rs rate_in rate_out\<close> is the status of creating a resampler (\<^verbatim>\<open>pjmedia_resample_create\<close>).
  The result is the status of the failure or the new port.
\<close>

definition create_conf_port ::
  "(nat \<Rightarrow> nat \<Rightarrow> pj_status) \<Rightarrow> pjmedia_conf \<Rightarrow> media_port option \<Rightarrow> string
   \<Rightarrow> pj_status + conf_port" where
  "create_conf_port rs conf port name =
     (let rate = (case port of Some p \<Rightarrow> mp_clock_rate p | None \<Rightarrow> conf_clock_rate conf);
          spf = (case port of Some p \<Rightarrow> mp_samples_per_frame p | None \<Rightarrow> conf_samples_per_frame conf);
          cc = (case port of Some p \<Rightarrow> mp_channel_count p | None \<Rightarrow> conf_channel_count conf);
          resample = (rate \<noteq> conf_clock_rate conf);
          rx_status = (if resample then rs rate (conf_clock_rate conf) else PJ_SUCCESS);
          tx_status = (if resample then rs (conf_clock_rate conf) rate else PJ_SUCCESS);
          cap = (if rate \<noteq> conf_clock_rate conf \<or> cc \<noteq> conf_channel_count conf
                    \<or> spf \<noteq> conf_samples_per_frame conf
                 then port_buf_cap conf rate spf cc else 0)
      in if rx_status \<noteq> PJ_SUCCESS then Inl rx_status
         else if tx_status \<noteq> PJ_SUCCESS then Inl tx_status
         else Inr \<lparr>cp_name = name, cp_port = port,
                   rx_setting = PORT_ENABLE, tx_setting = PORT_ENABLE,
                   listener_slots = [], listener_adj_level = [], transmitter_cnt = 0,
                   cp_clock_rate = rate, cp_samples_per_frame = spf, cp_channel_count = cc,
                   tx_adj_level = NORMAL_LEVEL, rx_adj_level = NORMAL_LEVEL,
                   rx_resample = resample, tx_resample = resample,
                   rx_buf_cap = cap, tx_buf_cap = cap,
                   last_mix_adj = NORMAL_LEVEL, delay_buf = False\<rparr>)"

text \<open>
  Port zero, the sound device's port: a passive port with a delay buffer. \<open>db\<close> is the status of
  creating the delay buffer (\<^verbatim>\<open>pjmedia_delay_buf_create\<close>).
\<close>

definition create_pasv_port ::
  "(nat \<Rightarrow> nat \<Rightarrow> pj_status) \<Rightarrow> pj_status \<Rightarrow> pjmedia_conf \<Rightarrow> string \<Rightarrow> media_port option
   \<Rightarrow> pj_status + conf_port" where
  "create_pasv_port rs db conf name port =
     (case create_conf_port rs conf port name of
        Inl st \<Rightarrow> Inl st
      | Inr cp \<Rightarrow> if db \<noteq> PJ_SUCCESS then Inl db else Inr (cp\<lparr>delay_buf := True\<rparr>))"

text \<open>
  \<^verbatim>\<open>pjmedia_conf_create\<close> as pjsua calls it, with \<^verbatim>\<open>PJMEDIA_CONF_NO_DEVICE\<close>: the bridge itself opens no
  sound device. \<open>mx\<close> is the status of creating the mutex.
\<close>

definition pjmedia_conf_create ::
  "(nat \<Rightarrow> nat \<Rightarrow> pj_status) \<Rightarrow> pj_status \<Rightarrow> pj_status \<Rightarrow> nat \<Rightarrow> nat \<Rightarrow> nat \<Rightarrow> nat \<Rightarrow> nat
   \<Rightarrow> pj_status + pjmedia_conf" where
  "pjmedia_conf_create rs db mx mp rate cc spf bits =
     (if \<not> 0 < spf then Inl PJ_EINVAL
      else if bits \<noteq> 16 then Inl PJ_EINVAL
      else let conf = \<lparr>max_ports = mp, port_cnt = 0, connect_cnt = 0, ports = replicate mp None,
                       conf_clock_rate = rate, conf_channel_count = cc,
                       conf_samples_per_frame = spf, conf_bits_per_sample = bits\<rparr>
           in case create_pasv_port rs db conf ''Master/sound'' None of
                Inl st \<Rightarrow> Inl st
              | Inr cp \<Rightarrow>
                  if mx \<noteq> PJ_SUCCESS then Inl mx
                  else Inr (conf\<lparr>ports := (ports conf)[0 := Some cp],
                                 port_cnt := port_cnt conf + 1\<rparr>))"

section \<open>Operations\<close>

text \<open>
  \<^verbatim>\<open>conf->ports[i]->field = ...\<close>. Reads and writes of the pointed-to port go through the table, so a
  port that is both source and sink is updated once per assignment, as in the code.
\<close>

definition upd_port :: "nat \<Rightarrow> (conf_port \<Rightarrow> conf_port) \<Rightarrow> pjmedia_conf \<Rightarrow> pjmedia_conf" where
  "upd_port i f c = c\<lparr>ports := (ports c)[i := map_option f (ports c ! i)]\<rparr>"

definition pjmedia_conf_add_port ::
  "(nat \<Rightarrow> nat \<Rightarrow> pj_status) \<Rightarrow> pjmedia_conf \<Rightarrow> media_port \<Rightarrow> string option
   \<Rightarrow> (pj_status \<times> nat) \<times> pjmedia_conf" where
  "pjmedia_conf_add_port rs c strm_port port_name =
     (let name = (case port_name of None \<Rightarrow> mp_name strm_port | Some n \<Rightarrow> n)
      in if mp_channel_count strm_port \<noteq> conf_channel_count c
            \<and> (mp_channel_count strm_port \<noteq> 1 \<and> conf_channel_count c \<noteq> 1)
         then ((PJMEDIA_ENCCHANNEL, 0), c)
         else if unat (port_cnt c) \<ge> max_ports c then ((PJ_ETOOMANY, 0), c)
         else let index = index_of (\<lambda>p. p = None) (ports c)
              in case create_conf_port rs c (Some strm_port) name of
                   Inl st \<Rightarrow> ((st, 0), c)
                 | Inr cp \<Rightarrow> ((PJ_SUCCESS, index),
                             c\<lparr>ports := (ports c)[index := Some cp], port_cnt := port_cnt c + 1\<rparr>))"

definition pjmedia_conf_configure_port ::
  "pjmedia_conf \<Rightarrow> nat \<Rightarrow> port_op \<Rightarrow> port_op \<Rightarrow> pj_status \<times> pjmedia_conf" where
  "pjmedia_conf_configure_port c slot tx rx =
     (if \<not> slot < max_ports c then (PJ_EINVAL, c)
      else case ports c ! slot of
             None \<Rightarrow> (PJ_EINVAL, c)
           | Some _ \<Rightarrow>
               (let c1 = (if tx \<noteq> PORT_NO_CHANGE
                          then upd_port slot (\<lambda>p. p\<lparr>tx_setting := tx\<rparr>) c else c);
                    c2 = (if rx \<noteq> PORT_NO_CHANGE
                          then upd_port slot (\<lambda>p. p\<lparr>rx_setting := rx\<rparr>) c1 else c1)
                in (PJ_SUCCESS, c2)))"

definition pjmedia_conf_connect_port ::
  "pjmedia_conf \<Rightarrow> nat \<Rightarrow> nat \<Rightarrow> int \<Rightarrow> pj_status \<times> pjmedia_conf" where
  "pjmedia_conf_connect_port c src_slot sink_slot adj_level =
     (if \<not> (src_slot < max_ports c \<and> sink_slot < max_ports c) then (PJ_EINVAL, c)
      else if \<not> adj_level \<ge> -128 then (PJ_EINVAL, c)
      else case (ports c ! src_slot, ports c ! sink_slot) of
             (Some src_port, Some dst_port) \<Rightarrow>
               (let i = index_of (\<lambda>x. x = sink_slot) (listener_slots src_port)
                in if i = length (listener_slots src_port)
                   then let c1 = upd_port src_slot
                                   (\<lambda>p. p\<lparr>listener_slots := listener_slots p @ [sink_slot],
                                          listener_adj_level :=
                                            listener_adj_level p @ [adj_level + NORMAL_LEVEL]\<rparr>) c;
                            c2 = c1\<lparr>connect_cnt := connect_cnt c1 + 1\<rparr>;
                            c3 = upd_port sink_slot
                                   (\<lambda>p. p\<lparr>transmitter_cnt := transmitter_cnt p + 1\<rparr>) c2
                        in (PJ_SUCCESS, c3)
                   else (PJ_SUCCESS, c))
           | _ \<Rightarrow> (PJ_EINVAL, c))"

definition pjmedia_conf_disconnect_port ::
  "pjmedia_conf \<Rightarrow> nat \<Rightarrow> nat \<Rightarrow> pj_status \<times> pjmedia_conf" where
  "pjmedia_conf_disconnect_port c src_slot sink_slot =
     (if \<not> (src_slot < max_ports c \<and> sink_slot < max_ports c) then (PJ_EINVAL, c)
      else case (ports c ! src_slot, ports c ! sink_slot) of
             (Some src_port, Some dst_port) \<Rightarrow>
               (let i = index_of (\<lambda>x. x = sink_slot) (listener_slots src_port)
                in if i \<noteq> length (listener_slots src_port)
                   then let c1 = upd_port src_slot
                                   (\<lambda>p. p\<lparr>listener_slots := erase_at i (listener_slots p),
                                          listener_adj_level := erase_at i (listener_adj_level p)\<rparr>) c;
                            c2 = c1\<lparr>connect_cnt := connect_cnt c1 - 1\<rparr>;
                            c3 = upd_port sink_slot
                                   (\<lambda>p. p\<lparr>transmitter_cnt := transmitter_cnt p - 1\<rparr>) c2
                        in (PJ_SUCCESS, c3)
                   else (PJ_SUCCESS, c))
           | _ \<Rightarrow> (PJ_EINVAL, c))"

text \<open>One round of the loop over source ports: drop \<open>sink_slot\<close> from the listeners of port \<open>i\<close>.\<close>

definition drop_listener :: "nat \<Rightarrow> nat \<Rightarrow> pjmedia_conf \<Rightarrow> pjmedia_conf" where
  "drop_listener sink_slot i c =
     (case ports c ! i of
        None \<Rightarrow> c
      | Some src_port \<Rightarrow>
          (let j = index_of (\<lambda>x. x = sink_slot) (listener_slots src_port)
           in if j < length (listener_slots src_port)
              then let c1 = upd_port i
                              (\<lambda>p. p\<lparr>listener_slots := erase_at j (listener_slots p),
                                     listener_adj_level := erase_at j (listener_adj_level p)\<rparr>) c
                   in c1\<lparr>connect_cnt := connect_cnt c1 - 1\<rparr>
              else c))"

definition pjmedia_conf_disconnect_port_from_sources ::
  "pjmedia_conf \<Rightarrow> nat \<Rightarrow> pj_status \<times> pjmedia_conf" where
  "pjmedia_conf_disconnect_port_from_sources c sink_slot =
     (if \<not> sink_slot < max_ports c then (PJ_EINVAL, c)
      else (PJ_SUCCESS, fold (drop_listener sink_slot) [0..<max_ports c] c))"

text \<open>
  The loop \<open>while (src_port->listener_cnt)\<close>: its argument is \<open>listener_cnt\<close>, which goes down by
  one in every round.
\<close>

fun drop_sinks :: "nat \<Rightarrow> nat \<Rightarrow> pjmedia_conf \<Rightarrow> pjmedia_conf" where
  "drop_sinks src_slot 0 c = c"
| "drop_sinks src_slot (Suc n) c =
     (case ports c ! src_slot of
        None \<Rightarrow> c
      | Some src_port \<Rightarrow>
          (let dst_slot = listener_slots src_port ! n;
               c1 = upd_port dst_slot (\<lambda>p. p\<lparr>transmitter_cnt := transmitter_cnt p - 1\<rparr>) c;
               c2 = upd_port src_slot
                      (\<lambda>p. p\<lparr>listener_slots := take n (listener_slots p),
                             listener_adj_level := take n (listener_adj_level p)\<rparr>) c1;
               c3 = c2\<lparr>connect_cnt := connect_cnt c2 - 1\<rparr>
           in drop_sinks src_slot n c3))"

definition pjmedia_conf_disconnect_port_from_sinks ::
  "pjmedia_conf \<Rightarrow> nat \<Rightarrow> pj_status \<times> pjmedia_conf" where
  "pjmedia_conf_disconnect_port_from_sinks c src_slot =
     (if \<not> src_slot < max_ports c then (PJ_EINVAL, c)
      else case ports c ! src_slot of
             None \<Rightarrow> (PJ_EINVAL, c)
           | Some src_port \<Rightarrow>
               (PJ_SUCCESS, drop_sinks src_slot (length (listener_slots src_port)) c))"

definition pjmedia_conf_get_port_count :: "pjmedia_conf \<Rightarrow> u32" where
  "pjmedia_conf_get_port_count c = port_cnt c"

definition pjmedia_conf_get_connect_count :: "pjmedia_conf \<Rightarrow> u32" where
  "pjmedia_conf_get_connect_count c = connect_cnt c"

text \<open>
  Removing a port. The fields of the removed port that the code clears first (its settings, its
  resamplers, its delay buffer) are written as in the code, although the port is dropped last.
\<close>

definition pjmedia_conf_remove_port :: "pjmedia_conf \<Rightarrow> nat \<Rightarrow> pj_status \<times> pjmedia_conf" where
  "pjmedia_conf_remove_port c port =
     (if \<not> port < max_ports c then (PJ_EINVAL, c)
      else case ports c ! port of
             None \<Rightarrow> (PJ_EINVAL, c)
           | Some _ \<Rightarrow>
               (let c1 = upd_port port
                           (\<lambda>p. p\<lparr>tx_setting := PORT_DISABLE, rx_setting := PORT_DISABLE\<rparr>) c;
                    c2 = snd (pjmedia_conf_disconnect_port_from_sources c1 port);
                    c3 = snd (pjmedia_conf_disconnect_port_from_sinks c2 port);
                    c4 = upd_port port (\<lambda>p. p\<lparr>rx_resample := False, tx_resample := False\<rparr>) c3;
                    c5 = upd_port port
                           (\<lambda>p. if delay_buf p then p\<lparr>delay_buf := False, cp_port := None\<rparr> else p) c4
                in (PJ_SUCCESS, c5\<lparr>ports := (ports c5)[port := None], port_cnt := port_cnt c5 - 1\<rparr>)))"

text \<open>The loop of \<^verbatim>\<open>pjmedia_conf_enum_ports\<close>: the occupied slots from \<open>i\<close> on, at most \<open>room\<close> of them.\<close>

fun enum_loop :: "('a option) list \<Rightarrow> nat \<Rightarrow> nat \<Rightarrow> nat list" where
  "enum_loop [] i room = []"
| "enum_loop (p # ps) i room =
     (if room = 0 then []
      else case p of None \<Rightarrow> enum_loop ps (Suc i) room
                   | Some _ \<Rightarrow> i # enum_loop ps (Suc i) (room - 1))"

definition pjmedia_conf_enum_ports :: "pjmedia_conf \<Rightarrow> nat \<Rightarrow> nat list" where
  "pjmedia_conf_enum_ports c count = enum_loop (ports c) 0 count"

record conf_port_info =
  ci_slot :: nat
  ci_name :: string
  ci_tx_setting :: port_op
  ci_rx_setting :: port_op
  ci_format :: "media_port option"
  ci_clock_rate :: nat
  ci_channel_count :: nat
  ci_samples_per_frame :: nat
  ci_bits_per_sample :: nat
  ci_listeners :: "nat list"
  ci_transmitter_cnt :: u32
  ci_tx_adj_level :: int
  ci_rx_adj_level :: int

definition pjmedia_conf_get_port_info :: "pjmedia_conf \<Rightarrow> nat \<Rightarrow> conf_port_info option" where
  "pjmedia_conf_get_port_info c slot =
     (if \<not> slot < max_ports c then None
      else case ports c ! slot of
             None \<Rightarrow> None
           | Some p \<Rightarrow>
               Some \<lparr>ci_slot = slot, ci_name = cp_name p,
                     ci_tx_setting = tx_setting p, ci_rx_setting = rx_setting p,
                     ci_format = cp_port p, ci_clock_rate = cp_clock_rate p,
                     ci_channel_count = cp_channel_count p,
                     ci_samples_per_frame = cp_samples_per_frame p,
                     ci_bits_per_sample = conf_bits_per_sample c,
                     ci_listeners = listener_slots p, ci_transmitter_cnt = transmitter_cnt p,
                     ci_tx_adj_level = tx_adj_level p - NORMAL_LEVEL,
                     ci_rx_adj_level = rx_adj_level p - NORMAL_LEVEL\<rparr>)"

definition pjmedia_conf_adjust_rx_level :: "pjmedia_conf \<Rightarrow> nat \<Rightarrow> int \<Rightarrow> pj_status \<times> pjmedia_conf" where
  "pjmedia_conf_adjust_rx_level c slot adj_level =
     (if \<not> slot < max_ports c then (PJ_EINVAL, c)
      else if \<not> adj_level \<ge> -128 then (PJ_EINVAL, c)
      else case ports c ! slot of
             None \<Rightarrow> (PJ_EINVAL, c)
           | Some _ \<Rightarrow>
               (PJ_SUCCESS, upd_port slot (\<lambda>p. p\<lparr>rx_adj_level := adj_level + NORMAL_LEVEL\<rparr>) c))"

definition pjmedia_conf_adjust_tx_level :: "pjmedia_conf \<Rightarrow> nat \<Rightarrow> int \<Rightarrow> pj_status \<times> pjmedia_conf" where
  "pjmedia_conf_adjust_tx_level c slot adj_level =
     (if \<not> slot < max_ports c then (PJ_EINVAL, c)
      else if \<not> adj_level \<ge> -128 then (PJ_EINVAL, c)
      else case ports c ! slot of
             None \<Rightarrow> (PJ_EINVAL, c)
           | Some _ \<Rightarrow>
               (PJ_SUCCESS, upd_port slot (\<lambda>p. p\<lparr>tx_adj_level := adj_level + NORMAL_LEVEL\<rparr>) c))"

definition pjmedia_conf_adjust_conn_level ::
  "pjmedia_conf \<Rightarrow> nat \<Rightarrow> nat \<Rightarrow> int \<Rightarrow> pj_status \<times> pjmedia_conf" where
  "pjmedia_conf_adjust_conn_level c src_slot sink_slot adj_level =
     (if \<not> (src_slot < max_ports c \<and> sink_slot < max_ports c) then (PJ_EINVAL, c)
      else if \<not> adj_level \<ge> -128 then (PJ_EINVAL, c)
      else case (ports c ! src_slot, ports c ! sink_slot) of
             (Some src_port, Some _) \<Rightarrow>
               (let i = index_of (\<lambda>x. x = sink_slot) (listener_slots src_port)
                in if i = length (listener_slots src_port) then (PJ_EINVAL, c)
                   else (PJ_SUCCESS,
                         upd_port src_slot
                           (\<lambda>p. p\<lparr>listener_adj_level :=
                                    (listener_adj_level p)[i := adj_level + NORMAL_LEVEL]\<rparr>) c))
           | _ \<Rightarrow> (PJ_EINVAL, c))"

end
