(* ===== verification/Conf_Laws.thy ===== *)
theory Conf_Laws
  imports Conf_Bridge
begin

text \<open>
  The contract of the conference bridge. The abstract view of a bridge is its set of occupied
  slots (\<open>nodes\<close>) and its set of directed connections (\<open>edges\<close>); \<open>conf_ok\<close> says that the
  table and the three kinds of counters agree with that view. Each operation preserves
  \<open>conf_ok\<close> and is, on the abstract view, an operation on a directed graph.
\<close>

section \<open>The abstract view\<close>

definition port_at :: "pjmedia_conf \<Rightarrow> nat \<Rightarrow> conf_port option" where
  "port_at c i = (if i < max_ports c then ports c ! i else None)"

definition listeners :: "pjmedia_conf \<Rightarrow> nat \<Rightarrow> nat list" where
  "listeners c i = (case port_at c i of None \<Rightarrow> [] | Some p \<Rightarrow> listener_slots p)"

definition transmitters :: "pjmedia_conf \<Rightarrow> nat \<Rightarrow> u32" where
  "transmitters c i = (case port_at c i of None \<Rightarrow> 0 | Some p \<Rightarrow> transmitter_cnt p)"

definition connected :: "pjmedia_conf \<Rightarrow> nat \<Rightarrow> nat \<Rightarrow> bool" where
  "connected c i j \<longleftrightarrow> j \<in> set (listeners c i)"

definition nodes :: "pjmedia_conf \<Rightarrow> nat set" where
  "nodes c = {i. port_at c i \<noteq> None}"

definition edges :: "pjmedia_conf \<Rightarrow> (nat \<times> nat) set" where
  "edges c = {(i, j). j \<in> set (listeners c i)}"

text \<open>
  \<open>conf_inv X\<close> is the invariant with the transmitter counters of the slots in \<open>X\<close> left open,
  which is what holds in the middle of removing a port.
\<close>

definition conf_inv :: "nat set \<Rightarrow> pjmedia_conf \<Rightarrow> bool" where
  "conf_inv X c \<longleftrightarrow>
     length (ports c) = max_ports c \<and> max_ports c < 2 ^ 16 \<and>
     port_cnt c = of_nat (card (nodes c)) \<and>
     connect_cnt c = of_nat (card (edges c)) \<and>
     edges c \<subseteq> nodes c \<times> nodes c \<and>
     (\<forall>i p. port_at c i = Some p \<longrightarrow>
        distinct (listener_slots p) \<and> length (listener_adj_level p) = length (listener_slots p)) \<and>
     (\<forall>i \<in> nodes c - X. transmitters c i = of_nat (card {k. (k, i) \<in> edges c}))"

abbreviation conf_ok :: "pjmedia_conf \<Rightarrow> bool" where
  "conf_ok \<equiv> conf_inv {}"

lemma edges_iff: "(i, j) \<in> edges c \<longleftrightarrow> j \<in> set (listeners c i)"
  by (simp add: edges_def)

lemma connected_edges: "connected c i j \<longleftrightarrow> (i, j) \<in> edges c"
  by (simp add: connected_def edges_def)

lemma nodes_less: "i \<in> nodes c \<Longrightarrow> i < max_ports c"
  by (auto simp: nodes_def port_at_def split: if_splits)

lemma finite_nodes: "finite (nodes c)"
  by (rule finite_subset [of _ "{..<max_ports c}"]) (auto dest: nodes_less)

lemma card_nodes_le: "card (nodes c) \<le> max_ports c"
  using card_mono [of "{..<max_ports c}" "nodes c"] nodes_less by auto

lemma finite_edges: "edges c \<subseteq> nodes c \<times> nodes c \<Longrightarrow> finite (edges c)"
  by (rule finite_subset [OF _ finite_cartesian_product [OF finite_nodes finite_nodes]])

lemma finite_preds: "edges c \<subseteq> nodes c \<times> nodes c \<Longrightarrow> finite {k. (k, i) \<in> edges c}"
  by (rule finite_subset [OF _ finite_nodes [of c]]) auto

lemma conf_inv_mono: "conf_inv X c \<Longrightarrow> X \<subseteq> Y \<Longrightarrow> conf_inv Y c"
  by (auto simp: conf_inv_def)

lemma conf_inv_finite_edges: "conf_inv X c \<Longrightarrow> finite (edges c)"
  by (simp add: conf_inv_def finite_edges)

lemma conf_inv_edge_nodes: "conf_inv X c \<Longrightarrow> (i, j) \<in> edges c \<Longrightarrow> i \<in> nodes c \<and> j \<in> nodes c"
  by (auto simp: conf_inv_def)

lemma conf_inv_length: "conf_inv X c \<Longrightarrow> length (ports c) = max_ports c"
  by (simp add: conf_inv_def)

text \<open>The counters do not wrap: a bridge has fewer than \<open>2 ^ 16\<close> slots.\<close>

lemma conf_ok_connect_cnt:
  assumes "conf_inv X c"
  shows "unat (connect_cnt c) = card (edges c)"
proof -
  have sub: "edges c \<subseteq> {..<max_ports c} \<times> {..<max_ports c}"
    using assms nodes_less by (fastforce simp: conf_inv_def)
  have "card (edges c) \<le> max_ports c * max_ports c"
    using card_mono [OF _ sub] by simp
  also have "\<dots> < 2 ^ 16 * 2 ^ 16"
    using assms by (intro mult_strict_mono) (auto simp: conf_inv_def)
  finally have "card (edges c) < 2 ^ LENGTH(32)" by simp
  with assms show ?thesis by (simp add: conf_inv_def unat_of_nat take_bit_nat_eq_self)
qed

lemma conf_ok_port_cnt:
  assumes "conf_inv X c"
  shows "unat (port_cnt c) = card (nodes c)"
proof -
  have "card (nodes c) < 2 ^ LENGTH(32)"
    using card_nodes_le [of c] assms by (simp add: conf_inv_def)
  with assms show ?thesis by (simp add: conf_inv_def unat_of_nat take_bit_nat_eq_self)
qed

section \<open>Updating one port\<close>

lemma max_ports_upd_port [simp]: "max_ports (upd_port i f c) = max_ports c"
  and port_cnt_upd_port [simp]: "port_cnt (upd_port i f c) = port_cnt c"
  and connect_cnt_upd_port [simp]: "connect_cnt (upd_port i f c) = connect_cnt c"
  and length_ports_upd_port [simp]: "length (ports (upd_port i f c)) = length (ports c)"
  by (simp_all add: upd_port_def)

lemma port_at_upd_port:
  "length (ports c) = max_ports c \<Longrightarrow>
   port_at (upd_port i f c) j = (if j = i then map_option f (port_at c i) else port_at c j)"
  by (auto simp: port_at_def upd_port_def nth_list_update)

lemma port_at_connect_cnt [simp]: "port_at (c\<lparr>connect_cnt := n\<rparr>) = port_at c"
  by (simp add: port_at_def fun_eq_iff)

lemma nodes_upd_port [simp]: "length (ports c) = max_ports c \<Longrightarrow> nodes (upd_port i f c) = nodes c"
  by (auto simp: nodes_def port_at_upd_port)

lemma nodes_connect_cnt [simp]: "nodes (c\<lparr>connect_cnt := n\<rparr>) = nodes c"
  by (simp add: nodes_def)

lemma port_at_Some_nth: "i < max_ports c \<Longrightarrow> port_at c i = ports c ! i"
  by (simp add: port_at_def)

text \<open>An update that does not touch listeners or transmitter counters changes nothing abstract.\<close>

lemma neutral_upd_port:
  assumes inv: "conf_inv X c"
    and f: "\<And>p. listener_slots (f p) = listener_slots p"
      "\<And>p. length (listener_adj_level (f p)) = length (listener_adj_level p)"
      "\<And>p. transmitter_cnt (f p) = transmitter_cnt p"
  shows "conf_inv X (upd_port i f c)" "edges (upd_port i f c) = edges c"
proof -
  have len: "length (ports c) = max_ports c" using inv by (rule conf_inv_length)
  have l: "listeners (upd_port i f c) = listeners c"
    by (auto simp: listeners_def fun_eq_iff port_at_upd_port [OF len] f split: option.splits)
  have t: "transmitters (upd_port i f c) = transmitters c"
    by (auto simp: transmitters_def fun_eq_iff port_at_upd_port [OF len] f split: option.splits)
  show e: "edges (upd_port i f c) = edges c" by (simp add: edges_def l)
  show "conf_inv X (upd_port i f c)"
    using inv len by (auto simp: conf_inv_def e t port_at_upd_port f)
qed

section \<open>Adding and dropping a connection\<close>

text \<open>What an update has to do to the concrete fields to add one edge, or to drop one.\<close>

lemma add_edge:
  assumes inv: "conf_inv X c" and ab: "a \<in> nodes c" "b \<in> nodes c" "(a, b) \<notin> edges c"
    and frame: "length (ports c') = max_ports c'" "max_ports c' = max_ports c" "nodes c' = nodes c"
      "port_cnt c' = port_cnt c"
    and cnt: "connect_cnt c' = connect_cnt c + 1"
    and adj: "\<And>i p. port_at c' i = Some p \<Longrightarrow> length (listener_adj_level p) = length (listener_slots p)"
    and l: "\<And>i. listeners c' i = (if i = a then listeners c a @ [b] else listeners c i)"
    and t: "\<And>i. i \<in> nodes c - X \<Longrightarrow> transmitters c' i = (if i = b then transmitters c b + 1 else transmitters c i)"
  shows "conf_inv X c' \<and> edges c' = insert (a, b) (edges c)"
proof -
  have e: "edges c' = insert (a, b) (edges c)" by (auto simp: edges_def l split: if_splits)
  have fin: "finite (edges c)" using inv by (rule conf_inv_finite_edges)
  have dist: "distinct (listeners c' i)" for i
  proof -
    have "distinct (listeners c j)" for j
      using inv by (auto simp: listeners_def conf_inv_def split: option.splits)
    then show ?thesis using ab(3) by (simp add: l edges_def)
  qed
  then have dist': "distinct (listener_slots p)" if "port_at c' i = Some p" for i p
    using that by (metis listeners_def option.simps(5))
  have tr: "transmitters c' i = of_nat (card {k. (k, i) \<in> edges c'})" if "i \<in> nodes c - X" for i
  proof -
    have old: "transmitters c i = of_nat (card {k. (k, i) \<in> edges c})"
      using inv that by (simp add: conf_inv_def)
    have "{k. (k, i) \<in> edges c'} = (if i = b then insert a {k. (k, i) \<in> edges c} else {k. (k, i) \<in> edges c})"
      by (auto simp: e)
    moreover have "finite {k. (k, b) \<in> edges c}" using inv by (simp add: conf_inv_def finite_preds)
    ultimately show ?thesis
      using ab(3) t [OF that] old by (cases "i = b") simp_all
  qed
  have "conf_inv X c'"
    unfolding conf_inv_def
    using inv ab frame cnt e fin tr dist' adj
    by (auto simp: conf_inv_def)
  with e show ?thesis by simp
qed

lemma drop_edge:
  assumes inv: "conf_inv X c" and ab: "(a, b) \<in> edges c"
    and frame: "length (ports c') = max_ports c'" "max_ports c' = max_ports c" "nodes c' = nodes c"
      "port_cnt c' = port_cnt c"
    and cnt: "connect_cnt c' = connect_cnt c - 1"
    and adj: "\<And>i p. port_at c' i = Some p \<Longrightarrow> length (listener_adj_level p) = length (listener_slots p)"
    and l: "\<And>i. i \<noteq> a \<Longrightarrow> listeners c' i = listeners c i"
      "set (listeners c' a) = set (listeners c a) - {b}" "distinct (listeners c' a)"
    and t: "\<And>i. i \<in> nodes c - X \<Longrightarrow> transmitters c' i = (if i = b then transmitters c b - 1 else transmitters c i)"
  shows "conf_inv X c' \<and> edges c' = edges c - {(a, b)}"
proof -
  have e: "edges c' = edges c - {(a, b)}"
  proof (rule set_eqI)
    fix x :: "nat \<times> nat"
    obtain i j where "x = (i, j)" by (cases x)
    then show "x \<in> edges c' \<longleftrightarrow> x \<in> edges c - {(a, b)}"
      using l by (cases "i = a") (auto simp: edges_def)
  qed
  have fin: "finite (edges c)" using inv by (rule conf_inv_finite_edges)
  have dist: "distinct (listeners c' i)" for i
    using inv l by (cases "i = a") (auto simp: listeners_def conf_inv_def split: option.splits)
  then have dist': "distinct (listener_slots p)" if "port_at c' i = Some p" for i p
    using that by (metis listeners_def option.simps(5))
  have one: "1 \<le> card (edges c)" using ab fin by (auto simp: Suc_le_eq card_gt_0_iff)
  have tr: "transmitters c' i = of_nat (card {k. (k, i) \<in> edges c'})" if i: "i \<in> nodes c - X" for i
  proof (cases "i = b")
    case True
    have f: "finite {k. (k, b) \<in> edges c}" using inv by (simp add: conf_inv_def finite_preds)
    then have "1 \<le> card {k. (k, b) \<in> edges c}" using ab by (auto simp: Suc_le_eq card_gt_0_iff)
    moreover have "{k. (k, b) \<in> edges c'} = {k. (k, b) \<in> edges c} - {a}" by (auto simp: e)
    ultimately show ?thesis
      using True i t [OF i] inv ab f by (simp add: conf_inv_def card_Diff_singleton)
  next
    case False
    then have "{k. (k, i) \<in> edges c'} = {k. (k, i) \<in> edges c}" by (auto simp: e)
    then show ?thesis using False i t [OF i] inv by (simp add: conf_inv_def)
  qed
  have "conf_inv X c'"
    unfolding conf_inv_def
    using inv ab frame cnt e fin one tr dist' adj
    by (auto simp: conf_inv_def card_Diff_singleton)
  with e show ?thesis by simp
qed

section \<open>Connecting and disconnecting\<close>

lemma nodesE:
  assumes "i \<in> nodes c"
  obtains p where "port_at c i = Some p" "i < max_ports c" "ports c ! i = Some p"
  using assms by (auto simp: nodes_def port_at_def split: if_splits)

lemma not_nodes: "i \<notin> nodes c \<longleftrightarrow> (i < max_ports c \<longrightarrow> ports c ! i = None)"
  by (auto simp: nodes_def port_at_def)

lemma listeners_Some: "port_at c i = Some p \<Longrightarrow> listeners c i = listener_slots p"
  by (simp add: listeners_def)

lemma transmitters_Some: "port_at c i = Some p \<Longrightarrow> transmitters c i = transmitter_cnt p"
  by (simp add: transmitters_def)

lemma connect_invalid:
  assumes "\<not> (a \<in> nodes c \<and> b \<in> nodes c \<and> adj \<ge> -128)"
  shows "pjmedia_conf_connect_port c a b adj = (PJ_EINVAL, c)"
  using assms
  by (auto simp: pjmedia_conf_connect_port_def not_nodes nodes_def port_at_def
      split: if_splits option.splits)

lemma connect_valid:
  assumes inv: "conf_inv X c" and ab: "a \<in> nodes c" "b \<in> nodes c" and adj: "adj \<ge> -128"
  shows "fst (pjmedia_conf_connect_port c a b adj) = PJ_SUCCESS
    \<and> conf_inv X (snd (pjmedia_conf_connect_port c a b adj))
    \<and> nodes (snd (pjmedia_conf_connect_port c a b adj)) = nodes c
    \<and> edges (snd (pjmedia_conf_connect_port c a b adj)) = insert (a, b) (edges c)"
proof -
  obtain p where p: "port_at c a = Some p" "a < max_ports c" "ports c ! a = Some p"
    using ab(1) by (rule nodesE)
  obtain q where q: "port_at c b = Some q" "b < max_ports c" "ports c ! b = Some q"
    using ab(2) by (rule nodesE)
  have len: "length (ports c) = max_ports c" using inv by (rule conf_inv_length)
  show ?thesis
  proof (cases "(a, b) \<in> edges c")
    case True
    then have "b \<in> set (listener_slots p)" using p by (simp add: edges_iff listeners_Some)
    then have "index_of (\<lambda>x. x = b) (listener_slots p) \<noteq> length (listener_slots p)"
      by (auto simp: index_of_eq_iff)
    then have "pjmedia_conf_connect_port c a b adj = (PJ_SUCCESS, c)"
      using p q adj by (simp add: pjmedia_conf_connect_port_def)
    then show ?thesis using inv True by (auto simp: insert_absorb)
  next
    case False
    then have "b \<notin> set (listener_slots p)" using p by (simp add: edges_iff listeners_Some)
    then have idx: "index_of (\<lambda>x. x = b) (listener_slots p) = length (listener_slots p)"
      by (auto simp: index_of_eq_iff)
    let ?f = "\<lambda>p. p\<lparr>listener_slots := listener_slots p @ [b],
                    listener_adj_level := listener_adj_level p @ [adj + NORMAL_LEVEL]\<rparr>"
    let ?g = "\<lambda>p. p\<lparr>transmitter_cnt := transmitter_cnt p + 1\<rparr>"
    let ?c1 = "upd_port a ?f c"
    let ?c = "upd_port b ?g (?c1\<lparr>connect_cnt := connect_cnt ?c1 + 1\<rparr>)"
    have step: "pjmedia_conf_connect_port c a b adj = (PJ_SUCCESS, ?c)"
      using p q adj idx by (simp add: pjmedia_conf_connect_port_def Let_def)
    have pa: "port_at ?c i = map_option (\<lambda>p. (if i = b then ?g else id) ((if i = a then ?f else id) p))
                              (port_at c i)" for i
      using len by (auto simp: port_at_upd_port option.map_comp comp_def option.map_ident)
    have "conf_inv X ?c \<and> edges ?c = insert (a, b) (edges c)"
    proof (rule add_edge [OF inv ab False])
      show "length (listener_adj_level r) = length (listener_slots r)" if "port_at ?c i = Some r" for i r
        using that inv unfolding pa by (auto simp: conf_inv_def)
      show "listeners ?c i = (if i = a then listeners c a @ [b] else listeners c i)" for i
        unfolding listeners_def pa using p by (auto split: option.splits)
      show "transmitters ?c i = (if i = b then transmitters c b + 1 else transmitters c i)" for i
        unfolding transmitters_def pa using q by (auto split: option.splits)
    qed (use len in simp_all)
    then show ?thesis using step len by simp
  qed
qed

lemma disconnect_invalid:
  assumes "\<not> (a \<in> nodes c \<and> b \<in> nodes c)"
  shows "pjmedia_conf_disconnect_port c a b = (PJ_EINVAL, c)"
  using assms
  by (auto simp: pjmedia_conf_disconnect_port_def not_nodes nodes_def port_at_def
      split: if_splits option.splits)

lemma disconnect_valid:
  assumes inv: "conf_inv X c" and ab: "a \<in> nodes c" "b \<in> nodes c"
  shows "fst (pjmedia_conf_disconnect_port c a b) = PJ_SUCCESS
    \<and> conf_inv X (snd (pjmedia_conf_disconnect_port c a b))
    \<and> nodes (snd (pjmedia_conf_disconnect_port c a b)) = nodes c
    \<and> edges (snd (pjmedia_conf_disconnect_port c a b)) = edges c - {(a, b)}"
proof -
  obtain p where p: "port_at c a = Some p" "a < max_ports c" "ports c ! a = Some p"
    using ab(1) by (rule nodesE)
  obtain q where q: "port_at c b = Some q" "b < max_ports c" "ports c ! b = Some q"
    using ab(2) by (rule nodesE)
  have len: "length (ports c) = max_ports c" using inv by (rule conf_inv_length)
  have pl: "distinct (listener_slots p)" "length (listener_adj_level p) = length (listener_slots p)"
    using inv p(1) by (auto simp: conf_inv_def)
  let ?i = "index_of (\<lambda>x. x = b) (listener_slots p)"
  show ?thesis
  proof (cases "(a, b) \<in> edges c")
    case False
    then have "b \<notin> set (listener_slots p)" using p by (simp add: edges_iff listeners_Some)
    then have "?i = length (listener_slots p)" by (auto simp: index_of_eq_iff)
    then have "pjmedia_conf_disconnect_port c a b = (PJ_SUCCESS, c)"
      using p q by (simp add: pjmedia_conf_disconnect_port_def)
    then show ?thesis using inv False by auto
  next
    case True
    then have "b \<in> set (listener_slots p)" using p by (simp add: edges_iff listeners_Some)
    then have idx: "?i < length (listener_slots p)" by (auto simp: index_of_less_iff)
    then have at: "listener_slots p ! ?i = b" by (rule index_of_holds)
    let ?f = "\<lambda>p. p\<lparr>listener_slots := erase_at ?i (listener_slots p),
                    listener_adj_level := erase_at ?i (listener_adj_level p)\<rparr>"
    let ?g = "\<lambda>p. p\<lparr>transmitter_cnt := transmitter_cnt p - 1\<rparr>"
    let ?c1 = "upd_port a ?f c"
    let ?c = "upd_port b ?g (?c1\<lparr>connect_cnt := connect_cnt ?c1 - 1\<rparr>)"
    have step: "pjmedia_conf_disconnect_port c a b = (PJ_SUCCESS, ?c)"
      using p q idx by (simp add: pjmedia_conf_disconnect_port_def Let_def)
    have pa: "port_at ?c i = map_option (\<lambda>p. (if i = b then ?g else id) ((if i = a then ?f else id) p))
                              (port_at c i)" for i
      using len by (auto simp: port_at_upd_port option.map_comp comp_def option.map_ident)
    have la: "listeners ?c a = erase_at ?i (listener_slots p)"
      unfolding listeners_def pa using p by simp
    have "conf_inv X ?c \<and> edges ?c = edges c - {(a, b)}"
    proof (rule drop_edge [OF inv True])
      show "length (listener_adj_level r) = length (listener_slots r)" if "port_at ?c i = Some r" for i r
        using that inv pl idx p unfolding pa
        by (auto simp: conf_inv_def length_erase_at split: if_splits)
      show "listeners ?c i = listeners c i" if "i \<noteq> a" for i
        unfolding listeners_def pa using that by (auto split: option.splits)
      show "set (listeners ?c a) = set (listeners c a) - {b}"
        using la pl idx at p by (simp add: set_erase_at listeners_Some)
      show "distinct (listeners ?c a)" using la pl by (simp add: distinct_erase_at)
      show "transmitters ?c i = (if i = b then transmitters c b - 1 else transmitters c i)" for i
        unfolding transmitters_def pa using q by (auto split: option.splits)
    qed (use len in simp_all)
    then show ?thesis using step len by simp
  qed
qed

section \<open>Removing a port\<close>

lemma drop_listener_spec:
  assumes inv: "conf_inv {b} c" and i: "i < max_ports c"
  shows "conf_inv {b} (drop_listener b i c) \<and> nodes (drop_listener b i c) = nodes c
    \<and> max_ports (drop_listener b i c) = max_ports c
    \<and> edges (drop_listener b i c) = edges c - {(i, b)}"
proof (cases "(i, b) \<in> edges c")
  case False
  then have "drop_listener b i c = c"
    using i by (auto simp: drop_listener_def edges_iff listeners_def port_at_def index_of_less_iff
        split: option.splits)
  then show ?thesis using inv False by auto
next
  case True
  then have "i \<in> nodes c" using inv by (blast dest: conf_inv_edge_nodes)
  then obtain p where p: "port_at c i = Some p" "i < max_ports c" "ports c ! i = Some p"
    by (rule nodesE)
  have len: "length (ports c) = max_ports c" using inv by (rule conf_inv_length)
  have pl: "distinct (listener_slots p)" "length (listener_adj_level p) = length (listener_slots p)"
    using inv p(1) by (auto simp: conf_inv_def)
  let ?j = "index_of (\<lambda>x. x = b) (listener_slots p)"
  have "b \<in> set (listener_slots p)" using p True by (simp add: edges_iff listeners_Some)
  then have idx: "?j < length (listener_slots p)" by (auto simp: index_of_less_iff)
  then have at: "listener_slots p ! ?j = b" by (rule index_of_holds)
  let ?f = "\<lambda>p. p\<lparr>listener_slots := erase_at ?j (listener_slots p),
                  listener_adj_level := erase_at ?j (listener_adj_level p)\<rparr>"
  let ?c1 = "upd_port i ?f c"
  let ?c = "?c1\<lparr>connect_cnt := connect_cnt ?c1 - 1\<rparr>"
  have step: "drop_listener b i c = ?c"
    using p idx by (simp add: drop_listener_def Let_def)
  have pa: "port_at ?c k = map_option (if k = i then ?f else id) (port_at c k)" for k
    using len by (auto simp: port_at_upd_port option.map_id)
  have li: "listeners ?c i = erase_at ?j (listener_slots p)"
    unfolding listeners_def pa using p by simp
  have "conf_inv {b} ?c \<and> edges ?c = edges c - {(i, b)}"
  proof (rule drop_edge [OF inv True])
    show "length (listener_adj_level r) = length (listener_slots r)" if "port_at ?c k = Some r" for k r
      using that inv pl idx p unfolding pa
      by (auto simp: conf_inv_def length_erase_at split: if_splits)
    show "listeners ?c k = listeners c k" if "k \<noteq> i" for k
      unfolding listeners_def pa using that by (auto split: option.splits)
    show "set (listeners ?c i) = set (listeners c i) - {b}"
      using li pl idx at p by (simp add: set_erase_at listeners_Some)
    show "distinct (listeners ?c i)" using li pl by (simp add: distinct_erase_at)
    show "transmitters ?c k = (if k = b then transmitters c b - 1 else transmitters c k)"
      if "k \<in> nodes c - {b}" for k
      unfolding transmitters_def pa using that by (auto split: option.splits)
  qed (use len in simp_all)
  then show ?thesis using step len by simp
qed

lemma drop_listeners_spec:
  assumes "conf_inv {b} c" "\<forall>i \<in> set is. i < max_ports c"
  shows "conf_inv {b} (fold (drop_listener b) is c) \<and> nodes (fold (drop_listener b) is c) = nodes c
    \<and> max_ports (fold (drop_listener b) is c) = max_ports c
    \<and> edges (fold (drop_listener b) is c) = edges c - set is \<times> {b}"
  using assms
proof (induction "is" arbitrary: c)
  case Nil
  then show ?case by simp
next
  case (Cons i "is")
  let ?c = "drop_listener b i c"
  have c: "conf_inv {b} ?c \<and> nodes ?c = nodes c \<and> max_ports ?c = max_ports c \<and> edges ?c = edges c - {(i, b)}"
    using Cons.prems by (intro drop_listener_spec) auto
  then have "conf_inv {b} ?c" "\<forall>i \<in> set is. i < max_ports ?c" using Cons.prems by auto
  from Cons.IH [OF this] c show ?case by auto
qed

lemma from_sources_spec:
  assumes "conf_inv {} c" "b \<in> nodes c"
  shows "let c' = snd (pjmedia_conf_disconnect_port_from_sources c b)
         in conf_inv {b} c' \<and> nodes c' = nodes c \<and> max_ports c' = max_ports c
            \<and> edges c' = edges c - UNIV \<times> {b}"
proof -
  have "conf_inv {b} c" using assms(1) by (rule conf_inv_mono) simp
  moreover have "\<forall>i \<in> set [0..<max_ports c]. i < max_ports c" by simp
  ultimately have "let c' = fold (drop_listener b) [0..<max_ports c] c
    in conf_inv {b} c' \<and> nodes c' = nodes c \<and> max_ports c' = max_ports c
       \<and> edges c' = edges c - set [0..<max_ports c] \<times> {b}"
    unfolding Let_def by (rule drop_listeners_spec)
  moreover have "edges c - set [0..<max_ports c] \<times> {b} = edges c - UNIV \<times> {b}"
    using conf_inv_edge_nodes [OF assms(1)] nodes_less by fastforce
  ultimately show ?thesis
    using nodes_less [OF assms(2)]
    by (simp add: pjmedia_conf_disconnect_port_from_sources_def Let_def)
qed

lemma drop_sinks_step:
  assumes inv: "conf_inv X c" and p: "port_at c a = Some p" and n: "length (listener_slots p) = Suc n"
  defines "b \<equiv> listener_slots p ! n"
  defines "c1 \<equiv> upd_port b (\<lambda>p. p\<lparr>transmitter_cnt := transmitter_cnt p - 1\<rparr>) c"
  defines "c2 \<equiv> upd_port a (\<lambda>p. p\<lparr>listener_slots := take n (listener_slots p),
                                 listener_adj_level := take n (listener_adj_level p)\<rparr>) c1"
  defines "c' \<equiv> c2\<lparr>connect_cnt := connect_cnt c2 - 1\<rparr>"
  shows "conf_inv X c' \<and> edges c' = edges c - {(a, b)} \<and> nodes c' = nodes c
    \<and> max_ports c' = max_ports c \<and> (\<exists>q. port_at c' a = Some q \<and> length (listener_slots q) = n)"
proof -
  have len: "length (ports c) = max_ports c" using inv by (rule conf_inv_length)
  have pl: "distinct (listener_slots p)" "length (listener_adj_level p) = length (listener_slots p)"
    using inv p by (auto simp: conf_inv_def)
  have last: "listener_slots p = take n (listener_slots p) @ [b]"
    using n by (simp add: b_def take_Suc_conv_app_nth [symmetric])
  then have "b \<in> set (listener_slots p)" by (metis in_set_conv_decomp)
  then have ab: "(a, b) \<in> edges c" using p by (simp add: edges_iff listeners_Some)
  then obtain q where q: "port_at c b = Some q"
    using inv by (auto dest!: conf_inv_edge_nodes simp: nodes_def)
  let ?g = "\<lambda>p. p\<lparr>transmitter_cnt := transmitter_cnt p - 1\<rparr>"
  let ?f = "\<lambda>p. p\<lparr>listener_slots := take n (listener_slots p),
                  listener_adj_level := take n (listener_adj_level p)\<rparr>"
  have pa: "port_at c' i = map_option (\<lambda>p. (if i = a then ?f else id) ((if i = b then ?g else id) p))
                            (port_at c i)" for i
    using len by (auto simp: c'_def c2_def c1_def port_at_upd_port option.map_comp comp_def option.map_ident)
  have la: "listeners c' a = take n (listener_slots p)"
    unfolding listeners_def pa using p by simp
  have fr: "length (ports c') = max_ports c'" "max_ports c' = max_ports c" "nodes c' = nodes c"
    "port_cnt c' = port_cnt c" "connect_cnt c' = connect_cnt c - 1"
    using len by (simp_all add: c'_def c2_def c1_def)
  have dist: "distinct (take n (listener_slots p) @ [b])" using last pl(1) by simp
  have "conf_inv X c' \<and> edges c' = edges c - {(a, b)}"
  proof (rule drop_edge [OF inv ab fr])
    show "length (listener_adj_level r) = length (listener_slots r)" if "port_at c' i = Some r" for i r
      using that inv pl unfolding pa by (auto simp: conf_inv_def split: if_splits)
    show "listeners c' i = listeners c i" if "i \<noteq> a" for i
      unfolding listeners_def pa using that by (auto split: option.splits)
    have "set (listener_slots p) = insert b (set (take n (listener_slots p)))"
      by (subst last) simp
    then show "set (listeners c' a) = set (listeners c a) - {b}"
      using la p dist by (auto simp: listeners_Some)
    show "distinct (listeners c' a)" using la dist by simp
    show "transmitters c' i = (if i = b then transmitters c b - 1 else transmitters c i)" for i
      unfolding transmitters_def pa using q by (auto split: option.splits)
  qed
  moreover have "\<exists>q. port_at c' a = Some q \<and> length (listener_slots q) = n"
    unfolding pa using p n by simp
  ultimately show ?thesis using fr by simp
qed

lemma drop_sinks_spec:
  assumes "conf_inv X c" "port_at c a = Some p" "length (listener_slots p) = n"
  shows "conf_inv X (drop_sinks a n c) \<and> nodes (drop_sinks a n c) = nodes c
    \<and> max_ports (drop_sinks a n c) = max_ports c \<and> edges (drop_sinks a n c) = edges c - {a} \<times> UNIV"
  using assms
proof (induction n arbitrary: c p)
  case 0
  then have "edges c \<inter> {a} \<times> UNIV = {}" by (auto simp: edges_iff listeners_Some)
  then show ?case using 0 by auto
next
  case (Suc n)
  let ?b = "listener_slots p ! n"
  let ?c1 = "upd_port ?b (\<lambda>p. p\<lparr>transmitter_cnt := transmitter_cnt p - 1\<rparr>) c"
  let ?c2 = "upd_port a (\<lambda>p. p\<lparr>listener_slots := take n (listener_slots p),
                               listener_adj_level := take n (listener_adj_level p)\<rparr>) ?c1"
  let ?c = "?c2\<lparr>connect_cnt := connect_cnt ?c2 - 1\<rparr>"
  have st: "conf_inv X ?c \<and> edges ?c = edges c - {(a, ?b)} \<and> nodes ?c = nodes c
    \<and> max_ports ?c = max_ports c \<and> (\<exists>q. port_at ?c a = Some q \<and> length (listener_slots q) = n)"
    using Suc.prems by (intro drop_sinks_step) auto
  then obtain q where q: "port_at ?c a = Some q" "length (listener_slots q) = n" by blast
  have "ports c ! a = Some p" using Suc.prems(2) by (auto simp: port_at_def split: if_splits)
  then have "drop_sinks a (Suc n) c = drop_sinks a n ?c" by (simp add: Let_def)
  with Suc.IH [OF _ q] st show ?case by auto
qed

text \<open>Taking a slot out of the table once no connection touches it.\<close>

lemma clear_slot:
  assumes inv: "conf_inv {a} c" and a: "a \<in> nodes c"
    and iso: "edges c \<inter> ({a} \<times> UNIV \<union> UNIV \<times> {a}) = {}"
  defines "c' \<equiv> c\<lparr>ports := (ports c)[a := None], port_cnt := port_cnt c - 1\<rparr>"
  shows "conf_ok c' \<and> nodes c' = nodes c - {a} \<and> edges c' = edges c \<and> max_ports c' = max_ports c"
proof -
  have len: "length (ports c) = max_ports c" using inv by (rule conf_inv_length)
  have pa: "port_at c' i = (if i = a then None else port_at c i)" for i
    using len by (auto simp: c'_def port_at_def nth_list_update)
  have n: "nodes c' = nodes c - {a}" by (auto simp: nodes_def pa)
  have "(a, j) \<notin> edges c" for j using iso by blast
  then have "\<forall>j. j \<notin> set (listeners c a)" by (simp add: edges_iff)
  then have la: "listeners c a = []" by (metis last_in_set)
  have l: "listeners c' = listeners c"
    using la by (auto simp: fun_eq_iff listeners_def pa)
  have e: "edges c' = edges c" by (simp add: edges_def l)
  have t: "transmitters c' i = transmitters c i" if "i \<noteq> a" for i
    using that by (simp add: transmitters_def pa)
  have one: "1 \<le> card (nodes c)" using a finite_nodes [of c] by (auto simp: Suc_le_eq card_gt_0_iff)
  have "conf_ok c'"
    unfolding conf_inv_def n e
  proof (intro conjI)
    show "port_cnt c' = of_nat (card (nodes c - {a}))"
      using inv a one finite_nodes [of c] by (simp add: c'_def conf_inv_def card_Diff_singleton)
    show "edges c \<subseteq> (nodes c - {a}) \<times> (nodes c - {a})"
      using inv iso by (auto simp: conf_inv_def)
    show "\<forall>i\<in>nodes c - {a} - {}. transmitters c' i = of_nat (card {k. (k, i) \<in> edges c})"
      using inv t by (simp add: conf_inv_def)
    show "\<forall>i p. port_at c' i = Some p \<longrightarrow>
        distinct (listener_slots p) \<and> length (listener_adj_level p) = length (listener_slots p)"
      using inv by (auto simp: conf_inv_def pa split: if_splits)
  qed (use inv in \<open>simp_all add: conf_inv_def c'_def\<close>)
  then show ?thesis using n e by (simp add: c'_def)
qed

lemma remove_invalid:
  "a \<notin> nodes c \<Longrightarrow> pjmedia_conf_remove_port c a = (PJ_EINVAL, c)"
  by (auto simp: pjmedia_conf_remove_port_def nodes_def port_at_def split: if_splits option.splits)

lemma remove_valid:
  assumes inv: "conf_ok c" and a: "a \<in> nodes c"
  shows "fst (pjmedia_conf_remove_port c a) = PJ_SUCCESS
    \<and> conf_ok (snd (pjmedia_conf_remove_port c a))
    \<and> nodes (snd (pjmedia_conf_remove_port c a)) = nodes c - {a}
    \<and> edges (snd (pjmedia_conf_remove_port c a)) = edges c - ({a} \<times> UNIV \<union> UNIV \<times> {a})
    \<and> max_ports (snd (pjmedia_conf_remove_port c a)) = max_ports c"
proof -
  obtain p where p: "port_at c a = Some p" "a < max_ports c" "ports c ! a = Some p"
    using a by (rule nodesE)
  have len: "length (ports c) = max_ports c" using inv by (rule conf_inv_length)
  define c1 where "c1 = upd_port a (\<lambda>p. p\<lparr>tx_setting := PORT_DISABLE, rx_setting := PORT_DISABLE\<rparr>) c"
  define c2 where "c2 = snd (pjmedia_conf_disconnect_port_from_sources c1 a)"
  define c3 where "c3 = snd (pjmedia_conf_disconnect_port_from_sinks c2 a)"
  define c4 where "c4 = upd_port a (\<lambda>p. p\<lparr>rx_resample := False, tx_resample := False\<rparr>) c3"
  define c5 where "c5 = upd_port a
    (\<lambda>p. if delay_buf p then p\<lparr>delay_buf := False, cp_port := None\<rparr> else p) c4"
  have step: "pjmedia_conf_remove_port c a =
      (PJ_SUCCESS, c5\<lparr>ports := (ports c5)[a := None], port_cnt := port_cnt c5 - 1\<rparr>)"
    using p by (simp add: pjmedia_conf_remove_port_def Let_def c1_def c2_def c3_def c4_def c5_def)
  have 1: "conf_ok c1" "edges c1 = edges c" "nodes c1 = nodes c" "max_ports c1 = max_ports c"
    using neutral_upd_port [OF inv] len by (simp_all add: c1_def)
  have 2: "conf_inv {a} c2" "nodes c2 = nodes c" "max_ports c2 = max_ports c"
    "edges c2 = edges c - UNIV \<times> {a}"
    using from_sources_spec [of c1 a] 1 a by (simp_all add: c2_def Let_def)
  obtain q where q: "port_at c2 a = Some q" "a < max_ports c2" "ports c2 ! a = Some q"
    using a 2 by (metis nodesE)
  then have c3: "c3 = drop_sinks a (length (listener_slots q)) c2"
    by (simp add: c3_def pjmedia_conf_disconnect_port_from_sinks_def)
  have 3: "conf_inv {a} c3" "nodes c3 = nodes c" "max_ports c3 = max_ports c"
    "edges c3 = edges c - UNIV \<times> {a} - {a} \<times> UNIV"
    using drop_sinks_spec [OF 2(1) q(1) refl] 2 by (simp_all add: c3)
  have 4: "conf_inv {a} c4" "edges c4 = edges c3" "nodes c4 = nodes c3" "max_ports c4 = max_ports c3"
    using neutral_upd_port [OF 3(1)] conf_inv_length [OF 3(1)] by (simp_all add: c4_def)
  have 5: "conf_inv {a} c5" "edges c5 = edges c4"
    unfolding c5_def by (rule neutral_upd_port [OF 4(1)]; simp)+
  have 6: "nodes c5 = nodes c4" "max_ports c5 = max_ports c4"
    using conf_inv_length [OF 4(1)] by (simp_all add: c5_def)
  have "edges c5 \<inter> ({a} \<times> UNIV \<union> UNIV \<times> {a}) = {}" using 3 4 5 by auto
  then show ?thesis
    using clear_slot [of a c5] a 3 4 5 6 by (auto simp: step)
qed

section \<open>Adding a port\<close>

lemma fill_slot:
  assumes inv: "conf_ok c" and i: "i < max_ports c" "i \<notin> nodes c"
    and cp: "listener_slots cp = []" "listener_adj_level cp = []" "transmitter_cnt cp = 0"
  defines "c' \<equiv> c\<lparr>ports := (ports c)[i := Some cp], port_cnt := port_cnt c + 1\<rparr>"
  shows "conf_ok c' \<and> nodes c' = insert i (nodes c) \<and> edges c' = edges c"
proof -
  have len: "length (ports c) = max_ports c" using inv by (rule conf_inv_length)
  have pa: "port_at c' j = (if j = i then Some cp else port_at c j)" for j
    using len i by (auto simp: c'_def port_at_def nth_list_update)
  have n: "nodes c' = insert i (nodes c)" by (auto simp: nodes_def pa)
  have li: "listeners c i = []" using i by (auto simp: listeners_def nodes_def)
  have l: "listeners c' = listeners c"
    using li cp by (auto simp: fun_eq_iff listeners_def pa)
  have e: "edges c' = edges c" by (simp add: edges_def l)
  have t: "transmitters c' j = transmitters c j" if "j \<noteq> i" for j
    using that by (simp add: transmitters_def pa)
  have none: "{k. (k, i) \<in> edges c} = {}" using conf_inv_edge_nodes [OF inv] i by blast
  have ti: "transmitters c' i = 0" using cp by (simp add: transmitters_def pa)
  have "conf_ok c'"
    unfolding conf_inv_def n e
  proof (intro conjI)
    show "port_cnt c' = of_nat (card (insert i (nodes c)))"
      using inv i finite_nodes [of c] by (simp add: c'_def conf_inv_def)
    show "edges c \<subseteq> insert i (nodes c) \<times> insert i (nodes c)"
      using inv by (auto simp: conf_inv_def)
    show "\<forall>j\<in>insert i (nodes c) - {}. transmitters c' j = of_nat (card {k. (k, j) \<in> edges c})"
    proof
      fix j assume "j \<in> insert i (nodes c) - {}"
      then show "transmitters c' j = of_nat (card {k. (k, j) \<in> edges c})"
        using inv t none ti by (cases "j = i") (auto simp: conf_inv_def)
    qed
    show "\<forall>j p. port_at c' j = Some p \<longrightarrow>
        distinct (listener_slots p) \<and> length (listener_adj_level p) = length (listener_slots p)"
      using inv cp by (auto simp: conf_inv_def pa split: if_splits)
  qed (use inv in \<open>simp_all add: conf_inv_def c'_def\<close>)
  then show ?thesis using n e by simp
qed

lemma create_conf_port_fresh:
  "create_conf_port rs c port name = Inr cp \<Longrightarrow>
   listener_slots cp = [] \<and> listener_adj_level cp = [] \<and> transmitter_cnt cp = 0"
  by (auto simp: create_conf_port_def Let_def split: if_splits)

text \<open>
  The free slot the code searches exists whenever \<open>port_cnt < max_ports\<close>: the counter counts
  the occupied slots, so the assertion \<open>index != max_ports\<close> of the code holds.
\<close>

lemma free_slot:
  assumes inv: "conf_ok c" and room: "unat (port_cnt c) < max_ports c"
  defines "i \<equiv> index_of (\<lambda>p. p = None) (ports c)"
  shows "i < max_ports c" "i \<notin> nodes c" "\<And>j. j < i \<Longrightarrow> j \<in> nodes c"
proof -
  have len: "length (ports c) = max_ports c" using inv by (rule conf_inv_length)
  have "card (nodes c) < card {..<max_ports c}" using room conf_ok_port_cnt [OF inv] by simp
  then have "nodes c \<noteq> {..<max_ports c}" by (metis less_irrefl)
  moreover have "nodes c \<subseteq> {..<max_ports c}" using nodes_less by auto
  ultimately obtain j where "j < max_ports c" "j \<notin> nodes c" by auto
  then have "ports c ! j = None" "j < length (ports c)" using len by (simp_all add: not_nodes)
  then have "\<exists>p \<in> set (ports c). p = None" by (metis nth_mem)
  then have less: "i < length (ports c)" unfolding i_def by (simp add: index_of_less_iff)
  then show "i < max_ports c" using len by simp
  have "ports c ! i = None" unfolding i_def by (rule index_of_holds) (use less i_def in simp)
  then show "i \<notin> nodes c" by (simp add: not_nodes)
  show "j \<in> nodes c" if "j < i" for j
  proof -
    have "ports c ! j \<noteq> None" using that unfolding i_def by (rule index_of_before)
    then show ?thesis using that less len by (auto simp: nodes_def port_at_def)
  qed
qed

lemma create_conf_port_error: "create_conf_port rs c port name = Inl st \<Longrightarrow> st \<noteq> PJ_SUCCESS"
  by (auto simp: create_conf_port_def Let_def split: if_splits)

lemma add_port_success:
  assumes "pjmedia_conf_add_port rs c mp name = ((PJ_SUCCESS, i), c')"
  shows "\<exists>nm cp. unat (port_cnt c) < max_ports c \<and> create_conf_port rs c (Some mp) nm = Inr cp
    \<and> i = index_of (\<lambda>p. p = None) (ports c)
    \<and> c' = c\<lparr>ports := (ports c)[i := Some cp], port_cnt := port_cnt c + 1\<rparr>"
proof -
  define nm where "nm = (case name of None \<Rightarrow> mp_name mp | Some n \<Rightarrow> n)"
  have room: "unat (port_cnt c) < max_ports c"
    using assms by (simp add: pjmedia_conf_add_port_def split: if_splits)
  have eq: "(case create_conf_port rs c (Some mp) nm of
              Inl st \<Rightarrow> ((st, 0), c)
            | Inr cp \<Rightarrow> ((PJ_SUCCESS, index_of (\<lambda>p. p = None) (ports c)),
                c\<lparr>ports := (ports c)[index_of (\<lambda>p. p = None) (ports c) := Some cp],
                  port_cnt := port_cnt c + 1\<rparr>)) = ((PJ_SUCCESS, i), c')"
    using assms by (simp add: pjmedia_conf_add_port_def Let_def nm_def split: if_splits)
  show ?thesis
  proof (cases "create_conf_port rs c (Some mp) nm")
    case (Inl e)
    then have "e \<noteq> PJ_SUCCESS" by (rule create_conf_port_error)
    then show ?thesis using eq Inl by simp
  next
    case (Inr cp)
    then show ?thesis using eq room by auto
  qed
qed

lemma add_port_spec:
  assumes inv: "conf_ok c" and step: "pjmedia_conf_add_port rs c mp name = ((st, i), c')"
  shows "conf_ok c' \<and> edges c' = edges c \<and> max_ports c' = max_ports c \<and>
    (if st = PJ_SUCCESS then i \<notin> nodes c \<and> i < max_ports c \<and> nodes c' = insert i (nodes c) \<and> (\<forall>j<i. j \<in> nodes c)
     else c' = c)"
proof (cases "st = PJ_SUCCESS")
  case False
  then show ?thesis using step inv
    by (auto simp: pjmedia_conf_add_port_def Let_def split: if_splits sum.splits option.splits)
next
  case True
  let ?i = "index_of (\<lambda>p. p = None) (ports c)"
  from add_port_success [OF step [unfolded True]] obtain nm cp where
    room: "unat (port_cnt c) < max_ports c" and
    cp: "create_conf_port rs c (Some mp) nm = Inr cp" and
    r: "i = ?i" "c' = c\<lparr>ports := (ports c)[?i := Some cp], port_cnt := port_cnt c + 1\<rparr>"
    by blast
  note slot = free_slot [OF inv room]
  from create_conf_port_fresh [OF cp]
  have "conf_ok c' \<and> nodes c' = insert i (nodes c) \<and> edges c' = edges c"
    unfolding r by (intro fill_slot inv slot) auto
  then show ?thesis using True slot r by auto
qed

lemma add_port_other_fields:
  "pjmedia_conf_add_port rs c mp name = (r, c') \<Longrightarrow>
   conf_clock_rate c' = conf_clock_rate c \<and> conf_channel_count c' = conf_channel_count c"
  by (auto simp: pjmedia_conf_add_port_def Let_def split: if_splits sum.splits option.splits)

section \<open>Creation, level adjustments, enumeration\<close>

lemma create_spec:
  assumes step: "pjmedia_conf_create rs db mx mp rate cc spf bits = Inr c"
    and mp: "0 < mp" "mp < 2 ^ 16"
  shows "conf_ok c \<and> nodes c = {0} \<and> edges c = {} \<and> max_ports c = mp"
proof -
  let ?c0 = "\<lparr>max_ports = mp, port_cnt = 0, connect_cnt = 0, ports = replicate mp None,
              conf_clock_rate = rate, conf_channel_count = cc,
              conf_samples_per_frame = spf, conf_bits_per_sample = bits\<rparr>"
  have "port_at ?c0 i = None" for i by (simp add: port_at_def)
  then have e: "nodes ?c0 = {}" "edges ?c0 = {}" by (simp_all add: nodes_def edges_def listeners_def)
  then have ok: "conf_ok ?c0" using mp by (simp add: conf_inv_def port_at_def)
  from step obtain cp where cp: "create_pasv_port rs db ?c0 ''Master/sound'' None = Inr cp"
    and c: "c = ?c0\<lparr>ports := (ports ?c0)[0 := Some cp], port_cnt := port_cnt ?c0 + 1\<rparr>"
    by (auto simp: pjmedia_conf_create_def Let_def split: if_splits sum.splits)
  from cp have "listener_slots cp = [] \<and> listener_adj_level cp = [] \<and> transmitter_cnt cp = 0"
    by (auto simp: create_pasv_port_def dest!: create_conf_port_fresh split: if_splits sum.splits)
  then have "conf_ok c \<and> nodes c = insert 0 (nodes ?c0) \<and> edges c = edges ?c0"
    unfolding c using mp e by (intro fill_slot ok) auto
  then show ?thesis using e by (simp add: c)
qed

lemma adjust_tx_keeps:
  assumes "conf_ok c"
  shows "conf_ok (snd (pjmedia_conf_adjust_tx_level c i adj))
    \<and> nodes (snd (pjmedia_conf_adjust_tx_level c i adj)) = nodes c
    \<and> edges (snd (pjmedia_conf_adjust_tx_level c i adj)) = edges c"
proof -
  have "length (ports c) = max_ports c" using assms by (rule conf_inv_length)
  then show ?thesis
    using assms neutral_upd_port [OF assms]
    by (auto simp: pjmedia_conf_adjust_tx_level_def split: option.splits)
qed

lemma adjust_rx_keeps:
  assumes "conf_ok c"
  shows "conf_ok (snd (pjmedia_conf_adjust_rx_level c i adj))
    \<and> nodes (snd (pjmedia_conf_adjust_rx_level c i adj)) = nodes c
    \<and> edges (snd (pjmedia_conf_adjust_rx_level c i adj)) = edges c"
proof -
  have "length (ports c) = max_ports c" using assms by (rule conf_inv_length)
  then show ?thesis
    using assms neutral_upd_port [OF assms]
    by (auto simp: pjmedia_conf_adjust_rx_level_def split: option.splits)
qed

lemma adjust_conn_keeps:
  assumes "conf_ok c"
  shows "conf_ok (snd (pjmedia_conf_adjust_conn_level c i j adj))
    \<and> nodes (snd (pjmedia_conf_adjust_conn_level c i j adj)) = nodes c
    \<and> edges (snd (pjmedia_conf_adjust_conn_level c i j adj)) = edges c"
proof -
  have "length (ports c) = max_ports c" using assms by (rule conf_inv_length)
  then show ?thesis
    using assms neutral_upd_port [OF assms]
    by (auto simp: pjmedia_conf_adjust_conn_level_def Let_def split: option.splits)
qed

lemma configure_keeps:
  assumes "conf_ok c"
  shows "conf_ok (snd (pjmedia_conf_configure_port c i tx rx))
    \<and> nodes (snd (pjmedia_conf_configure_port c i tx rx)) = nodes c
    \<and> edges (snd (pjmedia_conf_configure_port c i tx rx)) = edges c"
proof -
  have len: "length (ports c) = max_ports c" using assms by (rule conf_inv_length)
  let ?f = "\<lambda>p. p\<lparr>tx_setting := tx\<rparr>" and ?g = "\<lambda>p. p\<lparr>rx_setting := rx\<rparr>"
  have f: "conf_ok (upd_port i ?f c)" "edges (upd_port i ?f c) = edges c"
    by (rule neutral_upd_port [OF assms]; simp)+
  have g: "conf_ok (upd_port i ?g d)" "edges (upd_port i ?g d) = edges d" if "conf_ok d" for d
    by (rule neutral_upd_port [OF that]; simp)+
  show ?thesis
    using assms len f g [OF assms] g [OF f(1)]
    by (auto simp: pjmedia_conf_configure_port_def Let_def split: option.splits)
qed

lemma enum_loop_enumerate:
  "enum_loop ps i n = take n (map fst (filter (\<lambda>(k, p). p \<noteq> None) (enumerate i ps)))"
  by (induction ps i n rule: enum_loop.induct) (auto simp: take_Cons' split: option.splits)

lemma filter_enumerate:
  "map fst (filter (\<lambda>(k, p). p \<noteq> None) (enumerate i ps))
   = filter (\<lambda>k. ps ! (k - i) \<noteq> None) [i..<i + length ps]"
proof (induction ps rule: rev_induct)
  case Nil
  then show ?case by simp
next
  case (snoc p ps)
  have "filter (\<lambda>k. (ps @ [p]) ! (k - i) \<noteq> None) [i..<i + length ps]
      = filter (\<lambda>k. ps ! (k - i) \<noteq> None) [i..<i + length ps]"
    by (rule filter_cong) (auto simp: nth_append)
  with snoc show ?case by (simp add: enumerate_append_eq)
qed

lemma enum_loop_spec:
  "enum_loop ps i n = take n (filter (\<lambda>k. ps ! (k - i) \<noteq> None) [i..<i + length ps])"
  by (simp only: enum_loop_enumerate filter_enumerate)

lemma enum_ports_eq:
  assumes "conf_ok c"
  shows "pjmedia_conf_enum_ports c n = take n (filter (\<lambda>k. k \<in> nodes c) [0..<max_ports c])"
proof -
  have "filter (\<lambda>k. ports c ! k \<noteq> None) [0..<max_ports c] = filter (\<lambda>k. k \<in> nodes c) [0..<max_ports c]"
    by (rule filter_cong) (auto simp: not_nodes nodes_def port_at_def)
  then show ?thesis
    using conf_inv_length [OF assms] by (simp add: pjmedia_conf_enum_ports_def enum_loop_spec)
qed

end
