(* ===== verification/Bridge_Props.thy ===== *)
theory Bridge_Props
  imports Conf_Laws
begin

text \<open>Properties of the conference bridge: sequences of its operations, and what each one does.\<close>

section \<open>Sequences of operations\<close>

datatype conf_cmd =
    AddPort media_port "string option"
  | RemovePort nat
  | Connect nat nat int
  | Disconnect nat nat
  | AdjustTx nat int
  | AdjustRx nat int
  | AdjustConn nat nat int
  | Configure nat port_op port_op

fun conf_step :: "(nat \<Rightarrow> nat \<Rightarrow> pj_status) \<Rightarrow> conf_cmd \<Rightarrow> pjmedia_conf \<Rightarrow> pjmedia_conf" where
  "conf_step rs (AddPort p nm) c = snd (pjmedia_conf_add_port rs c p nm)"
| "conf_step rs (RemovePort i) c = snd (pjmedia_conf_remove_port c i)"
| "conf_step rs (Connect i j l) c = snd (pjmedia_conf_connect_port c i j l)"
| "conf_step rs (Disconnect i j) c = snd (pjmedia_conf_disconnect_port c i j)"
| "conf_step rs (AdjustTx i l) c = snd (pjmedia_conf_adjust_tx_level c i l)"
| "conf_step rs (AdjustRx i l) c = snd (pjmedia_conf_adjust_rx_level c i l)"
| "conf_step rs (AdjustConn i j l) c = snd (pjmedia_conf_adjust_conn_level c i j l)"
| "conf_step rs (Configure i tx rx) c = snd (pjmedia_conf_configure_port c i tx rx)"

definition conf_run :: "(nat \<Rightarrow> nat \<Rightarrow> pj_status) \<Rightarrow> conf_cmd list \<Rightarrow> pjmedia_conf \<Rightarrow> pjmedia_conf" where
  "conf_run rs cmds c = fold (conf_step rs) cmds c"

lemma conf_step_ok: "conf_ok c \<Longrightarrow> conf_ok (conf_step rs cmd c)"
proof (cases cmd)
  case (AddPort p nm)
  assume ok: "conf_ok c"
  obtain st i c' where a: "pjmedia_conf_add_port rs c p nm = ((st, i), c')" by (metis surj_pair)
  then show ?thesis using add_port_spec [OF ok a] AddPort by simp
next
  case (RemovePort i)
  assume ok: "conf_ok c"
  then show ?thesis using remove_valid [OF ok] remove_invalid [of i c] RemovePort
    by (cases "i \<in> nodes c") auto
next
  case (Connect i j l)
  assume ok: "conf_ok c"
  then show ?thesis using connect_valid [OF ok] connect_invalid [of i c j l] Connect
    by (cases "i \<in> nodes c \<and> j \<in> nodes c \<and> l \<ge> -128") auto
next
  case (Disconnect i j)
  assume ok: "conf_ok c"
  then show ?thesis using disconnect_valid [OF ok] disconnect_invalid [of i c j] Disconnect
    by (cases "i \<in> nodes c \<and> j \<in> nodes c") auto
next
  case (AdjustTx i l)
  assume "conf_ok c"
  then show ?thesis using adjust_tx_keeps [of c i l] AdjustTx by simp
next
  case (AdjustRx i l)
  assume "conf_ok c"
  then show ?thesis using adjust_rx_keeps [of c i l] AdjustRx by simp
next
  case (AdjustConn i j l)
  assume "conf_ok c"
  then show ?thesis using adjust_conn_keeps [of c i j l] AdjustConn by simp
next
  case (Configure i tx rx)
  assume "conf_ok c"
  then show ?thesis using configure_keeps [of c i tx rx] Configure by simp
qed

lemma conf_run_ok: "conf_ok c \<Longrightarrow> conf_ok (conf_run rs cmds c)"
  unfolding conf_run_def by (induction cmds arbitrary: c) (auto simp: conf_step_ok)

lemma conf_ok_transmitters:
  assumes "conf_ok c" "i \<in> nodes c"
  shows "unat (transmitters c i) = card {k. (k, i) \<in> edges c}"
proof -
  have sub: "edges c \<subseteq> nodes c \<times> nodes c" using assms(1) by (simp add: conf_inv_def)
  have "card {k. (k, i) \<in> edges c} \<le> card (nodes c)"
    using sub by (intro card_mono finite_nodes) auto
  also have "\<dots> < 2 ^ LENGTH(32)"
    using card_nodes_le [of c] assms(1) by (simp add: conf_inv_def)
  finally show ?thesis using assms by (simp add: conf_inv_def unat_of_nat take_bit_nat_eq_self)
qed

text \<open>
  C7. Start from a bridge as \<^verbatim>\<open>pjmedia_conf_create\<close> makes it and run any sequence of operations, with
  any arguments, valid or not. Then every listener of a port is a port that exists and is listed once;
  the bridge's port counter, its connection counter and each port's transmitter counter are exactly the
  numbers of ports, of connections and of connections into that port (none of the 32-bit counters
  has wrapped).
\<close>

theorem conf_run_counters:
  fixes rs :: "nat \<Rightarrow> nat \<Rightarrow> pj_status" and cmds :: "conf_cmd list"
  assumes "pjmedia_conf_create rs0 db mx mp rate cc spf bits = Inr c0" "0 < mp" "mp < 2 ^ 16"
  defines "c \<equiv> conf_run rs cmds c0"
  shows "unat (pjmedia_conf_get_port_count c) = card (nodes c)
    \<and> unat (pjmedia_conf_get_connect_count c) = card (edges c)
    \<and> (\<forall>i. i \<in> nodes c \<longrightarrow> unat (transmitters c i) = card {k. (k, i) \<in> edges c}
                       \<and> distinct (listeners c i) \<and> set (listeners c i) \<subseteq> nodes c)"
proof -
  have ok: "conf_ok c"
    using create_spec [OF assms(1-3)] conf_run_ok by (simp add: c_def)
  have "distinct (listeners c i) \<and> set (listeners c i) \<subseteq> nodes c" if i: "i \<in> nodes c" for i
  proof -
    obtain p where p: "port_at c i = Some p" using nodesE [OF i] by metis
    then have "distinct (listeners c i)" using ok by (simp add: conf_inv_def listeners_Some)
    moreover have "set (listeners c i) \<subseteq> nodes c" using conf_inv_edge_nodes [OF ok] by (auto simp: edges_iff)
    ultimately show ?thesis by simp
  qed
  then show ?thesis
    using ok conf_ok_port_cnt [OF ok] conf_ok_connect_cnt [OF ok] conf_ok_transmitters [OF ok]
    by (simp add: pjmedia_conf_get_port_count_def pjmedia_conf_get_connect_count_def)
qed

definition demo_port :: media_port where
  "demo_port = \<lparr>mp_id = 7, mp_name = ''call'', mp_clock_rate = 16000, mp_samples_per_frame = 320,
                mp_channel_count = 1\<rparr>"

definition demo_conf :: pjmedia_conf where
  "demo_conf = projr (pjmedia_conf_create (\<lambda>_ _. 0) 0 0 4 16000 1 320 16)"

lemma demo_conf_create: "pjmedia_conf_create (\<lambda>_ _. 0) 0 0 4 16000 1 320 16 = Inr demo_conf"
  by (simp add: demo_conf_def pjmedia_conf_create_def create_pasv_port_def create_conf_port_def Let_def)

theorem conf_run_counters_witness:
  "let c = conf_run (\<lambda>_ _. 0) [AddPort demo_port None, Connect 1 0 0, Connect 0 1 0, RemovePort 3] demo_conf
   in unat (pjmedia_conf_get_connect_count c) = card (edges c)
    \<and> unat (pjmedia_conf_get_connect_count c) = 2"
proof -
  let ?c = "conf_run (\<lambda>_ _. 0) [AddPort demo_port None, Connect 1 0 0, Connect 0 1 0, RemovePort 3] demo_conf"
  have "unat (pjmedia_conf_get_connect_count ?c) = card (edges ?c)"
    using conf_run_counters [OF demo_conf_create, where rs = "\<lambda>_ _. 0"
        and cmds = "[AddPort demo_port None, Connect 1 0 0, Connect 0 1 0, RemovePort 3]"] by simp
  moreover have r4: "replicate 4 None = [None, None, None, None :: conf_port option]"
    by (simp add: eval_nat_numeral)
  moreover have "unat (pjmedia_conf_get_connect_count ?c) = 2"
    by (simp add: r4 conf_run_def demo_conf_def demo_port_def port_buf_cap_def pjmedia_conf_add_port_def
        pjmedia_conf_remove_port_def pjmedia_conf_create_def create_pasv_port_def create_conf_port_def
        Let_def pjmedia_conf_connect_port_def upd_port_def pjmedia_conf_get_connect_count_def)
  ultimately show ?thesis by simp
qed

section \<open>Single operations\<close>

text \<open>
  C29. Connecting two slots succeeds exactly when both are occupied and the level is at least -128; it then
  adds that one connection (a repeated connect adds nothing) and changes no other; a refused connect
  changes nothing at all.
\<close>

theorem conf_connect_graph:
  assumes "conf_ok c"
  shows "let r = pjmedia_conf_connect_port c a b lvl
    in (fst r = PJ_SUCCESS \<longleftrightarrow> a \<in> nodes c \<and> b \<in> nodes c \<and> lvl \<ge> -128)
     \<and> nodes (snd r) = nodes c
     \<and> (if fst r = PJ_SUCCESS then edges (snd r) = insert (a, b) (edges c)
        else fst r = PJ_EINVAL \<and> snd r = c)"
proof (cases "a \<in> nodes c \<and> b \<in> nodes c \<and> lvl \<ge> -128")
  case True
  then show ?thesis using connect_valid [OF assms, of a b lvl] by (simp add: Let_def)
next
  case False
  then show ?thesis using connect_invalid [OF False] by (auto simp: Let_def)
qed

lemma demo_conf_ok: "conf_ok demo_conf"
  using create_spec [OF demo_conf_create] by simp

theorem conf_connect_graph_witness:
  "fst (pjmedia_conf_connect_port demo_conf 0 3 0) = PJ_EINVAL
   \<and> snd (pjmedia_conf_connect_port demo_conf 0 0 0) \<noteq> demo_conf"
proof -
  have "fst (pjmedia_conf_connect_port demo_conf 0 3 0) = PJ_EINVAL" by code_simp
  moreover have n: "nodes demo_conf = {0}" "edges demo_conf = {}"
    using create_spec [OF demo_conf_create] by simp_all
  have "edges (snd (pjmedia_conf_connect_port demo_conf 0 0 0)) = {(0, 0)}"
    using conf_connect_graph [OF demo_conf_ok, of 0 0 0] n by (simp add: Let_def split: if_splits)
  then have "snd (pjmedia_conf_connect_port demo_conf 0 0 0) \<noteq> demo_conf" using n(2) by auto
  ultimately show ?thesis by simp
qed

text \<open>
  C30. Removing an occupied slot frees exactly that slot, drops exactly the connections into and out of
  it, and keeps the bridge consistent; removing a free or an out-of-range slot is refused without effect.
\<close>

theorem conf_remove_graph:
  assumes "conf_ok c"
  shows "let r = pjmedia_conf_remove_port c a
    in if a \<in> nodes c
       then fst r = PJ_SUCCESS \<and> conf_ok (snd r) \<and> nodes (snd r) = nodes c - {a}
          \<and> edges (snd r) = {(i, j) \<in> edges c. i \<noteq> a \<and> j \<noteq> a}
       else r = (PJ_EINVAL, c)"
proof (cases "a \<in> nodes c")
  case True
  have "edges c - ({a} \<times> UNIV \<union> UNIV \<times> {a}) = {(i, j) \<in> edges c. i \<noteq> a \<and> j \<noteq> a}" by auto
  then show ?thesis using remove_valid [OF assms True] True by (simp add: Let_def)
next
  case False
  then show ?thesis using remove_invalid [OF False] by (simp add: Let_def)
qed

theorem conf_remove_graph_witness:
  "fst (pjmedia_conf_remove_port demo_conf 0) = PJ_SUCCESS \<and> nodes (snd (pjmedia_conf_remove_port demo_conf 0)) = {}"
proof -
  have "nodes demo_conf = {0}" using create_spec [OF demo_conf_create] by simp
  then show ?thesis using conf_remove_graph [OF demo_conf_ok, of 0] by (simp add: Let_def)
qed

text \<open>
  Adding a port succeeds only into the lowest free slot, which then has no connection; a bridge that
  is full refuses with \<^verbatim>\<open>PJ_ETOOMANY\<close> (or refuses the format before that), and a failed addition
  leaves the bridge as it was.
\<close>

theorem conf_add_lowest:
  assumes "conf_ok c" "pjmedia_conf_add_port rs c p nm = ((st, i), c')"
  shows "(st = PJ_SUCCESS \<longrightarrow> i \<notin> nodes c \<and> (\<forall>j < i. j \<in> nodes c) \<and> nodes c' = insert i (nodes c)
            \<and> edges c' = edges c \<and> listeners c' i = [] \<and> transmitters c' i = 0)
    \<and> (st \<noteq> PJ_SUCCESS \<longrightarrow> c' = c)
    \<and> (card (nodes c) = max_ports c \<longrightarrow> st = PJ_ETOOMANY \<or> st = PJMEDIA_ENCCHANNEL)"
proof -
  note a = add_port_spec [OF assms]
  have "listeners c' i = [] \<and> transmitters c' i = 0" if st: "st = PJ_SUCCESS"
  proof -
    have i: "i \<in> nodes c'" "i \<notin> nodes c" "edges c' = edges c" "conf_ok c'" using a st by auto
    have no: "(i, j) \<notin> edges c'" "(j, i) \<notin> edges c'" for j
      using conf_inv_edge_nodes [OF assms(1)] i(2,3) by auto
    have "set (listeners c' i) = {}" using no(1) by (simp add: edges_iff set_eq_iff del: set_empty)
    moreover have "transmitters c' i = of_nat (card {k. (k, i) \<in> edges c'})"
      using i(1,4) by (simp add: conf_inv_def)
    ultimately show ?thesis using no(2) by simp
  qed
  moreover have "st = PJ_ETOOMANY \<or> st = PJMEDIA_ENCCHANNEL" if "card (nodes c) = max_ports c"
    using assms(2) that conf_ok_port_cnt [OF assms(1)]
    by (auto simp: pjmedia_conf_add_port_def Let_def split: if_splits)
  ultimately show ?thesis using a by (cases "st = PJ_SUCCESS") auto
qed

theorem conf_add_lowest_witness:
  "nodes (snd (pjmedia_conf_add_port (\<lambda>_ _. 0) demo_conf demo_port None)) = {0, 1}"
proof -
  have r: "fst (pjmedia_conf_add_port (\<lambda>_ _. 0) demo_conf demo_port None) = (0, 1)" by code_simp
  then have eq: "pjmedia_conf_add_port (\<lambda>_ _. 0) demo_conf demo_port None
      = ((0, 1), snd (pjmedia_conf_add_port (\<lambda>_ _. 0) demo_conf demo_port None))"
    by (metis prod.collapse)
  have "nodes demo_conf = {0}" using create_spec [OF demo_conf_create] by simp
  then show ?thesis using conf_add_lowest [OF demo_conf_ok eq] by auto
qed

end
