(* ===== verification/Pjsua_Api.thy ===== *)
theory Pjsua_Api
  imports Prelude Complex_Main
begin

text \<open>
  The interface between the PacketDial shim and pjsua: the data that crosses it and the record of
  the pjsua functions the shim calls. A function that can change pjsua's state takes that state,
  of type \<open>'e\<close>, and returns it; a function that only reads it is a plain function of it, with
  \<open>None\<close> for any status other than \<^verbatim>\<open>PJ_SUCCESS\<close> where the shim does not look at the status.
  The shim's definitions take such a record as their first argument; \<open>Pjsua_Model\<close> fills in the
  entries whose code is modelled. An output parameter is the value the caller's variable holds after
  the call (\<open>api_get_snd_dev\<close>: the two ids, -1 where nothing was stored).
\<close>

section \<open>Enumerations of pjsip and pjsua\<close>

datatype inv_state =
  INV_NULL | INV_CALLING | INV_INCOMING | INV_EARLY | INV_CONNECTING | INV_CONFIRMED | INV_DISCONNECTED

fun inv_code :: "inv_state \<Rightarrow> int" where
  "inv_code INV_NULL = 0"
| "inv_code INV_CALLING = 1"
| "inv_code INV_INCOMING = 2"
| "inv_code INV_EARLY = 3"
| "inv_code INV_CONNECTING = 4"
| "inv_code INV_CONFIRMED = 5"
| "inv_code INV_DISCONNECTED = 6"

datatype media_type = MEDIA_AUDIO | MEDIA_VIDEO | MEDIA_OTHER

datatype media_status =
  CALL_MEDIA_NONE | CALL_MEDIA_ACTIVE | CALL_MEDIA_LOCAL_HOLD | CALL_MEDIA_REMOTE_HOLD | CALL_MEDIA_ERROR

datatype evsub_state =
  EVSUB_NULL | EVSUB_SENT | EVSUB_ACCEPTED | EVSUB_PENDING | EVSUB_ACTIVE | EVSUB_TERMINATED | EVSUB_UNKNOWN

fun evsub_code :: "evsub_state \<Rightarrow> int" where
  "evsub_code EVSUB_NULL = 0"
| "evsub_code EVSUB_SENT = 1"
| "evsub_code EVSUB_ACCEPTED = 2"
| "evsub_code EVSUB_PENDING = 3"
| "evsub_code EVSUB_ACTIVE = 4"
| "evsub_code EVSUB_TERMINATED = 5"
| "evsub_code EVSUB_UNKNOWN = 6"

datatype rpid_activity = RPID_UNKNOWN | RPID_AWAY | RPID_BUSY

fun rpid_code :: "rpid_activity \<Rightarrow> int" where
  "rpid_code RPID_UNKNOWN = 0"
| "rpid_code RPID_AWAY = 1"
| "rpid_code RPID_BUSY = 2"

datatype transport_type = TP_UDP | TP_TCP | TP_TLS

datatype dtmf_kind = DTMF_RFC2833 | DTMF_SIP_INFO

text \<open>\<open>PJSUA_CALL_UNHOLD\<close>, the re-INVITE option the shim passes.\<close>

datatype reinvite_opt = CALL_UNHOLD

section \<open>Data the shim reads\<close>

record aud_dev =
  dev_name :: string
  input_count :: nat
  output_count :: nat
  dev_caps :: nat

record call_media_info =
  cm_type :: media_type
  cm_status :: media_status
  cm_conf_slot :: int

record call_info =
  cl_acc_id :: int
  cl_state :: inv_state
  cl_last_status :: int
  cl_remote_info :: string
  cl_media :: "call_media_info list"

record acc_info =
  ai_status :: int
  ai_status_text :: string
  ai_expires :: int
  ai_is_default :: int

record pres_info =
  pr_basic_open :: bool
  pr_activity :: rpid_activity
  pr_note :: string

record buddy_info =
  bi_uri :: string
  bi_sub_state :: evsub_state
  bi_term_reason :: string
  bi_pres :: "pres_info list"

record stream_info =
  si_type :: media_type
  si_encoding_name :: string

record time_val =
  tv_sec :: int
  tv_msec :: int

record stream_stat =
  ss_jitter_mean :: int
  ss_rx_pkt :: u32
  ss_rx_loss :: u32
  ss_tx_bytes :: u32
  ss_start :: time_val

section \<open>Data the shim writes\<close>

text \<open>The limit of accounts the project configures (engine_pjsip/pjproject_config_site.h); pjsua's default is 8.\<close>

abbreviation PJSUA_MAX_ACC :: nat where "PJSUA_MAX_ACC \<equiv> 4"
abbreviation PJSUA_ACC_MAX_PROXIES :: nat where "PJSUA_ACC_MAX_PROXIES \<equiv> 8"

text \<open>The settings \<open>pd_init\<close> changes from pjsua's defaults.\<close>

record ua_settings =
  ua_user_agent :: "string option"
  ua_max_calls :: nat
  ua_stun_srv :: "string option"
  ua_log_level :: nat
  ua_console_level :: nat
  ua_msg_logging :: bool
  ua_clock_rate :: nat
  ua_snd_clock_rate :: nat
  ua_ec_tail_len :: nat
  ua_no_vad :: bool

record tp_settings =
  tp_port :: nat
  tp_verify_server :: bool
  tp_verify_client :: bool
  tp_tlsv1_method :: bool

record acc_config =
  ac_id :: string
  ac_reg_uri :: string
  ac_publish_enabled :: bool
  ac_cred_realm :: string
  ac_cred_scheme :: string
  ac_cred_username :: string
  ac_cred_data :: string
  ac_proxy :: "string list"
  ac_transport_id :: int

record tone_digit =
  td_digit :: char
  td_on_msec :: nat
  td_off_msec :: nat
  td_volume :: nat

text \<open>
  A C \<^verbatim>\<open>float\<close> that takes part in comparisons only: its value, an infinity or not-a-number. Every
  comparison with not-a-number is false.
\<close>

datatype cfloat = NaN | PInf | NInf | Fin rat

fun cless :: "cfloat \<Rightarrow> cfloat \<Rightarrow> bool" where
  "cless NaN y = False"
| "cless x NaN = False"
| "cless PInf y = False"
| "cless x NInf = False"
| "cless NInf y = True"
| "cless x PInf = True"
| "cless (Fin a) (Fin b) = (a < b)"

section \<open>The functions of pjsua the shim calls\<close>

record 'e pjsua_api =
  api_strerror :: "int \<Rightarrow> string"
  api_msg_print :: "string \<Rightarrow> nat \<Rightarrow> string option"
  api_thread_is_registered :: "'e \<Rightarrow> bool"
  api_thread_register :: "'e \<Rightarrow> pj_status \<times> 'e"
  api_gettimeofday :: "'e \<Rightarrow> time_val"
  api_create :: "'e \<Rightarrow> pj_status \<times> 'e"
  api_init :: "ua_settings \<Rightarrow> 'e \<Rightarrow> pj_status \<times> 'e"
  api_register_module :: "'e \<Rightarrow> pj_status \<times> 'e"
  api_transport_create :: "transport_type \<Rightarrow> tp_settings \<Rightarrow> 'e \<Rightarrow> (pj_status \<times> int) \<times> 'e"
  api_start :: "'e \<Rightarrow> pj_status \<times> 'e"
  api_destroy :: "'e \<Rightarrow> pj_status \<times> 'e"

record 'e pjsua_aud_api = "'e pjsua_api" +
  api_enum_aud_devs :: "nat \<Rightarrow> 'e \<Rightarrow> pj_status \<times> aud_dev list"
  api_set_snd_dev :: "int \<Rightarrow> int \<Rightarrow> 'e \<Rightarrow> pj_status \<times> 'e"
  api_get_snd_dev :: "'e \<Rightarrow> pj_status \<times> int \<times> int"
  api_set_null_snd_dev :: "'e \<Rightarrow> pj_status \<times> 'e"
  api_set_ec :: "nat \<Rightarrow> nat \<Rightarrow> 'e \<Rightarrow> pj_status \<times> 'e"
  api_tonegen_create :: "nat \<Rightarrow> nat \<Rightarrow> nat \<Rightarrow> nat \<Rightarrow> 'e \<Rightarrow> (pj_status \<times> nat option) \<times> 'e"
  api_tonegen_play_digits :: "nat \<Rightarrow> tone_digit list \<Rightarrow> 'e \<Rightarrow> pj_status \<times> 'e"
  api_port_destroy :: "nat \<Rightarrow> 'e \<Rightarrow> pj_status \<times> 'e"
  api_conf_add_port :: "nat \<Rightarrow> 'e \<Rightarrow> (pj_status \<times> int) \<times> 'e"
  api_conf_remove_port :: "int \<Rightarrow> 'e \<Rightarrow> pj_status \<times> 'e"
  api_conf_connect :: "int \<Rightarrow> int \<Rightarrow> 'e \<Rightarrow> pj_status \<times> 'e"
  api_conf_disconnect :: "int \<Rightarrow> int \<Rightarrow> 'e \<Rightarrow> pj_status \<times> 'e"
  api_conf_adjust_tx_level :: "int \<Rightarrow> cfloat \<Rightarrow> 'e \<Rightarrow> pj_status \<times> 'e"
  api_recorder_create :: "string \<Rightarrow> 'e \<Rightarrow> (pj_status \<times> int) \<times> 'e"
  api_recorder_get_conf_port :: "int \<Rightarrow> 'e \<Rightarrow> int"
  api_recorder_destroy :: "int \<Rightarrow> 'e \<Rightarrow> pj_status \<times> 'e"
  api_enum_codecs :: "nat \<Rightarrow> 'e \<Rightarrow> string list option"
  api_codec_set_priority :: "string \<Rightarrow> nat \<Rightarrow> 'e \<Rightarrow> pj_status \<times> 'e"

record 'e pjsua_call_api = "'e pjsua_aud_api" +
  api_acc_add :: "acc_config \<Rightarrow> bool \<Rightarrow> 'e \<Rightarrow> (pj_status \<times> int) \<times> 'e"
  api_acc_del :: "int \<Rightarrow> 'e \<Rightarrow> pj_status \<times> 'e"
  api_acc_get_info :: "int \<Rightarrow> 'e \<Rightarrow> acc_info option"
  api_enum_accs :: "nat \<Rightarrow> 'e \<Rightarrow> int list option"
  api_enum_calls :: "nat \<Rightarrow> 'e \<Rightarrow> int list option"
  api_call_get_info :: "int \<Rightarrow> 'e \<Rightarrow> call_info option"
  api_call_get_conf_port :: "int \<Rightarrow> 'e \<Rightarrow> int"
  api_call_get_stream_info :: "int \<Rightarrow> nat \<Rightarrow> 'e \<Rightarrow> stream_info option"
  api_call_get_stream_stat :: "int \<Rightarrow> nat \<Rightarrow> 'e \<Rightarrow> stream_stat option"
  api_call_make_call :: "int \<Rightarrow> string \<Rightarrow> 'e \<Rightarrow> (pj_status \<times> int) \<times> 'e"
  api_call_answer :: "int \<Rightarrow> nat \<Rightarrow> 'e \<Rightarrow> pj_status \<times> 'e"
  api_call_hangup :: "int \<Rightarrow> nat \<Rightarrow> 'e \<Rightarrow> pj_status \<times> 'e"
  api_call_set_hold :: "int \<Rightarrow> 'e \<Rightarrow> pj_status \<times> 'e"
  api_call_reinvite :: "int \<Rightarrow> reinvite_opt \<Rightarrow> 'e \<Rightarrow> pj_status \<times> 'e"
  api_call_xfer :: "int \<Rightarrow> string \<Rightarrow> 'e \<Rightarrow> pj_status \<times> 'e"
  api_call_send_dtmf :: "int \<Rightarrow> dtmf_kind \<Rightarrow> string \<Rightarrow> 'e \<Rightarrow> pj_status \<times> 'e"
  api_call_dial_dtmf :: "int \<Rightarrow> string \<Rightarrow> 'e \<Rightarrow> pj_status \<times> 'e"
  api_enum_buddies :: "nat \<Rightarrow> 'e \<Rightarrow> int list option"
  api_buddy_get_info :: "int \<Rightarrow> 'e \<Rightarrow> buddy_info option"
  api_buddy_add :: "string \<Rightarrow> bool \<Rightarrow> 'e \<Rightarrow> (pj_status \<times> int) \<times> 'e"
  api_buddy_del :: "int \<Rightarrow> 'e \<Rightarrow> pj_status \<times> 'e"

type_synonym 'e pjsua = "'e pjsua_call_api"

text \<open>\<^verbatim>\<open>pj_strerror(st, buf, n)\<close>: the message of a status, cut to the buffer.\<close>

definition pj_strerror :: "'e pjsua \<Rightarrow> int \<Rightarrow> nat \<Rightarrow> string" where
  "pj_strerror P st n = c_trunc n (api_strerror P st)"

end
