(* ===== verification/Pj_Time.thy ===== *)
theory Pj_Time
  imports Pjsua_Api
begin

text \<open>
  Time values of pjlib and their normalisation (pjlib/src/pj/types.c), without the limits of C's \<^verbatim>\<open>long\<close>;
  \<open>Pj_Long\<close> has the same code with them, and says when the two agree.
\<close>

function carry_msec :: "int \<Rightarrow> int \<Rightarrow> int \<times> int" where
  "carry_msec sec msec = (if msec \<le> -1000 then carry_msec (sec - 1) (msec + 1000) else (sec, msec))"
  by pat_completeness auto
termination by (relation "measure (\<lambda>(sec, msec). nat (- msec))") auto

declare carry_msec.simps [simp del]

definition pj_time_val_normalize :: "time_val \<Rightarrow> time_val" where
  "pj_time_val_normalize t =
     (let (sec, msec) =
        (if tv_msec t \<ge> 1000 then (tv_sec t + tv_msec t div 1000, tv_msec t mod 1000)
         else if tv_msec t \<le> -1000 then carry_msec (tv_sec t) (tv_msec t)
         else (tv_sec t, tv_msec t))
      in if sec \<ge> 1 \<and> msec < 0 then \<lparr>tv_sec = sec - 1, tv_msec = msec + 1000\<rparr>
         else if sec < 0 \<and> msec > 0 then \<lparr>tv_sec = sec + 1, tv_msec = msec - 1000\<rparr>
         else \<lparr>tv_sec = sec, tv_msec = msec\<rparr>)"

lemma carry_msec_spec:
  "carry_msec sec msec = (s, m) \<Longrightarrow> s * 1000 + m = sec * 1000 + msec \<and> -1000 < m \<and> (msec \<le> 0 \<longrightarrow> m \<le> 0)"
proof (induction sec msec arbitrary: s m rule: carry_msec.induct)
  case (1 sec msec)
  show ?case
  proof (cases "msec \<le> -1000")
    case True
    then have "carry_msec (sec - 1) (msec + 1000) = (s, m)" using "1.prems" carry_msec.simps [of sec msec] by simp
    from "1.IH" [OF True this] True show ?thesis by simp
  next
    case False
    then have "s = sec" "m = msec" using "1.prems" carry_msec.simps [of sec msec] by simp_all
    then show ?thesis using False by simp
  qed
qed

lemma normalize_spec:
  "let n = pj_time_val_normalize t
   in tv_sec n * 1000 + tv_msec n = tv_sec t * 1000 + tv_msec t \<and> \<bar>tv_msec n\<bar> < 1000
    \<and> \<not> (0 < tv_sec n \<and> tv_msec n < 0) \<and> \<not> (tv_sec n < 0 \<and> 0 < tv_msec n)"
proof -
  obtain sec msec where c: "(if tv_msec t \<ge> 1000 then (tv_sec t + tv_msec t div 1000, tv_msec t mod 1000)
         else if tv_msec t \<le> -1000 then carry_msec (tv_sec t) (tv_msec t)
         else (tv_sec t, tv_msec t)) = (sec, msec)" (is "?c = _") by (metis surj_pair)
  have m: "sec * 1000 + msec = tv_sec t * 1000 + tv_msec t \<and> -1000 < msec \<and> msec < 1000"
  proof (cases "tv_msec t \<ge> 1000")
    case True
    have e: "1000 * (tv_msec t div 1000) + tv_msec t mod 1000 = tv_msec t" by simp
    have "0 \<le> tv_msec t mod 1000 \<and> tv_msec t mod 1000 < 1000" by simp
    moreover have "sec = tv_sec t + tv_msec t div 1000" "msec = tv_msec t mod 1000" using c True by simp_all
    ultimately show ?thesis using e by (auto simp: algebra_simps)
  next
    case F: False
    show ?thesis
    proof (cases "tv_msec t \<le> -1000")
      case True
      then have "carry_msec (tv_sec t) (tv_msec t) = (sec, msec)" using c by simp
      from carry_msec_spec [OF this] True show ?thesis by auto
    qed (use c F in auto)
  qed
  have n: "pj_time_val_normalize t =
      (if sec \<ge> 1 \<and> msec < 0 then \<lparr>tv_sec = sec - 1, tv_msec = msec + 1000\<rparr>
       else if sec < 0 \<and> msec > 0 then \<lparr>tv_sec = sec + 1, tv_msec = msec - 1000\<rparr>
       else \<lparr>tv_sec = sec, tv_msec = msec\<rparr>)"
    unfolding pj_time_val_normalize_def c by simp
  show ?thesis using m unfolding n Let_def by (auto simp: algebra_simps)
qed

end
