(* ===== verification/Pjsua_Acc_Data.thy ===== *)
theory Pjsua_Acc_Data
  imports Pj_Time
begin

unbundle bit_operations_syntax

text \<open>
  The data of pjsua's accounts (pjsua.h, pjsua_internal.h): URIs, the transport table of
  sip_transport.c, account configurations with their defaults, accounts, and what a registration
  callback is given.
\<close>

section \<open>URIs\<close>

datatype uri_scheme = SCHEME_SIP | SCHEME_SIPS | SCHEME_OTHER

text \<open>
  A parsed URI or name-addr: the fields the modelled code reads; \<open>su_port\<close> is 0 when absent. The
  other parameters of the URI are \<open>su_rest\<close>.
\<close>

record sip_uri =
  su_scheme :: uri_scheme
  su_display :: string
  su_user :: string
  su_host :: string
  su_port :: int
  su_lr :: bool
  su_rest :: string

definition is_sip_uri :: "sip_uri \<Rightarrow> bool" where
  "is_sip_uri u \<longleftrightarrow> su_scheme u = SCHEME_SIP \<or> su_scheme u = SCHEME_SIPS"

text \<open>\<^verbatim>\<open>pj_stricmp\<close> and \<^verbatim>\<open>pj_stristr\<close>, for their use as tests.\<close>

definition same_nocase :: "string \<Rightarrow> string \<Rightarrow> bool" where
  "same_nocase s t \<longleftrightarrow> map pj_tolower s = map pj_tolower t"

fun stristr :: "string \<Rightarrow> string \<Rightarrow> bool" where
  "stristr [] sub = False"
| "stristr (c # s) sub = (same_nocase (take (length sub) (c # s)) sub \<or> stristr s sub)"

text \<open>
  \<^verbatim>\<open>pj_strtoul\<close>, assigned to an unsigned int: the leading decimal digits, modulo \<open>2 ^ 32\<close>.
\<close>

definition digit_val :: "char \<Rightarrow> nat option" where
  "digit_val c = (let n = (of_char c :: nat) in if 48 \<le> n \<and> n \<le> 57 then Some (n - 48) else None)"

fun strtoul_from :: "u32 \<Rightarrow> string \<Rightarrow> u32" where
  "strtoul_from acc [] = acc"
| "strtoul_from acc (c # s) =
     (case digit_val c of None \<Rightarrow> acc | Some d \<Rightarrow> strtoul_from (acc * 10 + of_nat d) s)"

definition pj_strtoul :: "string \<Rightarrow> u32" where
  "pj_strtoul s = strtoul_from 0 s"

section \<open>Transport types\<close>

text \<open>
  A \<^verbatim>\<open>pjsip_transport_type_e\<close> is its number, with the bit 128 for IPv6. The rows of the table of
  transports are the default port, the name and whether it is secure.
\<close>

abbreviation TP_TYPE_UNSPECIFIED :: nat where "TP_TYPE_UNSPECIFIED \<equiv> 0"
abbreviation TP_TYPE_UDP :: nat where "TP_TYPE_UDP \<equiv> 1"
abbreviation TP_TYPE_IPV6 :: nat where "TP_TYPE_IPV6 \<equiv> 128"
abbreviation TP_TYPE_UDP6 :: nat where "TP_TYPE_UDP6 \<equiv> 129"

definition tp_row :: "nat \<Rightarrow> int \<times> string \<times> bool" where
  "tp_row t =
     (if t = 1 \<or> t = 129 then (5060, ''UDP'', False)
      else if t = 2 \<or> t = 130 then (5060, ''TCP'', False)
      else if t = 3 \<or> t = 131 then (5061, ''TLS'', True)
      else if t = 4 \<or> t = 132 then (5061, ''DTLS'', True)
      else if t = 5 then (5060, ''SCTP'', False)
      else if t = 6 then (15060, ''LOOP'', False)
      else if t = 7 then (15060, ''LOOP-DGRAM'', False)
      else (0, ''Unspecified'', False))"

section \<open>Configurations\<close>

record cred_info =
  cred_realm :: string
  cred_scheme :: string
  cred_username :: string
  cred_data :: string

text \<open>How a call is put on hold: by the direction of its media, or with the address 0.0.0.0.\<close>

datatype hold_type = HOLD_RFC3264 | HOLD_RFC2543

text \<open>
  \<^verbatim>\<open>pjsua_acc_config\<close>: what the shim sets and the other fields the modelled functions read. The
  bounds of the retry intervals are those of the defaults: their product with 1000 does not wrap.
\<close>

record pjsua_acc_config = acc_config +
  ac_priority :: int
  ac_register_on_acc_add :: bool
  ac_reg_timeout :: nat
  ac_reg_delay_before_refresh :: nat
  ac_reg_use_proxy :: nat
  ac_reg_hdr_list :: "(string \<times> string) list"
  ac_reg_retry_interval :: nat
  ac_reg_first_retry_interval :: nat
  ac_reg_retry_random_interval :: nat
  ac_drop_calls_on_reg_fail :: bool
  ac_mwi_enabled :: bool
  ac_ka_interval :: u32
  ac_ka_data :: string
  ac_allow_contact_rewrite :: nat
  ac_contact_rewrite_method :: nat
  ac_allow_via_rewrite :: bool
  ac_allow_sdp_nat_rewrite :: bool
  ac_use_rfc5626 :: bool
  ac_rfc5626_instance_id :: string
  ac_rfc5626_reg_id :: string
  ac_contact_params :: string
  ac_contact_uri_params :: string
  ac_reg_contact_params :: string
  ac_reg_contact_uri_params :: string
  ac_sip_stun :: bool
  ac_sip_upnp :: bool
  ac_ice_default :: bool
  ac_enable_ice :: bool
  ac_call_hold_type :: hold_type

definition pjsua_acc_config_default :: pjsua_acc_config where
  "pjsua_acc_config_default = \<lparr>
     ac_id = [], ac_reg_uri = [], ac_publish_enabled = False, ac_cred_realm = [], ac_cred_scheme = [],
     ac_cred_username = [], ac_cred_data = [], ac_proxy = [], ac_transport_id = PJSUA_INVALID_ID,
     ac_priority = 0, ac_register_on_acc_add = True, ac_reg_timeout = 300, ac_reg_delay_before_refresh = 5,
     ac_reg_use_proxy = 3, ac_reg_hdr_list = [], ac_reg_retry_interval = 300, ac_reg_first_retry_interval = 0,
     ac_reg_retry_random_interval = 10, ac_drop_calls_on_reg_fail = False, ac_mwi_enabled = False,
     ac_ka_interval = 15, ac_ka_data = [CHR 0x0D, CHR 0x0A], ac_allow_contact_rewrite = 1,
     ac_contact_rewrite_method = 2 OR 4, ac_allow_via_rewrite = True, ac_allow_sdp_nat_rewrite = False,
     ac_use_rfc5626 = True, ac_rfc5626_instance_id = [], ac_rfc5626_reg_id = [], ac_contact_params = [],
     ac_contact_uri_params = [], ac_reg_contact_params = [], ac_reg_contact_uri_params = [],
     ac_sip_stun = True, ac_sip_upnp = True, ac_ice_default = True, ac_enable_ice = False,
     ac_call_hold_type = HOLD_RFC3264\<rparr>"

text \<open>The configuration the shim passes: the defaults with what it sets.\<close>

definition with_defaults :: "acc_config \<Rightarrow> pjsua_acc_config" where
  "with_defaults cfg = acc_config.extend cfg (acc_config.more pjsua_acc_config_default)"

definition cfg_cred :: "pjsua_acc_config \<Rightarrow> cred_info" where
  "cfg_cred c = \<lparr>cred_realm = ac_cred_realm c, cred_scheme = ac_cred_scheme c,
     cred_username = ac_cred_username c, cred_data = ac_cred_data c\<rparr>"

text \<open>The fields of \<^verbatim>\<open>pjsua_var.ua_cfg\<close> and of the media settings the account code reads.\<close>

record ua_config =
  uc_force_lr :: bool
  uc_user_agent :: string
  uc_creds :: "cred_info list"
  uc_enable_ice :: bool
  uc_stun_srv_cnt :: nat
  uc_upnp_ready :: bool

section \<open>Accounts\<close>

datatype outbound_status = OUTBOUND_UNKNOWN | OUTBOUND_WANTED | OUTBOUND_ACTIVE | OUTBOUND_NA

datatype ip_change_op =
  IP_OP_NULL | IP_OP_RESTART_LIS | IP_OP_SHUTDOWN_TP | IP_OP_UPDATE_CONTACT | IP_OP_HANGUP_CALLS
| IP_OP_REINVITE_CALLS | IP_OP_COMPLETED

text \<open>
  \<^verbatim>\<open>pjsua_acc\<close>. The client registration and transports are handles (\<open>None\<close> for NULL); the timers
  are the flag \<^verbatim>\<open>id\<close> of their entries. Publication, presence and message-waiting sessions belong to
  modules that are not modelled.
\<close>

record pjsua_acc =
  a_valid :: bool
  a_cfg :: pjsua_acc_config
  a_display :: string
  a_user_part :: string
  a_is_sips :: bool
  a_contact :: string
  a_reg_contact :: string
  a_contact_rewritten :: bool
  a_via_host :: string
  a_via_port :: int
  a_via_tp :: "nat option"
  a_srv_domain :: string
  a_srv_port :: int
  a_regc :: "nat option"
  a_reg_last_err :: pj_status
  a_reg_last_code :: int
  a_reg_mapped_addr :: string
  a_rereg_active :: bool
  a_rereg_timer :: bool
  a_rereg_attempt_cnt :: u32
  a_ka_timer :: bool
  a_ka_transport :: "nat option"
  a_ka_target :: string
  a_route_set :: "sip_uri list"
  a_rfc5626_status :: outbound_status
  a_rfc5626_instprm :: string
  a_rfc5626_regprm :: string
  a_rfc5626_flowtmr :: u32
  a_cred :: "cred_info list"
  a_tp_type :: nat
  a_ip_change_op :: ip_change_op

section \<open>Responses\<close>

text \<open>
  What the registration code reads of a received response: its transport (handle and type), the top
  Via, the source address, the values of Require, the Service-Route headers in order, Flow-Timer, and
  the destination of the request it answers (\<open>None\<close> without a transaction).
\<close>

record rx_data =
  rx_tp :: nat
  rx_tp_type :: nat
  rx_via_host :: string
  rx_via_port :: int
  rx_recvd_param :: string
  rx_rport_param :: int
  rx_src_name :: string
  rx_require :: "string list option"
  rx_service_route :: "string list"
  rx_flow_timer :: "string option"
  rx_req_dst :: "string option"

record regc_cbparam =
  rp_regc :: nat
  rp_status :: pj_status
  rp_code :: int
  rp_expiration :: nat
  rp_rdata :: rx_data

text \<open>What the account code sets on a client registration, and the timers pjsua starts, each for an account or a call.\<close>

datatype regc_op =
  RegcTsxCb | RegcTransport int | RegcCredentials "cred_info list" | RegcDelay nat | RegcPrefs
| RegcRouteSet "sip_uri list" | RegcHeaders "(string \<times> string) list" | RegcContact string
| RegcViaSentBy "(string \<times> int \<times> nat option) option" | RegcLocalVia | RegcReleaseTransport

datatype pj_timer = ReregTimer nat | KeepAliveTimer nat | IpChangeTimer nat | HangupTimer nat | ReinviteTimer nat

end
