(* ===== verification/Pjsua_Call_Data.thy ===== *)
theory Pjsua_Call_Data
  imports Pjsua_Acc_Data
begin

text \<open>
  The data of pjsua's calls (pjsua.h, pjsua_internal.h): call settings and their flags, answers that
  wait for the media, the callbacks of an asynchronous media set-up, session descriptions as far as
  putting a call on hold changes them, and what pjsua reports to the application.
\<close>

section \<open>Status codes\<close>

abbreviation PJ_EPENDING :: pj_status where "PJ_EPENDING \<equiv> 70002"
abbreviation PJ_EBUSY :: pj_status where "PJ_EBUSY \<equiv> 70011"
abbreviation PJSIP_EINVALIDREQURI :: pj_status where "PJSIP_EINVALIDREQURI \<equiv> 171042"
abbreviation PJSIP_ESESSIONTERMINATED :: pj_status where "PJSIP_ESESSIONTERMINATED \<equiv> 171140"
abbreviation PJSIP_ESESSIONSTATE :: pj_status where "PJSIP_ESESSIONSTATE \<equiv> 171141"
abbreviation PJMEDIA_SDPNEG_ENOMEDIA :: pj_status where "PJMEDIA_SDPNEG_ENOMEDIA \<equiv> 220048"

section \<open>Call settings\<close>

abbreviation CALL_FLAG_UNHOLD :: u32 where "CALL_FLAG_UNHOLD \<equiv> 1"
abbreviation CALL_FLAG_UPDATE_CONTACT :: u32 where "CALL_FLAG_UPDATE_CONTACT \<equiv> 2"
abbreviation CALL_FLAG_INCLUDE_DISABLED_MEDIA :: u32 where "CALL_FLAG_INCLUDE_DISABLED_MEDIA \<equiv> 4"
abbreviation CALL_FLAG_NO_SDP_OFFER :: u32 where "CALL_FLAG_NO_SDP_OFFER \<equiv> 8"
abbreviation CALL_FLAG_REINIT_MEDIA :: u32 where "CALL_FLAG_REINIT_MEDIA \<equiv> 16"
abbreviation CALL_FLAG_UPDATE_VIA :: u32 where "CALL_FLAG_UPDATE_VIA \<equiv> 32"
abbreviation CALL_FLAG_UPDATE_TARGET :: u32 where "CALL_FLAG_UPDATE_TARGET \<equiv> 64"
abbreviation CALL_FLAG_SET_MEDIA_DIR :: u32 where "CALL_FLAG_SET_MEDIA_DIR \<equiv> 128"

text \<open>
  \<^verbatim>\<open>pjsua_call_setting\<close>, without video, which the build leaves out, and without the directions \<^verbatim>\<open>media_dir\<close>, which only
  the media channels read.
\<close>

record call_setting =
  opt_flag :: u32
  opt_aud_cnt :: nat

definition has_flag :: "u32 \<Rightarrow> u32 \<Rightarrow> bool" where
  "has_flag flags f \<longleftrightarrow> flags AND f \<noteq> 0"

definition pjsua_call_setting_default :: call_setting where
  "pjsua_call_setting_default = \<lparr>opt_flag = CALL_FLAG_INCLUDE_DISABLED_MEDIA, opt_aud_cnt = 1\<rparr>"

definition pjsua_call_cleanup_flag :: "call_setting \<Rightarrow> call_setting" where
  "pjsua_call_cleanup_flag opt = opt\<lparr>opt_flag := opt_flag opt AND
     NOT (CALL_FLAG_UNHOLD OR CALL_FLAG_UPDATE_CONTACT OR CALL_FLAG_NO_SDP_OFFER OR CALL_FLAG_REINIT_MEDIA
          OR CALL_FLAG_UPDATE_VIA OR CALL_FLAG_SET_MEDIA_DIR)\<rparr>"

text \<open>An answer that waits for the media or for the initial response: its setting and status code.\<close>

type_synonym call_answer = "call_setting option \<times> int"

text \<open>The function \<^verbatim>\<open>med_ch_cb\<close> points to.\<close>

datatype med_cb = MakeCallCb | IncomingCallCb | AnswerCallCb

section \<open>Session descriptions\<close>

text \<open>The address of a \<^verbatim>\<open>c=\<close> line, if there is one, and the names of the attributes, in order.\<close>

record sdp_media =
  m_conn :: "string option"
  m_attrs :: "string list"

record sdp_session =
  s_conn :: "string option"
  s_media :: "sdp_media list"

section \<open>What the application is told\<close>

datatype app_event =
  AppIncomingCall int int
| AppCallState int inv_state
| AppCallMediaState int

end
