(* ===== verification/Pjsua_Vars.thy ===== *)
theory Pjsua_Vars
  imports Conf_Laws Pjsua_Acc_Data Pjsua_Call_Data
begin

text \<open>
  The part of pjsua's global state (\<^verbatim>\<open>pjsua_var\<close>, pjsua_internal.h) the modelled functions of
  pjsua_aud.c, pjsua_call.c and pjsua_pres.c work on, and the parameter that stands for the modules
  below them: sound device streams, the null sound device, WAV writers and resamplers, whose state
  is \<open>ext\<close>; \<open>app_log\<close> records the callbacks of calls, in order. Memory pools and locks always succeed and are not modelled. The bridge is the conference
  bridge, not the audio switchboard (\<open>is_mswitch\<close> is false), as the build configures it.
\<close>

section \<open>State\<close>

text \<open>\<^verbatim>\<open>pjsua_file_data\<close> of a recorder; \<open>port\<close> is NULL in a free entry.\<close>

record rec_data =
  rd_port :: "media_port option"
  rd_slot :: nat

record snd_mode =
  speaker_only :: bool
  no_immediate_open :: bool

text \<open>
  \<^verbatim>\<open>pjsua_call\<close>. The INVITE session is its state (\<open>None\<close> when NULL), its cause code and role;
  \<open>call_attached\<close> is whether the dialog and the session point back to the call (\<^verbatim>\<open>mod_data\<close>);
  \<open>call_async_dlg\<close> is whether \<^verbatim>\<open>async_call.dlg\<close> is set; timers are the flag \<^verbatim>\<open>id\<close> of their entries.
  \<open>call_media\<close> is the live prefix of the media array, \<open>media_dirs\<close> the directions of its entries. The two
  flags \<^verbatim>\<open>hangup\<close>, of outgoing and of incoming calls, are separate fields. Texts and times are left out.
\<close>

record pjsua_call =
  call_acc_id :: int
  call_inv :: "inv_state option"
  call_inv_cause :: int
  call_role_uas :: bool
  call_attached :: bool
  call_async_dlg :: bool
  hanging_up :: bool
  last_code :: int
  rem_info_str :: string
  audio_idx :: int
  call_media :: "call_media_info list"
  media_dirs :: "nat list"
  call_opt :: call_setting
  opt_inited :: bool
  secure_level :: int
  call_hold_type :: hold_type
  local_hold :: bool
  hold_msg :: bool
  med_cnt :: nat
  med_prov_cnt :: nat
  med_update_success :: bool
  med_ch_cb :: "med_cb option"
  med_ch_deinit :: bool
  out_hangup :: bool
  inc_hangup :: bool
  inc_answers :: "call_answer list"
  replaced_dlg :: "nat option"
  xfer_sub :: bool
  reinv_timer :: bool
  reinv_pending :: bool
  incoming_data :: bool
  hangup_timer :: bool
  hangup_retry :: u32
  hangup_code :: int

text \<open>A call as \<^verbatim>\<open>reset_call\<close> leaves it.\<close>

definition blank_call :: pjsua_call where
  "blank_call = \<lparr>
     call_acc_id = 0, call_inv = None, call_inv_cause = 0, call_role_uas = False, call_attached = False,
     call_async_dlg = False, hanging_up = False, last_code = 0, rem_info_str = [], audio_idx = 0,
     call_media = [], media_dirs = replicate 16 0, call_opt = pjsua_call_setting_default, opt_inited = False,
     secure_level = 0, call_hold_type = HOLD_RFC3264, local_hold = False, hold_msg = False, med_cnt = 0,
     med_prov_cnt = 0, med_update_success = False, med_ch_cb = None, med_ch_deinit = False, out_hangup = False,
     inc_hangup = False, inc_answers = [], replaced_dlg = None, xfer_sub = False, reinv_timer = False,
     reinv_pending = False, incoming_data = False, hangup_timer = False, hangup_retry = 0, hangup_code = 0\<rparr>"

text \<open>\<^verbatim>\<open>pjsua_buddy\<close>: a free entry has an empty URI.\<close>

record pjsua_buddy =
  bd_uri :: string
  bd_monitor :: bool

record 'x pjsua_var =
  calls :: "pjsua_call list"
  call_cnt :: u32
  next_call_id :: int
  thread_quit_flag :: bool
  app_log :: "app_event list"
  buddies :: "pjsua_buddy list"
  buddy_cnt :: u32
  mconf :: pjmedia_conf
  cap_dev :: int
  play_dev :: int
  no_snd :: bool
  snd_port :: bool
  snd_idle_timer :: bool
  null_snd :: bool
  snd_is_on :: bool
  snd_mode :: snd_mode
  media_clock_rate :: nat
  media_snd_clock_rate :: nat
  ec_tail_len :: nat
  ec_options :: nat
  snd_auto_close_time :: int
  rec_cnt :: u32
  recorder :: "rec_data list"
  accounts :: "pjsua_acc list"
  acc_cnt :: u32
  acc_ids :: "nat list"
  default_acc :: int
  tpdata :: "nat option list"
  outbound_proxy :: "sip_uri list"
  ua_cfg :: ua_config
  ext :: 'x

type_synonym ('x, 'a) pv_m = "('x pjsua_var, 'a) state"

abbreviation PJSUA_MAX_RECORDERS :: nat where "PJSUA_MAX_RECORDERS \<equiv> 32"
abbreviation PJSUA_MAX_BUDDIES :: nat where "PJSUA_MAX_BUDDIES \<equiv> 256"
abbreviation PJ_MAXPATH :: nat where "PJ_MAXPATH \<equiv> 260"
abbreviation SND_DEFAULT_CAPTURE_DEV :: int where "SND_DEFAULT_CAPTURE_DEV \<equiv> -1"
abbreviation SND_DEFAULT_PLAYBACK_DEV :: int where "SND_DEFAULT_PLAYBACK_DEV \<equiv> -2"
abbreviation SND_NO_DEV :: int where "SND_NO_DEV \<equiv> -3"
abbreviation SND_NULL_DEV :: int where "SND_NULL_DEV \<equiv> -99"

section \<open>The modules below\<close>

text \<open>
  \<open>hw_snd_open only rec play rate tail opts\<close> is \<^verbatim>\<open>pjmedia_snd_port_create2\<close> for playback only or for
  both directions, \<open>hw_snd_close\<close> disconnects and destroys that port, \<open>hw_rec_name\<close> is the name of
  the capture device of the open stream, if it can be had. \<open>hw_uri_ok\<close> is the status of parsing a
  buddy's URI, \<open>hw_subscribe_pres\<close> starts or ends its presence subscription.

  For accounts: the parsers and printers of URIs and of Contact and Route headers (a Route value may hold
  several, so a non-empty list), escaping, parsing and comparing addresses, status phrases, random numbers
  (\<^verbatim>\<open>pj_rand\<close>, not negative), timers, references to transports, the client registration sessions of
  sip_reg.c (\<open>hw_regc_*\<close>) and the presence, publication and message-waiting sessions of an account.
  Sending a request only sends it: its outcome arrives later, as a call of the registration callback.
\<close>

record 'x hw =
  hw_dev_count :: "'x \<Rightarrow> nat"
  hw_dev_info :: "nat \<Rightarrow> 'x \<Rightarrow> pj_status \<times> aud_dev"
  hw_default_param :: "int \<Rightarrow> 'x \<Rightarrow> pj_status"
  hw_snd_open :: "bool \<Rightarrow> int \<Rightarrow> int \<Rightarrow> nat \<Rightarrow> nat \<Rightarrow> nat \<Rightarrow> 'x \<Rightarrow> pj_status \<times> 'x"
  hw_resample_port :: "nat \<Rightarrow> 'x \<Rightarrow> pj_status"
  hw_snd_connect :: "'x \<Rightarrow> pj_status \<times> 'x"
  hw_snd_close :: "'x \<Rightarrow> 'x"
  hw_rec_name :: "'x \<Rightarrow> string option"
  hw_set_ec :: "nat \<Rightarrow> nat \<Rightarrow> 'x \<Rightarrow> pj_status \<times> 'x"
  hw_null_create :: "'x \<Rightarrow> pj_status \<times> 'x"
  hw_null_start :: "'x \<Rightarrow> pj_status \<times> 'x"
  hw_null_destroy :: "'x \<Rightarrow> 'x"
  hw_wav_create :: "string \<Rightarrow> 'x \<Rightarrow> (pj_status \<times> media_port) \<times> 'x"
  hw_port_destroy :: "media_port \<Rightarrow> 'x \<Rightarrow> 'x"
  hw_port :: "nat \<Rightarrow> 'x \<Rightarrow> media_port"
  hw_resampler :: "nat \<Rightarrow> nat \<Rightarrow> pj_status"
  hw_uri_ok :: "string \<Rightarrow> 'x \<Rightarrow> pj_status"
  hw_thread_known :: "'x \<Rightarrow> bool"
  hw_thread_register :: "'x \<Rightarrow> pj_status \<times> 'x"
  hw_subscribe_pres :: "int \<Rightarrow> bool \<Rightarrow> 'x \<Rightarrow> 'x"
  hw_parse_uri :: "string \<Rightarrow> sip_uri option"
  hw_print_route :: "sip_uri \<Rightarrow> string option"
  hw_print_contact :: "sip_uri \<Rightarrow> string option"
  hw_parse_contact :: "string \<Rightarrow> sip_uri"
  hw_parse_route :: "string \<Rightarrow> (sip_uri \<times> sip_uri list) option"
  hw_escape_user :: "string \<Rightarrow> string"
  hw_addr_status :: "string \<Rightarrow> pj_status"
  hw_same_addr :: "string \<Rightarrow> string \<Rightarrow> bool"
  hw_status_text :: "int \<Rightarrow> string"
  hw_hostname_hash :: u32
  hw_rand :: "'x \<Rightarrow> nat \<times> 'x"
  hw_schedule_timer :: "pj_timer \<Rightarrow> time_val \<Rightarrow> 'x \<Rightarrow> pj_status \<times> 'x"
  hw_cancel_timer :: "pj_timer \<Rightarrow> 'x \<Rightarrow> 'x"
  hw_tp_add_ref :: "nat \<Rightarrow> 'x \<Rightarrow> 'x"
  hw_tp_dec_ref :: "nat \<Rightarrow> 'x \<Rightarrow> 'x"
  hw_tp_shutdown :: "nat \<Rightarrow> 'x \<Rightarrow> 'x"
  hw_send_raw :: "nat \<Rightarrow> string \<Rightarrow> string \<Rightarrow> 'x \<Rightarrow> 'x"
  hw_uac_contact :: "int \<Rightarrow> string \<Rightarrow> 'x \<Rightarrow> pj_status \<times> string"
  hw_regc_create :: "int \<Rightarrow> 'x \<Rightarrow> (pj_status \<times> nat) \<times> 'x"
  hw_regc_init :: "nat \<Rightarrow> string \<Rightarrow> string \<Rightarrow> string \<Rightarrow> nat \<Rightarrow> 'x \<Rightarrow> pj_status \<times> 'x"
  hw_regc_set :: "nat \<Rightarrow> regc_op \<Rightarrow> 'x \<Rightarrow> 'x"
  hw_regc_destroy :: "nat \<Rightarrow> bool \<Rightarrow> 'x \<Rightarrow> pj_status \<times> 'x"
  hw_regc_register :: "nat \<Rightarrow> 'x \<Rightarrow> pj_status \<times> 'x"
  hw_regc_unregister :: "nat \<Rightarrow> 'x \<Rightarrow> pj_status \<times> 'x"
  hw_regc_send :: "nat \<Rightarrow> 'x \<Rightarrow> pj_status \<times> 'x"
  hw_regc_next_reg :: "nat \<Rightarrow> 'x \<Rightarrow> u32"
  hw_regc_transport :: "nat \<Rightarrow> 'x \<Rightarrow> nat option"
  hw_pres_init_acc :: "int \<Rightarrow> 'x \<Rightarrow> pj_status \<times> 'x"
  hw_pres_delete_acc :: "int \<Rightarrow> 'x \<Rightarrow> 'x"
  hw_publishing :: "int \<Rightarrow> 'x \<Rightarrow> bool"
  hw_publish :: "int \<Rightarrow> 'x \<Rightarrow> 'x"
  hw_publish_via :: "int \<Rightarrow> string \<times> int \<times> nat option \<Rightarrow> 'x \<Rightarrow> 'x"
  hw_unpublish :: "int \<Rightarrow> 'x \<Rightarrow> 'x"
  hw_start_mwi :: "int \<Rightarrow> bool \<Rightarrow> 'x \<Rightarrow> 'x"

text \<open>Lifting a function of the bridge, and one of the modules below, to the whole state.\<close>

definition on_conf :: "(pjmedia_conf \<Rightarrow> 'a \<times> pjmedia_conf) \<Rightarrow> ('x, 'a) pv_m" where
  "on_conf f = State (\<lambda>v. (fst (f (mconf v)), v\<lparr>mconf := snd (f (mconf v))\<rparr>))"

definition on_ext :: "('x \<Rightarrow> 'a \<times> 'x) \<Rightarrow> ('x, 'a) pv_m" where
  "on_ext f = State (\<lambda>v. (fst (f (ext v)), v\<lparr>ext := snd (f (ext v))\<rparr>))"

definition upd_ext :: "('x \<Rightarrow> 'x) \<Rightarrow> ('x, unit) pv_m" where
  "upd_ext f = modify (\<lambda>v. v\<lparr>ext := f (ext v)\<rparr>)"

lemma run_on_conf [simp, run_simps]:
  "run_state (on_conf f) v = (fst (f (mconf v)), v\<lparr>mconf := snd (f (mconf v))\<rparr>)"
  by (simp add: on_conf_def)

lemma run_on_ext [simp, run_simps]:
  "run_state (on_ext f) v = (fst (f (ext v)), v\<lparr>ext := snd (f (ext v))\<rparr>)"
  by (simp add: on_ext_def)

lemma run_upd_ext [simp, run_simps]: "run_state (upd_ext f) v = ((), v\<lparr>ext := f (ext v)\<rparr>)"
  by (simp add: upd_ext_def)

text \<open>\<open>PJ_ASSERT_RETURN(b, st)\<close>, in a build without assertions: return \<open>st\<close> unless \<open>b\<close>.\<close>

abbreviation assert_return :: "bool \<Rightarrow> 'a \<Rightarrow> ('x, 'a) pv_m \<Rightarrow> ('x, 'a) pv_m" where
  "assert_return b st m \<equiv> (if b then m else ret st)"

end
