(* ===== verification/Pjsua_Calls.thy ===== *)
theory Pjsua_Calls
  imports Pjsua_Vars
begin

text \<open>
  The queries of pjsua's call table (pjsua_call.c, pjsua_aud.c) the shim relies on: enumeration,
  whether a call is active, its port on the bridge, and its description.
\<close>

fun enum_calls_loop :: "nat \<Rightarrow> pjsua_call list \<Rightarrow> nat \<Rightarrow> int list" where
  "enum_calls_loop i [] room = []"
| "enum_calls_loop i (c # cs) room =
     (if room = 0 then []
      else if call_inv c = None then enum_calls_loop (Suc i) cs room
      else int i # enum_calls_loop (Suc i) cs (room - 1))"

definition pjsua_enum_calls :: "nat \<Rightarrow> 'x pjsua_var \<Rightarrow> int list option" where
  "pjsua_enum_calls count v = (if count = 0 then None else Some (enum_calls_loop 0 (calls v) count))"

definition valid_call_id :: "int \<Rightarrow> 'x pjsua_var \<Rightarrow> bool" where
  "valid_call_id call_id v \<longleftrightarrow> 0 \<le> call_id \<and> call_id < int (length (calls v))"

text \<open>A non-zero result of the assertion (\<^verbatim>\<open>PJ_EINVAL\<close>) counts as true where the result is a truth value.\<close>

definition pjsua_call_is_active :: "int \<Rightarrow> 'x pjsua_var \<Rightarrow> bool" where
  "pjsua_call_is_active call_id v =
     (if \<not> valid_call_id call_id v then True
      else let c = calls v ! nat call_id
           in \<not> hanging_up c \<and> call_inv c \<noteq> None \<and> call_inv c \<noteq> Some INV_DISCONNECTED)"

text \<open>Entries of the media array past the live ones hold the port \<open>PJSUA_INVALID_ID\<close>.\<close>

definition pjsua_call_get_conf_port :: "int \<Rightarrow> 'x pjsua_var \<Rightarrow> int" where
  "pjsua_call_get_conf_port call_id v =
     (if \<not> valid_call_id call_id v then PJ_EINVAL
      else if \<not> pjsua_call_is_active call_id v then PJSUA_INVALID_ID
      else let c = calls v ! nat call_id
           in if audio_idx c \<ge> 0 \<and> nat (audio_idx c) < length (call_media c)
              then cm_conf_slot (call_media c ! nat (audio_idx c)) else PJSUA_INVALID_ID)"

section \<open>The description of a call\<close>

definition call_info_state :: "pjsua_call \<Rightarrow> inv_state" where
  "call_info_state c =
     (if hanging_up c then INV_DISCONNECTED
      else case call_inv c of
             Some st \<Rightarrow> if call_role_uas c \<and> st = INV_NULL then INV_INCOMING else st
           | None \<Rightarrow> if call_async_dlg c \<and> last_code c = 0 then INV_NULL else INV_DISCONNECTED)"

text \<open>
  The fields the shim reads. The media of a type other than audio and video are skipped and at most
  16 are copied; the remote info is cut to its buffer of 256 bytes.
\<close>

definition pjsua_call_get_info :: "int \<Rightarrow> 'x pjsua_var \<Rightarrow> call_info option" where
  "pjsua_call_get_info call_id v =
     (if \<not> valid_call_id call_id v then None
      else let c = calls v ! nat call_id
           in if call_inv c = None \<and> \<not> call_async_dlg c then None
              else Some \<lparr>
                cl_acc_id = call_acc_id c,
                cl_state = call_info_state c,
                cl_last_status = (if call_inv c = Some INV_DISCONNECTED then call_inv_cause c else last_code c),
                cl_remote_info = take 256 (rem_info_str c),
                cl_media = take 16 (filter (\<lambda>m. cm_type m \<noteq> MEDIA_OTHER) (call_media c))\<rparr>)"

section \<open>Laws\<close>

lemma enum_calls_loop_bound: "i \<in> set (enum_calls_loop k cs n) \<Longrightarrow> int k \<le> i \<and> i < int (k + length cs)"
  by (induction k cs n rule: enum_calls_loop.induct) (auto split: if_splits)

lemma length_enum_calls_loop: "length (enum_calls_loop k cs n) \<le> n"
  by (induction k cs n rule: enum_calls_loop.induct) auto

lemma set_enum_calls_loop:
  "length cs \<le> n \<Longrightarrow>
   set (enum_calls_loop k cs n) = {int (k + i) | i. i < length cs \<and> call_inv (cs ! i) \<noteq> None}"
proof (induction k cs n rule: enum_calls_loop.induct)
  case (1 k n)
  then show ?case by simp
next
  case (2 k c cs n)
  have split: "{int (k + i) | i. i < length (c # cs) \<and> call_inv ((c # cs) ! i) \<noteq> None}
      = (if call_inv c = None then {} else {int k})
        \<union> {int (Suc k + i) | i. i < length cs \<and> call_inv (cs ! i) \<noteq> None}" (is "?L = ?R")
  proof (intro set_eqI iffI)
    fix x assume "x \<in> ?L"
    then obtain i where "i < Suc (length cs)" "call_inv ((c # cs) ! i) \<noteq> None" "x = int (k + i)"
      by auto
    then show "x \<in> ?R" by (cases i) auto
  next
    fix x assume "x \<in> ?R"
    then consider "call_inv c \<noteq> None" "x = int k"
      | i where "i < length cs" "call_inv (cs ! i) \<noteq> None" "x = int (Suc k + i)"
      by (auto split: if_splits)
    then show "x \<in> ?L"
    proof cases
      case 1
      then show ?thesis by (intro CollectI exI [of _ 0]) simp
    next
      case (2 i)
      then show ?thesis by (intro CollectI exI [of _ "Suc i"]) simp
    qed
  qed
  have n: "n \<noteq> 0" using "2.prems" by auto
  show ?case
  proof (cases "call_inv c = None")
    case True
    have "enum_calls_loop k (c # cs) n = enum_calls_loop (Suc k) cs n" using True n by simp
    moreover have "length cs \<le> n" using "2.prems" by simp
    ultimately show ?thesis using "2.IH"(1) [OF n True] by (simp only: split) (simp add: True)
  next
    case False
    have "enum_calls_loop k (c # cs) n = int k # enum_calls_loop (Suc k) cs (n - 1)" using False n by auto
    moreover have "length cs \<le> n - 1" using "2.prems" by simp
    ultimately show ?thesis using "2.IH"(2) [OF n False] False by (simp only: split) simp
  qed
qed

lemma set_enum_calls:
  assumes "length (calls v) \<le> n" "n \<noteq> 0"
  shows "\<exists>ids. pjsua_enum_calls n v = Some ids
    \<and> set ids = {i. valid_call_id i v \<and> call_inv (calls v ! nat i) \<noteq> None}"
proof (intro exI conjI)
  show "pjsua_enum_calls n v = Some (enum_calls_loop 0 (calls v) n)"
    using assms(2) by (simp add: pjsua_enum_calls_def)
  have "{int (0 + i) | i. i < length (calls v) \<and> call_inv (calls v ! i) \<noteq> None}
      = {i. valid_call_id i v \<and> call_inv (calls v ! nat i) \<noteq> None}"
    by (auto simp: valid_call_id_def) (metis int_nat_eq nat_less_iff)
  then show "set (enum_calls_loop 0 (calls v) n)
      = {i. valid_call_id i v \<and> call_inv (calls v ! nat i) \<noteq> None}"
    using set_enum_calls_loop [OF assms(1), of 0] by simp
qed

end
