(* ===== verification/Pjsua_Snd.thy ===== *)
theory Pjsua_Snd
  imports Pjsua_Calls
begin

text \<open>
  The sound device of pjsua (pjsua_aud.c): enumeration, opening, closing, selecting, the null
  device and the idle timer that closes the device.
\<close>

section \<open>Enumeration\<close>

fun dev_loop :: "'x hw \<Rightarrow> nat \<Rightarrow> nat \<Rightarrow> 'x \<Rightarrow> pj_status \<times> aud_dev list" where
  "dev_loop H i 0 x = (PJ_SUCCESS, [])"
| "dev_loop H i (Suc n) x =
     (let (st, d) = hw_dev_info H i x
      in if st \<noteq> PJ_SUCCESS then (st, [])
         else let (st', ds) = dev_loop H (Suc i) n x
              in if st' \<noteq> PJ_SUCCESS then (st', []) else (PJ_SUCCESS, d # ds))"

definition pjsua_enum_aud_devs :: "'x hw \<Rightarrow> nat \<Rightarrow> 'x pjsua_var \<Rightarrow> pj_status \<times> aud_dev list" where
  "pjsua_enum_aud_devs H count v =
     (let dev_count = hw_dev_count H (ext v)
      in dev_loop H 0 (if dev_count > count then count else dev_count) (ext v))"

definition pjsua_get_snd_dev :: "'x pjsua_var \<Rightarrow> pj_status \<times> int \<times> int" where
  "pjsua_get_snd_dev v = (PJ_SUCCESS, cap_dev v, play_dev v)"

section \<open>Opening and closing\<close>

text \<open>\<^verbatim>\<open>pjmedia_conf_set_port0_name\<close>, whose buffer holds 80 bytes.\<close>

definition pjmedia_conf_set_port0_name :: "string \<Rightarrow> pjmedia_conf \<Rightarrow> pjmedia_conf" where
  "pjmedia_conf_set_port0_name name c = upd_port 0 (\<lambda>p. p\<lparr>cp_name := take 80 name\<rparr>) c"

definition close_snd_dev :: "'x hw \<Rightarrow> ('x, unit) pv_m" where
  "close_snd_dev H = do {
     open_port \<leftarrow> gets snd_port;
     only_if open_port (do {
       upd_ext (hw_snd_close H);
       modify (\<lambda>v. v\<lparr>snd_port := False\<rparr>)
     });
     open_null \<leftarrow> gets null_snd;
     only_if open_null (do {
       upd_ext (hw_null_destroy H);
       modify (\<lambda>v. v\<lparr>null_snd := False\<rparr>)
     });
     modify (\<lambda>v. v\<lparr>snd_is_on := False\<rparr>)
   }"

definition pjsua_set_null_snd_dev :: "'x hw \<Rightarrow> ('x, pj_status) pv_m" where
  "pjsua_set_null_snd_dev H = do {
     close_snd_dev H;
     modify (\<lambda>v. v\<lparr>cap_dev := SND_NULL_DEV, play_dev := SND_NULL_DEV\<rparr>);
     st \<leftarrow> on_ext (hw_null_create H);
     if st \<noteq> PJ_SUCCESS then ret st
     else do {
       modify (\<lambda>v. v\<lparr>null_snd := True\<rparr>);
       st \<leftarrow> on_ext (hw_null_start H);
       if st \<noteq> PJ_SUCCESS then ret st
       else do {
         modify (\<lambda>v. v\<lparr>no_snd := False, snd_is_on := True\<rparr>);
         ret PJ_SUCCESS
       }
     }
   }"

definition pjsua_set_no_snd_dev :: "'x hw \<Rightarrow> ('x, unit) pv_m" where
  "pjsua_set_no_snd_dev H = do {
     close_snd_dev H;
     modify (\<lambda>v. v\<lparr>no_snd := True, cap_dev := SND_NO_DEV, play_dev := SND_NO_DEV\<rparr>)
   }"

text \<open>
  The device ids and the rate are what \<open>open_snd_dev\<close> uses of its parameter. The saved volume and
  route settings of the device are not modelled.
\<close>

definition create_aud_param :: "'x hw \<Rightarrow> int \<Rightarrow> int \<Rightarrow> ('x, pj_status \<times> int \<times> int) pv_m" where
  "create_aud_param H capture_dev playback_dev = do {
     let playback_dev = (if playback_dev = SND_DEFAULT_CAPTURE_DEV then SND_DEFAULT_PLAYBACK_DEV
                         else playback_dev);
     mode \<leftarrow> gets snd_mode;
     st \<leftarrow> gets (\<lambda>v. hw_default_param H (if speaker_only mode then playback_dev else capture_dev) (ext v));
     ret (st, capture_dev, playback_dev)
   }"

definition port0_name :: "nat \<Rightarrow> nat \<Rightarrow> string \<Rightarrow> string" where
  "port0_name rate media_rate rec_name =
     (if rate \<noteq> media_rate
      then c_trunc 128 (rec_name @ '' ('' @ dec_nat (rate div 1000) @ ''KHz)'')
      else rec_name)"

definition open_snd_dev :: "'x hw \<Rightarrow> int \<Rightarrow> int \<Rightarrow> nat \<Rightarrow> ('x, pj_status) pv_m" where
  "open_snd_dev H rec_id play_id rate =
     (if rec_id = SND_NULL_DEV \<or> play_id = SND_NULL_DEV then pjsua_set_null_snd_dev H
      else do {
        only \<leftarrow> gets (\<lambda>v. speaker_only (snd_mode v));
        close_snd_dev H;
        modify (\<lambda>v. v\<lparr>cap_dev := rec_id, play_dev := play_id\<rparr>);
        (tail, opts) \<leftarrow> gets (\<lambda>v. (ec_tail_len v, ec_options v));
        st \<leftarrow> on_ext (hw_snd_open H only rec_id
                (if only \<and> play_id < 0 then SND_DEFAULT_PLAYBACK_DEV else play_id) rate tail opts);
        if st \<noteq> PJ_SUCCESS then ret st
        else do {
          modify (\<lambda>v. v\<lparr>snd_port := True\<rparr>);
          rst \<leftarrow> gets (\<lambda>v. if conf_clock_rate (mconf v) \<noteq> rate
                           then hw_resample_port H rate (ext v) else PJ_SUCCESS);
          if rst \<noteq> PJ_SUCCESS then do { close_snd_dev H; ret rst }
          else do {
            st \<leftarrow> on_ext (hw_snd_connect H);
            if st \<noteq> PJ_SUCCESS then do {
              upd_ext (hw_snd_close H);
              modify (\<lambda>v. v\<lparr>snd_port := False\<rparr>);
              ret st
            } else do {
              modify (\<lambda>v. case hw_rec_name H (ext v) of
                 None \<Rightarrow> v
               | Some nm \<Rightarrow> if only then v
                   else v\<lparr>mconf := pjmedia_conf_set_port0_name
                                     (port0_name rate (media_clock_rate v) nm) (mconf v)\<rparr>);
              modify (\<lambda>v. v\<lparr>snd_is_on := True\<rparr>);
              ret PJ_SUCCESS
            }
          }
        }
      })"

text \<open>The loop over the alternative clock rates; \<open>st\<close> is the status so far.\<close>

fun try_rates :: "'x hw \<Rightarrow> int \<Rightarrow> int \<Rightarrow> nat list \<Rightarrow> pj_status \<Rightarrow> ('x, pj_status) pv_m" where
  "try_rates H cap play [] st = ret st"
| "try_rates H cap play (r # rs) st = do {
     (st1, rec_id, play_id) \<leftarrow> create_aud_param H cap play;
     if st1 \<noteq> PJ_SUCCESS then ret st1
     else do {
       st2 \<leftarrow> open_snd_dev H rec_id play_id r;
       if st2 = PJ_SUCCESS then ret PJ_SUCCESS else try_rates H cap play rs st2
     }
   }"

definition pjsua_set_snd_dev2 :: "'x hw \<Rightarrow> int \<Rightarrow> int \<Rightarrow> snd_mode \<Rightarrow> ('x, pj_status) pv_m" where
  "pjsua_set_snd_dev2 H capture_dev playback_dev mode = do {
     v \<leftarrow> gets (\<lambda>v. v);
     if cap_dev v = capture_dev \<and> play_dev v = playback_dev \<and> snd_mode v = mode \<and>
        (snd_is_on v \<or> no_immediate_open mode) then ret PJ_SUCCESS
     else if capture_dev = SND_NO_DEV \<and> playback_dev = SND_NO_DEV then do {
       only_if (\<not> no_snd v) (pjsua_set_no_snd_dev H);
       ret (-1)
     } else if capture_dev = SND_NULL_DEV \<and> playback_dev = SND_NULL_DEV then pjsua_set_null_snd_dev H
     else do {
       modify (\<lambda>v. v\<lparr>snd_mode := mode\<rparr>);
       if \<not> snd_is_on v \<and> no_immediate_open mode then do {
         modify (\<lambda>v. v\<lparr>cap_dev := capture_dev, play_dev := playback_dev, no_snd := False\<rparr>);
         ret PJ_SUCCESS
       } else do {
         let rate0 = (if media_snd_clock_rate v = 0 then media_clock_rate v else media_snd_clock_rate v);
         st \<leftarrow> try_rates H capture_dev playback_dev [rate0, 44100, 48000, 32000, 16000, 8000] (-1);
         if st \<noteq> PJ_SUCCESS then do {
           modify (\<lambda>u. u\<lparr>snd_mode := snd_mode v\<rparr>);
           ret st
         } else do {
           modify (\<lambda>v. v\<lparr>no_snd := False, snd_is_on := True\<rparr>);
           ret PJ_SUCCESS
         }
       }
     }
   }"

definition pjsua_set_snd_dev :: "'x hw \<Rightarrow> int \<Rightarrow> int \<Rightarrow> ('x, pj_status) pv_m" where
  "pjsua_set_snd_dev H capture_dev playback_dev = do {
     mode \<leftarrow> gets snd_mode;
     pjsua_set_snd_dev2 H capture_dev playback_dev (mode\<lparr>no_immediate_open := False\<rparr>)
   }"

definition pjsua_set_ec :: "'x hw \<Rightarrow> nat \<Rightarrow> nat \<Rightarrow> ('x, pj_status) pv_m" where
  "pjsua_set_ec H tail_ms options = do {
     modify (\<lambda>v. v\<lparr>ec_tail_len := tail_ms, ec_options := options\<rparr>);
     open_port \<leftarrow> gets snd_port;
     if open_port then on_ext (hw_set_ec H tail_ms options) else ret PJ_SUCCESS
   }"

section \<open>The idle timer\<close>

definition pjsua_check_snd_dev_idle :: "('x, unit) pv_m" where
  "pjsua_check_snd_dev_idle = modify (\<lambda>v.
     if snd_auto_close_time v < 0 then v
     else if \<not> snd_is_on v then v
     else let cnt = call_cnt v;
              cnt = (if cnt = 1
                     then (case pjsua_enum_calls 1 v of
                             Some (c # _) \<Rightarrow> if \<not> pjsua_call_is_active c v then 0 else 1
                           | Some [] \<Rightarrow> 0
                           | None \<Rightarrow> cnt)
                     else cnt)
          in if \<not> snd_idle_timer v \<and> cnt = 0 \<and> pjmedia_conf_get_connect_count (mconf v) = 0
             then v\<lparr>snd_idle_timer := True\<rparr> else v)"

definition close_snd_timer_cb :: "'x hw \<Rightarrow> ('x, unit) pv_m" where
  "close_snd_timer_cb H = do {
     armed \<leftarrow> gets snd_idle_timer;
     only_if armed (do {
       modify (\<lambda>v. v\<lparr>snd_idle_timer := False\<rparr>);
       close_snd_dev H
     })
   }"

end
