(* ===== verification/Pjsua_Aud.thy ===== *)
theory Pjsua_Aud
  imports Pjsua_Snd
begin

text \<open>
  pjsua's wrappers of the conference bridge and its file recorders (pjsua_aud.c). A recorder is an
  entry of a table of 32 that owns a WAV writer port and that port's slot on the bridge.
\<close>

section \<open>The bridge\<close>

text \<open>
  \<open>(int)((level-1) * 128)\<close>, which truncates towards zero. A conversion of not-a-number or of an
  infinity is undefined in C; the value is the smallest int, what x86 converts them to, which the bridge
  refuses.
\<close>

definition level_adj :: "cfloat \<Rightarrow> int" where
  "level_adj level = (case level of
     Fin x \<Rightarrow> (let y = (x - 1) * 128 in if y < 0 then - \<lfloor>- y\<rfloor> else \<lfloor>y\<rfloor>)
   | _ \<Rightarrow> - (2 ^ 31))"

definition pjsua_conf_add_port :: "'x hw \<Rightarrow> nat \<Rightarrow> ('x, pj_status \<times> int) pv_m" where
  "pjsua_conf_add_port H port = do {
     x \<leftarrow> gets ext;
     (st, slot) \<leftarrow> on_conf (\<lambda>c. pjmedia_conf_add_port (hw_resampler H) c (hw_port H port x) None);
     if st \<noteq> PJ_SUCCESS then ret (st, PJSUA_INVALID_ID) else ret (st, int slot)
   }"

definition pjsua_conf_remove_port :: "int \<Rightarrow> ('x, pj_status) pv_m" where
  "pjsua_conf_remove_port port_id =
     assert_return (port_id \<ge> 0) PJ_EINVAL
     (do {
       st \<leftarrow> on_conf (\<lambda>c. pjmedia_conf_remove_port c (nat port_id));
       pjsua_check_snd_dev_idle;
       ret st
     })"

text \<open>The part of \<^verbatim>\<open>pjsua_conf_connect2\<close> under the lock: open the sound device if none is.\<close>

definition ensure_snd_dev :: "'x hw \<Rightarrow> ('x, pj_status) pv_m" where
  "ensure_snd_dev H = do {
     modify (\<lambda>v. v\<lparr>snd_idle_timer := False\<rparr>);
     v \<leftarrow> gets (\<lambda>v. v);
     if \<not> snd_port v \<and> \<not> null_snd v \<and> \<not> no_snd v
     then pjsua_set_snd_dev H (cap_dev v) (play_dev v)
     else do {
       only_if (no_snd v \<and> \<not> snd_is_on v) (modify (\<lambda>v. v\<lparr>snd_is_on := True\<rparr>));
       ret PJ_SUCCESS
     }
   }"

definition pjsua_conf_connect2 :: "'x hw \<Rightarrow> int \<Rightarrow> int \<Rightarrow> cfloat \<Rightarrow> ('x, pj_status) pv_m" where
  "pjsua_conf_connect2 H source sink level =
     assert_return (source \<ge> 0 \<and> sink \<ge> 0) PJ_EINVAL
     (do {
       st \<leftarrow> ensure_snd_dev H;
       if st = PJ_SUCCESS
       then on_conf (\<lambda>c. pjmedia_conf_connect_port c (nat source) (nat sink) (level_adj level))
       else ret st
     })"

definition pjsua_conf_connect :: "'x hw \<Rightarrow> int \<Rightarrow> int \<Rightarrow> ('x, pj_status) pv_m" where
  "pjsua_conf_connect H source sink = pjsua_conf_connect2 H source sink (Fin 1)"

definition pjsua_conf_disconnect :: "int \<Rightarrow> int \<Rightarrow> ('x, pj_status) pv_m" where
  "pjsua_conf_disconnect source sink =
     assert_return (source \<ge> 0 \<and> sink \<ge> 0) PJ_EINVAL
     (do {
       st \<leftarrow> on_conf (\<lambda>c. pjmedia_conf_disconnect_port c (nat source) (nat sink));
       pjsua_check_snd_dev_idle;
       ret st
     })"

definition pjsua_conf_adjust_tx_level :: "int \<Rightarrow> cfloat \<Rightarrow> ('x, pj_status) pv_m" where
  "pjsua_conf_adjust_tx_level slot level =
     assert_return (slot \<ge> 0) PJ_EINVAL
     (on_conf (\<lambda>c. pjmedia_conf_adjust_tx_level c (nat slot) (level_adj level)))"

section \<open>Recorders\<close>

definition free_rec :: rec_data where
  "free_rec = \<lparr>rd_port = None, rd_slot = 0xFFFF\<rparr>"

text \<open>The format the last four bytes of the name select: \<open>Some True\<close> WAV, \<open>Some False\<close> MP3.\<close>

definition file_format :: "string \<Rightarrow> bool option" where
  "file_format filename =
     (let e = map pj_tolower (drop (length filename - 4) filename)
      in if e = ''.wav'' then Some True else if e = ''.mp3'' then Some False else None)"

text \<open>The part of \<^verbatim>\<open>pjsua_recorder_create\<close> under the lock, for a WAV file.\<close>

definition create_wav_recorder :: "'x hw \<Rightarrow> string \<Rightarrow> nat \<Rightarrow> ('x, pj_status \<times> int) pv_m" where
  "create_wav_recorder H filename file_id = do {
     (st, port) \<leftarrow> on_ext (hw_wav_create H filename);
     if st \<noteq> PJ_SUCCESS then ret (st, PJSUA_INVALID_ID)
     else do {
       (st, slot) \<leftarrow> on_conf (\<lambda>c. pjmedia_conf_add_port (hw_resampler H) c port (Some filename));
       if st \<noteq> PJ_SUCCESS then do {
         upd_ext (hw_port_destroy H port);
         ret (st, PJSUA_INVALID_ID)
       } else do {
         modify (\<lambda>v. v\<lparr>recorder := (recorder v)[file_id := \<lparr>rd_port = Some port, rd_slot = slot\<rparr>],
                       rec_cnt := rec_cnt v + 1\<rparr>);
         ret (PJ_SUCCESS, int file_id)
       }
     }
   }"

text \<open>
  As the shim calls it: \<open>enc_type\<close>, \<open>max_size\<close> and \<open>options\<close> are 0 and \<open>*p_id\<close> is
  \<^verbatim>\<open>PJSUA_INVALID_ID\<close> before the call.
\<close>

definition pjsua_recorder_create :: "'x hw \<Rightarrow> string \<Rightarrow> ('x, pj_status \<times> int) pv_m" where
  "pjsua_recorder_create H filename =
     (if length filename \<ge> PJ_MAXPATH then ret (PJ_ENAMETOOLONG, PJSUA_INVALID_ID)
      else if length filename < 4 then ret (PJ_EINVALIDOP, PJSUA_INVALID_ID)
      else do {
        cnt \<leftarrow> gets rec_cnt;
        if unat cnt \<ge> PJSUA_MAX_RECORDERS then ret (PJ_ETOOMANY, PJSUA_INVALID_ID)
        else case file_format filename of
          None \<Rightarrow> ret (PJ_ENOTSUP, PJSUA_INVALID_ID)
        | Some wav \<Rightarrow> do {
            file_id \<leftarrow> gets (\<lambda>v. index_of (\<lambda>r. rd_port r = None) (recorder v));
            n \<leftarrow> gets (\<lambda>v. length (recorder v));
            if file_id = n then ret (PJ_EBUG, PJSUA_INVALID_ID)
            else if \<not> wav then ret (PJ_ENOTSUP, PJSUA_INVALID_ID)
            else create_wav_recorder H filename file_id
          }
      })"

definition live_rec :: "int \<Rightarrow> 'x pjsua_var \<Rightarrow> bool" where
  "live_rec rec_id v \<longleftrightarrow> 0 \<le> rec_id \<and> rec_id < int (length (recorder v)) \<and> rd_port (recorder v ! nat rec_id) \<noteq> None"

definition pjsua_recorder_get_conf_port :: "int \<Rightarrow> 'x pjsua_var \<Rightarrow> int" where
  "pjsua_recorder_get_conf_port rec_id v =
     (if \<not> live_rec rec_id v then PJ_EINVAL else int (rd_slot (recorder v ! nat rec_id)))"

definition pjsua_recorder_destroy :: "'x hw \<Rightarrow> int \<Rightarrow> ('x, pj_status) pv_m" where
  "pjsua_recorder_destroy H rec_id = do {
     v \<leftarrow> gets (\<lambda>v. v);
     if \<not> live_rec rec_id v then ret PJ_EINVAL
     else do {
       _ \<leftarrow> pjsua_conf_remove_port (int (rd_slot (recorder v ! nat rec_id)));
       (case rd_port (recorder v ! nat rec_id) of
          None \<Rightarrow> ret ()
        | Some port \<Rightarrow> upd_ext (hw_port_destroy H port));
       modify (\<lambda>v. v\<lparr>recorder := (recorder v)[nat rec_id := free_rec], rec_cnt := rec_cnt v - 1\<rparr>);
       ret PJ_SUCCESS
     }
   }"

end
