(* ===== verification/Pjsua_Laws.thy ===== *)
theory Pjsua_Laws
  imports Pjsua_Aud
begin

text \<open>
  What pjsua's bridge wrappers and recorders do to the bridge and to the recorder table. Commands
  that only move the sound device are \<open>neutral\<close>: they keep the occupied slots, the connections,
  the recorders, the calls and the buddies.
\<close>

named_theorems neutral_intro \<open>commands that change neither bridge connections nor tables\<close>

section \<open>Neutral commands\<close>

definition tables :: "'x pjsua_var \<Rightarrow>
    pjsua_call list \<times> u32 \<times> int \<times> app_event list \<times> pjsua_buddy list \<times> u32 \<times> rec_data list \<times> u32" where
  "tables v = (calls v, call_cnt v, next_call_id v, app_log v, buddies v, buddy_cnt v, recorder v, rec_cnt v)"

definition same :: "'x pjsua_var \<Rightarrow> 'x pjsua_var \<Rightarrow> bool" where
  "same v w \<longleftrightarrow> tables w = tables v \<and>
     (conf_ok (mconf v) \<longrightarrow> conf_ok (mconf w) \<and> nodes (mconf w) = nodes (mconf v)
                            \<and> edges (mconf w) = edges (mconf v))"

definition neutral :: "('x, 'a) pv_m \<Rightarrow> bool" where
  "neutral m \<longleftrightarrow> (\<forall>v. same v (exec m v))"

lemma same_refl [simp]: "same v v"
  by (simp add: same_def)

lemma same_trans: "same u v \<Longrightarrow> same v w \<Longrightarrow> same u w"
  by (auto simp: same_def)

lemma same_fields: "tables w = tables v \<Longrightarrow> mconf w = mconf v \<Longrightarrow> same v w"
  by (simp add: same_def)

lemma neutralD: "neutral m \<Longrightarrow> same v (exec m v)"
  by (simp add: neutral_def)

lemma neutral_run: "neutral m \<Longrightarrow> run_state m v = (r, w) \<Longrightarrow> same v w"
  using neutralD [of m v] by simp

lemma neutral_ret [neutral_intro]: "neutral (ret x)"
  by (simp add: neutral_def)

lemma neutral_gets [neutral_intro]: "neutral (gets f)"
  by (simp add: neutral_def)

lemma neutral_modify [neutral_intro]: "(\<And>v. same v (f v)) \<Longrightarrow> neutral (modify f)"
  by (simp add: neutral_def)

lemma neutral_on_ext [neutral_intro]: "neutral (on_ext f)"
  by (simp add: neutral_def same_def tables_def)

lemma neutral_upd_ext [neutral_intro]: "neutral (upd_ext f)"
  by (simp add: neutral_def same_def tables_def)

lemma neutral_bind [neutral_intro]:
  assumes "neutral m" "\<And>x. neutral (n x)"
  shows "neutral (State_Monad.bind m n)"
  unfolding neutral_def
proof
  fix v
  obtain r w where m: "run_state m v = (r, w)" by fastforce
  then have "exec (State_Monad.bind m n) v = exec (n r) w" by simp
  then show "same v (exec (State_Monad.bind m n) v)"
    using neutral_run [OF assms(1) m] neutralD [OF assms(2)] same_trans by metis
qed

lemma neutral_if [neutral_intro]:
  "(b \<Longrightarrow> neutral m) \<Longrightarrow> (\<not> b \<Longrightarrow> neutral n) \<Longrightarrow> neutral (if b then m else n)"
  by simp

lemma neutral_only_if [neutral_intro]: "(b \<Longrightarrow> neutral m) \<Longrightarrow> neutral (only_if b m)"
  by (auto simp: only_if_def neutral_ret)

lemma neutral_prod [neutral_intro]:
  "(\<And>x z. neutral (n x z)) \<Longrightarrow> neutral (case y of (x, z) \<Rightarrow> n x z)"
  by (cases y) auto

lemma same_port0_name:
  "tables w = tables v \<Longrightarrow> mconf w = pjmedia_conf_set_port0_name nm (mconf v) \<Longrightarrow> same v w"
  unfolding same_def pjmedia_conf_set_port0_name_def
  using neutral_upd_port [of "{}" "mconf v" "\<lambda>p. p\<lparr>cp_name := take 80 nm\<rparr>" 0]
    conf_inv_length [of "{}" "mconf v"]
  by auto

lemma neutral_close_snd_dev [neutral_intro]: "neutral (close_snd_dev H)"
  unfolding close_snd_dev_def by (intro neutral_intro) (auto intro!: same_fields simp: tables_def)

lemma neutral_set_null_snd_dev [neutral_intro]: "neutral (pjsua_set_null_snd_dev H)"
  unfolding pjsua_set_null_snd_dev_def
  by (intro neutral_intro) (auto intro!: same_fields simp: tables_def)

lemma neutral_set_no_snd_dev [neutral_intro]: "neutral (pjsua_set_no_snd_dev H)"
  unfolding pjsua_set_no_snd_dev_def
  by (intro neutral_intro) (auto intro!: same_fields simp: tables_def)

lemma neutral_name_update:
  "neutral (modify (\<lambda>v. case hw_rec_name H (ext v) of
      None \<Rightarrow> v
    | Some nm \<Rightarrow> if only then v
        else v\<lparr>mconf := pjmedia_conf_set_port0_name (port0_name rate (media_clock_rate v) nm) (mconf v)\<rparr>))"
proof (rule neutral_modify)
  fix v :: "'a pjsua_var"
  show "same v (case hw_rec_name H (ext v) of None \<Rightarrow> v
      | Some nm \<Rightarrow> if only then v
          else v\<lparr>mconf := pjmedia_conf_set_port0_name (port0_name rate (media_clock_rate v) nm) (mconf v)\<rparr>)"
    by (cases "hw_rec_name H (ext v)")
      (auto intro!: same_port0_name [where nm = "port0_name rate (media_clock_rate v) _"] simp: tables_def)
qed

lemma neutral_create_aud_param [neutral_intro]: "neutral (create_aud_param H c p)"
  unfolding create_aud_param_def Let_def by (intro neutral_intro)

lemma neutral_open_snd_dev [neutral_intro]: "neutral (open_snd_dev H r p rate)"
  unfolding open_snd_dev_def
  by (intro neutral_intro neutral_name_update) (auto intro!: same_fields simp: tables_def)

lemma neutral_try_rates [neutral_intro]: "neutral (try_rates H c p rs st)"
  by (induction H c p rs st rule: try_rates.induct) (auto intro!: neutral_intro)

lemma neutral_set_snd_dev2 [neutral_intro]: "neutral (pjsua_set_snd_dev2 H c p mode)"
  unfolding pjsua_set_snd_dev2_def Let_def
  by (intro neutral_intro) (auto intro!: same_fields simp: tables_def)

lemma neutral_set_snd_dev [neutral_intro]: "neutral (pjsua_set_snd_dev H c p)"
  unfolding pjsua_set_snd_dev_def by (intro neutral_intro)

lemma neutral_set_ec [neutral_intro]: "neutral (pjsua_set_ec H t opts)"
  unfolding pjsua_set_ec_def by (intro neutral_intro) (auto intro!: same_fields simp: tables_def)

lemma neutral_check_snd_dev_idle [neutral_intro]: "neutral pjsua_check_snd_dev_idle"
  unfolding pjsua_check_snd_dev_idle_def Let_def
  by (intro neutral_intro same_fields) (auto simp: tables_def)

lemma neutral_close_snd_timer_cb [neutral_intro]: "neutral (close_snd_timer_cb H)"
  unfolding close_snd_timer_cb_def by (intro neutral_intro) (auto intro!: same_fields simp: tables_def)

lemma neutral_ensure_snd_dev [neutral_intro]: "neutral (ensure_snd_dev H)"
  unfolding ensure_snd_dev_def by (intro neutral_intro) (auto intro!: same_fields simp: tables_def)

section \<open>The abstract view\<close>

definition pv_slots :: "'x pjsua_var \<Rightarrow> int set" where
  "pv_slots v = int ` nodes (mconf v)"

definition pv_links :: "'x pjsua_var \<Rightarrow> (int \<times> int) set" where
  "pv_links v = map_prod int int ` edges (mconf v)"

definition pv_live :: "'x pjsua_var \<Rightarrow> int set" where
  "pv_live v = {r. live_rec r v}"

definition pv_ready :: "'x pjsua_var \<Rightarrow> bool" where
  "pv_ready v \<longleftrightarrow> snd_port v \<or> null_snd v \<or> no_snd v"

text \<open>
  The invariant: the bridge is consistent, the recorder counter counts the recorders in use, and each
  of those owns an occupied slot of its own.
\<close>

definition rec_used :: "rec_data list \<Rightarrow> nat set" where
  "rec_used rs = {i. i < length rs \<and> rd_port (rs ! i) \<noteq> None}"

definition pv_ok :: "'x pjsua_var \<Rightarrow> bool" where
  "pv_ok v \<longleftrightarrow> conf_ok (mconf v) \<and> length (recorder v) = PJSUA_MAX_RECORDERS \<and>
     rec_cnt v = of_nat (card (rec_used (recorder v))) \<and>
     (\<forall>i \<in> rec_used (recorder v). rd_slot (recorder v ! i) \<in> nodes (mconf v)) \<and>
     inj_on (\<lambda>i. rd_slot (recorder v ! i)) (rec_used (recorder v))"

lemma pv_slots_iff: "a \<in> pv_slots v \<longleftrightarrow> 0 \<le> a \<and> nat a \<in> nodes (mconf v)"
  by (auto simp: pv_slots_def image_iff intro: bexI [of _ "nat a"])

lemma pv_links_iff: "(a, b) \<in> pv_links v \<longleftrightarrow> 0 \<le> a \<and> 0 \<le> b \<and> (nat a, nat b) \<in> edges (mconf v)"
  by (force simp: pv_links_def image_iff map_prod_def)

lemma pv_links_nat: "(int i, int j) \<in> pv_links v \<longleftrightarrow> (i, j) \<in> edges (mconf v)"
  by (simp add: pv_links_iff)

lemma pv_live_iff: "r \<in> pv_live v \<longleftrightarrow> 0 \<le> r \<and> nat r \<in> rec_used (recorder v)"
  by (auto simp: pv_live_def live_rec_def rec_used_def nat_less_iff)

lemma finite_rec_used: "finite (rec_used rs)"
  by (simp add: rec_used_def)

lemma rec_cnt_card: "pv_ok v \<Longrightarrow> unat (rec_cnt v) = card (rec_used (recorder v))"
proof -
  assume ok: "pv_ok v"
  have "card (rec_used (recorder v)) \<le> card {..<length (recorder v)}"
    by (rule card_mono) (auto simp: rec_used_def)
  then have "card (rec_used (recorder v)) < 2 ^ LENGTH(32)" using ok by (simp add: pv_ok_def)
  then show ?thesis using ok by (simp add: pv_ok_def unat_of_nat take_bit_nat_eq_self)
qed

text \<open>Neutral commands keep the view.\<close>

lemma same_view:
  assumes "same v w" "pv_ok v"
  shows "pv_ok w" "pv_slots w = pv_slots v" "pv_links w = pv_links v" "pv_live w = pv_live v"
    "recorder w = recorder v" "calls w = calls v" "rec_cnt w = rec_cnt v"
  using assms by (auto simp: same_def tables_def pv_ok_def pv_slots_def pv_links_def pv_live_def live_rec_def)

lemma same_get_port: "same v w \<Longrightarrow> pjsua_recorder_get_conf_port r w = pjsua_recorder_get_conf_port r v"
  by (simp add: same_def tables_def pjsua_recorder_get_conf_port_def live_rec_def)

lemma pv_ok_conf: "pv_ok v \<Longrightarrow> conf_ok (mconf v)"
  by (simp add: pv_ok_def)

text \<open>A change of the bridge that keeps its nodes keeps the invariant.\<close>

lemma pv_ok_conf_change:
  assumes "pv_ok v" "conf_ok c" "nodes c = nodes (mconf v)"
  shows "pv_ok (v\<lparr>mconf := c\<rparr>)"
  using assms by (simp add: pv_ok_def)

section \<open>Connections\<close>

lemma level_adj_1 [simp]: "level_adj (Fin 1) = 0"
  by (simp add: level_adj_def)

lemma conf_connect_spec:
  assumes ok: "pv_ok v" and run: "run_state (pjsua_conf_connect H a b) v = (st, w)"
  shows "pv_ok w \<and> tables w = tables v \<and> pv_slots w = pv_slots v
    \<and> pv_links w = (if st = PJ_SUCCESS then insert (a, b) (pv_links v) else pv_links v)
    \<and> (st = PJ_SUCCESS \<longrightarrow> a \<in> pv_slots v \<and> b \<in> pv_slots v)"
proof (cases "0 \<le> a \<and> 0 \<le> b")
  case False
  then show ?thesis using run ok
    by (simp add: pjsua_conf_connect_def pjsua_conf_connect2_def split: if_splits)
next
  case True
  obtain st1 u where u: "run_state (ensure_snd_dev H) v = (st1, u)" by fastforce
  have "same v u" by (rule neutral_run [OF neutral_ensure_snd_dev u])
  note s = this same_view [OF this ok]
  show ?thesis
  proof (cases "st1 = PJ_SUCCESS")
    case False
    then have "st = st1 \<and> w = u"
      using run u True by (simp add: pjsua_conf_connect_def pjsua_conf_connect2_def)
    then show ?thesis using s False by (auto simp: same_def)
  next
    case st1: True
    define r where "r = pjmedia_conf_connect_port (mconf u) (nat a) (nat b) 0"
    have w: "st = fst r" "w = u\<lparr>mconf := snd r\<rparr>"
      using run u True st1 by (simp_all add: pjsua_conf_connect_def pjsua_conf_connect2_def r_def)
    have cu: "conf_ok (mconf u)" using s(2) by (rule pv_ok_conf)
    show ?thesis
    proof (cases "nat a \<in> nodes (mconf u) \<and> nat b \<in> nodes (mconf u)")
      case False
      then have "r = (PJ_EINVAL, mconf u)" unfolding r_def by (intro connect_invalid) simp
      then have "st \<noteq> PJ_SUCCESS" "w = u" using w by simp_all
      then show ?thesis using s by (auto simp: same_def)
    next
      case n: True
      have r: "fst r = PJ_SUCCESS" "conf_ok (snd r)" "nodes (snd r) = nodes (mconf u)"
          "edges (snd r) = insert (nat a, nat b) (edges (mconf u))"
        using connect_valid [OF cu, of "nat a" "nat b" 0] n unfolding r_def by simp_all
      have "pv_ok w" unfolding w(2) by (rule pv_ok_conf_change [OF s(2) r(2,3)])
      moreover have "tables w = tables v" using s(1) w(2) by (simp add: same_def tables_def)
      moreover have "pv_slots w = pv_slots v" using s(3) w(2) r(3) by (simp add: pv_slots_def)
      moreover have "pv_links w = insert (a, b) (pv_links u)"
        using w(2) r(4) True by (simp add: pv_links_def)
      moreover have "a \<in> pv_slots v \<and> b \<in> pv_slots v" using n True s(3) by (simp add: pv_slots_iff [of _ u, unfolded s(3)])
      ultimately show ?thesis using s(4) w(1) r(1) by simp
    qed
  qed
qed

lemma ensure_snd_dev_ready:
  "pv_ready v \<Longrightarrow> fst (run_state (ensure_snd_dev H) v) = PJ_SUCCESS
    \<and> pv_ready (exec (ensure_snd_dev H) v)"
  by (auto simp: ensure_snd_dev_def pv_ready_def)

lemma conf_connect_ready:
  assumes ok: "pv_ok v" and ready: "pv_ready v"
    and run: "run_state (pjsua_conf_connect H a b) v = (st, w)"
  shows "pv_ready w \<and> (a \<in> pv_slots v \<and> b \<in> pv_slots v \<longrightarrow> st = PJ_SUCCESS)"
proof (cases "0 \<le> a \<and> 0 \<le> b")
  case False
  then show ?thesis using run ready
    by (auto simp: pjsua_conf_connect_def pjsua_conf_connect2_def pv_slots_iff split: if_splits)
next
  case True
  obtain st1 u where u: "run_state (ensure_snd_dev H) v = (st1, u)" by fastforce
  have st1: "st1 = PJ_SUCCESS" "pv_ready u" using ensure_snd_dev_ready [OF ready, of H] u by auto
  have "same v u" by (rule neutral_run [OF neutral_ensure_snd_dev u])
  note s = same_view [OF this ok]
  define r where "r = pjmedia_conf_connect_port (mconf u) (nat a) (nat b) 0"
  have w: "st = fst r" "w = u\<lparr>mconf := snd r\<rparr>"
    using run u True st1(1) by (simp_all add: pjsua_conf_connect_def pjsua_conf_connect2_def r_def)
  have "a \<in> pv_slots v \<and> b \<in> pv_slots v \<longrightarrow> fst r = PJ_SUCCESS"
    using connect_valid [OF pv_ok_conf [OF s(1)], of "nat a" "nat b" 0] s(2)
    by (metis pv_slots_iff r_def add.inverse_inverse neg_le_0_iff_le zero_le_numeral)
  then show ?thesis using w st1(2) by (simp add: pv_ready_def)
qed

end
