(* ===== verification/Recorder_Laws.thy ===== *)
theory Recorder_Laws
  imports Pjsua_Laws
begin

text \<open>
  Disconnecting, removing a port, and the life of a recorder: each as an operation on the abstract
  view (slots, links, live recorders), with the invariant \<open>pv_ok\<close>.
\<close>

section \<open>Disconnecting and removing\<close>

lemma check_idle_mconf [simp]: "mconf (exec pjsua_check_snd_dev_idle v) = mconf v"
  and check_idle_recorder [simp]: "recorder (exec pjsua_check_snd_dev_idle v) = recorder v"
  and check_idle_rec_cnt [simp]: "rec_cnt (exec pjsua_check_snd_dev_idle v) = rec_cnt v"
  and check_idle_tables [simp]: "tables (exec pjsua_check_snd_dev_idle v) = tables v"
  and check_idle_ready [simp]: "pv_ready (exec pjsua_check_snd_dev_idle v) = pv_ready v"
  by (simp_all add: pjsua_check_snd_dev_idle_def Let_def tables_def pv_ready_def)

lemma conf_disconnect_spec:
  assumes ok: "pv_ok v" and run: "run_state (pjsua_conf_disconnect a b) v = (st, w)"
  shows "pv_ok w \<and> tables w = tables v \<and> pv_slots w = pv_slots v
    \<and> pv_links w = pv_links v - {(a, b)} \<and> (pv_ready v \<longrightarrow> pv_ready w)
    \<and> (st = PJ_SUCCESS \<longleftrightarrow> a \<in> pv_slots v \<and> b \<in> pv_slots v)"
proof (cases "0 \<le> a \<and> 0 \<le> b")
  case False
  then have "(a, b) \<notin> pv_links v" "\<not> (a \<in> pv_slots v \<and> b \<in> pv_slots v)"
    by (auto simp: pv_links_iff pv_slots_iff)
  then show ?thesis using run ok False by (auto simp: pjsua_conf_disconnect_def split: if_splits)
next
  case True
  define r where "r = pjmedia_conf_disconnect_port (mconf v) (nat a) (nat b)"
  have w: "st = fst r" "w = exec pjsua_check_snd_dev_idle (v\<lparr>mconf := snd r\<rparr>)"
    using run True by (simp_all add: pjsua_conf_disconnect_def r_def split: prod.splits)
  have cv: "conf_ok (mconf v)" using ok by (rule pv_ok_conf)
  have r: "conf_ok (snd r) \<and> nodes (snd r) = nodes (mconf v)
      \<and> edges (snd r) = edges (mconf v) - {(nat a, nat b)}
      \<and> (fst r = PJ_SUCCESS \<longleftrightarrow> nat a \<in> nodes (mconf v) \<and> nat b \<in> nodes (mconf v))"
  proof (cases "nat a \<in> nodes (mconf v) \<and> nat b \<in> nodes (mconf v)")
    case False
    then have "r = (PJ_EINVAL, mconf v)" unfolding r_def by (rule disconnect_invalid)
    moreover have "(nat a, nat b) \<notin> edges (mconf v)"
      using False conf_inv_edge_nodes [OF cv, of "nat a" "nat b"] by auto
    ultimately show ?thesis using cv False by auto
  next
    case n: True
    then show ?thesis using disconnect_valid [OF cv, of "nat a" "nat b"] unfolding r_def by simp
  qed
  have "pv_ok (v\<lparr>mconf := snd r\<rparr>)" using r by (intro pv_ok_conf_change [OF ok]) auto
  then have "pv_ok w" by (simp add: w(2) pv_ok_def)
  moreover have "tables w = tables v" by (simp add: w(2)) (simp add: tables_def)
  moreover have "pv_slots w = pv_slots v" using r by (simp add: w(2) pv_slots_def)
  moreover have "pv_links w = pv_links v - {(a, b)}"
  proof -
    have "(x, y) \<in> pv_links w \<longleftrightarrow> (x, y) \<in> pv_links v - {(a, b)}" for x y
      using r True by (auto simp: w(2) pv_links_iff nat_eq_iff2)
    then show ?thesis by auto
  qed
  moreover have "st = PJ_SUCCESS \<longleftrightarrow> a \<in> pv_slots v \<and> b \<in> pv_slots v"
    using r True w(1) by (simp add: pv_slots_iff)
  moreover have "pv_ready v \<longrightarrow> pv_ready w" by (simp add: w(2)) (simp add: pv_ready_def)
  ultimately show ?thesis by blast
qed

text \<open>Removing a port, on the bridge alone: the recorder table may be stale in between.\<close>

lemma conf_remove_port_spec:
  assumes ok: "conf_ok (mconf v)" and a: "a \<in> nodes (mconf v)"
  defines "w \<equiv> exec (pjsua_conf_remove_port (int a)) v"
  shows "conf_ok (mconf w) \<and> tables w = tables v \<and> nodes (mconf w) = nodes (mconf v) - {a}
    \<and> edges (mconf w) = edges (mconf v) - ({a} \<times> UNIV \<union> UNIV \<times> {a}) \<and> pv_ready w = pv_ready v"
proof -
  define r where "r = pjmedia_conf_remove_port (mconf v) a"
  have w: "w = exec pjsua_check_snd_dev_idle (v\<lparr>mconf := snd r\<rparr>)"
    by (simp add: w_def r_def pjsua_conf_remove_port_def split: prod.splits)
  have "conf_ok (snd r) \<and> nodes (snd r) = nodes (mconf v) - {a}
      \<and> edges (snd r) = edges (mconf v) - ({a} \<times> UNIV \<union> UNIV \<times> {a})"
    using remove_valid [OF ok a] by (simp add: r_def)
  then show ?thesis by (simp add: w) (simp add: tables_def pv_ready_def)
qed

section \<open>The recorder table\<close>

lemma rec_used_set:
  "i < length rs \<Longrightarrow>
   rec_used (rs[i := r]) = (if rd_port r \<noteq> None then insert i (rec_used rs) else rec_used rs - {i})"
  by (auto simp: rec_used_def nth_list_update)

lemma free_rec_slot:
  assumes ok: "pv_ok v" and room: "unat (rec_cnt v) < PJSUA_MAX_RECORDERS"
  defines "i \<equiv> index_of (\<lambda>r. rd_port r = None) (recorder v)"
  shows "i < PJSUA_MAX_RECORDERS" "i \<notin> rec_used (recorder v)" "\<forall>j < i. j \<in> rec_used (recorder v)"
proof -
  have len: "length (recorder v) = PJSUA_MAX_RECORDERS" using ok by (simp add: pv_ok_def)
  have "card (rec_used (recorder v)) < card {..<length (recorder v)}"
    using room rec_cnt_card [OF ok] len by simp
  then have "rec_used (recorder v) \<noteq> {..<length (recorder v)}" by (metis less_irrefl)
  then obtain j where "j < length (recorder v)" "rd_port (recorder v ! j) = None"
    by (auto simp: rec_used_def)
  then have "\<exists>r \<in> set (recorder v). rd_port r = None" by (metis nth_mem)
  then have lt: "i < length (recorder v)" unfolding i_def by (simp add: index_of_less_iff)
  then show "i < PJSUA_MAX_RECORDERS" using len by simp
  have "rd_port (recorder v ! i) = None"
    using index_of_holds [of "\<lambda>r. rd_port r = None" "recorder v"] lt unfolding i_def by simp
  then show "i \<notin> rec_used (recorder v)" by (simp add: rec_used_def)
  show "\<forall>j < i. j \<in> rec_used (recorder v)"
    using index_of_before [of _ "\<lambda>r. rd_port r = None" "recorder v"] lt
    unfolding i_def rec_used_def by auto
qed

lemma get_port_live:
  "r \<in> pv_live v \<Longrightarrow> pjsua_recorder_get_conf_port r v = int (rd_slot (recorder v ! nat r))"
  by (simp add: pjsua_recorder_get_conf_port_def pv_live_def)

lemma port_slot:
  assumes "pv_ok v" "r \<in> pv_live v"
  shows "pjsua_recorder_get_conf_port r v \<in> pv_slots v"
  using assms by (simp add: get_port_live pv_slots_iff pv_live_iff pv_ok_def)

lemma port_inj:
  assumes ok: "pv_ok v" and r: "r \<in> pv_live v" and q: "q \<in> pv_live v"
    and eq: "pjsua_recorder_get_conf_port r v = pjsua_recorder_get_conf_port q v"
  shows "r = q"
proof -
  have inj: "inj_on (\<lambda>i. rd_slot (recorder v ! i)) (rec_used (recorder v))"
    using ok by (simp add: pv_ok_def)
  have "rd_slot (recorder v ! nat r) = rd_slot (recorder v ! nat q)"
    using eq by (simp add: get_port_live [OF r] get_port_live [OF q])
  then have "nat r = nat q" using inj_onD [OF inj] r q unfolding pv_live_iff by metis
  then show ?thesis using r q by (simp add: pv_live_iff eq_nat_nat_iff)
qed

text \<open>Filling a free entry with a port on a slot that was free.\<close>

lemma fill_recorder:
  fixes p :: media_port
  assumes ok: "pv_ok v" and i: "i < PJSUA_MAX_RECORDERS" "i \<notin> rec_used (recorder v)"
    and c: "conf_ok c" "nodes c = insert k (nodes (mconf v))" "k \<notin> nodes (mconf v)"
      "edges c = edges (mconf v)"
  defines "w \<equiv> v\<lparr>mconf := c, recorder := (recorder v)[i := \<lparr>rd_port = Some p, rd_slot = k\<rparr>],
                 rec_cnt := rec_cnt v + 1\<rparr>"
  shows "pv_ok w \<and> int i \<notin> pv_live v \<and> pv_live w = insert (int i) (pv_live v)
    \<and> pjsua_recorder_get_conf_port (int i) w = int k
    \<and> pv_slots w = insert (int k) (pv_slots v) \<and> pv_links w = pv_links v
    \<and> (\<forall>q \<in> pv_live v. pjsua_recorder_get_conf_port q w = pjsua_recorder_get_conf_port q v)"
proof -
  let ?rs = "recorder v" and ?ws = "(recorder v)[i := \<lparr>rd_port = Some p, rd_slot = k\<rparr>]"
  have len: "length ?rs = PJSUA_MAX_RECORDERS" using ok by (simp add: pv_ok_def)
  have used: "rec_used ?ws = insert i (rec_used ?rs)" using i(1) len by (simp add: rec_used_set)
  have old: "?ws ! j = ?rs ! j" if "j \<in> rec_used ?rs" for j
    using that i(2) by (metis nth_list_update_neq)
  have "card (rec_used ?ws) = card (rec_used ?rs) + 1"
    using i(2) by (simp add: used finite_rec_used)
  moreover have "\<forall>j \<in> rec_used ?ws. rd_slot (?ws ! j) \<in> nodes c"
    using ok old i(1) len c(2) by (auto simp: used pv_ok_def)
  moreover have "inj_on (\<lambda>j. rd_slot (?ws ! j)) (rec_used ?ws)"
  proof -
    have "inj_on (\<lambda>j. rd_slot (?ws ! j)) (rec_used ?rs)"
      using ok old by (simp add: pv_ok_def inj_on_def)
    moreover have "rd_slot (?ws ! i) \<notin> (\<lambda>j. rd_slot (?ws ! j)) ` (rec_used ?rs - {i})"
      using ok old i len c(3) by (auto simp: pv_ok_def)
    ultimately show ?thesis by (simp add: used inj_on_insert)
  qed
  ultimately have okw: "pv_ok w"
    using ok c(1) len by (simp add: w_def pv_ok_def)
  have n: "int i \<notin> pv_live v" using i(2) by (simp add: pv_live_iff)
  have live: "pv_live w = insert (int i) (pv_live v)"
    by (auto simp: pv_live_iff w_def used)
  have "pjsua_recorder_get_conf_port (int i) w = int k"
    using live i(1) len by (simp add: get_port_live w_def)
  moreover have "pjsua_recorder_get_conf_port q w = pjsua_recorder_get_conf_port q v"
    if "q \<in> pv_live v" for q
    using that live old [of "nat q"] by (simp add: get_port_live pv_live_iff w_def)
  moreover have "pv_slots w = insert (int k) (pv_slots v)" by (simp add: pv_slots_def w_def c(2))
  moreover have "pv_links w = pv_links v" by (simp add: pv_links_def w_def c(4))
  ultimately show ?thesis using okw n live by blast
qed

lemma clear_recorder:
  assumes ok: "pv_ok v" and i: "i \<in> rec_used (recorder v)"
    and c: "conf_ok c" "nodes c = nodes (mconf v) - {rd_slot (recorder v ! i)}"
  defines "w \<equiv> v\<lparr>mconf := c, recorder := (recorder v)[i := free_rec], rec_cnt := rec_cnt v - 1\<rparr>"
  shows "pv_ok w \<and> pv_live w = pv_live v - {int i}
    \<and> (\<forall>q \<in> pv_live v - {int i}. pjsua_recorder_get_conf_port q w = pjsua_recorder_get_conf_port q v)"
proof -
  let ?rs = "recorder v" and ?ws = "(recorder v)[i := free_rec]"
  have len: "length ?rs = PJSUA_MAX_RECORDERS" using ok by (simp add: pv_ok_def)
  have il: "i < length ?rs" using i by (simp add: rec_used_def)
  have used: "rec_used ?ws = rec_used ?rs - {i}" using il by (simp add: rec_used_set free_rec_def)
  have old: "?ws ! j = ?rs ! j" if "j \<noteq> i" for j using that by simp
  have "card (rec_used ?rs) = Suc (card (rec_used ?ws))"
    using card_Suc_Diff1 [OF finite_rec_used i] by (simp add: used)
  moreover have "\<forall>j \<in> rec_used ?ws. rd_slot (?ws ! j) \<in> nodes c"
  proof
    fix j assume "j \<in> rec_used ?ws"
    then have j: "j \<in> rec_used ?rs" "j \<noteq> i" by (simp_all add: used)
    have "rd_slot (?rs ! j) \<noteq> rd_slot (?rs ! i)"
      using ok i j by (auto simp: pv_ok_def inj_on_def)
    then show "rd_slot (?ws ! j) \<in> nodes c" using ok j by (simp add: pv_ok_def c(2))
  qed
  moreover have "inj_on (\<lambda>j. rd_slot (?ws ! j)) (rec_used ?ws)"
    using ok by (auto simp: pv_ok_def used inj_on_def)
  ultimately have okw: "pv_ok w" using ok c(1) len by (simp add: w_def pv_ok_def)
  have live: "pv_live w = pv_live v - {int i}"
    by (auto simp: pv_live_iff w_def used)
  have "pjsua_recorder_get_conf_port q w = pjsua_recorder_get_conf_port q v"
    if "q \<in> pv_live v - {int i}" for q
  proof -
    have "nat q \<noteq> i" using that by (auto simp: pv_live_iff)
    then show ?thesis using that live by (simp add: get_port_live w_def)
  qed
  then show ?thesis using okw live by blast
qed

section \<open>Creating and destroying recorders\<close>

text \<open>What a call of \<^verbatim>\<open>pjsua_recorder_create\<close> comes to: an error without effect, or the locked part.\<close>

lemma recorder_create_cases:
  assumes ok: "pv_ok v" and run: "run_state (pjsua_recorder_create H path) v = ((st, r), w)"
  obtains "st \<noteq> PJ_SUCCESS" "w = v"
  | i where "i < PJSUA_MAX_RECORDERS" "i \<notin> rec_used (recorder v)" "\<forall>j < i. j \<in> rec_used (recorder v)"
      "unat (rec_cnt v) < PJSUA_MAX_RECORDERS" "file_format path = Some True" "length path < PJ_MAXPATH"
      "run_state (create_wav_recorder H path i) v = ((st, r), w)"
proof (cases "length path \<ge> PJ_MAXPATH \<or> length path < 4 \<or> unat (rec_cnt v) \<ge> PJSUA_MAX_RECORDERS
    \<or> file_format path \<noteq> Some True")
  case True
  have "st \<noteq> PJ_SUCCESS \<and> w = v"
    using run True unfolding pjsua_recorder_create_def
    by (auto split: if_splits option.splits)
  then show ?thesis using that(1) by blast
next
  case False
  note free = free_rec_slot [OF ok]
  let ?i = "index_of (\<lambda>r. rd_port r = None) (recorder v)"
  have room: "unat (rec_cnt v) < PJSUA_MAX_RECORDERS" using False by simp
  have "length (recorder v) = PJSUA_MAX_RECORDERS" using ok by (simp add: pv_ok_def)
  then have "?i \<noteq> length (recorder v)" using free(1) [OF room] by simp
  then have "run_state (create_wav_recorder H path ?i) v = ((st, r), w)"
    using run False unfolding pjsua_recorder_create_def by auto
  then show ?thesis using that(2) [OF free(1-3) [OF room] room] False by simp
qed

lemma pv_ok_ext: "pv_ok (v\<lparr>ext := x\<rparr>) = pv_ok v"
  and pv_slots_ext: "pv_slots (v\<lparr>ext := x\<rparr>) = pv_slots v"
  and pv_links_ext: "pv_links (v\<lparr>ext := x\<rparr>) = pv_links v"
  and pv_live_ext: "pv_live (v\<lparr>ext := x\<rparr>) = pv_live v"
  and get_port_ext: "pjsua_recorder_get_conf_port r (v\<lparr>ext := x\<rparr>) = pjsua_recorder_get_conf_port r v"
  and pv_ready_ext: "pv_ready (v\<lparr>ext := x\<rparr>) = pv_ready v"
  by (simp_all add: pv_ok_def pv_slots_def pv_links_def pv_live_def live_rec_def
      pjsua_recorder_get_conf_port_def pv_ready_def)

lemmas ext_simps = pv_ok_ext pv_slots_ext pv_links_ext pv_live_ext get_port_ext pv_ready_ext

lemma pv_ready_upd:
  "pv_ready (v\<lparr>mconf := c, recorder := rs, rec_cnt := n\<rparr>) = pv_ready v"
  by (simp add: pv_ready_def)

lemma create_wav_recorder_spec:
  assumes ok: "pv_ok v" and i: "i < PJSUA_MAX_RECORDERS" "i \<notin> rec_used (recorder v)"
    and run: "run_state (create_wav_recorder H path i) v = ((st, r), w)"
  shows "if st = PJ_SUCCESS
    then pv_ok w \<and> r = int i \<and> r \<notin> pv_live v \<and> pv_live w = insert r (pv_live v)
      \<and> pjsua_recorder_get_conf_port r w \<notin> pv_slots v
      \<and> pv_slots w = insert (pjsua_recorder_get_conf_port r w) (pv_slots v) \<and> pv_links w = pv_links v
      \<and> (\<forall>q \<in> pv_live v. pjsua_recorder_get_conf_port q w = pjsua_recorder_get_conf_port q v)
      \<and> pv_ready w = pv_ready v
    else (\<exists>x. w = v\<lparr>ext := x\<rparr>)"
proof -
  obtain st1 port x where wav: "hw_wav_create H path (ext v) = ((st1, port), x)" by (metis surj_pair)
  show ?thesis
  proof (cases "st1 = PJ_SUCCESS")
    case False
    then show ?thesis using run wav by (auto simp: create_wav_recorder_def split: if_splits)
  next
    case st1: True
    obtain st2 k c where add: "pjmedia_conf_add_port (hw_resampler H) (mconf v) port (Some path) = ((st2, k), c)"
      by (metis surj_pair)
    note a = add_port_spec [OF pv_ok_conf [OF ok] add]
    show ?thesis
    proof (cases "st2 = PJ_SUCCESS")
      case False
      then have "c = mconf v" using a by simp
      then have "w = v\<lparr>ext := hw_port_destroy H port x\<rparr> \<and> st = st2"
        using run wav st1 add False by (auto simp: create_wav_recorder_def)
      then show ?thesis using False by auto
    next
      case st2: True
      let ?u = "v\<lparr>ext := x\<rparr>"
      let ?w = "?u\<lparr>mconf := c, recorder := (recorder ?u)[i := \<lparr>rd_port = Some port, rd_slot = k\<rparr>],
                 rec_cnt := rec_cnt ?u + 1\<rparr>"
      have w: "st = PJ_SUCCESS" "r = int i" "w = ?w"
        using run wav st1 add st2 by (auto simp: create_wav_recorder_def)
      have ok': "pv_ok ?u" using ok by (simp add: ext_simps)
      have cs: "conf_ok c" "nodes c = insert k (nodes (mconf ?u))" "k \<notin> nodes (mconf ?u)"
        "edges c = edges (mconf ?u)" using a st2 by simp_all
      have i': "i \<notin> rec_used (recorder ?u)" using i(2) by simp
      note f = fill_recorder [where p = port, OF ok' i(1) i' cs]
      have gp: "pjsua_recorder_get_conf_port r w = int k" using f w by simp
      have "pjsua_recorder_get_conf_port r w \<notin> pv_slots v"
        using cs(3) by (simp add: gp pv_slots_iff)
      then show ?thesis using f w(1,2)
        by (simp add: gp) (simp add: w(3) ext_simps pv_ready_upd)
    qed
  qed
qed

lemma recorder_destroy_live:
  assumes ok: "pv_ok v" and r: "r \<in> pv_live v"
    and run: "run_state (pjsua_recorder_destroy H r) v = (st, w)"
  shows "st = PJ_SUCCESS \<and> pv_ok w \<and> pv_live w = pv_live v - {r}
    \<and> pv_slots w = pv_slots v - {pjsua_recorder_get_conf_port r v}
    \<and> pv_links w = {(a, b) \<in> pv_links v. a \<noteq> pjsua_recorder_get_conf_port r v
                                         \<and> b \<noteq> pjsua_recorder_get_conf_port r v}
    \<and> (\<forall>q \<in> pv_live v - {r}. pjsua_recorder_get_conf_port q w = pjsua_recorder_get_conf_port q v)
    \<and> pv_ready w = pv_ready v"
proof -
  define i where "i = nat r"
  define k where "k = rd_slot (recorder v ! i)"
  have i: "i \<in> rec_used (recorder v)" "r = int i" using r by (simp_all add: i_def pv_live_iff)
  have k: "k \<in> nodes (mconf v)" using ok i(1) by (simp add: k_def pv_ok_def)
  have gp: "pjsua_recorder_get_conf_port r v = int k" using get_port_live [OF r] by (simp add: k_def i_def)
  define u where "u = exec (pjsua_conf_remove_port (int k)) v"
  have u: "conf_ok (mconf u)" "tables u = tables v" "nodes (mconf u) = nodes (mconf v) - {k}"
    "edges (mconf u) = edges (mconf v) - ({k} \<times> UNIV \<union> UNIV \<times> {k})" "pv_ready u = pv_ready v"
    using conf_remove_port_spec [OF pv_ok_conf [OF ok] k] unfolding u_def by simp_all
  have tab: "recorder u = recorder v" "rec_cnt u = rec_cnt v" using u(2) by (simp_all add: tables_def)
  obtain port where p: "rd_port (recorder v ! i) = Some port" using i(1) by (auto simp: rec_used_def)
  have lv: "live_rec r v" using r by (simp add: pv_live_def)
  define x where "x = hw_port_destroy H port (ext u)"
  have w: "st = PJ_SUCCESS" "w = u\<lparr>ext := x, recorder := (recorder v)[i := free_rec], rec_cnt := rec_cnt v - 1\<rparr>"
    using run lv p tab by (auto simp: pjsua_recorder_destroy_def u_def k_def i_def x_def split: prod.splits)
  let ?w = "v\<lparr>mconf := mconf u, recorder := (recorder v)[i := free_rec], rec_cnt := rec_cnt v - 1\<rparr>"
  have eqs: "mconf w = mconf ?w" "recorder w = recorder ?w" "rec_cnt w = rec_cnt ?w"
    using w(2) by simp_all
  have n: "nodes (mconf u) = nodes (mconf v) - {rd_slot (recorder v ! i)}" using u(3) by (simp add: k_def)
  note c = clear_recorder [OF ok i(1) u(1) n]
  have "pv_ok w = pv_ok ?w" "pv_live w = pv_live ?w"
    "\<And>q. pjsua_recorder_get_conf_port q w = pjsua_recorder_get_conf_port q ?w"
    using eqs by (simp_all add: pv_ok_def pv_live_def live_rec_def pjsua_recorder_get_conf_port_def)
  moreover have "pv_slots w = pv_slots v - {int k}"
  proof -
    have "mconf w = mconf u" using eqs(1) by simp
    moreover have "int ` (nodes (mconf v) - {k}) = int ` nodes (mconf v) - {int k}"
      by (simp add: image_set_diff)
    ultimately show ?thesis unfolding pv_slots_def using u(3) by simp
  qed
  moreover have "pv_links w = {(a, b) \<in> pv_links v. a \<noteq> int k \<and> b \<noteq> int k}"
  proof -
    have "(x, y) \<in> pv_links w \<longleftrightarrow> (x, y) \<in> pv_links v \<and> x \<noteq> int k \<and> y \<noteq> int k" for x y
    proof (cases "0 \<le> x \<and> 0 \<le> y")
      case True
      then obtain m n where "x = int m" "y = int n" by (metis nonneg_int_cases)
      then show ?thesis by (simp add: pv_links_nat eqs(1) u(4))
    next
      case False
      then show ?thesis by (auto simp: pv_links_iff)
    qed
    then show ?thesis by auto
  qed
  moreover have "pv_ready w = pv_ready v" using w(2) u(5) by (simp add: pv_ready_def)
  ultimately show ?thesis using c w(1) i(2) gp by simp
qed

end
