(* ===== verification/Pjsua_Buddy.thy ===== *)
theory Pjsua_Buddy
  imports Pjsua_Laws
begin

text \<open>The buddy list of pjsua (pjsua_pres.c): a table of 256 whose free entries have an empty URI.\<close>

section \<open>Operations\<close>

fun enum_buddies_loop :: "nat \<Rightarrow> pjsua_buddy list \<Rightarrow> nat \<Rightarrow> int list" where
  "enum_buddies_loop i [] room = []"
| "enum_buddies_loop i (b # bs) room =
     (if room = 0 then []
      else if bd_uri b = [] then enum_buddies_loop (Suc i) bs room
      else int i # enum_buddies_loop (Suc i) bs (room - 1))"

definition pjsua_enum_buddies :: "nat \<Rightarrow> 'x pjsua_var \<Rightarrow> int list option" where
  "pjsua_enum_buddies count v = Some (enum_buddies_loop 0 (buddies v) count)"

definition pjsua_buddy_is_valid :: "int \<Rightarrow> 'x pjsua_var \<Rightarrow> bool" where
  "pjsua_buddy_is_valid b v \<longleftrightarrow>
     0 \<le> b \<and> b < int (length (buddies v)) \<and> bd_uri (buddies v ! nat b) \<noteq> []"

definition free_buddy :: pjsua_buddy where
  "free_buddy = \<lparr>bd_uri = [], bd_monitor = False\<rparr>"

definition reset_buddy :: "nat \<Rightarrow> 'x pjsua_var \<Rightarrow> 'x pjsua_var" where
  "reset_buddy i v = v\<lparr>buddies := (buddies v)[i := free_buddy]\<rparr>"

definition pjsua_buddy_add :: "'x hw \<Rightarrow> string \<Rightarrow> bool \<Rightarrow> ('x, pj_status \<times> int) pv_m" where
  "pjsua_buddy_add H uri subscribe = do {
     cnt \<leftarrow> gets buddy_cnt;
     assert_return (unat cnt \<le> PJSUA_MAX_BUDDIES) (PJ_ETOOMANY, PJSUA_INVALID_ID)
     (do {
       index \<leftarrow> gets (\<lambda>v. index_of (\<lambda>b. bd_uri b = []) (buddies v));
       n \<leftarrow> gets (\<lambda>v. length (buddies v));
       if index = n then ret (PJ_ETOOMANY, PJSUA_INVALID_ID)
       else do {
         st \<leftarrow> gets (\<lambda>v. hw_uri_ok H uri (ext v));
         if st \<noteq> PJ_SUCCESS then ret (st, PJSUA_INVALID_ID)
         else do {
           modify (reset_buddy index);
           modify (\<lambda>v. v\<lparr>buddies := (buddies v)[index := \<lparr>bd_uri = uri, bd_monitor = subscribe\<rparr>],
                         buddy_cnt := buddy_cnt v + 1\<rparr>);
           upd_ext (hw_subscribe_pres H (int index) subscribe);
           ret (PJ_SUCCESS, int index)
         }
       }
     })
   }"

definition pjsua_buddy_del :: "'x hw \<Rightarrow> int \<Rightarrow> ('x, pj_status) pv_m" where
  "pjsua_buddy_del H b = do {
     v \<leftarrow> gets (\<lambda>v. v);
     if \<not> (0 \<le> b \<and> b < int (length (buddies v))) then ret PJ_EINVAL
     else if bd_uri (buddies v ! nat b) = [] then ret PJ_SUCCESS
     else do {
       upd_ext (hw_subscribe_pres H b False);
       modify (\<lambda>v. v\<lparr>buddies := (buddies v)[nat b := (buddies v ! nat b)\<lparr>bd_uri := []\<rparr>],
                     buddy_cnt := buddy_cnt v - 1\<rparr>);
       modify (reset_buddy (nat b));
       ret PJ_SUCCESS
     }
   }"

section \<open>Laws\<close>

definition pv_buddies :: "'x pjsua_var \<Rightarrow> int set" where
  "pv_buddies v = {b. pjsua_buddy_is_valid b v}"

lemma finite_pv_buddies: "finite (pv_buddies v)"
  by (rule finite_subset [of _ "{0..<int (length (buddies v))}"])
    (auto simp: pv_buddies_def pjsua_buddy_is_valid_def)

lemma enum_buddies_loop_filter:
  "enum_buddies_loop k bs n = take n (map (\<lambda>i. int (k + i)) (filter (\<lambda>i. bd_uri (bs ! i) \<noteq> []) [0..<length bs]))"
proof (induction k bs n rule: enum_buddies_loop.induct)
  case (1 i room)
  then show ?case by simp
next
  case (2 i b bs room)
  have up: "[0..<length (b # bs)] = 0 # map Suc [0..<length bs]"
    by (simp add: map_Suc_upt upt_conv_Cons del: upt_Suc)
  have shift: "filter (\<lambda>j. bd_uri ((b # bs) ! j) \<noteq> []) [0..<length (b # bs)]
      = (if bd_uri b = [] then [] else [0]) @ map Suc (filter (\<lambda>j. bd_uri (bs ! j) \<noteq> []) [0..<length bs])"
    unfolding up by (simp add: filter_map o_def del: upt_Suc)
  show ?case
  proof (cases "room = 0")
    case True
    then show ?thesis by simp
  next
    case False
    show ?thesis
      using 2 False by (simp only: shift) (auto simp: o_def take_Cons' add.left_commute)
  qed
qed

lemma enum_buddies_spec:
  assumes "pjsua_enum_buddies n v = Some ids"
  shows "distinct ids \<and> set ids \<subseteq> pv_buddies v \<and> length ids = min n (card (pv_buddies v))"
proof -
  let ?f = "filter (\<lambda>i. bd_uri (buddies v ! i) \<noteq> []) [0..<length (buddies v)]"
  have ids: "ids = take n (map int ?f)"
    using assms by (simp add: pjsua_enum_buddies_def enum_buddies_loop_filter)
  have d: "distinct (map int ?f)" by (simp add: distinct_map)
  have s: "set (map int ?f) = pv_buddies v"
    by (auto simp: pv_buddies_def pjsua_buddy_is_valid_def image_iff) (metis int_nat_eq nat_less_iff)
  have "length (map int ?f) = card (pv_buddies v)" using distinct_card [OF d] s by simp
  then show ?thesis using d s set_take_subset [of n "map int ?f"] by (auto simp: ids)
qed

lemma buddy_del_spec:
  assumes "run_state (pjsua_buddy_del H b) v = (st, w)"
  shows "pv_buddies w = pv_buddies v - {b}"
  using assms
  by (auto simp: pjsua_buddy_del_def reset_buddy_def free_buddy_def pv_buddies_def
      pjsua_buddy_is_valid_def nth_list_update split: if_splits)

end
