(* ===== verification/Pjsua_Reg.thy ===== *)
theory Pjsua_Reg
  imports Pjsua_Vars
begin

unbundle bit_operations_syntax

text \<open>
  Registration of an account (pjsua_acc.c): the life of the client registration, the Contact it
  registers and its correction behind a NAT, service routes, keep-alive, and the retry after a
  failure or a lost transport. An account pointer is its index in the table.
\<close>

definition get_acc :: "nat \<Rightarrow> ('x, pjsua_acc) pv_m" where
  "get_acc i = gets (\<lambda>v. accounts v ! i)"

definition upd_acc :: "nat \<Rightarrow> (pjsua_acc \<Rightarrow> pjsua_acc) \<Rightarrow> ('x, unit) pv_m" where
  "upd_acc i f = modify (\<lambda>v. v\<lparr>accounts := (accounts v)[i := f (accounts v ! i)]\<rparr>)"

definition regc_set :: "'x hw \<Rightarrow> nat option \<Rightarrow> regc_op \<Rightarrow> ('x, unit) pv_m" where
  "regc_set H r op = (case r of None \<Rightarrow> ret () | Some r \<Rightarrow> upd_ext (hw_regc_set H r op))"

section \<open>Client registration\<close>

definition destroy_regc :: "'x hw \<Rightarrow> nat \<Rightarrow> bool \<Rightarrow> ('x, pj_status) pv_m" where
  "destroy_regc H i force = do {
     a \<leftarrow> get_acc i;
     st \<leftarrow> (case a_regc a of None \<Rightarrow> ret PJ_SUCCESS | Some r \<Rightarrow> on_ext (hw_regc_destroy H r force));
     if st \<noteq> PJ_SUCCESS \<and> \<not> force then ret st
     else do {
       upd_acc i (\<lambda>a. a\<lparr>a_regc := None, a_contact := [], a_reg_mapped_addr := [],
                        a_rfc5626_status := OUTBOUND_UNKNOWN, a_rfc5626_flowtmr := 0\<rparr>);
       ret PJ_SUCCESS
     }
   }"

definition need_outbound :: "pjsua_acc \<Rightarrow> bool" where
  "need_outbound a \<longleftrightarrow> ac_use_rfc5626 (a_cfg a) \<and> a_rfc5626_status a \<noteq> OUTBOUND_NA
     \<and> (stristr (a_contact a) '';transport=tcp'' \<or> stristr (a_contact a) '';transport=tls'')"

text \<open>
  A string of the length \<open>snprintf\<close> returns in a buffer of \<open>n\<close> bytes; past the terminating NUL the
  buffer is taken to hold NULs.
\<close>

definition snprintf_str :: "nat \<Rightarrow> string \<Rightarrow> string" where
  "snprintf_str n s = (if length s < n then s else c_trunc n s @ replicate (length s - (n - 1)) (CHR 0x00))"

definition printed_contact :: "'x hw \<Rightarrow> pjsua_acc \<Rightarrow> string" where
  "printed_contact H a = (case hw_print_contact H (hw_parse_contact H (a_contact a)) of None \<Rightarrow> [] | Some u \<Rightarrow> u)"

definition update_regc_contact :: "'x hw \<Rightarrow> pjsua_acc \<Rightarrow> pjsua_acc" where
  "update_regc_contact H a =
     (let c = a_cfg a; out = need_outbound a;
          len = length (a_contact a) + length (ac_contact_params c) + length (ac_reg_contact_params c)
                + length (ac_reg_contact_uri_params c)
                + (if out then length (a_rfc5626_instprm a) + length (a_rfc5626_regprm a) else 0)
      in if len > length (a_contact a) then
           let base = (if ac_reg_contact_uri_params c \<noteq> []
                       then snprintf_str len (''<'' @ printed_contact H a
                              @ ac_reg_contact_uri_params c @ ''>'' @ ac_contact_params c)
                       else a_contact a);
               full = (if out then base @ a_rfc5626_regprm a @ a_rfc5626_instprm a else base)
           in a\<lparr>a_reg_contact := full @ ac_reg_contact_params c,
                a_rfc5626_status := (if out then OUTBOUND_WANTED else OUTBOUND_NA)\<rparr>
         else a\<lparr>a_reg_contact := a_contact a, a_rfc5626_status := OUTBOUND_NA\<rparr>)"

text \<open>The routes of a REGISTER: the global outbound proxies, and the last \<open>proxy_cnt\<close> routes of the account.\<close>

definition regc_route_set :: "sip_uri list \<Rightarrow> pjsua_acc \<Rightarrow> sip_uri list" where
  "regc_route_set outbound a =
     (let c = a_cfg a; rs = a_route_set a
      in (if ac_reg_use_proxy c AND 1 \<noteq> 0 then outbound else [])
         @ (if ac_reg_use_proxy c AND 2 \<noteq> 0 then drop (length rs - length (ac_proxy c)) rs else []))"

text \<open>The set-up of a new client registration, once it is initialised.\<close>

definition regc_setup :: "'x hw \<Rightarrow> nat \<Rightarrow> nat \<Rightarrow> ('x, unit) pv_m" where
  "regc_setup H i r = do {
     a \<leftarrow> get_acc i;
     outbound \<leftarrow> gets outbound_proxy;
     u \<leftarrow> gets ua_cfg;
     let c = a_cfg a;
     let routes = regc_route_set outbound a;
     upd_ext (hw_regc_set H r RegcTsxCb);
     upd_ext (hw_regc_set H r (RegcTransport (ac_transport_id c)));
     only_if (a_cred a \<noteq> []) (upd_ext (hw_regc_set H r (RegcCredentials (a_cred a))));
     upd_ext (hw_regc_set H r (RegcDelay (ac_reg_delay_before_refresh c)));
     upd_ext (hw_regc_set H r RegcPrefs);
     only_if (routes \<noteq> []) (upd_ext (hw_regc_set H r (RegcRouteSet routes)));
     upd_ext (hw_regc_set H r (RegcHeaders (ac_reg_hdr_list c)));
     only_if (uc_user_agent u \<noteq> []) (upd_ext (hw_regc_set H r (RegcHeaders [(''User-Agent'', uc_user_agent u)])));
     only_if (a_rfc5626_status a = OUTBOUND_WANTED \<or> a_rfc5626_status a = OUTBOUND_ACTIVE)
       (upd_ext (hw_regc_set H r (RegcHeaders [(''Supported'', ''outbound, path'')])))
   }"

definition pjsua_regc_init :: "'x hw \<Rightarrow> nat \<Rightarrow> ('x, pj_status) pv_m" where
  "pjsua_regc_init H i = do {
     a \<leftarrow> get_acc i;
     assert_return (a_valid a) PJ_EINVAL
     (if ac_reg_uri (a_cfg a) = [] then ret PJ_SUCCESS
      else do {
        destroy_regc H i True;
        (st, r) \<leftarrow> on_ext (hw_regc_create H (int i));
        if st \<noteq> PJ_SUCCESS then ret st
        else do {
          upd_acc i (\<lambda>a. a\<lparr>a_regc := Some r\<rparr>);
          a \<leftarrow> get_acc i;
          (st, contact) \<leftarrow> (if a_contact a = [] then gets (\<lambda>v. hw_uac_contact H (int i) (ac_reg_uri (a_cfg a)) (ext v))
                           else ret (PJ_SUCCESS, a_contact a));
          if st \<noteq> PJ_SUCCESS then do {
            destroy_regc H i True;
            ret st
          } else do {
            only_if (a_contact a = []) (upd_acc i (\<lambda>a. update_regc_contact H (a\<lparr>a_contact := contact\<rparr>)));
            a \<leftarrow> get_acc i;
            st \<leftarrow> on_ext (hw_regc_init H r (ac_reg_uri (a_cfg a)) (ac_id (a_cfg a)) (a_reg_contact a)
                           (ac_reg_timeout (a_cfg a)));
            if st \<noteq> PJ_SUCCESS then do {
              destroy_regc H i True;
              ret st
            } else do {
              regc_setup H i r;
              ret PJ_SUCCESS
            }
          }
        }
      })
   }"

section \<open>Registering and unregistering\<close>

definition cancel_rereg_timer :: "'x hw \<Rightarrow> nat \<Rightarrow> ('x, unit) pv_m" where
  "cancel_rereg_timer H i = do {
     a \<leftarrow> get_acc i;
     only_if (a_rereg_timer a) (do {
       upd_acc i (\<lambda>a. a\<lparr>a_rereg_timer := False\<rparr>);
       upd_ext (hw_cancel_timer H (ReregTimer i))
     })
   }"

text \<open>
  The request to send: \<open>Inl\<close> a status when the function ends early, \<open>Inr\<close> the status of creating the
  request and the session it belongs to.
\<close>

definition make_register :: "'x hw \<Rightarrow> nat \<Rightarrow> ('x, pj_status + pj_status \<times> nat) pv_m" where
  "make_register H i = do {
     a \<leftarrow> get_acc i;
     st \<leftarrow> (if a_regc a = None then pjsua_regc_init H i else ret PJ_SUCCESS);
     if st \<noteq> PJ_SUCCESS then ret (Inl st)
     else do {
       a \<leftarrow> get_acc i;
       case a_regc a of
         None \<Rightarrow> ret (Inl PJ_EINVALIDOP)
       | Some r \<Rightarrow> do { st \<leftarrow> on_ext (hw_regc_register H r); ret (Inr (st, r)) }
     }
   }"

definition make_unregister :: "'x hw \<Rightarrow> nat \<Rightarrow> ('x, pj_status + pj_status \<times> nat) pv_m" where
  "make_unregister H i = do {
     a \<leftarrow> get_acc i;
     case a_regc a of
       None \<Rightarrow> ret (Inl PJ_EINVALIDOP)
     | Some r \<Rightarrow> do {
         upd_ext (hw_unpublish H (int i));
         st \<leftarrow> on_ext (hw_regc_unregister H r);
         ret (Inr (st, r))
       }
   }"

definition pjsua_sip_acc_is_using_stun :: "pjsua_acc \<Rightarrow> ua_config \<Rightarrow> bool" where
  "pjsua_sip_acc_is_using_stun a u \<longleftrightarrow> ac_sip_stun (a_cfg a) \<and> uc_stun_srv_cnt u \<noteq> 0"

definition pjsua_sip_acc_is_using_upnp :: "pjsua_acc \<Rightarrow> ua_config \<Rightarrow> bool" where
  "pjsua_sip_acc_is_using_upnp a u \<longleftrightarrow> ac_sip_upnp (a_cfg a) \<and> uc_upnp_ready u"

text \<open>
  The callbacks \<^verbatim>\<open>on_reg_started\<close> are not installed by the shim. While the request is sent the lock is
  released; what a concurrent callback does then to the account is not used afterwards.
\<close>

definition pjsua_acc_set_registration :: "'x hw \<Rightarrow> int \<Rightarrow> bool \<Rightarrow> ('x, pj_status) pv_m" where
  "pjsua_acc_set_registration H acc_id renew = do {
     n \<leftarrow> gets (\<lambda>v. length (accounts v));
     assert_return (0 \<le> acc_id \<and> acc_id < int n) PJ_EINVAL
     (do {
       let i = nat acc_id;
       a \<leftarrow> get_acc i;
       assert_return (a_valid a) PJ_EINVALIDOP
       (do {
         cancel_rereg_timer H i;
         req \<leftarrow> (if renew then make_register H i else make_unregister H i);
         case req of
           Inl st \<Rightarrow> ret st
         | Inr (st, r) \<Rightarrow>
             if st \<noteq> PJ_SUCCESS then ret st
             else do {
               a \<leftarrow> get_acc i;
               u \<leftarrow> gets ua_cfg;
               (if ac_allow_via_rewrite (a_cfg a) \<and> a_via_host a \<noteq> []
                then upd_ext (hw_regc_set H r (RegcViaSentBy (Some (a_via_host a, a_via_port a, a_via_tp a))))
                else only_if (\<not> pjsua_sip_acc_is_using_stun a u \<and> \<not> pjsua_sip_acc_is_using_upnp a u)
                       (upd_ext (hw_regc_set H r RegcLocalVia)));
               on_ext (hw_regc_send H r)
             }
       })
     })
   }"

section \<open>Retrying\<close>

text \<open>
  The delay before the next attempt, with the value \<open>rnd\<close> of \<^verbatim>\<open>pj_rand\<close>. Where the interval is shorter
  than the random one, \<^verbatim>\<open>delay.sec\<close> is cleared before it is used in the bound of the random part.
\<close>

definition rereg_delay :: "pjsua_acc \<Rightarrow> nat \<Rightarrow> time_val" where
  "rereg_delay a rnd =
     (let c = a_cfg a;
          sec = int (if a_rereg_attempt_cnt a \<noteq> 0 then ac_reg_retry_interval c else ac_reg_first_retry_interval c);
          rand_ms = int (ac_reg_retry_random_interval c) * 1000
      in pj_time_val_normalize
           (if ac_reg_retry_random_interval c = 0 then \<lparr>tv_sec = sec, tv_msec = 0\<rparr>
            else if sec \<ge> int (ac_reg_retry_random_interval c)
            then \<lparr>tv_sec = sec, tv_msec = - rand_ms + int rnd mod (rand_ms * 2)\<rparr>
            else \<lparr>tv_sec = 0, tv_msec = int rnd mod (0 * 1000 + rand_ms)\<rparr>))"

text \<open>\<open>hangup\<close> is \<^verbatim>\<open>pjsua_call_hangup(i, 0, NULL, NULL)\<close>.\<close>

definition drop_calls :: "(int \<Rightarrow> ('x, pj_status) pv_m) \<Rightarrow> nat \<Rightarrow> ('x, unit) pv_m" where
  "drop_calls hangup i = do {
     n \<leftarrow> gets (\<lambda>v. length (calls v));
     for_each [0..<n] (\<lambda>k. do {
       owner \<leftarrow> gets (\<lambda>v. call_acc_id (calls v ! k));
       if owner = int i then do { hangup (int k); ret () } else ret ()
     })
   }"

definition schedule_reregistration :: "'x hw \<Rightarrow> (int \<Rightarrow> ('x, pj_status) pv_m) \<Rightarrow> nat \<Rightarrow> ('x, unit) pv_m" where
  "schedule_reregistration H hangup i = do {
     a \<leftarrow> get_acc i;
     if \<not> a_valid a \<or> ac_reg_retry_interval (a_cfg a) = 0 then ret ()
     else do {
       only_if (ac_drop_calls_on_reg_fail (a_cfg a) \<and> a_rereg_attempt_cnt a \<ge> 1) (drop_calls hangup i);
       cancel_rereg_timer H i;
       upd_acc i (\<lambda>a. a\<lparr>a_rereg_active := True\<rparr>);
       a \<leftarrow> get_acc i;
       rnd \<leftarrow> (if ac_reg_retry_random_interval (a_cfg a) = 0 then ret 0 else on_ext (hw_rand H));
       upd_acc i (\<lambda>a. a\<lparr>a_rereg_timer := True\<rparr>);
       st \<leftarrow> on_ext (hw_schedule_timer H (ReregTimer i) (rereg_delay a rnd));
       only_if (st \<noteq> PJ_SUCCESS) (upd_acc i (\<lambda>a. a\<lparr>a_rereg_timer := False\<rparr>))
     }
   }"

text \<open>
  The new Contact of a retry: \<open>False\<close> when none could be made.
\<close>

definition refresh_contact :: "'x hw \<Rightarrow> nat \<Rightarrow> ('x, bool) pv_m" where
  "refresh_contact H i = do {
     a \<leftarrow> get_acc i;
     (st, contact) \<leftarrow> gets (\<lambda>v. hw_uac_contact H (int i) (ac_reg_uri (a_cfg a)) (ext v));
     if st \<noteq> PJ_SUCCESS then ret False
     else do {
       only_if (contact \<noteq> a_contact a) (do {
         upd_acc i (\<lambda>a. update_regc_contact H (a\<lparr>a_contact := contact\<rparr>));
         a \<leftarrow> get_acc i;
         regc_set H (a_regc a) (RegcContact (a_reg_contact a))
       });
       ret True
     }
   }"

definition auto_rereg_timer_cb :: "'x hw \<Rightarrow> (int \<Rightarrow> ('x, pj_status) pv_m) \<Rightarrow> nat \<Rightarrow> ('x, unit) pv_m" where
  "auto_rereg_timer_cb H hangup i = do {
     a \<leftarrow> get_acc i;
     if \<not> a_valid a \<or> \<not> a_rereg_active a \<or> ac_reg_retry_interval (a_cfg a) = 0 then ret ()
     else do {
       upd_acc i (\<lambda>a. a\<lparr>a_rereg_attempt_cnt := a_rereg_attempt_cnt a + 1\<rparr>);
       ok \<leftarrow> (if a_rfc5626_status a \<noteq> OUTBOUND_ACTIVE \<and> \<not> a_contact_rewritten a then refresh_contact H i
             else ret True);
       if \<not> ok then schedule_reregistration H hangup i
       else do {
         st \<leftarrow> pjsua_acc_set_registration H (int i) True;
         if st \<noteq> PJ_SUCCESS then schedule_reregistration H hangup i else ret ()
       }
     }
   }"

section \<open>Keep-alive\<close>

definition strip_ipv6 :: "nat \<Rightarrow> nat" where
  "strip_ipv6 t = (if t AND TP_TYPE_IPV6 \<noteq> 0 then t - TP_TYPE_IPV6 else t)"

definition ka_secs :: "pjsua_acc \<Rightarrow> nat" where
  "ka_secs a = unat (if a_rfc5626_flowtmr a \<noteq> 0 then a_rfc5626_flowtmr a else ac_ka_interval (a_cfg a))"

text \<open>A random number of seconds from four fifths of the interval (exactly, not as a float) up to it.\<close>

definition ka_delay :: "nat \<Rightarrow> nat \<Rightarrow> time_val" where
  "ka_delay ka_timer rnd =
     (let lower_bound = ka_timer * 4 div 5
      in \<lparr>tv_sec = int (rnd mod (ka_timer - lower_bound) + lower_bound), tv_msec = 0\<rparr>)"

definition stop_keep_alive :: "'x hw \<Rightarrow> nat \<Rightarrow> ('x, unit) pv_m" where
  "stop_keep_alive H i = do {
     a \<leftarrow> get_acc i;
     only_if (a_ka_timer a) (do {
       upd_ext (hw_cancel_timer H (KeepAliveTimer i));
       upd_acc i (\<lambda>a. a\<lparr>a_ka_timer := False\<rparr>);
       case a_ka_transport a of
         None \<Rightarrow> ret ()
       | Some tp \<Rightarrow> do {
           upd_ext (hw_tp_dec_ref H tp);
           upd_acc i (\<lambda>a. a\<lparr>a_ka_transport := None\<rparr>)
         }
     })
   }"

text \<open>\<open>None\<close> stops keep-alive, \<open>Some rx\<close> restarts it for the transport of a response.\<close>

definition update_keep_alive :: "'x hw \<Rightarrow> nat \<Rightarrow> rx_data option \<Rightarrow> ('x, unit) pv_m" where
  "update_keep_alive H i start = do {
     stop_keep_alive H i;
     case start of
       None \<Rightarrow> ret ()
     | Some rx \<Rightarrow> do {
         (case rx_flow_timer rx of
            None \<Rightarrow> ret ()
          | Some s \<Rightarrow> upd_acc i (\<lambda>a. a\<lparr>a_rfc5626_flowtmr := pj_strtoul s\<rparr>));
         a \<leftarrow> get_acc i;
         if ac_ka_interval (a_cfg a) = 0 \<and> a_rfc5626_flowtmr a = 0
            \<or> rx_flow_timer rx = None \<and> strip_ipv6 (rx_tp_type rx) \<noteq> TP_TYPE_UDP
         then ret ()
         else do {
           upd_acc i (\<lambda>a. a\<lparr>a_ka_transport := Some (rx_tp rx)\<rparr>);
           upd_ext (hw_tp_add_ref H (rx_tp rx));
           case rx_req_dst rx of
             None \<Rightarrow> ret ()
           | Some dst \<Rightarrow> do {
               upd_acc i (\<lambda>a. a\<lparr>a_ka_target := dst\<rparr>);
               rnd \<leftarrow> on_ext (hw_rand H);
               st \<leftarrow> on_ext (hw_schedule_timer H (KeepAliveTimer i) (ka_delay (ka_secs a) rnd));
               if st = PJ_SUCCESS then upd_acc i (\<lambda>a. a\<lparr>a_ka_timer := True\<rparr>)
               else do {
                 upd_acc i (\<lambda>a. a\<lparr>a_ka_timer := False\<rparr>);
                 upd_ext (hw_tp_dec_ref H (rx_tp rx));
                 upd_acc i (\<lambda>a. a\<lparr>a_ka_transport := None\<rparr>)
               }
             }
         }
       }
   }"

definition keep_alive_timer_cb :: "'x hw \<Rightarrow> nat \<Rightarrow> ('x, unit) pv_m" where
  "keep_alive_timer_cb H i = do {
     upd_acc i (\<lambda>a. a\<lparr>a_ka_timer := False\<rparr>);
     a \<leftarrow> get_acc i;
     case a_ka_transport a of
       None \<Rightarrow> ret ()
     | Some tp \<Rightarrow> do {
         upd_ext (hw_send_raw H tp (ac_ka_data (a_cfg a)) (a_ka_target a));
         if ac_ka_interval (a_cfg a) = 0 \<and> a_rfc5626_flowtmr a = 0 then ret ()
         else do {
           rnd \<leftarrow> on_ext (hw_rand H);
           st \<leftarrow> on_ext (hw_schedule_timer H (KeepAliveTimer i) (ka_delay (ka_secs a) rnd));
           only_if (st = PJ_SUCCESS) (upd_acc i (\<lambda>a. a\<lparr>a_ka_timer := True\<rparr>))
         }
       }
   }"

end
