(* ===== verification/Pjsua_Nat.thy ===== *)
theory Pjsua_Nat
  imports Pjsua_Reg
begin

text \<open>
  What a registration response changes (pjsua_acc.c): the Contact behind a NAT, service routes, the
  outbound status, and the callback of the client registration.
\<close>

section \<open>The address the registrar sees\<close>

definition private_net :: "string list" where
  "private_net = [''10.'', ''127.'', ''172.16.'', ''172.17.'', ''172.18.'', ''172.19.'', ''172.20.'', ''172.21.'',
     ''172.22.'', ''172.23.'', ''172.24.'', ''172.25.'', ''172.26.'', ''172.27.'', ''172.28.'', ''172.29.'',
     ''172.30.'', ''172.31.'', ''192.168.'']"

definition is_private_ip :: "string \<Rightarrow> bool" where
  "is_private_ip addr \<longleftrightarrow> list_ex (\<lambda>p. take (length p) addr = p) private_net"

definition nat_rport :: "rx_data \<Rightarrow> int" where
  "nat_rport rx =
     (if rx_rport_param rx < 1
      then if rx_via_port rx = 0 then fst (tp_row (rx_tp_type rx)) else rx_via_port rx
      else rx_rport_param rx)"

definition nat_via_addr :: "rx_data \<Rightarrow> string" where
  "nat_via_addr rx = (if rx_recvd_param rx \<noteq> [] then rx_recvd_param rx else rx_via_host rx)"

definition save_via_addr :: "'x hw \<Rightarrow> nat \<Rightarrow> rx_data \<Rightarrow> ('x, unit) pv_m" where
  "save_via_addr H i rx = do {
     a \<leftarrow> get_acc i;
     let c = a_cfg a;
     let via = nat_via_addr rx;
     let rport = nat_rport rx;
     only_if (ac_allow_via_rewrite c \<and>
              (a_via_host a \<noteq> via \<or> a_via_tp a \<noteq> Some (rx_tp rx) \<or>
               a_via_port a \<noteq> rport \<and> (\<not> is_private_ip via \<or> ac_allow_contact_rewrite c = 2)))
       (do {
          upd_acc i (\<lambda>a. a\<lparr>a_via_host := via, a_via_port := rport, a_via_tp := Some (rx_tp rx)\<rparr>);
          regc_set H (a_regc a) (RegcViaSentBy (Some (via, rport, Some (rx_tp rx))));
          publishing \<leftarrow> gets (\<lambda>v. hw_publishing H (int i) (ext v));
          only_if publishing (upd_ext (hw_publish_via H (int i) (via, rport, Some (rx_tp rx))))
        });
     only_if (ac_allow_sdp_nat_rewrite c \<and> a_reg_mapped_addr a \<noteq> via)
       (upd_acc i (\<lambda>a. a\<lparr>a_reg_mapped_addr := via\<rparr>))
   }"

text \<open>Whether the Contact of the account is to be replaced by the address the response shows.\<close>

definition nat_rewrite_wanted :: "'x hw \<Rightarrow> pjsua_acc \<Rightarrow> rx_data \<Rightarrow> bool" where
  "nat_rewrite_wanted H a rx =
     (let allow = ac_allow_contact_rewrite (a_cfg a);
          via = nat_via_addr rx; rport = nat_rport rx;
          uri = hw_parse_contact H (a_contact a);
          host = su_host uri;
          port = (if su_port uri = 0 then fst (tp_row (rx_tp_type rx)) else su_port uri);
          parsed = (hw_addr_status H host = PJ_SUCCESS \<and> hw_addr_status H via = PJ_SUCCESS);
          matched = (port = rport \<and> (if parsed then hw_same_addr H host via else same_nocase host via))
      in allow \<noteq> 0 \<and> a_rfc5626_status a \<noteq> OUTBOUND_ACTIVE \<and> \<not> matched
         \<and> \<not> (allow \<noteq> 2 \<and> \<not> is_private_ip host \<and> \<not> is_private_ip (rx_src_name rx) \<and> is_private_ip via)
         \<and> \<not> (allow \<noteq> 2 \<and> hw_same_addr H host via \<and> is_private_ip via))"

definition nat_contact :: "pjsua_acc \<Rightarrow> rx_data \<Rightarrow> string" where
  "nat_contact a rx =
     (let c = a_cfg a; t = rx_tp_type rx; v6 = (t AND TP_TYPE_IPV6 \<noteq> 0)
      in ''<'' @ (if snd (snd (tp_row t)) \<and> a_is_sips a then ''sips'' else ''sip'') @ '':''
         @ a_user_part a @ (if a_user_part a \<noteq> [] then ''@'' else [])
         @ (if v6 then ''['' else []) @ nat_via_addr rx @ (if v6 then '']'' else [])
         @ '':'' @ dec (nat_rport rx)
         @ (if t \<noteq> TP_TYPE_UDP \<and> t \<noteq> TP_TYPE_UDP6
            then c_trunc 32 ('';transport='' @ fst (snd (tp_row t))) else [])
         @ ac_contact_uri_params c @ (if ac_use_rfc5626 c then '';ob'' else []) @ ''>'' @ ac_contact_params c)"

text \<open>The result says whether a new registration replaces the one that was answered.\<close>

definition acc_check_nat_addr :: "'x hw \<Rightarrow> nat \<Rightarrow> nat \<Rightarrow> rx_data \<Rightarrow> ('x, bool) pv_m" where
  "acc_check_nat_addr H i rewrite_method rx = do {
     save_via_addr H i rx;
     a \<leftarrow> get_acc i;
     if \<not> nat_rewrite_wanted H a rx then ret False
     else do {
       only_if (rewrite_method = 1) (do {
         pjsua_acc_set_registration H (int i) False;
         destroy_regc H i True;
         ret ()
       });
       a \<leftarrow> get_acc i;
       let contact = nat_contact a rx;
       if length contact \<ge> 256 then ret False
       else do {
         upd_acc i (\<lambda>a. update_regc_contact H (a\<lparr>a_contact := contact\<rparr>));
         a \<leftarrow> get_acc i;
         only_if (rewrite_method = 2) (regc_set H (a_regc a) (RegcContact (a_reg_contact a)));
         only_if (rewrite_method < 4) (do { pjsua_acc_set_registration H (int i) True; ret () });
         ret True
       }
     }
   }"

section \<open>Service routes\<close>

text \<open>
  Collecting the URIs of the Service-Route headers into an array of 8. \<open>RouteOverflow\<close> is a write
  past its end, whose consequences C leaves undefined.
\<close>

datatype service_route = RouteOk "sip_uri list" | RouteRefused | RouteOverflow

fun collect_uris :: "sip_uri list \<Rightarrow> sip_uri list \<Rightarrow> service_route" where
  "collect_uris uris [] = RouteOk uris"
| "collect_uris uris (h # hs) =
     (if \<not> is_sip_uri h then RouteRefused
      else if length uris \<ge> PJSUA_ACC_MAX_PROXIES then RouteOverflow
      else if hs \<noteq> [] \<and> Suc (length uris) = PJSUA_ACC_MAX_PROXIES then RouteRefused
      else collect_uris (uris @ [h]) hs)"

fun collect_headers :: "'x hw \<Rightarrow> sip_uri list \<Rightarrow> string list \<Rightarrow> service_route" where
  "collect_headers H uris [] = RouteOk uris"
| "collect_headers H uris (value # values) =
     (case hw_parse_route H value of
        None \<Rightarrow> RouteRefused
      | Some (h, hs) \<Rightarrow>
          case collect_uris uris (h # hs) of
            RouteOk uris' \<Rightarrow> collect_headers H uris' values
          | r \<Rightarrow> r)"

text \<open>
  The new route set: the global and the account's own proxies, then the URIs of the response. The
  result is \<open>False\<close> after an overflow.
\<close>

definition update_service_route :: "'x hw \<Rightarrow> nat \<Rightarrow> rx_data \<Rightarrow> ('x, bool) pv_m" where
  "update_service_route H i rx =
     (case collect_headers H [] (rx_service_route rx) of
        RouteOverflow \<Rightarrow> ret False
      | RouteRefused \<Rightarrow> ret True
      | RouteOk uris \<Rightarrow> do {
          outbound \<leftarrow> gets outbound_proxy;
          only_if (uris \<noteq> []) (upd_acc i (\<lambda>a.
            a\<lparr>a_route_set := take (length outbound + length (ac_proxy (a_cfg a))) (a_route_set a) @ uris\<rparr>));
          ret True
        })"

section \<open>The registration callback\<close>

definition update_rfc5626_status :: "rx_data \<Rightarrow> pjsua_acc \<Rightarrow> pjsua_acc" where
  "update_rfc5626_status rx a =
     (let st = (if a_rfc5626_status a = OUTBOUND_UNKNOWN then OUTBOUND_UNKNOWN
                else case rx_require rx of
                       None \<Rightarrow> OUTBOUND_NA
                     | Some values \<Rightarrow> if list_ex (\<lambda>x. same_nocase x ''outbound'') values
                                      then OUTBOUND_ACTIVE else OUTBOUND_NA)
      in a\<lparr>a_rfc5626_status := st,
           a_reg_contact := (if st \<noteq> OUTBOUND_ACTIVE then a_contact a else a_reg_contact a)\<rparr>)"

text \<open>
  Before a retry with credentials or a redirect: the Contact to use instead, if any. \<open>has_rdata\<close> says
  whether there is a response at all.
\<close>

definition regc_tsx_cb :: "'x hw \<Rightarrow> nat \<Rightarrow> regc_cbparam \<Rightarrow> bool \<Rightarrow> ('x, string option) pv_m" where
  "regc_tsx_cb H i p has_rdata = do {
     a \<leftarrow> get_acc i;
     if a_regc a \<noteq> Some (rp_regc p) then ret None
     else if \<not> a_contact_rewritten a \<and> ac_contact_rewrite_method (a_cfg a) AND 4 = 4 \<and> rp_code p \<ge> 400 \<and> has_rdata
     then do {
       changed \<leftarrow> acc_check_nat_addr H i 4 (rp_rdata p);
       a \<leftarrow> get_acc i;
       ret (if changed then Some (a_reg_contact a) else None)
     }
     else ret None
   }"

definition in_class :: "int \<Rightarrow> int \<Rightarrow> bool" where
  "in_class code cls \<longleftrightarrow> code div 100 = cls div 100"

definition temporary_failure :: "int \<Rightarrow> bool" where
  "temporary_failure code \<longleftrightarrow>
     code = 408 \<or> code = 500 \<or> code = 502 \<or> code = 503 \<or> code = 504 \<or> code = 480 \<or> in_class code 600"

text \<open>
  How the callback ends: without calling \<^verbatim>\<open>on_reg_state\<close>, with a call of it, or in undefined
  behaviour.
\<close>

datatype reg_outcome = NoCallback | CallOnRegState | MemoryError

text \<open>A successful registration that is to be kept: \<open>None\<close> continues with the status of the account.\<close>

definition regc_registered :: "'x hw \<Rightarrow> nat \<Rightarrow> rx_data \<Rightarrow> ('x, reg_outcome option) pv_m" where
  "regc_registered H i rx = do {
     upd_acc i (update_rfc5626_status rx);
     a \<leftarrow> get_acc i;
     rewritten \<leftarrow> (if a_contact_rewritten a then ret False
                  else acc_check_nat_addr H i (ac_contact_rewrite_method (a_cfg a) AND 3) rx);
     if rewritten then do {
       upd_acc i (\<lambda>a. a\<lparr>a_contact_rewritten := True\<rparr>);
       ret (Some NoCallback)
     } else do {
       ok \<leftarrow> update_service_route H i rx;
       if \<not> ok then ret (Some MemoryError)
       else do {
         update_keep_alive H i (Some rx);
         publishing \<leftarrow> gets (\<lambda>v. hw_publishing H (int i) (ext v));
         only_if (ac_publish_enabled (a_cfg a) \<and> \<not> publishing) (upd_ext (hw_publish H (int i)));
         only_if (ac_mwi_enabled (a_cfg a)) (upd_ext (hw_start_mwi H (int i) False));
         ret None
       }
     }
   }"

text \<open>The part of the callback for the outcome of the request.\<close>

definition regc_outcome :: "'x hw \<Rightarrow> nat \<Rightarrow> regc_cbparam \<Rightarrow> ('x, reg_outcome option) pv_m" where
  "regc_outcome H i p =
     (if rp_status p \<noteq> PJ_SUCCESS then
        if rp_status p = PJSIP_EBUSY then ret (Some NoCallback)
        else do {
          st \<leftarrow> destroy_regc H i False;
          only_if (st = PJ_SUCCESS) (update_keep_alive H i None);
          ret None
        }
      else if rp_code p < 0 \<or> rp_code p \<ge> 300 then do {
        destroy_regc H i True;
        update_keep_alive H i None;
        ret None
      } else if in_class (rp_code p) 200 then do {
        upd_acc i (\<lambda>a. a\<lparr>a_rereg_active := False, a_rereg_attempt_cnt := 0\<rparr>);
        if rp_expiration p < 1 then do {
          destroy_regc H i True;
          update_keep_alive H i None;
          ret None
        } else regc_registered H i (rp_rdata p)
      } else ret None)"

text \<open>The callback up to the call of \<^verbatim>\<open>on_reg_state\<close>.\<close>

definition regc_cb_update ::
  "'x hw \<Rightarrow> (int \<Rightarrow> ('x, pj_status) pv_m) \<Rightarrow> nat \<Rightarrow> regc_cbparam \<Rightarrow> ('x, reg_outcome) pv_m" where
  "regc_cb_update H hangup i p = do {
     a \<leftarrow> get_acc i;
     if a_regc a \<noteq> Some (rp_regc p) then ret NoCallback
     else do {
       early \<leftarrow> regc_outcome H i p;
       case early of
         Some r \<Rightarrow> ret r
       | None \<Rightarrow> do {
           upd_acc i (\<lambda>a. a\<lparr>a_reg_last_err := rp_status p, a_reg_last_code := rp_code p, a_contact_rewritten := False\<rparr>);
           a \<leftarrow> get_acc i;
           only_if (ac_reg_retry_interval (a_cfg a) \<noteq> 0 \<and> a_ip_change_op a \<noteq> IP_OP_UPDATE_CONTACT
                    \<and> temporary_failure (rp_code p))
             (schedule_reregistration H hangup i);
           ret CallOnRegState
         }
     }
   }"

text \<open>The part after it, in a change of the IP address; \<^verbatim>\<open>on_ip_change_progress\<close> is not installed by the shim.\<close>

definition pjsua_acc_end_ip_change :: "nat \<Rightarrow> ('x, unit) pv_m" where
  "pjsua_acc_end_ip_change i = do {
     a \<leftarrow> get_acc i;
     only_if (a_ip_change_op a \<noteq> IP_OP_COMPLETED) (upd_acc i (\<lambda>a. a\<lparr>a_ip_change_op := IP_OP_COMPLETED\<rparr>))
   }"

definition regc_cb_ip_change :: "'x hw \<Rightarrow> nat \<Rightarrow> regc_cbparam \<Rightarrow> ('x, unit) pv_m" where
  "regc_cb_ip_change H i p = do {
     a \<leftarrow> get_acc i;
     if a_ip_change_op a \<noteq> IP_OP_UPDATE_CONTACT then ret ()
     else if \<not> in_class (rp_code p) 200 then pjsua_acc_end_ip_change i
     else if rp_expiration p < 1 then do {
       st \<leftarrow> pjsua_acc_set_registration H (int i) True;
       if st \<noteq> PJ_SUCCESS then pjsua_acc_end_ip_change i else ret ()
     } else do {
       on_ext (hw_schedule_timer H (IpChangeTimer i) \<lparr>tv_sec = 0, tv_msec = 0\<rparr>);
       ret ()
     }
   }"

text \<open>\<open>on_reg\<close> is the application's \<^verbatim>\<open>on_reg_state\<close>.\<close>

definition regc_cb ::
  "'x hw \<Rightarrow> (int \<Rightarrow> ('x, pj_status) pv_m) \<Rightarrow> (int \<Rightarrow> ('x, unit) pv_m) \<Rightarrow> nat \<Rightarrow> regc_cbparam \<Rightarrow> ('x, reg_outcome) pv_m" where
  "regc_cb H hangup on_reg i p = do {
     r \<leftarrow> regc_cb_update H hangup i p;
     only_if (r = CallOnRegState) (do {
       on_reg (int i);
       regc_cb_ip_change H i p
     });
     ret r
   }"

section \<open>Lost transports\<close>

text \<open>
  A disconnected transport: each account whose client registration used it releases it and tries again.
  \<open>ip_change i\<close> is the next step of a change of the IP address that waits for the disconnection.
\<close>

definition acc_tp_lost ::
  "'x hw \<Rightarrow> (int \<Rightarrow> ('x, pj_status) pv_m) \<Rightarrow> (nat \<Rightarrow> ('x, unit) pv_m) \<Rightarrow> nat \<Rightarrow> nat \<Rightarrow> ('x, unit) pv_m" where
  "acc_tp_lost H hangup ip_change tp i = do {
     a \<leftarrow> get_acc i;
     only_if (a_valid a) (do {
       only_if (a_via_tp a = Some tp) (do {
         upd_acc i (\<lambda>a. a\<lparr>a_via_host := [], a_via_port := 0, a_via_tp := None\<rparr>);
         regc_set H (a_regc a) (RegcViaSentBy None)
       });
       case a_regc a of
         None \<Rightarrow> ret ()
       | Some r \<Rightarrow> do {
           used \<leftarrow> gets (\<lambda>v. hw_regc_transport H r (ext v));
           only_if (used = Some tp) (do {
             upd_ext (hw_regc_set H r RegcReleaseTransport);
             if a_ip_change_op a = IP_OP_SHUTDOWN_TP then ip_change i
             else only_if (ac_reg_retry_interval (a_cfg a) \<noteq> 0) (schedule_reregistration H hangup i)
           })
         }
     })
   }"

definition pjsua_acc_on_tp_state_changed ::
  "'x hw \<Rightarrow> (int \<Rightarrow> ('x, pj_status) pv_m) \<Rightarrow> (nat \<Rightarrow> ('x, unit) pv_m) \<Rightarrow> nat \<Rightarrow> bool \<Rightarrow> ('x, unit) pv_m" where
  "pjsua_acc_on_tp_state_changed H hangup ip_change tp disconnected = do {
     if \<not> disconnected then ret ()
     else do {
       upd_ext (hw_tp_shutdown H tp);
       n \<leftarrow> gets (\<lambda>v. length (accounts v));
       for_each [0..<n] (acc_tp_lost H hangup ip_change tp)
     }
   }"

end
