(* ===== verification/Pjsua_Acc.thy ===== *)
theory Pjsua_Acc
  imports Pjsua_Nat
begin

text \<open>
  pjsua's account table (pjsua_acc.c): adding, deleting, describing and enumerating accounts, and the
  choice of an account for an outgoing or incoming request. The array \<open>acc_ids\<close> of the ids in use, by
  descending priority, is the list of its live part.
\<close>

section \<open>Queries\<close>

definition pjsua_acc_get_count :: "'x pjsua_var \<Rightarrow> u32" where
  "pjsua_acc_get_count v = acc_cnt v"

definition pjsua_acc_is_valid :: "int \<Rightarrow> 'x pjsua_var \<Rightarrow> bool" where
  "pjsua_acc_is_valid acc_id v \<longleftrightarrow>
     0 \<le> acc_id \<and> acc_id < int (length (accounts v)) \<and> a_valid (accounts v ! nat acc_id)"

definition pjsua_acc_set_default :: "int \<Rightarrow> ('x, pj_status) pv_m" where
  "pjsua_acc_set_default acc_id = do { modify (\<lambda>v. v\<lparr>default_acc := acc_id\<rparr>); ret PJ_SUCCESS }"

definition pjsua_acc_get_default :: "'x pjsua_var \<Rightarrow> int" where
  "pjsua_acc_get_default v = default_acc v"

section \<open>Adding an account\<close>

text \<open>
  \<^verbatim>\<open>normalize_route_uri\<close>: the status and the URI, with the parameter \<^verbatim>\<open>lr\<close> added where loose routing
  is forced.
\<close>

definition normalize_route_uri :: "'x hw \<Rightarrow> bool \<Rightarrow> string \<Rightarrow> pj_status \<times> string" where
  "normalize_route_uri H force_lr uri =
     (case hw_parse_uri H uri of
        None \<Rightarrow> (PJSIP_EINVALIDURI, uri)
      | Some u \<Rightarrow>
          if \<not> is_sip_uri u then (PJSIP_EINVALIDSCHEME, uri)
          else if \<not> force_lr \<or> su_lr u then (PJ_SUCCESS, uri)
          else case hw_print_route H (u\<lparr>su_lr := True\<rparr>) of
                 None \<Rightarrow> (PJSIP_EURITOOLONG, uri)
               | Some s \<Rightarrow> (PJ_SUCCESS, s))"

text \<open>The loop over the proxies: the first failure ends it.\<close>

fun normalize_proxies :: "'x hw \<Rightarrow> bool \<Rightarrow> string list \<Rightarrow> pj_status \<times> string list" where
  "normalize_proxies H force_lr [] = (PJ_SUCCESS, [])"
| "normalize_proxies H force_lr (p # ps) =
     (let (st, q) = normalize_route_uri H force_lr p
      in if st \<noteq> PJ_SUCCESS then (st, p # ps)
         else let (st, qs) = normalize_proxies H force_lr ps in (st, q # qs))"

definition hex2 :: "nat \<Rightarrow> string" where
  "hex2 b = [digit_char (b div 16), digit_char (b mod 16)]"

text \<open>The bytes of the hash in the order a little-endian machine keeps them.\<close>

definition default_instprm :: "u32 \<Rightarrow> string" where
  "default_instprm hval =
     '';+sip.instance='' @ [CHR 0x22] @ ''<urn:uuid:00000000-0000-0000-0000-0000''
     @ concat (map (\<lambda>k. hex2 (unat hval div 256 ^ k mod 256)) [0, 1, 2, 3]) @ ''>'' @ [CHR 0x22]"

text \<open>The closing quote of a configured registration id does not fit the buffer.\<close>

definition init_outbound_setting :: "'x hw \<Rightarrow> pjsua_acc \<Rightarrow> pjsua_acc" where
  "init_outbound_setting H a =
     (let c = a_cfg a; inst = ac_rfc5626_instance_id c; reg = ac_rfc5626_reg_id c
      in a\<lparr>a_rfc5626_instprm :=
             (if inst = [] then default_instprm (hw_hostname_hash H)
              else '';+sip.instance='' @ [CHR 0x22] @ inst @ [CHR 0x22]),
           a_rfc5626_regprm :=
             (if reg = [] then '';reg-id=1''
              else c_trunc (length '';reg-id='' + length reg + 1) ('';reg-id='' @ reg @ [CHR 0x22])),
           a_rfc5626_status := OUTBOUND_WANTED\<rparr>)"

text \<open>The identity of an account, from its parsed local URI.\<close>

definition set_local_uri :: "'x hw \<Rightarrow> sip_uri \<Rightarrow> pjsua_acc \<Rightarrow> pjsua_acc" where
  "set_local_uri H u a =
     (if \<not> is_sip_uri u
      then a\<lparr>a_display := su_display u, a_user_part := su_display u, a_srv_domain := [], a_srv_port := 0,
             a_is_sips := False\<rparr>
      else let esc = hw_escape_user H (su_user u)
           in a\<lparr>a_display := su_display u,
                a_user_part := (if su_user u \<noteq> [] \<and> length esc > length (su_user u) then esc else su_user u),
                a_srv_domain := su_host u, a_srv_port := 0, a_is_sips := (su_scheme u = SCHEME_SIPS)\<rparr>)"

text \<open>The status of the registrar URI, and its port.\<close>

definition check_reg_uri :: "'x hw \<Rightarrow> pjsua_acc \<Rightarrow> pj_status \<times> pjsua_acc" where
  "check_reg_uri H a =
     (if ac_reg_uri (a_cfg a) = [] then (PJ_SUCCESS, a)
      else case hw_parse_uri H (ac_reg_uri (a_cfg a)) of
             None \<Rightarrow> (PJSIP_EINVALIDURI, a)
           | Some u \<Rightarrow> if \<not> is_sip_uri u then (PJSIP_EINVALIDSCHEME, a)
                       else (PJ_SUCCESS, a\<lparr>a_srv_port := su_port u\<rparr>))"

text \<open>
  The routes of the configured proxies, after the global ones. Only the first route of a value that
  holds several is appended.
\<close>

fun proxy_routes :: "'x hw \<Rightarrow> string list \<Rightarrow> sip_uri list option" where
  "proxy_routes H [] = Some []"
| "proxy_routes H (p # ps) =
     (case hw_parse_route H p of
        None \<Rightarrow> None
      | Some (r, _) \<Rightarrow> map_option (\<lambda>rs. r # rs) (proxy_routes H ps))"

definition config_cred_ice :: "ua_config \<Rightarrow> pjsua_acc \<Rightarrow> pjsua_acc" where
  "config_cred_ice u a =
     (let c = a_cfg a;
          ice = (if ac_ice_default c then uc_enable_ice u else ac_enable_ice c)
      in a\<lparr>a_cred := take PJSUA_ACC_MAX_PROXIES (cfg_cred c # uc_creds u),
           a_cfg := c\<lparr>ac_enable_ice := ice,
                      ac_contact_params := ac_contact_params c @ (if ice then '';+sip.ice'' else [])\<rparr>\<rparr>)"

text \<open>\<^verbatim>\<open>pj_array_insert\<close> on the live part of an array.\<close>

definition insert_at :: "nat \<Rightarrow> 'a \<Rightarrow> 'a list \<Rightarrow> 'a list" where
  "insert_at i x xs = take i xs @ [x] @ drop i xs"

text \<open>Entering the id: before the first account of lower priority.\<close>

definition enter_acc_id :: "nat \<Rightarrow> 'x pjsua_var \<Rightarrow> 'x pjsua_var" where
  "enter_acc_id i v =
     (let prio = (\<lambda>k. ac_priority (a_cfg (accounts v ! k)))
      in v\<lparr>acc_ids := insert_at (index_of (\<lambda>k. prio k < prio i) (acc_ids v)) i (acc_ids v)\<rparr>)"

definition acc_tp_type :: "nat option list \<Rightarrow> pjsua_acc_config \<Rightarrow> nat" where
  "acc_tp_type tps c =
     (if ac_transport_id c \<noteq> PJSUA_INVALID_ID
      then case tps ! nat (ac_transport_id c) of None \<Rightarrow> TP_TYPE_UNSPECIFIED | Some t \<Rightarrow> t
      else TP_TYPE_UNSPECIFIED)"

definition initialize_acc :: "'x hw \<Rightarrow> nat \<Rightarrow> ('x, pj_status) pv_m" where
  "initialize_acc H i = do {
     a \<leftarrow> get_acc i;
     case hw_parse_uri H (ac_id (a_cfg a)) of
       None \<Rightarrow> ret PJSIP_EINVALIDURI
     | Some u \<Rightarrow> do {
         upd_acc i (set_local_uri H u);
         (st, a) \<leftarrow> gets (\<lambda>v. check_reg_uri H (accounts v ! i));
         if st \<noteq> PJ_SUCCESS then ret st
         else do {
           upd_acc i (\<lambda>_. a);
           outbound \<leftarrow> gets outbound_proxy;
           case proxy_routes H (ac_proxy (a_cfg a)) of
             None \<Rightarrow> ret PJ_EINVAL
           | Some routes \<Rightarrow> do {
               upd_acc i (\<lambda>a. a\<lparr>a_route_set := outbound @ routes\<rparr>);
               g \<leftarrow> gets ua_cfg;
               upd_acc i (config_cred_ice g);
               st \<leftarrow> on_ext (hw_pres_init_acc H (int i));
               if st \<noteq> PJ_SUCCESS then ret st
               else do {
                 only_if (ac_use_rfc5626 (a_cfg a)) (upd_acc i (init_outbound_setting H));
                 upd_acc i (\<lambda>a. a\<lparr>a_valid := True\<rparr>);
                 modify (enter_acc_id i);
                 tps \<leftarrow> gets tpdata;
                 upd_acc i (\<lambda>a. a\<lparr>a_tp_type := acc_tp_type tps (a_cfg a), a_ip_change_op := IP_OP_NULL\<rparr>);
                 ret PJ_SUCCESS
               }
             }
         }
       }
   }"

definition normalize_timeouts :: "pjsua_acc_config \<Rightarrow> pjsua_acc_config" where
  "normalize_timeouts c =
     (if ac_reg_uri c = [] then c
      else c\<lparr>ac_reg_timeout := (if ac_reg_timeout c = 0 then 300 else ac_reg_timeout c),
             ac_reg_delay_before_refresh :=
               (if ac_reg_delay_before_refresh c = 0 then 5 else ac_reg_delay_before_refresh c)\<rparr>)"

text \<open>What is started for a new account: its registration, or message-waiting and publication.\<close>

definition start_acc :: "'x hw \<Rightarrow> nat \<Rightarrow> ('x, unit) pv_m" where
  "start_acc H i = do {
     a \<leftarrow> get_acc i;
     let c = a_cfg a;
     if ac_reg_uri c \<noteq> [] then
       only_if (ac_register_on_acc_add c) (do { pjsua_acc_set_registration H (int i) True; ret () })
     else do {
       only_if (ac_mwi_enabled c) (upd_ext (hw_start_mwi H (int i) True));
       only_if (ac_publish_enabled c) (upd_ext (hw_publish H (int i)))
     }
   }"

text \<open>The result is the status and the new id (-1 when there is none).\<close>

definition pjsua_acc_add :: "'x hw \<Rightarrow> pjsua_acc_config \<Rightarrow> bool \<Rightarrow> ('x, pj_status \<times> int) pv_m" where
  "pjsua_acc_add H cfg is_default = do {
     v \<leftarrow> gets (\<lambda>v. v);
     assert_return (unat (acc_cnt v) < length (accounts v)) (PJ_ETOOMANY, PJSUA_INVALID_ID)
     (assert_return (tpdata v ! 0 \<noteq> None) (PJ_EINVALIDOP, PJSUA_INVALID_ID)
     (let i = index_of (\<lambda>a. \<not> a_valid a) (accounts v) in
      if i \<ge> length (accounts v) then ret (PJ_EBUG, PJSUA_INVALID_ID)
      else do {
        let (st, proxies) = normalize_proxies H (uc_force_lr (ua_cfg v)) (ac_proxy cfg);
        upd_acc i (\<lambda>a. a\<lparr>a_cfg := (normalize_timeouts cfg)\<lparr>ac_proxy := proxies\<rparr>\<rparr>);
        if st \<noteq> PJ_SUCCESS then ret (st, PJSUA_INVALID_ID)
        else do {
          st \<leftarrow> initialize_acc H i;
          if st \<noteq> PJ_SUCCESS then ret (st, PJSUA_INVALID_ID)
          else do {
            modify (\<lambda>v. v\<lparr>default_acc := (if is_default then int i else default_acc v), acc_cnt := acc_cnt v + 1\<rparr>);
            start_acc H i;
            ret (PJ_SUCCESS, int i)
          }
        }
      }))
   }"

section \<open>Deleting an account\<close>

definition forget_acc_id :: "nat \<Rightarrow> 'x pjsua_var \<Rightarrow> 'x pjsua_var" where
  "forget_acc_id i v =
     (let k = index_of (\<lambda>x. x = i) (acc_ids v)
      in if k < length (acc_ids v)
         then v\<lparr>acc_ids := erase_at k (acc_ids v), acc_cnt := acc_cnt v - 1\<rparr> else v)"

text \<open>What is ended before the entry is free: timers, registration, and the sessions of other modules.\<close>

definition release_timers :: "'x hw \<Rightarrow> nat \<Rightarrow> ('x, unit) pv_m" where
  "release_timers H i = do {
     a \<leftarrow> get_acc i;
     only_if (a_ka_timer a) (do {
       upd_ext (hw_cancel_timer H (KeepAliveTimer i));
       upd_acc i (\<lambda>a. a\<lparr>a_ka_timer := False\<rparr>)
     });
     (case a_ka_transport a of
        None \<Rightarrow> ret ()
      | Some tp \<Rightarrow> do {
          upd_ext (hw_tp_dec_ref H tp);
          upd_acc i (\<lambda>a. a\<lparr>a_ka_transport := None\<rparr>)
        });
     cancel_rereg_timer H i
   }"

definition release_regc :: "'x hw \<Rightarrow> nat \<Rightarrow> ('x, unit) pv_m" where
  "release_regc H i = do {
     a \<leftarrow> get_acc i;
     only_if (a_regc a \<noteq> None) (do {
       pjsua_acc_set_registration H (int i) False;
       destroy_regc H i True;
       ret ()
     })
   }"

definition release_sessions :: "'x hw \<Rightarrow> nat \<Rightarrow> ('x, unit) pv_m" where
  "release_sessions H i = do {
     a \<leftarrow> get_acc i;
     only_if (ac_mwi_enabled (a_cfg a)) (do {
       upd_acc i (\<lambda>a. a\<lparr>a_cfg := (a_cfg a)\<lparr>ac_mwi_enabled := False\<rparr>\<rparr>);
       upd_ext (hw_start_mwi H (int i) False)
     });
     upd_ext (hw_pres_delete_acc H (int i))
   }"

definition pjsua_acc_del :: "'x hw \<Rightarrow> int \<Rightarrow> ('x, pj_status) pv_m" where
  "pjsua_acc_del H acc_id = do {
     n \<leftarrow> gets (\<lambda>v. length (accounts v));
     assert_return (0 \<le> acc_id \<and> acc_id < int n) PJ_EINVAL
     (do {
       let i = nat acc_id;
       a \<leftarrow> get_acc i;
       assert_return (a_valid a) PJ_EINVALIDOP
       (do {
         release_timers H i;
         release_regc H i;
         release_sessions H i;
         upd_acc i (\<lambda>a. a\<lparr>a_valid := False, a_via_host := [], a_via_port := 0, a_via_tp := None,
                          a_ip_change_op := IP_OP_NULL\<rparr>);
         modify (forget_acc_id i);
         modify (\<lambda>v. v\<lparr>default_acc := (if default_acc v = acc_id then 0 else default_acc v)\<rparr>);
         ret PJ_SUCCESS
       })
     })
   }"

section \<open>Description and enumeration\<close>

text \<open>
  The fields the shim reads. A missing registration session has no expiry: the 32-bit value of all
  ones, which the shim reads as an int.
\<close>

definition pjsua_acc_get_info :: "'x hw \<Rightarrow> int \<Rightarrow> 'x pjsua_var \<Rightarrow> acc_info option" where
  "pjsua_acc_get_info H acc_id v =
     (if \<not> pjsua_acc_is_valid acc_id v then None
      else let a = accounts v ! nat acc_id;
               has_registration = (ac_reg_uri (a_cfg a) \<noteq> []);
               (st, txt) = (if a_reg_last_code a \<noteq> 0 then
                              if has_registration then (a_reg_last_code a, hw_status_text H (a_reg_last_code a))
                              else (0, ''not registered'')
                            else if has_registration then (100, ''In Progress'')
                            else (0, ''does not register''))
           in Some \<lparr>ai_status = st, ai_status_text = txt,
                    ai_expires = (case a_regc a of None \<Rightarrow> -1 | Some r \<Rightarrow> sint (hw_regc_next_reg H r (ext v))),
                    ai_is_default = (if default_acc v = acc_id then 1 else 0)\<rparr>)"

fun enum_accs_loop :: "nat \<Rightarrow> pjsua_acc list \<Rightarrow> nat \<Rightarrow> int list" where
  "enum_accs_loop i [] room = []"
| "enum_accs_loop i (a # as) room =
     (if room = 0 then []
      else if \<not> a_valid a then enum_accs_loop (Suc i) as room
      else int i # enum_accs_loop (Suc i) as (room - 1))"

definition pjsua_enum_accs :: "nat \<Rightarrow> 'x pjsua_var \<Rightarrow> int list option" where
  "pjsua_enum_accs count v = (if count = 0 then None else Some (enum_accs_loop 0 (accounts v) count))"

section \<open>Choosing an account\<close>

text \<open>The first id of the list with a property.\<close>

definition first_id :: "(nat \<Rightarrow> bool) \<Rightarrow> nat list \<Rightarrow> int option" where
  "first_id P ids = (if index_of P ids < length ids then Some (int (ids ! index_of P ids)) else None)"

definition pjsua_acc_find_for_outgoing :: "'x hw \<Rightarrow> string \<Rightarrow> 'x pjsua_var \<Rightarrow> int" where
  "pjsua_acc_find_for_outgoing H url v =
     (case hw_parse_uri H url of
        None \<Rightarrow> default_acc v
      | Some u \<Rightarrow>
          let acc = (\<lambda>i. accounts v ! i)
          in if \<not> is_sip_uri u
             then case first_id (\<lambda>i. a_valid (acc i) \<and> a_route_set (acc i) \<noteq> []) [0..<length (accounts v)] of
                    Some i \<Rightarrow> i | None \<Rightarrow> default_acc v
             else case first_id (\<lambda>i. same_nocase (a_srv_domain (acc i)) (su_host u) \<and> a_srv_port (acc i) = su_port u)
                         (acc_ids v) of
                    Some i \<Rightarrow> i
                  | None \<Rightarrow>
                      case first_id (\<lambda>i. same_nocase (a_srv_domain (acc i)) (su_host u)) (acc_ids v) of
                        Some i \<Rightarrow> i | None \<Rightarrow> default_acc v)"

text \<open>An incoming message: To URI, request URI, whether it is a request, and the type of its transport.\<close>

record incoming_msg =
  im_to :: sip_uri
  im_request_uri :: sip_uri
  im_is_request :: bool
  im_tp_type :: nat

text \<open>The weighted score of an account: transport 8, domain 4, user 2, user of the request URI 1.\<close>

definition acc_score :: "incoming_msg \<Rightarrow> sip_uri \<Rightarrow> pjsua_acc \<Rightarrow> nat" where
  "acc_score m uri a =
     (if a_tp_type a = im_tp_type m \<or> a_tp_type a = TP_TYPE_UNSPECIFIED then 8 else 0)
   + (if same_nocase (a_srv_domain a) (su_host uri) then 4 else 0)
   + (if same_nocase (a_user_part a) (su_user uri) then 2 else 0)
   + (if is_sip_uri (im_request_uri m) \<and> same_nocase (a_user_part a) (su_user (im_request_uri m)) then 1 else 0)"

fun best_acc :: "(nat \<Rightarrow> pjsua_acc) \<Rightarrow> (pjsua_acc \<Rightarrow> nat) \<Rightarrow> nat list \<Rightarrow> nat \<Rightarrow> int \<Rightarrow> int" where
  "best_acc acc score [] max_score best = best"
| "best_acc acc score (i # ids) max_score best =
     (if a_valid (acc i) \<and> score (acc i) > max_score
      then best_acc acc score ids (score (acc i)) (int i)
      else best_acc acc score ids max_score best)"

text \<open>The URI to match: To, or the request URI of a request, if it is a SIP URI.\<close>

definition matched_uri :: "incoming_msg \<Rightarrow> sip_uri option" where
  "matched_uri m =
     (if is_sip_uri (im_to m) then Some (im_to m)
      else if im_is_request m \<and> is_sip_uri (im_request_uri m) then Some (im_request_uri m)
      else None)"

text \<open>\<open>cb\<close> is the application's \<^verbatim>\<open>on_acc_find_for_incoming\<close>, if installed; the shim installs none.\<close>

definition pjsua_acc_find_for_incoming :: "(int \<Rightarrow> int) option \<Rightarrow> incoming_msg \<Rightarrow> 'x pjsua_var \<Rightarrow> int" where
  "pjsua_acc_find_for_incoming cb m v =
     (if acc_cnt v = 0 then PJSUA_INVALID_ID
      else
        let found = (case matched_uri m of
                       None \<Rightarrow> PJSUA_INVALID_ID
                     | Some uri \<Rightarrow> best_acc (\<lambda>i. accounts v ! i) (acc_score m uri) (acc_ids v) 0 PJSUA_INVALID_ID);
            chosen = (if found = PJSUA_INVALID_ID then default_acc v else found);
            asked = (case cb of None \<Rightarrow> chosen | Some f \<Rightarrow> f chosen)
        in if pjsua_acc_is_valid asked v then asked else default_acc v)"

end
