(* ===== verification/Shim_State.thy ===== *)
theory Shim_State
  imports Pjsua_Api
begin

text \<open>
  The state of the shim (the C globals of \<^verbatim>\<open>pjsip_shim.c\<close>), the callbacks into Rust, and the
  helpers every function uses. The callback pointers are flags (non-NULL or not); a call through
  one appends to \<open>trace\<close>, which only the model has. \<open>env\<close> is pjsua's own state, reached only
  through the functions of a \<open>pjsua\<close> record. Lines written to stderr are not modelled.
  Thread-local storage is a function of the thread, and \<open>cur_thread\<close> is the thread that calls.
\<close>

section \<open>Callbacks into Rust\<close>

datatype shim_event =
    OnRegState int int int string
  | OnIncomingCall int int string
  | OnCallState int int int
  | OnCallMedia int int
  | OnLog int string
  | OnSipMsg int int string
  | OnTransferStatus int int string int
  | OnBlfStatus string int string

section \<open>The globals\<close>

abbreviation MAX_ACCOUNTS :: nat where "MAX_ACCOUNTS \<equiv> PJSUA_MAX_ACC"
abbreviation MAX_CALLS :: nat where "MAX_CALLS \<equiv> 8"

record acc_forward =
  fwd_uri :: string
  fwd_flags :: int

record acc_store =
  st_reg_uri :: string
  st_user_data :: string
  st_cred_count :: int

record acc_answer =
  aa_enabled :: int
  aa_delay_ms :: int

record 'e shim =
  g_on_reg :: bool
  g_on_incoming :: bool
  g_on_call :: bool
  g_on_media :: bool
  g_on_log :: bool
  g_on_sip_msg :: bool
  g_on_transfer_status :: bool
  g_on_blf_status :: bool
  g_dnd_enabled :: bool
  g_udp_tp :: int
  g_tcp_tp :: int
  g_tls_tp :: int
  g_tone_port :: "nat option"
  g_tone_slot :: int
  g_acc_forward :: "acc_forward list"
  g_acc_config :: "acc_store list"
  g_acc_auto_answer :: "acc_answer list"
  g_acc_dtmf_method :: "int list"
  g_global_dtmf_method :: int
  g_global_auto_answer :: int
  g_global_auto_answer_delay :: int
  g_global_codec_priority :: string
  g_is_recording :: "int list"
  g_rec_path :: "string list"
  g_recorder_id :: "int list"
  g_recorder_slot :: "int list"
  g_ec_enabled :: int
  g_mic_amplification :: cfloat
  cur_thread :: nat
  tls_thread_registered :: "nat \<Rightarrow> bool"
  trace :: "shim_event list"
  env :: 'e

type_synonym ('e, 'a) shim_m = "('e shim, 'a) state"

text \<open>The globals as the loader leaves them: what has no initialiser is zero.\<close>

definition shim_load :: "'e \<Rightarrow> 'e shim" where
  "shim_load e = \<lparr>
     g_on_reg = False, g_on_incoming = False, g_on_call = False, g_on_media = False,
     g_on_log = False, g_on_sip_msg = False, g_on_transfer_status = False, g_on_blf_status = False,
     g_dnd_enabled = False,
     g_udp_tp = PJSUA_INVALID_ID, g_tcp_tp = PJSUA_INVALID_ID, g_tls_tp = PJSUA_INVALID_ID,
     g_tone_port = None, g_tone_slot = PJSUA_INVALID_ID,
     g_acc_forward = replicate MAX_ACCOUNTS \<lparr>fwd_uri = '''', fwd_flags = 0\<rparr>,
     g_acc_config = replicate MAX_ACCOUNTS \<lparr>st_reg_uri = '''', st_user_data = '''', st_cred_count = 0\<rparr>,
     g_acc_auto_answer = replicate MAX_ACCOUNTS \<lparr>aa_enabled = 0, aa_delay_ms = 0\<rparr>,
     g_acc_dtmf_method = replicate MAX_ACCOUNTS 0,
     g_global_dtmf_method = 3, g_global_auto_answer = 0, g_global_auto_answer_delay = 0,
     g_global_codec_priority = ''[]'',
     g_is_recording = replicate MAX_CALLS 0, g_rec_path = replicate MAX_CALLS '''',
     g_recorder_id = replicate MAX_CALLS 0, g_recorder_slot = replicate MAX_CALLS 0,
     g_ec_enabled = 1, g_mic_amplification = Fin 1,
     cur_thread = 0, tls_thread_registered = (\<lambda>_. False), trace = [], env = e\<rparr>"

section \<open>Primitives\<close>

text \<open>A call into pjsua, a reading call, a callback into Rust, and \<open>if (g_on_log) g_on_log(l, m)\<close>.\<close>

definition pj :: "('e \<Rightarrow> 'a \<times> 'e) \<Rightarrow> ('e, 'a) shim_m" where
  "pj f = State (\<lambda>s. (fst (f (env s)), s\<lparr>env := snd (f (env s))\<rparr>))"

definition ask :: "('e \<Rightarrow> 'a) \<Rightarrow> ('e, 'a) shim_m" where
  "ask f = gets (\<lambda>s. f (env s))"

definition emit :: "shim_event \<Rightarrow> ('e, unit) shim_m" where
  "emit ev = modify (\<lambda>s. s\<lparr>trace := trace s @ [ev]\<rparr>)"

definition log_msg :: "int \<Rightarrow> string \<Rightarrow> ('e, unit) shim_m" where
  "log_msg l m = modify (\<lambda>s. if g_on_log s then s\<lparr>trace := trace s @ [OnLog l m]\<rparr> else s)"

lemma run_pj [simp, run_simps]:
  "run_state (pj f) s = (fst (f (env s)), s\<lparr>env := snd (f (env s))\<rparr>)"
  by (simp add: pj_def)

lemma run_ask [simp, run_simps]: "run_state (ask f) s = (f (env s), s)"
  by (simp add: ask_def)

lemma run_emit [simp, run_simps]: "run_state (emit ev) s = ((), s\<lparr>trace := trace s @ [ev]\<rparr>)"
  by (simp add: emit_def)

lemma run_log_msg [simp, run_simps]:
  "run_state (log_msg l m) s = ((), if g_on_log s then s\<lparr>trace := trace s @ [OnLog l m]\<rparr> else s)"
  by (simp add: log_msg_def)

text \<open>
  A view of the shim's state that pjsua's state and the callbacks into Rust are no part of: the
  commands of this section keep it.
\<close>

definition no_env :: "('e shim \<Rightarrow> 'v) \<Rightarrow> bool" where
  "no_env f \<longleftrightarrow> (\<forall>s e t. f (s\<lparr>env := e\<rparr>) = f s \<and> f (s\<lparr>trace := t\<rparr>) = f s)"

definition no_trace :: "('e shim \<Rightarrow> 'v) \<Rightarrow> bool" where
  "no_trace f \<longleftrightarrow> (\<forall>s t. f (s\<lparr>trace := t\<rparr>) = f s)"

lemma no_env_no_trace: "no_env f \<Longrightarrow> no_trace f"
  by (simp add: no_env_def no_trace_def)

lemma keeps_pj [keeps_intro]: "no_env f \<Longrightarrow> keeps f (pj g)"
  by (simp add: keeps_def no_env_def)

lemma keeps_ask [intro, keeps_intro]: "keeps f (ask g)"
  by (simp add: keeps_def)

lemma keeps_emit [keeps_intro]: "no_trace f \<Longrightarrow> keeps f (emit ev)"
  by (simp add: keeps_def no_trace_def)

lemma keeps_log_msg [keeps_intro]: "no_trace f \<Longrightarrow> keeps f (log_msg l m)"
  by (simp add: keeps_def no_trace_def)

section \<open>Helpers of the shim\<close>

definition pd_ensure_thread :: "'e pjsua \<Rightarrow> ('e, unit) shim_m" where
  "pd_ensure_thread P = do {
     reg \<leftarrow> gets (\<lambda>s. tls_thread_registered s (cur_thread s));
     if reg then ret ()
     else do {
       known \<leftarrow> ask (api_thread_is_registered P);
       only_if (\<not> known) (do { _ \<leftarrow> pj (api_thread_register P); ret () });
       modify (\<lambda>s. s\<lparr>tls_thread_registered := (tls_thread_registered s)(cur_thread s := True)\<rparr>)
     }
   }"

text \<open>\<open>safe_copy(dst, dst_len, src)\<close> for a \<open>dst\<close> that is not NULL: what it leaves there, if it writes.\<close>

definition safe_copy :: "int \<Rightarrow> string option \<Rightarrow> string option" where
  "safe_copy dst_len src =
     (if dst_len \<le> 0 then None
      else case src of None \<Rightarrow> Some [] | Some s \<Rightarrow> Some (c_trunc (nat dst_len) s))"

definition pd_reset_recording_state :: "('e, unit) shim_m" where
  "pd_reset_recording_state = modify (\<lambda>s. s\<lparr>
     g_is_recording := replicate MAX_CALLS 0,
     g_rec_path := replicate MAX_CALLS '''',
     g_recorder_id := replicate MAX_CALLS PJSUA_INVALID_ID,
     g_recorder_slot := replicate MAX_CALLS PJSUA_INVALID_ID\<rparr>)"

definition pd_enum_account_ids :: "'e pjsua \<Rightarrow> nat \<Rightarrow> ('e, int list) shim_m" where
  "pd_enum_account_ids P max_count = do {
     r \<leftarrow> ask (api_enum_accs P max_count);
     ret (case r of None \<Rightarrow> [] | Some ids \<Rightarrow> ids)
   }"

text \<open>\<open>S(s)\<close>: the text of a \<^verbatim>\<open>pj_str_t\<close> made from a pointer; NULL has length 0.\<close>

definition S :: "string option \<Rightarrow> string" where
  "S p = (case p of None \<Rightarrow> [] | Some s \<Rightarrow> s)"

text \<open>The program's \<open>memcpy\<close> of a \<^verbatim>\<open>pj_str_t\<close> into a buffer of \<open>n\<close> bytes, cut to \<open>n - 1\<close>.\<close>

abbreviation buf_copy :: "nat \<Rightarrow> string \<Rightarrow> string" where
  "buf_copy \<equiv> c_trunc"

text \<open>\<open>snprintf(buf, n, ...)\<close>, the pieces of the format already printed.\<close>

definition fmt :: "nat \<Rightarrow> string list \<Rightarrow> string" where
  "fmt n parts = c_trunc n (concat parts)"

text \<open>An element of a global array at a C index the caller has checked.\<close>

definition elem :: "'a list \<Rightarrow> int \<Rightarrow> 'a" where
  "elem xs i = xs ! nat i"

definition put :: "'a list \<Rightarrow> int \<Rightarrow> 'a \<Rightarrow> 'a list" where
  "put xs i v = xs[nat i := v]"

lemma length_put [simp]: "length (put xs i v) = length xs"
  by (simp add: put_def)

lemma elem_put:
  "0 \<le> i \<Longrightarrow> 0 \<le> j \<Longrightarrow> nat j < length xs \<Longrightarrow>
   elem (put xs i v) j = (if i = j then v else elem xs j)"
  by (auto simp: elem_def put_def nth_list_update)

lemma length_fmt: "length (fmt n ps) \<le> n - 1"
  using length_c_trunc [of n "concat ps"] by (simp add: fmt_def)

lemma safe_copy_bound: "safe_copy n src = Some s \<Longrightarrow> int (length s) < n"
  by (auto simp: safe_copy_def c_trunc_def split: if_splits option.splits)

lemma keeps_ensure_thread [keeps_intro]:
  assumes "no_env f" "\<And>s t. f (s\<lparr>tls_thread_registered := t\<rparr>) = f s"
  shows "keeps f (pd_ensure_thread P)"
  unfolding pd_ensure_thread_def using assms by (auto intro!: keeps_intro)

lemma keeps_enum_account_ids [intro, keeps_intro]: "keeps f (pd_enum_account_ids P n)"
  unfolding pd_enum_account_ids_def by (auto intro!: keeps_intro)

lemma run_ensure_thread:
  "run_state (pd_ensure_thread P) s =
     ((), if tls_thread_registered s (cur_thread s) then s
          else s\<lparr>env := (if api_thread_is_registered P (env s) then env s
                          else snd (api_thread_register P (env s))),
                 tls_thread_registered := (tls_thread_registered s)(cur_thread s := True)\<rparr>)"
  by (simp add: pd_ensure_thread_def)

text \<open>
  After \<open>pd_ensure_thread\<close> the only fields that may have changed are pjsua's state and the flag
  of the calling thread.
\<close>

definition entered :: "'e pjsua \<Rightarrow> 'e shim \<Rightarrow> 'e shim" where
  "entered P s = exec (pd_ensure_thread P) s"

lemma run_ensure_thread_entered [simp, run_simps]:
  "run_state (pd_ensure_thread P) s = ((), entered P s)"
  by (simp add: entered_def run_ensure_thread)

lemma entered_fields:
  obtains e t where "entered P s = s\<lparr>env := e, tls_thread_registered := t\<rparr>"
proof (cases "tls_thread_registered s (cur_thread s)")
  case True
  then have "entered P s = s\<lparr>env := env s, tls_thread_registered := tls_thread_registered s\<rparr>"
    by (simp add: entered_def run_ensure_thread del: run_ensure_thread_entered)
  then show ?thesis by (rule that)
next
  case False
  then show ?thesis
    by (intro that) (simp add: entered_def run_ensure_thread del: run_ensure_thread_entered)
qed

end
