(* ===== verification/Interfaces.thy ===== *)
theory Interfaces
  imports Shim_State
begin

text \<open>
  The contracts the shim relies on, as locales over an abstract environment \<open>'e\<close>: the conference
  bridge as a directed graph, and file recorders as owners of nodes of that graph. \<open>Pjsua_Model\<close>
  interprets them on pjsua's own functions.
\<close>

section \<open>The bridge\<close>

text \<open>
  \<open>slots\<close> are the occupied slots, \<open>links\<close> the connections from source to sink, \<open>ready\<close> says that a
  sound device, the null device or none on purpose is in place, so that connecting opens nothing.
\<close>

locale bridge =
  fixes connect disconnect :: "int \<Rightarrow> int \<Rightarrow> 'e \<Rightarrow> pj_status \<times> 'e"
    and slots :: "'e \<Rightarrow> int set"
    and links :: "'e \<Rightarrow> (int \<times> int) set"
    and ready ok :: "'e \<Rightarrow> bool"
  assumes links_slots: "ok e \<Longrightarrow> links e \<subseteq> slots e \<times> slots e"
    and slots_valid: "ok e \<Longrightarrow> a \<in> slots e \<Longrightarrow> 0 \<le> a"
    and connect_ok: "ok e \<Longrightarrow> connect a b e = (st, f) \<Longrightarrow> ok f \<and> slots f = slots e"
    and connect_links: "ok e \<Longrightarrow> connect a b e = (st, f) \<Longrightarrow>
      links f = (if st = PJ_SUCCESS then insert (a, b) (links e) else links e)"
    and connect_slots: "ok e \<Longrightarrow> connect a b e = (PJ_SUCCESS, f) \<Longrightarrow> a \<in> slots e \<and> b \<in> slots e"
    and connect_ready: "ok e \<Longrightarrow> ready e \<Longrightarrow> connect a b e = (st, f) \<Longrightarrow>
      ready f \<and> (a \<in> slots e \<and> b \<in> slots e \<longrightarrow> st = PJ_SUCCESS)"
    and disconnect_ok: "ok e \<Longrightarrow> disconnect a b e = (st, f) \<Longrightarrow>
      ok f \<and> slots f = slots e \<and> links f = links e - {(a, b)} \<and> (ready e \<longrightarrow> ready f)"
    and disconnect_status: "ok e \<Longrightarrow> disconnect a b e = (st, f) \<Longrightarrow>
      st = PJ_SUCCESS \<longleftrightarrow> a \<in> slots e \<and> b \<in> slots e"
begin

text \<open>Connecting and disconnecting again restores the graph if the edge was not there.\<close>

lemma connect_disconnect:
  assumes "ok e" "connect a b e = (PJ_SUCCESS, f)" "disconnect a b f = (st, g)" "(a, b) \<notin> links e"
  shows "ok g \<and> slots g = slots e \<and> links g = links e \<and> st = PJ_SUCCESS"
proof -
  have f: "ok f" "slots f = slots e" "links f = insert (a, b) (links e)"
    using connect_ok [OF assms(1,2)] connect_links [OF assms(1,2)] by simp_all
  have "a \<in> slots f \<and> b \<in> slots f" using connect_slots [OF assms(1,2)] f(2) by simp
  then have "st = PJ_SUCCESS" using disconnect_status [OF f(1) assms(3)] by simp
  moreover have "ok g" "slots g = slots f" "links g = links f - {(a, b)}"
    using disconnect_ok [OF f(1) assms(3)] by simp_all
  ultimately show ?thesis using f(2,3) assms(4) by auto
qed

lemma disconnect_absent:
  assumes "ok e" "disconnect a b e = (st, f)" "a \<notin> slots e \<or> b \<notin> slots e"
  shows "links f = links e"
  using disconnect_ok [OF assms(1,2)] links_slots [OF assms(1)] assms(3) by auto

end

section \<open>Recorders\<close>

locale recorders = bridge +
  fixes create :: "string \<Rightarrow> 'a \<Rightarrow> (pj_status \<times> int) \<times> 'a"
    and get_port :: "int \<Rightarrow> 'a \<Rightarrow> int"
    and destroy :: "int \<Rightarrow> 'a \<Rightarrow> pj_status \<times> 'a"
    and live :: "'a \<Rightarrow> int set"
  assumes connect_recs: "ok e \<Longrightarrow> connect a b e = (st, f) \<Longrightarrow>
      live f = live e \<and> (\<forall>r. get_port r f = get_port r e)"
    and disconnect_recs: "ok e \<Longrightarrow> disconnect a b e = (st, f) \<Longrightarrow>
      live f = live e \<and> (\<forall>r. get_port r f = get_port r e)"
    and live_valid: "ok e \<Longrightarrow> r \<in> live e \<Longrightarrow> 0 \<le> r"
    and port_slot: "ok e \<Longrightarrow> r \<in> live e \<Longrightarrow> get_port r e \<in> slots e"
    and port_inj: "ok e \<Longrightarrow> r \<in> live e \<Longrightarrow> q \<in> live e \<Longrightarrow> get_port r e = get_port q e \<Longrightarrow> r = q"
    and create_fail: "ok e \<Longrightarrow> create path e = ((st, r), f) \<Longrightarrow> st \<noteq> PJ_SUCCESS \<Longrightarrow>
      ok f \<and> slots f = slots e \<and> links f = links e \<and> live f = live e \<and>
      (\<forall>q. get_port q f = get_port q e) \<and> (ready e \<longrightarrow> ready f)"
    and create_success: "ok e \<Longrightarrow> create path e = ((PJ_SUCCESS, r), f) \<Longrightarrow>
      ok f \<and> r \<notin> live e \<and> live f = insert r (live e) \<and>
      get_port r f \<notin> slots e \<and> slots f = insert (get_port r f) (slots e) \<and> links f = links e \<and>
      (\<forall>q \<in> live e. get_port q f = get_port q e) \<and> (ready e \<longrightarrow> ready f)"
    and destroy_live: "ok e \<Longrightarrow> r \<in> live e \<Longrightarrow> destroy r e = (st, f) \<Longrightarrow>
      st = PJ_SUCCESS \<and> ok f \<and> live f = live e - {r} \<and> slots f = slots e - {get_port r e} \<and>
      links f = {(a, b) \<in> links e. a \<noteq> get_port r e \<and> b \<noteq> get_port r e} \<and>
      (\<forall>q \<in> live e - {r}. get_port q f = get_port q e) \<and> (ready e \<longrightarrow> ready f)"
    and destroy_dead: "ok e \<Longrightarrow> r \<notin> live e \<Longrightarrow> destroy r e = (st, f) \<Longrightarrow> st \<noteq> PJ_SUCCESS \<and> f = e"
begin

text \<open>A recorder's port has no connection when it is created: the slot was free.\<close>

lemma create_unlinked:
  assumes "ok e" "create path e = ((PJ_SUCCESS, r), f)"
  shows "(a, get_port r f) \<notin> links e" "(get_port r f, a) \<notin> links e"
  using links_slots [OF assms(1)] create_success [OF assms] by auto

text \<open>Creating a recorder and destroying it again changes nothing.\<close>

lemma create_destroy:
  assumes "ok e" "create path e = ((PJ_SUCCESS, r), f)" "destroy r f = (st, g)"
  shows "st = PJ_SUCCESS \<and> ok g \<and> live g = live e \<and> slots g = slots e \<and> links g = links e
    \<and> (\<forall>q \<in> live e. get_port q g = get_port q e) \<and> (ready e \<longrightarrow> ready g)"
proof -
  note c = create_success [OF assms(1,2)]
  have r: "ok f" "r \<in> live f" using c by auto
  note d = destroy_live [OF r assms(3)]
  have "links g = links e"
    using c d create_unlinked [OF assms(1,2)] by auto
  moreover have "live g = live e" "slots g = slots e" using c d by auto
  moreover have "\<forall>q \<in> live e. get_port q g = get_port q e" using c d by auto
  ultimately show ?thesis using c d by simp
qed

text \<open>
  \<open>extends e r k f\<close>: \<open>f\<close> is \<open>e\<close> with one more recorder \<open>r\<close> on a new slot \<open>k\<close>, all new
  connections being connections of \<open>k\<close>. Destroying \<open>r\<close> leads back to \<open>e\<close>.
\<close>

definition extends :: "'a \<Rightarrow> int \<Rightarrow> int \<Rightarrow> 'a \<Rightarrow> bool" where
  "extends e r k f \<longleftrightarrow> ok f \<and> r \<notin> live e \<and> live f = insert r (live e) \<and> get_port r f = k \<and>
     k \<notin> slots e \<and> slots f = insert k (slots e) \<and> {(a, b) \<in> links f. a \<noteq> k \<and> b \<noteq> k} = links e \<and>
     (\<forall>q \<in> live e. get_port q f = get_port q e) \<and> (ready e \<longrightarrow> ready f)"

lemma create_extends:
  assumes "ok e" "create path e = ((PJ_SUCCESS, r), f)"
  shows "extends e r (get_port r f) f \<and> links f = links e"
  using create_success [OF assms] create_unlinked [OF assms] by (auto simp: extends_def)

lemma connect_extends:
  assumes "extends e r k f" "connect a b f = (st, g)" "a = k \<or> b = k"
  shows "extends e r k g"
proof -
  have f: "ok f" using assms(1) by (simp add: extends_def)
  note c = connect_ok [OF f assms(2)] connect_links [OF f assms(2)] connect_recs [OF f assms(2)]
    connect_ready [OF f _ assms(2)]
  have "{(x, y) \<in> links g. x \<noteq> k \<and> y \<noteq> k} = {(x, y) \<in> links f. x \<noteq> k \<and> y \<noteq> k}"
    using c(2) assms(3) by auto
  then show ?thesis using assms(1) c by (simp add: extends_def)
qed

lemma disconnect_extends:
  assumes "extends e r k f" "disconnect a b f = (st, g)" "a = k \<or> b = k"
  shows "extends e r k g"
proof -
  have f: "ok f" using assms(1) by (simp add: extends_def)
  note d = disconnect_ok [OF f assms(2)] disconnect_recs [OF f assms(2)]
  have "{(x, y) \<in> links g. x \<noteq> k \<and> y \<noteq> k} = {(x, y) \<in> links f. x \<noteq> k \<and> y \<noteq> k}"
    using d(1) assms(3) by auto
  then show ?thesis using assms(1) d by (simp add: extends_def)
qed

text \<open>The views of two environments agree.\<close>

definition alike :: "'a \<Rightarrow> 'a \<Rightarrow> bool" where
  "alike e f \<longleftrightarrow> ok f \<and> slots f = slots e \<and> links f = links e \<and> live f = live e \<and>
     (\<forall>q \<in> live e. get_port q f = get_port q e) \<and> (ready e \<longrightarrow> ready f)"

lemma alike_refl: "ok e \<Longrightarrow> alike e e"
  by (simp add: alike_def)

lemma alike_trans: "alike e f \<Longrightarrow> alike f g \<Longrightarrow> alike e g"
  by (simp add: alike_def)

lemma extends_destroy:
  assumes "extends e r k f" "destroy r f = (st, g)"
  shows "alike e g"
proof -
  have f: "ok f" "r \<in> live f" using assms(1) by (simp_all add: extends_def)
  note d = destroy_live [OF f assms(2)]
  show ?thesis using assms(1) d by (auto simp: extends_def alike_def)
qed

lemma create_fail_alike:
  "ok e \<Longrightarrow> create path e = ((st, r), f) \<Longrightarrow> st \<noteq> PJ_SUCCESS \<Longrightarrow> alike e f"
  using create_fail [of e path st r f] by (simp add: alike_def)

end

end
