(* ===== verification/Shim_Recording.thy ===== *)
theory Shim_Recording
  imports Shim_State
begin

text \<open>
  Recording a call: a recorder of pjsua is connected to the call's port and to the microphone. The
  shim keeps, per call, a flag, the file path, the recorder and its port.
\<close>

definition valid_call :: "int \<Rightarrow> bool" where
  "valid_call call_id \<longleftrightarrow> \<not> (call_id < 0 \<or> call_id \<ge> int MAX_CALLS)"

text \<open>The last part of \<^verbatim>\<open>pd_call_start_recording\<close>: the call's entry of the four arrays.\<close>

definition set_recording :: "int \<Rightarrow> int \<Rightarrow> string \<Rightarrow> int \<Rightarrow> int \<Rightarrow> ('e, unit) shim_m" where
  "set_recording call_id flag path rec_id rec_slot = modify (\<lambda>s. s\<lparr>
     g_rec_path := put (g_rec_path s) call_id path,
     g_is_recording := put (g_is_recording s) call_id flag,
     g_recorder_id := put (g_recorder_id s) call_id rec_id,
     g_recorder_slot := put (g_recorder_slot s) call_id rec_slot\<rparr>)"

text \<open>
  The middle part: create the recorder and connect it. \<open>None\<close> is the early return -1, after
  which the recorder is destroyed again.
\<close>

definition attach_recorder :: "'e pjsua \<Rightarrow> int \<Rightarrow> string \<Rightarrow> ('e, (int \<times> int) option) shim_m" where
  "attach_recorder P call_slot path = do {
     (status, rec_id) \<leftarrow> pj (api_recorder_create P path);
     if status \<noteq> PJ_SUCCESS then ret None
     else do {
       rec_slot \<leftarrow> ask (api_recorder_get_conf_port P rec_id);
       if rec_slot = PJSUA_INVALID_ID then do {
         _ \<leftarrow> pj (api_recorder_destroy P rec_id);
         ret None
       } else do {
         status \<leftarrow> pj (api_conf_connect P call_slot rec_slot);
         if status \<noteq> PJ_SUCCESS then do {
           _ \<leftarrow> pj (api_recorder_destroy P rec_id);
           ret None
         } else do {
           status \<leftarrow> pj (api_conf_connect P 0 rec_slot);
           if status \<noteq> PJ_SUCCESS then do {
             _ \<leftarrow> pj (api_conf_disconnect P call_slot rec_slot);
             _ \<leftarrow> pj (api_recorder_destroy P rec_id);
             ret None
           } else ret (Some (rec_id, rec_slot))
         }
       }
     }
   }"

definition pd_call_start_recording :: "'e pjsua \<Rightarrow> int \<Rightarrow> string option \<Rightarrow> ('e, int) shim_m" where
  "pd_call_start_recording P call_id file_path = do {
     pd_ensure_thread P;
     if \<not> valid_call call_id then ret (-1)
     else if \<not> nonempty file_path then ret (-1)
     else do {
       recording \<leftarrow> gets (\<lambda>s. elem (g_is_recording s) call_id);
       if recording \<noteq> 0 then ret (-1)
       else do {
         ci \<leftarrow> ask (api_call_get_info P call_id);
         if ci = None then ret (-1)
         else do {
           call_slot \<leftarrow> ask (api_call_get_conf_port P call_id);
           if call_slot = PJSUA_INVALID_ID then ret (-1)
           else do {
             r \<leftarrow> attach_recorder P call_slot (S file_path);
             case r of
               None \<Rightarrow> ret (-1)
             | Some (rec_id, rec_slot) \<Rightarrow> do {
                 set_recording call_id 1 (c_trunc 512 (S file_path)) rec_id rec_slot;
                 ret 0
               }
           }
         }
       }
     }
   }"

definition pd_call_stop_recording :: "'e pjsua \<Rightarrow> int \<Rightarrow> ('e, int) shim_m" where
  "pd_call_stop_recording P call_id = do {
     pd_ensure_thread P;
     if \<not> valid_call call_id then ret (-1)
     else do {
       recording \<leftarrow> gets (\<lambda>s. elem (g_is_recording s) call_id);
       if recording = 0 then ret (-1)
       else do {
         call_slot \<leftarrow> ask (api_call_get_conf_port P call_id);
         rec_slot \<leftarrow> gets (\<lambda>s. elem (g_recorder_slot s) call_id);
         only_if (rec_slot \<noteq> PJSUA_INVALID_ID) (do {
           only_if (call_slot \<noteq> PJSUA_INVALID_ID)
             (do { _ \<leftarrow> pj (api_conf_disconnect P call_slot rec_slot); ret () });
           _ \<leftarrow> pj (api_conf_disconnect P 0 rec_slot);
           ret ()
         });
         rec_id \<leftarrow> gets (\<lambda>s. elem (g_recorder_id s) call_id);
         only_if (rec_id \<noteq> PJSUA_INVALID_ID)
           (do { _ \<leftarrow> pj (api_recorder_destroy P rec_id); ret () });
         set_recording call_id 0 [] PJSUA_INVALID_ID PJSUA_INVALID_ID;
         ret 0
       }
     }
   }"

definition pd_call_is_recording :: "int \<Rightarrow> ('e, int) shim_m" where
  "pd_call_is_recording call_id =
     (if \<not> valid_call call_id then ret 0 else gets (\<lambda>s. elem (g_is_recording s) call_id))"

end
