(* ===== verification/Recording_Laws.thy ===== *)
theory Recording_Laws
  imports Interfaces Shim_Recording
begin

text \<open>
  What recording promises, over any environment with the contracts \<open>bridge\<close> and \<open>recorders\<close>:
  a start that fails leaves no recorder and no connection behind, one that succeeds connects the call
  and the microphone to a new recorder, and a stop removes exactly that again.
\<close>

text \<open>The entry of one call in the four arrays, and the whole of them.\<close>

definition rec_entry :: "'e shim \<Rightarrow> int \<Rightarrow> int \<times> string \<times> int \<times> int" where
  "rec_entry s c = (elem (g_is_recording s) c, elem (g_rec_path s) c, elem (g_recorder_id s) c,
                    elem (g_recorder_slot s) c)"

definition rec_arrays :: "'e shim \<Rightarrow> int list \<times> string list \<times> int list \<times> int list" where
  "rec_arrays s = (g_is_recording s, g_rec_path s, g_recorder_id s, g_recorder_slot s)"

definition rec_lengths :: "'e shim \<Rightarrow> bool" where
  "rec_lengths s \<longleftrightarrow> length (g_is_recording s) = MAX_CALLS \<and> length (g_rec_path s) = MAX_CALLS \<and>
     length (g_recorder_id s) = MAX_CALLS \<and> length (g_recorder_slot s) = MAX_CALLS"

lemma rec_arrays_no_env: "no_env rec_arrays"
  by (simp add: no_env_def rec_arrays_def)

lemma rec_arrays_entry: "rec_arrays s' = rec_arrays s \<Longrightarrow> rec_entry s' c = rec_entry s c"
  by (simp add: rec_arrays_def rec_entry_def)

lemma rec_arrays_lengths: "rec_arrays s' = rec_arrays s \<Longrightarrow> rec_lengths s' = rec_lengths s"
  by (simp add: rec_arrays_def rec_lengths_def)

lemma rec_arrays_entered [simp]: "rec_arrays (entered P s) = rec_arrays s"
  by (rule entered_fields [of P s]) (simp add: rec_arrays_def)

lemma g_is_recording_entered [simp]: "g_is_recording (entered P s) = g_is_recording s"
  using rec_arrays_entered [of P s] by (simp add: rec_arrays_def)

lemma g_recorder_id_entered [simp]: "g_recorder_id (entered P s) = g_recorder_id s"
  and g_recorder_slot_entered [simp]: "g_recorder_slot (entered P s) = g_recorder_slot s"
  using rec_arrays_entered [of P s] by (simp_all add: rec_arrays_def)

lemma run_set_recording [run_simps]:
  "run_state (set_recording c flag path r k) s = ((), s\<lparr>
     g_rec_path := put (g_rec_path s) c path, g_is_recording := put (g_is_recording s) c flag,
     g_recorder_id := put (g_recorder_id s) c r, g_recorder_slot := put (g_recorder_slot s) c k\<rparr>)"
  by (simp add: set_recording_def)

lemma valid_callD: "valid_call c \<Longrightarrow> 0 \<le> c \<and> nat c < MAX_CALLS"
  by (auto simp: valid_call_def)

lemma set_recording_entry:
  assumes "rec_lengths s" "valid_call c" "valid_call d"
  shows "rec_entry (exec (set_recording c flag path r k) s) d
    = (if c = d then (flag, path, r, k) else rec_entry s d)"
  using assms(1) valid_callD [OF assms(2)] valid_callD [OF assms(3)]
  by (simp add: run_set_recording rec_entry_def rec_lengths_def elem_put)

lemma set_recording_lengths:
  "rec_lengths s \<Longrightarrow> rec_lengths (exec (set_recording c flag path r k) s)"
  by (simp add: run_set_recording rec_lengths_def)

lemma set_recording_env [simp]: "env (exec (set_recording c flag path r k) s) = env s"
  by (simp add: run_set_recording)

section \<open>The contract\<close>

locale recording =
  recorders "api_conf_connect P" "api_conf_disconnect P" slots links ready ok
    "api_recorder_create P" "api_recorder_get_conf_port P" "api_recorder_destroy P" live
  for P :: "'e pjsua" and slots links ready ok live +
  assumes register_alike: "ok e \<Longrightarrow> alike e (snd (api_thread_register P e))"
begin

lemma entered_alike: "ok (env s) \<Longrightarrow> alike (env s) (env (entered P s))"
  using register_alike [of "env s"] alike_refl [of "env s"]
  by (auto simp: entered_def run_ensure_thread simp del: run_ensure_thread_entered)

lemma attach_recorder_cases:
  assumes ok: "ok (env s)" and run: "run_state (attach_recorder P c path) s = (res, t)"
  obtains f where "t = s\<lparr>env := f\<rparr>" "res = None" "alike (env s) f"
  | f r k where "t = s\<lparr>env := f\<rparr>" "res = Some (r, k)" "extends (env s) r k f"
      "links f = links (env s) \<union> {(c, k), (0, k)}"
proof -
  obtain st1 r e1 where create: "api_recorder_create P path (env s) = ((st1, r), e1)" by (metis surj_pair)
  consider (fail) "st1 \<noteq> PJ_SUCCESS" | (ok) "st1 = PJ_SUCCESS" by blast
  then show thesis
  proof cases
    case fail
    then have "res = None" "t = s\<lparr>env := e1\<rparr>" using run create by (simp_all add: attach_recorder_def)
    then show ?thesis using that(1) create_fail_alike [OF ok create fail] by blast
  next
    case created: ok
    define k where "k = api_recorder_get_conf_port P r e1"
    have x1: "extends (env s) r k e1" "links e1 = links (env s)"
      using create_extends [OF ok, of path r e1] create created by (simp_all add: k_def)
    then have okf: "ok e1" "k \<in> slots e1" "k \<noteq> PJSUA_INVALID_ID"
      using slots_valid [of e1 k] by (auto simp: extends_def)
    obtain st2 e2 where c1: "api_conf_connect P c k e1 = (st2, e2)" by (metis surj_pair)
    have x2: "extends (env s) r k e2" by (rule connect_extends [OF x1(1) c1]) simp
    note l2 = connect_links [OF okf(1) c1]
    have ok2: "ok e2" using x2 by (simp add: extends_def)
    show ?thesis
    proof (cases "st2 = PJ_SUCCESS")
      case False
      obtain st3 e3 where d: "api_recorder_destroy P r e2 = (st3, e3)" by (metis surj_pair)
      have "res = None" "t = s\<lparr>env := e3\<rparr>"
        using run create created okf(3) c1 d False by (simp_all add: attach_recorder_def k_def)
      then show ?thesis using that(1) extends_destroy [OF x2 d] by blast
    next
      case st2: True
      obtain st3 e3 where c2: "api_conf_connect P 0 k e2 = (st3, e3)" by (metis surj_pair)
      have x3: "extends (env s) r k e3" by (rule connect_extends [OF x2 c2]) simp
      note l3 = connect_links [OF ok2 c2]
      show ?thesis
      proof (cases "st3 = PJ_SUCCESS")
        case True
        have "res = Some (r, k)" "t = s\<lparr>env := e3\<rparr>"
          using run create created okf(3) c1 c2 st2 True by (simp_all add: attach_recorder_def k_def)
        moreover have "links e3 = links (env s) \<union> {(c, k), (0, k)}" using l2 l3 st2 True x1(2) by auto
        ultimately show ?thesis using that(2) x3 by blast
      next
        case False
        obtain st4 e4 where d1: "api_conf_disconnect P c k e3 = (st4, e4)" by (metis surj_pair)
        obtain st5 e5 where d2: "api_recorder_destroy P r e4 = (st5, e5)" by (metis surj_pair)
        have "extends (env s) r k e4" by (rule disconnect_extends [OF x3 d1]) simp
        then have "alike (env s) e5" using d2 by (rule extends_destroy)
        moreover have "res = None" "t = s\<lparr>env := e5\<rparr>"
          using run create created okf(3) c1 c2 d1 d2 st2 False by (simp_all add: attach_recorder_def k_def)
        ultimately show ?thesis using that(1) by blast
      qed
    qed
  qed
qed

lemma extends_alike: "alike e e' \<Longrightarrow> extends e' r k f \<Longrightarrow> extends e r k f"
  by (auto simp: alike_def extends_def)

section \<open>Starting\<close>

lemma start_recording_cases:
  assumes ok: "ok (env s)" and run: "run_state (pd_call_start_recording P c path) s = (res, t)"
  obtains (refused) f where "res = -1" "t = (entered P s)\<lparr>env := f\<rparr>" "alike (env s) f"
  | (started) r k f where "res = 0" "valid_call c" "nonempty path" "elem (g_is_recording s) c = 0"
      "t = exec (set_recording c 1 (c_trunc 512 (S path)) r k) ((entered P s)\<lparr>env := f\<rparr>)"
      "extends (env s) r k f"
      "links f = links (env s) \<union> {(api_call_get_conf_port P c (env (entered P s)), k), (0, k)}"
proof -
  let ?u = "entered P s"
  define cs where "cs = api_call_get_conf_port P c (env ?u)"
  have u: "alike (env s) (env ?u)" "ok (env ?u)" using entered_alike [OF ok] by (simp_all add: alike_def)
  show thesis
  proof (cases "\<not> valid_call c \<or> \<not> nonempty path \<or> elem (g_is_recording s) c \<noteq> 0
      \<or> api_call_get_info P c (env ?u) = None \<or> cs = PJSUA_INVALID_ID")
    case True
    then have "res = -1" "t = ?u\<lparr>env := env ?u\<rparr>"
      using run by (auto simp: pd_call_start_recording_def cs_def split: if_splits)
    then show ?thesis using refused u(1) by blast
  next
    case False
    obtain a u' where att: "run_state (attach_recorder P cs (S path)) ?u = (a, u')" by fastforce
    have runs: "(res, t) = run_state (case a of None \<Rightarrow> ret (-1)
        | Some (r, k) \<Rightarrow> do { set_recording c 1 (c_trunc 512 (S path)) r k; ret 0 }) u'"
      using run False att by (auto simp: pd_call_start_recording_def cs_def)
    show ?thesis
    proof (rule attach_recorder_cases [OF u(2) att])
      fix f assume a: "u' = ?u\<lparr>env := f\<rparr>" "a = None" "alike (env ?u) f"
      then have "res = -1" "t = ?u\<lparr>env := f\<rparr>" using runs by simp_all
      then show ?thesis using refused alike_trans [OF u(1) a(3)] by blast
    next
      fix f r k assume a: "u' = ?u\<lparr>env := f\<rparr>" "a = Some (r, k)" "extends (env ?u) r k f"
        "links f = links (env ?u) \<union> {(cs, k), (0, k)}"
      then have "res = 0" "t = exec (set_recording c 1 (c_trunc 512 (S path)) r k) (?u\<lparr>env := f\<rparr>)"
        using runs by (simp_all split: prod.splits)
      moreover have "links f = links (env s) \<union> {(cs, k), (0, k)}" using a(4) u(1) by (simp add: alike_def)
      ultimately show ?thesis
        using started [of r k f] extends_alike [OF u(1) a(3)] False unfolding cs_def by blast
    qed
  qed
qed

section \<open>Stopping\<close>

text \<open>
  \<open>rec_at\<close>: call \<open>c\<close> records with the live recorder \<open>r\<close> on slot \<open>k\<close>.
\<close>

definition rec_at :: "'e shim \<Rightarrow> int \<Rightarrow> int \<Rightarrow> int \<Rightarrow> bool" where
  "rec_at s c r k \<longleftrightarrow> elem (g_is_recording s) c \<noteq> 0 \<and> elem (g_recorder_id s) c = r \<and>
     elem (g_recorder_slot s) c = k \<and> r \<in> live (env s) \<and> api_recorder_get_conf_port P r (env s) = k"

lemma stop_recording_success:
  assumes ok: "ok (env s)" and c: "valid_call c" and at: "rec_at s c r k"
    and run: "run_state (pd_call_stop_recording P c) s = (res, t)"
  shows "\<exists>f. res = 0 \<and> t = exec (set_recording c 0 [] PJSUA_INVALID_ID PJSUA_INVALID_ID) ((entered P s)\<lparr>env := f\<rparr>)
    \<and> ok f \<and> live f = live (env s) - {r} \<and> slots f = slots (env s) - {k}
    \<and> links f = {(a, b) \<in> links (env s). a \<noteq> k \<and> b \<noteq> k}
    \<and> (\<forall>q \<in> live (env s) - {r}. api_recorder_get_conf_port P q f = api_recorder_get_conf_port P q (env s))
    \<and> (ready (env s) \<longrightarrow> ready f)"
proof -
  let ?u = "entered P s"
  let ?cs = "api_call_get_conf_port P c (env ?u)"
  have u: "alike (env s) (env ?u)" "ok (env ?u)" using entered_alike [OF ok] by (simp_all add: alike_def)
  have r: "r \<in> live (env ?u)" "api_recorder_get_conf_port P r (env ?u) = k" "r \<in> live (env s)"
    using at u(1) by (auto simp: rec_at_def alike_def)
  have rk: "r \<noteq> PJSUA_INVALID_ID" "k \<noteq> PJSUA_INVALID_ID"
    using live_valid [OF u(2) r(1)] slots_valid [OF u(2), of k] port_slot [OF u(2) r(1)] r(2) by auto
  define e1 where "e1 = (if ?cs \<noteq> PJSUA_INVALID_ID then snd (api_conf_disconnect P ?cs k (env ?u)) else env ?u)"
  obtain st2 e2 where d2: "api_conf_disconnect P 0 k e1 = (st2, e2)" by (metis surj_pair)
  obtain st3 e3 where d3: "api_recorder_destroy P r e2 = (st3, e3)" by (metis surj_pair)
  have run': "res = 0" "t = exec (set_recording c 0 [] PJSUA_INVALID_ID PJSUA_INVALID_ID) (?u\<lparr>env := e3\<rparr>)"
    using run c at rk d2 d3 unfolding e1_def
    by (auto simp: pd_call_stop_recording_def rec_at_def split: if_splits prod.splits)
  have e1: "ok e1 \<and> slots e1 = slots (env ?u) \<and> live e1 = live (env ?u)
      \<and> {(a, b) \<in> links e1. a \<noteq> k \<and> b \<noteq> k} = {(a, b) \<in> links (env ?u). a \<noteq> k \<and> b \<noteq> k}
      \<and> (\<forall>q. api_recorder_get_conf_port P q e1 = api_recorder_get_conf_port P q (env ?u))
      \<and> (ready (env ?u) \<longrightarrow> ready e1)"
  proof (cases "?cs = PJSUA_INVALID_ID")
    case True
    then show ?thesis using u(2) by (simp add: e1_def)
  next
    case False
    obtain st1 f where d: "api_conf_disconnect P ?cs k (env ?u) = (st1, f)" by (metis surj_pair)
    have "e1 = f" using d False by (simp add: e1_def)
    then show ?thesis using disconnect_ok [OF u(2) d] disconnect_recs [OF u(2) d] by auto
  qed
  have ok1: "ok e1" using e1 by blast
  note l2 = disconnect_ok [OF ok1 d2] disconnect_recs [OF ok1 d2]
  have ok2: "ok e2" "r \<in> live e2" using l2 e1 r(1) by auto
  have k2: "api_recorder_get_conf_port P r e2 = k" using l2(2) e1 r(2) by auto
  note l3 = destroy_live [OF ok2 d3, unfolded k2]
  have "{(a, b) \<in> links e2. a \<noteq> k \<and> b \<noteq> k} = {(a, b) \<in> links e1. a \<noteq> k \<and> b \<noteq> k}"
    using l2(1) by auto
  then have "links e3 = {(a, b) \<in> links (env s). a \<noteq> k \<and> b \<noteq> k}"
    using l3 e1 u(1) by (simp add: alike_def)
  moreover have "live e3 = live (env s) - {r}" "slots e3 = slots (env s) - {k}"
    using l3 l2 e1 u(1) by (simp_all add: alike_def)
  moreover have "\<forall>q \<in> live (env s) - {r}.
      api_recorder_get_conf_port P q e3 = api_recorder_get_conf_port P q (env s)"
    using l3 l2 e1 u(1) by (simp add: alike_def)
  moreover have "ok e3" "ready (env s) \<longrightarrow> ready e3"
    using l3 l2 e1 u(1) by (simp_all add: alike_def)
  ultimately show ?thesis using run' by blast
qed

lemma stop_recording_refused:
  assumes "\<not> valid_call c \<or> elem (g_is_recording s) c = 0"
  shows "run_state (pd_call_stop_recording P c) s = (-1, entered P s)"
  using assms by (auto simp: pd_call_stop_recording_def)

text \<open>A stop right after a start that succeeded restores slots, connections and recorders.\<close>

lemma start_stop:
  assumes ok: "ok (env s)" and len: "rec_lengths s"
    and start: "run_state (pd_call_start_recording P c path) s = (0, t)"
    and stop: "run_state (pd_call_stop_recording P c) t = (res, w)"
  shows "res = 0 \<and> alike (env s) (env w) \<and> rec_entry w c = (0, [], PJSUA_INVALID_ID, PJSUA_INVALID_ID)"
proof (rule start_recording_cases [OF ok start])
  fix f assume "0 = (-1::int)"
  then show ?thesis by simp
next
  fix r k f
  assume v: "valid_call c"
    and t: "t = exec (set_recording c 1 (c_trunc 512 (S path)) r k) ((entered P s)\<lparr>env := f\<rparr>)"
    and x: "extends (env s) r k f"
  have len': "rec_lengths ((entered P s)\<lparr>env := f\<rparr>)"
    using len rec_arrays_lengths [of "(entered P s)\<lparr>env := f\<rparr>" s] rec_arrays_entered [of P s]
    by (simp add: rec_arrays_def)
  have tl: "rec_lengths t" using set_recording_lengths [OF len'] by (simp add: t)
  have te: "env t = f" by (simp add: t)
  have entry: "rec_entry t c = (1, c_trunc 512 (S path), r, k)"
    using set_recording_entry [OF len' v v] by (simp add: t)
  have okt: "ok (env t)" using x te by (simp add: extends_def)
  have at: "rec_at t c r k" using entry x te by (auto simp: rec_at_def rec_entry_def extends_def)
  obtain g where g: "res = 0"
    "w = exec (set_recording c 0 [] PJSUA_INVALID_ID PJSUA_INVALID_ID) ((entered P t)\<lparr>env := g\<rparr>)"
    "ok g" "live g = live f - {r}" "slots g = slots f - {k}"
    "links g = {(a, b) \<in> links f. a \<noteq> k \<and> b \<noteq> k}"
    "\<forall>q \<in> live f - {r}. api_recorder_get_conf_port P q g = api_recorder_get_conf_port P q f"
    "ready f \<longrightarrow> ready g"
    using stop_recording_success [OF okt v at stop] unfolding te by blast
  have "rec_lengths ((entered P t)\<lparr>env := g\<rparr>)"
    using tl rec_arrays_lengths [of "(entered P t)\<lparr>env := g\<rparr>" t] rec_arrays_entered [of P t]
    by (simp add: rec_arrays_def)
  then have "rec_entry w c = (0, [], PJSUA_INVALID_ID, PJSUA_INVALID_ID)"
    using set_recording_entry [OF _ v v] by (simp add: g(2))
  moreover have "env w = g" by (simp add: g(2))
  moreover have "alike (env s) g" using g x by (auto simp: alike_def extends_def)
  ultimately show ?thesis using g(1) by simp
qed

end

end
