(* ===== verification/Shim_Callbacks.thy ===== *)
theory Shim_Callbacks
  imports Shim_State
begin

text \<open>
  The callbacks pjsua makes into the shim, and what each passes on to Rust: registration, incoming
  calls and the two rejections with 486, call and media state, transfer progress, BLF, pjsip's log
  and the SIP capture module. A callback is modelled as one step; the callbacks pjsua makes while it
  runs a function the shim called are further steps after it.
\<close>

section \<open>Registration\<close>

definition on_reg_state :: "'e pjsua \<Rightarrow> int \<Rightarrow> ('e, unit) shim_m" where
  "on_reg_state P acc_id = do {
     cb \<leftarrow> gets g_on_reg;
     if \<not> cb then ret ()
     else do {
       r \<leftarrow> ask (api_acc_get_info P acc_id);
       case r of
         None \<Rightarrow> ret ()
       | Some info \<Rightarrow> do {
           let reason = buf_copy 128 (ai_status_text info);
           log_msg (if ai_status info = 200 then 4 else 2)
             (fmt 512 [''[PD_SHIM] on_reg_state: acc_id='', dec acc_id, '' status='', dec (ai_status info),
                       '' ('', reason, '') expires='', dec (ai_expires info),
                       '' active='', dec (ai_is_default info)]);
           emit (OnRegState acc_id (ai_expires info) (ai_status info) reason)
         }
     }
   }"

section \<open>Incoming calls\<close>

text \<open>The loop over the enumerated calls: the first other call that is not disconnected decides.\<close>

fun live_loop :: "'e pjsua \<Rightarrow> 'e \<Rightarrow> int \<Rightarrow> int list \<Rightarrow> bool" where
  "live_loop P e incoming [] = False"
| "live_loop P e incoming (c # cs) =
     (if c = incoming then live_loop P e incoming cs
      else case api_call_get_info P c e of
             None \<Rightarrow> live_loop P e incoming cs
           | Some ci \<Rightarrow> if cl_state ci \<noteq> INV_DISCONNECTED then True else live_loop P e incoming cs)"

definition pd_has_other_live_call :: "'e pjsua \<Rightarrow> int \<Rightarrow> ('e, bool) shim_m" where
  "pd_has_other_live_call P incoming_call_id = do {
     r \<leftarrow> ask (api_enum_calls P MAX_CALLS);
     case r of
       None \<Rightarrow> ret False
     | Some call_ids \<Rightarrow> ask (\<lambda>e. live_loop P e incoming_call_id call_ids)
   }"

definition on_incoming_call :: "'e pjsua \<Rightarrow> int \<Rightarrow> int \<Rightarrow> ('e, unit) shim_m" where
  "on_incoming_call P acc_id call_id = do {
     dnd \<leftarrow> gets g_dnd_enabled;
     if dnd then do {
       log_msg 3 (''[PD_SHIM] on_incoming_call: DND active '' @ em_dash @ '' rejecting with 486'');
       _ \<leftarrow> pj (api_call_hangup P call_id 486);
       ret ()
     } else do {
       busy \<leftarrow> pd_has_other_live_call P call_id;
       if busy then do {
         log_msg 3 (''[PD_SHIM] on_incoming_call: busy '' @ em_dash @ '' rejecting with 486'');
         _ \<leftarrow> pj (api_call_hangup P call_id 486);
         ret ()
       } else do {
         cb \<leftarrow> gets g_on_incoming;
         if \<not> cb then ret ()
         else do {
           r \<leftarrow> ask (api_call_get_info P call_id);
           case r of
             None \<Rightarrow> ret ()
           | Some ci \<Rightarrow> emit (OnIncomingCall acc_id call_id (buf_copy 256 (cl_remote_info ci)))
         }
       }
     }
   }"

section \<open>Call and media state\<close>

definition on_call_state :: "'e pjsua \<Rightarrow> int \<Rightarrow> ('e, unit) shim_m" where
  "on_call_state P call_id = do {
     cb \<leftarrow> gets g_on_call;
     if \<not> cb then ret ()
     else do {
       r \<leftarrow> ask (api_call_get_info P call_id);
       case r of
         None \<Rightarrow> ret ()
       | Some ci \<Rightarrow> do {
           log_msg 3 (fmt 256 [''[PD_SHIM] on_call_state: call_id='', dec call_id,
                               '' state='', dec (inv_code (cl_state ci)),
                               '' last_status='', dec (cl_last_status ci)]);
           emit (OnCallState call_id (inv_code (cl_state ci)) (cl_last_status ci))
         }
     }
   }"

text \<open>The loop over the media of a call; the result is \<open>any_active\<close>.\<close>

fun connect_media :: "'e pjsua \<Rightarrow> call_media_info list \<Rightarrow> int \<Rightarrow> ('e, int) shim_m" where
  "connect_media P [] any_active = ret any_active"
| "connect_media P (m # ms) any_active =
     (if cm_type m = MEDIA_AUDIO \<and> cm_status m = CALL_MEDIA_ACTIVE then do {
        _ \<leftarrow> pj (api_conf_connect P (cm_conf_slot m) 0);
        _ \<leftarrow> pj (api_conf_connect P 0 (cm_conf_slot m));
        connect_media P ms 1
      } else connect_media P ms any_active)"

definition on_call_media_state :: "'e pjsua \<Rightarrow> int \<Rightarrow> ('e, unit) shim_m" where
  "on_call_media_state P call_id = do {
     r \<leftarrow> ask (api_call_get_info P call_id);
     case r of
       None \<Rightarrow> ret ()
     | Some ci \<Rightarrow> do {
         any_active \<leftarrow> connect_media P (cl_media ci) 0;
         cb \<leftarrow> gets g_on_media;
         only_if cb (emit (OnCallMedia call_id any_active))
       }
   }"

section \<open>SIP messages\<close>

text \<open>
  A message is what its pointer designates; \<open>api_msg_print m n\<close> is the text pjsip prints for it in
  at most \<open>n\<close> bytes, \<open>None\<close> when that fails or is empty. The transaction event names the
  pointers the callback looks at: \<open>tsx->last_tx\<close> and \<open>src.rdata\<close>, \<open>None\<close> when NULL.
\<close>

datatype tsx_event = EVENT_TX_MSG "string option" | EVENT_RX_MSG "string option" | EVENT_OTHER

definition capture :: "'e pjsua \<Rightarrow> int \<Rightarrow> int \<Rightarrow> string \<Rightarrow> ('e, unit) shim_m" where
  "capture P call_id is_tx m =
     (case api_msg_print P m 4095 of
        None \<Rightarrow> ret ()
      | Some buf \<Rightarrow> only_if (0 < length buf) (emit (OnSipMsg call_id is_tx buf)))"

definition on_call_tsx_state :: "'e pjsua \<Rightarrow> int \<Rightarrow> tsx_event \<Rightarrow> ('e, unit) shim_m" where
  "on_call_tsx_state P call_id ev = do {
     cb \<leftarrow> gets g_on_sip_msg;
     if \<not> cb then ret ()
     else case ev of
       EVENT_TX_MSG (Some m) \<Rightarrow> capture P call_id 1 m
     | EVENT_RX_MSG (Some m) \<Rightarrow> capture P call_id 0 m
     | _ \<Rightarrow> ret ()
   }"

definition on_rx_request_mod :: "'e pjsua \<Rightarrow> string option \<Rightarrow> ('e, bool) shim_m" where
  "on_rx_request_mod P rdata = do {
     cb \<leftarrow> gets g_on_sip_msg;
     case rdata of
       None \<Rightarrow> ret False
     | Some m \<Rightarrow> do { only_if cb (capture P (-1) 0 m); ret False }
   }"

definition on_rx_response_mod :: "'e pjsua \<Rightarrow> string option \<Rightarrow> ('e, bool) shim_m" where
  "on_rx_response_mod P rdata = do {
     cb \<leftarrow> gets g_on_sip_msg;
     case rdata of
       None \<Rightarrow> ret False
     | Some m \<Rightarrow> do { only_if cb (capture P (-1) 0 m); ret False }
   }"

definition on_tx_request_mod :: "'e pjsua \<Rightarrow> string option \<Rightarrow> ('e, pj_status) shim_m" where
  "on_tx_request_mod P tdata = do {
     cb \<leftarrow> gets g_on_sip_msg;
     case tdata of
       None \<Rightarrow> ret PJ_SUCCESS
     | Some m \<Rightarrow> do { only_if cb (capture P (-1) 1 m); ret PJ_SUCCESS }
   }"

definition on_tx_response_mod :: "'e pjsua \<Rightarrow> string option \<Rightarrow> ('e, pj_status) shim_m" where
  "on_tx_response_mod P tdata = do {
     cb \<leftarrow> gets g_on_sip_msg;
     case tdata of
       None \<Rightarrow> ret PJ_SUCCESS
     | Some m \<Rightarrow> do { only_if cb (capture P (-1) 1 m); ret PJ_SUCCESS }
   }"

section \<open>Transfer progress\<close>

text \<open>The result is what is stored in \<open>*p_cont\<close>.\<close>

definition on_call_transfer_status ::
  "int \<Rightarrow> int \<Rightarrow> string option \<Rightarrow> bool \<Rightarrow> ('e, bool) shim_m" where
  "on_call_transfer_status call_id status_code st_text final = do {
     cb \<leftarrow> gets g_on_transfer_status;
     if \<not> cb then ret True
     else do {
       let reason = (case st_text of None \<Rightarrow> [] | Some t \<Rightarrow> buf_copy 128 t);
       log_msg 3 (fmt 256 [''[PD_SHIM] on_call_transfer_status: call_id='', dec call_id,
                           '' code='', dec status_code, '' reason='', reason,
                           '' final='', dec (if final then 1 else 0)]);
       emit (OnTransferStatus call_id status_code reason (if final then 1 else 0));
       ret True
     }
   }"

section \<open>BLF\<close>

fun strstr :: "string \<Rightarrow> string \<Rightarrow> bool" where
  "strstr [] p = (p = [])"
| "strstr (c # cs) p = (take (length p) (c # cs) = p \<or> strstr cs p)"

text \<open>
  The state code and the activity text of a notification. In the terminated branch the C code lets
  \<open>activity_str\<close> point to the array \<open>reason\<close> of a block that has ended when the text is used; the
  model gives the text the array held.
\<close>

definition blf_state :: "buddy_info \<Rightarrow> int \<times> string" where
  "blf_state info =
     (if bi_sub_state info = EVSUB_TERMINATED then
        (let reason = buf_copy 64 (bi_term_reason info)
         in (6, if reason \<noteq> [] then reason else ''Subscription ended''))
      else if bi_sub_state info = EVSUB_ACTIVE \<or> bi_sub_state info = EVSUB_PENDING then
        (case bi_pres info of
           pr # _ \<Rightarrow>
             (let note = map pj_tolower (buf_copy 128 (pr_note pr)) in
              if \<not> pr_basic_open pr then (5, ''Offline'')
              else if pr_activity pr = RPID_BUSY then
                (if strstr note ''ring'' then (3, ''Ringing'') else (2, ''Busy''))
              else if pr_activity pr = RPID_AWAY then (4, ''Away'')
              else (1, ''Available''))
         | [] \<Rightarrow> if bi_sub_state info = EVSUB_ACTIVE then (1, ''Available'') else (0, ''Unknown''))
      else (0, ''Unknown''))"

definition on_blf_notify :: "'e pjsua \<Rightarrow> int \<Rightarrow> ('e, unit) shim_m" where
  "on_blf_notify P buddy_id = do {
     cb \<leftarrow> gets g_on_blf_status;
     if \<not> cb then ret ()
     else do {
       r \<leftarrow> ask (api_buddy_get_info P buddy_id);
       case r of
         None \<Rightarrow> ret ()
       | Some info \<Rightarrow> do {
           let (st, activity_str) = blf_state info;
           let uri = buf_copy 256 (bi_uri info);
           log_msg 4
             (fmt 320 [''[BLF] buddy_id='', dec buddy_id, '' sub_state='', dec (evsub_code (bi_sub_state info)),
                '' basic_open='', (case bi_pres info of pr # _ \<Rightarrow> dec (if pr_basic_open pr then 1 else 0)
                                                | [] \<Rightarrow> dec (-1)),
                '' rpid_act='', (case bi_pres info of pr # _ \<Rightarrow> dec (rpid_code (pr_activity pr))
                                              | [] \<Rightarrow> dec (-1)),
                '' note='', [CHR 0x22], [CHR 0x22], '' => state='', dec st,
                '' ('', activity_str, '') uri='', uri]);
           emit (OnBlfStatus uri st activity_str)
         }
     }
   }"

section \<open>pjsip's log\<close>

text \<open>\<open>while (copy > 0 && (buf[copy - 1] == '\n' || buf[copy - 1] == '\r')) copy--;\<close>\<close>

fun strip_eol :: "string \<Rightarrow> nat \<Rightarrow> nat" where
  "strip_eol buf 0 = 0"
| "strip_eol buf (Suc n) =
     (if buf ! n = CHR 0x0A \<or> buf ! n = CHR 0x0D then strip_eol buf n else Suc n)"

definition pj_log_writer :: "int \<Rightarrow> string \<Rightarrow> int \<Rightarrow> ('e, unit) shim_m" where
  "pj_log_writer level data len = do {
     cb \<leftarrow> gets g_on_log;
     if \<not> cb \<or> len \<le> 0 then ret ()
     else do {
       let copy = (if len \<ge> 2048 then 2047 else nat len);
       let buf = take copy data;
       emit (OnLog level (take (strip_eol buf copy) buf))
     }
   }"

end
