(* ===== verification/Shim_Audio.thy ===== *)
theory Shim_Audio
  imports Shim_State
begin

text \<open>
  The shim's audio device functions: the diagnostics, the readiness check before a call, listing,
  validating and selecting devices. The device table is what pjsua enumerates into an array of 64.
\<close>

section \<open>Diagnostics\<close>

fun log_devices :: "string \<Rightarrow> int \<Rightarrow> int \<Rightarrow> nat \<Rightarrow> aud_dev list \<Rightarrow> ('e, unit) shim_m" where
  "log_devices prefix cap play i [] = ret ()"
| "log_devices prefix cap play i (d # ds) = do {
     log_msg 4 (fmt 512 [prefix, '': device['', dec_nat i, ''] name='', [CHR 0x27], dev_name d, [CHR 0x27],
       '' in='', dec_nat (input_count d), '' out='', dec_nat (output_count d),
       '' caps=0x'', hex_nat (dev_caps d),
       if int i = cap then '' [selected-capture]'' else '''',
       if int i = play then '' [selected-playback]'' else '''']);
     log_devices prefix cap play (Suc i) ds
   }"

definition pd_log_audio_state :: "'e pjsua \<Rightarrow> string \<Rightarrow> ('e, unit) shim_m" where
  "pd_log_audio_state P prefix = do {
     logging \<leftarrow> gets g_on_log;
     if \<not> logging then ret ()
     else do {
       (enum_st, infos) \<leftarrow> ask (api_enum_aud_devs P 64);
       (snd_st, cap, play) \<leftarrow> ask (api_get_snd_dev P);
       if enum_st \<noteq> PJ_SUCCESS then
         log_msg 2 (fmt 512 [prefix, '': audio enum failed status='', dec enum_st, '' ('',
                             pj_strerror P enum_st 256, '')''])
       else do {
         (if snd_st \<noteq> PJ_SUCCESS then
            log_msg 2 (fmt 512 [prefix, '': get_snd_dev failed status='', dec snd_st, '' ('',
                                pj_strerror P snd_st 256, ''), enumerated='', dec_nat (length infos)])
          else
            log_msg 3 (fmt 512 [prefix, '': enumerated='', dec_nat (length infos),
                                '' selected capture='', dec cap, '' playback='', dec play]));
         log_devices prefix cap play 0 infos
       }
     }
   }"

text \<open>\<open>pj_bool_t\<close> as bool; \<open>target_id\<close> is unsigned.\<close>

definition pd_audio_device_exists ::
  "'e pjsua \<Rightarrow> nat \<Rightarrow> bool \<Rightarrow> bool \<Rightarrow> string \<Rightarrow> ('e, bool) shim_m" where
  "pd_audio_device_exists P target_id require_input require_output prefix = do {
     (st, infos) \<leftarrow> ask (api_enum_aud_devs P 64);
     if st \<noteq> PJ_SUCCESS then do {
       log_msg 2 (fmt 512 [prefix, '': unable to validate device id='', dec_nat target_id,
                           '' status='', dec st, '' ('', pj_strerror P st 256, '')'']);
       ret False
     } else if target_id \<ge> length infos then do {
       log_msg 2 (fmt 256 [prefix, '': device id='', dec_nat target_id,
                           '' is out of range (count='', dec_nat (length infos), '')'']);
       ret False
     } else if require_input \<and> input_count (infos ! target_id) = 0 then do {
       log_msg 2 (fmt 256 [prefix, '': device id='', dec_nat target_id, '' ('', [CHR 0x27],
                           dev_name (infos ! target_id), [CHR 0x27], '') has no input channels'']);
       ret False
     } else if require_output \<and> output_count (infos ! target_id) = 0 then do {
       log_msg 2 (fmt 256 [prefix, '': device id='', dec_nat target_id, '' ('', [CHR 0x27],
                           dev_name (infos ! target_id), [CHR 0x27], '') has no output channels'']);
       ret False
     } else do {
       log_msg 4 (fmt 256 [prefix, '': device id='', dec_nat target_id, '' ('', [CHR 0x27],
                           dev_name (infos ! target_id), [CHR 0x27], '') is valid'']);
       ret True
     }
   }"

section \<open>Readiness and re-initialisation\<close>

fun scan_media :: "nat \<Rightarrow> aud_dev list \<Rightarrow> bool \<Rightarrow> bool \<Rightarrow> ('e, bool \<times> bool) shim_m" where
  "scan_media i [] has_input has_output = ret (has_input, has_output)"
| "scan_media i (d # ds) has_input has_output = do {
     log_msg 4 (fmt 256 [''pd_check_media_ready: device '', dec_nat i, '': '', dev_name d,
                         '' (caps=0x'', hex_nat (dev_caps d), '')'']);
     let hi = (has_input \<or> input_count d > 0);
     let ho = (has_output \<or> output_count d > 0);
     if hi \<and> ho then ret (hi, ho) else scan_media (Suc i) ds hi ho
   }"

definition pd_check_media_ready :: "'e pjsua \<Rightarrow> ('e, pj_status) shim_m" where
  "pd_check_media_ready P = do {
     (status, infos) \<leftarrow> ask (api_enum_aud_devs P 64);
     if status \<noteq> PJ_SUCCESS then do {
       log_msg 2 (fmt 256 [''pd_check_media_ready: enum failed status='', dec status]);
       ret status
     } else do {
       log_msg 1 (fmt 256 [''pd_check_media_ready: found '', dec_nat (length infos), '' audio device(s)'']);
       pd_log_audio_state P ''pd_check_media_ready'';
       if length infos = 0 then do {
         log_msg 2 ''pd_check_media_ready: no audio devices found'';
         ret PJMEDIA_EAUD_NODEVICES
       } else do {
         (has_input, has_output) \<leftarrow> scan_media 0 infos False False;
         only_if (\<not> has_input)
           (log_msg 1 ''Warning: pd_check_media_ready: no input device found. Proceeding with fallback.'');
         only_if (\<not> has_output)
           (log_msg 1 ''Warning: pd_check_media_ready: no output device found. Proceeding with fallback.'');
         log_msg 4 ''pd_check_media_ready: media readiness checks completed'';
         ret PJ_SUCCESS
       }
     }
   }"

definition pd_reinit_audio_devices :: "'e pjsua \<Rightarrow> ('e, int) shim_m" where
  "pd_reinit_audio_devices P = do {
     (status, infos) \<leftarrow> ask (api_enum_aud_devs P 64);
     if status \<noteq> PJ_SUCCESS \<or> length infos = 0 then do {
       log_msg 2 (fmt 128 [''Audio re-init: no devices found (status='', dec status, '')'']);
       ret (-1)
     } else do {
       log_msg 4 (fmt 128 [''Audio re-init: found '', dec_nat (length infos), '' device(s), trying device 0'']);
       st \<leftarrow> pj (api_set_snd_dev P 0 0);
       if st \<noteq> PJ_SUCCESS then do {
         log_msg 2 (fmt 256 [''pjsua_set_snd_dev failed: '', dec st, '' ('', pj_strerror P st 256, '')'']);
         ret (-1)
       } else ret 0
     }
   }"

section \<open>The device API\<close>

definition dev_kind :: "aud_dev \<Rightarrow> int" where
  "dev_kind d =
     (if input_count d > 0 \<and> output_count d > 0 then 2
      else if input_count d > 0 then 0 else 1)"

text \<open>
  The result, and what the three output arrays hold: \<open>ids_out[i]\<close>, the C string at
  \<open>names_out + i * name_max_len\<close> (\<open>None\<close> when nothing is written there) and \<open>kinds_out[i]\<close>. A
  NULL array is a False flag.
\<close>

definition pd_aud_dev_list ::
  "'e pjsua \<Rightarrow> int \<Rightarrow> bool \<Rightarrow> bool \<Rightarrow> int \<Rightarrow> bool
   \<Rightarrow> ('e, int \<times> int list \<times> string option list \<times> int list) shim_m" where
  "pd_aud_dev_list P max_count ids_out names_out name_max_len kinds_out = do {
     pd_ensure_thread P;
     (st, infos) \<leftarrow> ask (api_enum_aud_devs P 64);
     if st \<noteq> PJ_SUCCESS then ret (-1, [], [], [])
     else do {
       let limit = (if int (length infos) < max_count then int (length infos) else max_count);
       let written = take (nat limit) infos;
       ret (limit,
            if ids_out then map int [0..<length written] else [],
            if names_out then map (\<lambda>d. safe_copy name_max_len (Some (dev_name d))) written else [],
            if kinds_out then map dev_kind written else [])
     }
   }"

definition pd_aud_set_devs :: "'e pjsua \<Rightarrow> int \<Rightarrow> int \<Rightarrow> ('e, int) shim_m" where
  "pd_aud_set_devs P capture_id playback_id = do {
     pd_ensure_thread P;
     log_msg 3 (fmt 256 [''pd_aud_set_devs: requested capture='', dec capture_id,
                         '' playback='', dec playback_id]);
     cap_ok \<leftarrow> (if capture_id \<ge> 0
                then pd_audio_device_exists P (nat capture_id) True False ''pd_aud_set_devs''
                else ret True);
     if \<not> cap_ok then ret (-1)
     else do {
       play_ok \<leftarrow> (if playback_id \<ge> 0
                  then pd_audio_device_exists P (nat playback_id) False True ''pd_aud_set_devs''
                  else ret True);
       if \<not> play_ok then ret (-1)
       else do {
         pd_log_audio_state P ''pd_aud_set_devs before apply'';
         st \<leftarrow> pj (api_set_snd_dev P capture_id playback_id);
         (if st = PJ_SUCCESS then log_msg 3 ''pd_aud_set_devs: pjsua_set_snd_dev succeeded''
          else log_msg 2 (fmt 512 [''pd_aud_set_devs: pjsua_set_snd_dev('', dec capture_id, '','',
                                   dec playback_id, '') failed status='', dec st, '' ('',
                                   pj_strerror P st 256, '')'']));
         pd_log_audio_state P ''pd_aud_set_devs after apply'';
         ret st
       }
     }
   }"

text \<open>The result with what is stored through the two pointers when they are not NULL.\<close>

definition pd_aud_get_devs :: "'e pjsua \<Rightarrow> ('e, int \<times> int \<times> int) shim_m" where
  "pd_aud_get_devs P = do {
     pd_ensure_thread P;
     ask (api_get_snd_dev P)
   }"

end
