(* ===== verification/Shim_Calls.thy ===== *)
theory Shim_Calls
  imports Shim_Audio
begin

text \<open>Call control: making, answering, ending, holding, muting, DTMF, transfers and the conference.\<close>

section \<open>Making and ending calls\<close>

definition audio_dev_error :: "int \<Rightarrow> bool" where
  "audio_dev_error st \<longleftrightarrow> st = 450002 \<or> st = -450002 \<or> st = 420006 \<or> st = -420006"

text \<open>What happens after a failed first attempt; the result is the status in the end and the call id.\<close>

definition retry_call :: "'e pjsua \<Rightarrow> int \<Rightarrow> string \<Rightarrow> pj_status \<times> int \<Rightarrow> ('e, pj_status \<times> int) shim_m" where
  "retry_call P acc_id dst r =
     (if audio_dev_error (fst r) then do {
        log_msg 1 ''pd_call_make: audio device error, attempting re-init with system defaults'';
        _ \<leftarrow> pj (api_set_snd_dev P (-1) (-1));
        pd_log_audio_state P ''pd_call_make after fallback'';
        (status, call_id) \<leftarrow> pj (api_call_make_call P acc_id dst);
        only_if (status = PJ_SUCCESS) (log_msg 1 ''pd_call_make: retry succeeded with system defaults'');
        ret (status, call_id)
      } else ret r)"

definition pd_call_make :: "'e pjsua \<Rightarrow> int \<Rightarrow> string option \<Rightarrow> ('e, int) shim_m" where
  "pd_call_make P acc_id dst_uri = do {
     pd_ensure_thread P;
     log_msg 3 (fmt 512 [''pd_call_make: starting acc_id='', dec acc_id, '' dst_uri='', or_null dst_uri]);
     pd_log_audio_state P ''pd_call_make preflight'';
     media_status \<leftarrow> pd_check_media_ready P;
     if media_status \<noteq> PJ_SUCCESS then do {
       log_msg 1 (fmt 512 [''pd_call_make: media not ready - '', pj_strerror P media_status 256]);
       ret (- media_status)
     } else do {
       (status, call_id) \<leftarrow> pj (api_call_make_call P acc_id (S dst_uri));
       if status \<noteq> PJ_SUCCESS then do {
         (status, call_id) \<leftarrow> retry_call P acc_id (S dst_uri) (status, call_id);
         only_if (status \<noteq> PJ_SUCCESS)
           (log_msg 1 (fmt 512 [''pd_call_make failed: acc_id='', dec acc_id, '' uri='', pct_s dst_uri,
                                '' status='', dec status, '' ('', pj_strerror P status 256, '')'']));
         ret (- status)
       } else ret call_id
     }
   }"

definition pd_call_answer :: "'e pjsua \<Rightarrow> int \<Rightarrow> ('e, int) shim_m" where
  "pd_call_answer P call_id = do {
     log_msg 3 (fmt 128 [''[PD_SHIM] pd_call_answer: ENTER call_id='', dec call_id]);
     pd_ensure_thread P;
     log_msg 3 (fmt 128 [''[PD_SHIM] pd_call_answer: Calling pjsua_call_answer('', dec call_id, '')...'']);
     rc \<leftarrow> pj (api_call_answer P call_id 200);
     log_msg 3 (fmt 128 [''[PD_SHIM] pd_call_answer: EXIT call_id='', dec call_id, '' rc='', dec rc,
                         '' ('', pj_strerror P rc 128, '')'']);
     ret rc
   }"

definition pd_call_hangup :: "'e pjsua \<Rightarrow> int \<Rightarrow> ('e, int) shim_m" where
  "pd_call_hangup P call_id = do { pd_ensure_thread P; pj (api_call_hangup P call_id 0) }"

definition pd_call_hold :: "'e pjsua \<Rightarrow> int \<Rightarrow> int \<Rightarrow> ('e, int) shim_m" where
  "pd_call_hold P call_id hold = do {
     pd_ensure_thread P;
     if hold \<noteq> 0 then pj (api_call_set_hold P call_id)
     else pj (api_call_reinvite P call_id CALL_UNHOLD)
   }"

section \<open>Mute\<close>

definition active_audio :: "call_media_info \<Rightarrow> bool" where
  "active_audio m \<longleftrightarrow> cm_type m = MEDIA_AUDIO \<and> cm_status m = CALL_MEDIA_ACTIVE"

definition mute_one :: "'e pjsua \<Rightarrow> int \<Rightarrow> call_media_info \<Rightarrow> ('e, unit) shim_m" where
  "mute_one P mute m =
     only_if (active_audio m)
       (if mute \<noteq> 0 then do { _ \<leftarrow> pj (api_conf_disconnect P 0 (cm_conf_slot m)); ret () }
        else do { _ \<leftarrow> pj (api_conf_connect P 0 (cm_conf_slot m)); ret () })"

definition pd_call_set_mute :: "'e pjsua \<Rightarrow> int \<Rightarrow> int \<Rightarrow> ('e, int) shim_m" where
  "pd_call_set_mute P call_id mute = do {
     pd_ensure_thread P;
     r \<leftarrow> ask (api_call_get_info P call_id);
     case r of
       None \<Rightarrow> ret (-1)
     | Some ci \<Rightarrow> do { for_each (cl_media ci) (mute_one P mute); ret 0 }
   }"

section \<open>DTMF\<close>

fun telephone_event_loop :: "'e pjsua \<Rightarrow> int \<Rightarrow> 'e \<Rightarrow> nat \<Rightarrow> call_media_info list \<Rightarrow> bool" where
  "telephone_event_loop P call_id e i [] = False"
| "telephone_event_loop P call_id e i (m # ms) =
     (if cm_type m \<noteq> MEDIA_AUDIO then telephone_event_loop P call_id e (Suc i) ms
      else if cm_status m \<noteq> CALL_MEDIA_ACTIVE then telephone_event_loop P call_id e (Suc i) ms
      else case api_call_get_stream_info P call_id i e of
             None \<Rightarrow> telephone_event_loop P call_id e (Suc i) ms
           | Some psi \<Rightarrow>
               if si_type psi \<noteq> MEDIA_AUDIO then telephone_event_loop P call_id e (Suc i) ms
               else True)"

definition remote_has_telephone_event :: "'e pjsua \<Rightarrow> int \<Rightarrow> ('e, bool) shim_m" where
  "remote_has_telephone_event P call_id = do {
     r \<leftarrow> ask (api_call_get_info P call_id);
     case r of
       None \<Rightarrow> ret False
     | Some ci \<Rightarrow> ask (\<lambda>e. telephone_event_loop P call_id e 0 (cl_media ci))
   }"

definition effective_dtmf_method :: "'e pjsua \<Rightarrow> int \<Rightarrow> ('e, int) shim_m" where
  "effective_dtmf_method P call_id = do {
     m \<leftarrow> gets g_global_dtmf_method;
     r \<leftarrow> ask (api_call_get_info P call_id);
     case r of
       None \<Rightarrow> ret m
     | Some ci \<Rightarrow>
         if cl_acc_id ci \<ge> 0 \<and> cl_acc_id ci < int MAX_ACCOUNTS
         then gets (\<lambda>s. elem (g_acc_dtmf_method s) (cl_acc_id ci))
         else ret m
   }"

definition pd_call_send_dtmf :: "'e pjsua \<Rightarrow> int \<Rightarrow> string option \<Rightarrow> ('e, int) shim_m" where
  "pd_call_send_dtmf P call_id digits = do {
     pd_ensure_thread P;
     if \<not> nonempty digits then ret (-1)
     else do {
       m \<leftarrow> effective_dtmf_method P call_id;
       let d = S digits;
       if m = 1 then do {
         rc \<leftarrow> pj (api_call_send_dtmf P call_id DTMF_RFC2833 d);
         if rc \<noteq> PJ_SUCCESS then pj (api_call_dial_dtmf P call_id d) else ret rc
       } else if m = 2 then pj (api_call_send_dtmf P call_id DTMF_SIP_INFO d)
       else if m = 3 then do {
         rc \<leftarrow> pj (api_call_send_dtmf P call_id DTMF_RFC2833 d);
         if rc \<noteq> PJ_SUCCESS then do {
           log_msg 3 ''[DTMF] RFC2833 not available, falling back to in-band'';
           pj (api_call_dial_dtmf P call_id d)
         } else ret rc
       } else pj (api_call_dial_dtmf P call_id d)
     }
   }"

section \<open>Transfers\<close>

definition pd_call_transfer :: "'e pjsua \<Rightarrow> int \<Rightarrow> string option \<Rightarrow> ('e, int) shim_m" where
  "pd_call_transfer P call_id dest_uri = do {
     pd_ensure_thread P;
     if \<not> nonempty dest_uri then ret (-1)
     else do {
       status \<leftarrow> pj (api_call_xfer P call_id (S dest_uri));
       only_if (status \<noteq> PJ_SUCCESS)
         (log_msg 1 (fmt 512 [''pd_call_transfer failed: call_id='', dec call_id, '' uri='', S dest_uri,
                              '' status='', dec status, '' ('', pj_strerror P status 256, '')'']));
       ret status
     }
   }"

definition pd_call_start_attended_xfer :: "'e pjsua \<Rightarrow> int \<Rightarrow> string option \<Rightarrow> ('e, int) shim_m" where
  "pd_call_start_attended_xfer P call_id dest_uri = do {
     pd_ensure_thread P;
     if \<not> nonempty dest_uri then ret (-1)
     else do {
       status \<leftarrow> pj (api_call_set_hold P call_id);
       only_if (status \<noteq> PJ_SUCCESS)
         (log_msg 2 (fmt 256 [''pd_call_start_attended_xfer: hold failed: '', pj_strerror P status 256]));
       r \<leftarrow> ask (api_call_get_info P call_id);
       case r of
         None \<Rightarrow> do {
           log_msg 2 ''pd_call_start_attended_xfer: failed to get call info'';
           ret (-1)
         }
       | Some ci \<Rightarrow> do {
           (status, new_call_id) \<leftarrow> pj (api_call_make_call P (cl_acc_id ci) (S dest_uri));
           if status \<noteq> PJ_SUCCESS then do {
             log_msg 1 (fmt 256 [''pd_call_start_attended_xfer: make_call failed: '',
                                 pj_strerror P status 256]);
             ret (-1)
           } else do {
             log_msg 4 (fmt 128 [''pd_call_start_attended_xfer: consultation call created: '',
                                 dec new_call_id]);
             ret new_call_id
           }
         }
     }
   }"

definition pd_call_complete_xfer :: "'e pjsua \<Rightarrow> int \<Rightarrow> int \<Rightarrow> ('e, int) shim_m" where
  "pd_call_complete_xfer P call_a call_b = do {
     pd_ensure_thread P;
     r \<leftarrow> ask (api_call_get_info P call_b);
     case r of
       None \<Rightarrow> do {
         log_msg 2 ''pd_call_complete_xfer: failed to get call B info'';
         ret (-1)
       }
     | Some ci_b \<Rightarrow> do {
         status \<leftarrow> pj (api_call_xfer P call_a (buf_copy 256 (cl_remote_info ci_b)));
         only_if (status \<noteq> PJ_SUCCESS)
           (log_msg 1 (fmt 512 [''pd_call_complete_xfer failed: call_a='', dec call_a,
                                '' status='', dec status, '' ('', pj_strerror P status 256, '')'']));
         _ \<leftarrow> pj (api_call_hangup P call_b 0);
         ret status
       }
   }"

section \<open>Conference\<close>

fun first_active_slot :: "call_media_info list \<Rightarrow> int" where
  "first_active_slot [] = PJSUA_INVALID_ID"
| "first_active_slot (m # ms) = (if active_audio m then cm_conf_slot m else first_active_slot ms)"

definition merge_ports :: "'e pjsua \<Rightarrow> int \<Rightarrow> int \<Rightarrow> int \<Rightarrow> int \<Rightarrow> ('e, int) shim_m" where
  "merge_ports P call_a call_b port_a port_b = do {
     status \<leftarrow> pj (api_conf_connect P port_a port_b);
     if status \<noteq> PJ_SUCCESS then do {
       log_msg 2 (fmt 128 [''pd_call_merge_conference: connect A->B failed: '', dec status]);
       ret (-1)
     } else do {
       status \<leftarrow> pj (api_conf_connect P port_b port_a);
       if status \<noteq> PJ_SUCCESS then do {
         log_msg 2 (fmt 128 [''pd_call_merge_conference: connect B->A failed: '', dec status]);
         _ \<leftarrow> pj (api_conf_disconnect P port_a port_b);
         ret (-1)
       } else do {
         _ \<leftarrow> pj (api_conf_connect P port_a 0);
         _ \<leftarrow> pj (api_conf_connect P 0 port_a);
         _ \<leftarrow> pj (api_conf_connect P port_b 0);
         _ \<leftarrow> pj (api_conf_connect P 0 port_b);
         log_msg 4 (fmt 128 [''pd_call_merge_conference: merged calls '', dec call_a, '' and '', dec call_b]);
         ret 0
       }
     }
   }"

definition pd_call_merge_conference :: "'e pjsua \<Rightarrow> int \<Rightarrow> int \<Rightarrow> ('e, int) shim_m" where
  "pd_call_merge_conference P call_a call_b = do {
     pd_ensure_thread P;
     ra \<leftarrow> ask (api_call_get_info P call_a);
     case ra of
       None \<Rightarrow> do {
         log_msg 2 ''pd_call_merge_conference: failed to get call A info'';
         ret (-1)
       }
     | Some ci_a \<Rightarrow> do {
         rb \<leftarrow> ask (api_call_get_info P call_b);
         case rb of
           None \<Rightarrow> do {
             log_msg 2 ''pd_call_merge_conference: failed to get call B info'';
             ret (-1)
           }
         | Some ci_b \<Rightarrow> do {
             let port_a = first_active_slot (cl_media ci_a);
             let port_b = first_active_slot (cl_media ci_b);
             if port_a = PJSUA_INVALID_ID \<or> port_b = PJSUA_INVALID_ID then do {
               log_msg 2 ''pd_call_merge_conference: no active audio streams'';
               ret (-1)
             } else merge_ports P call_a call_b port_a port_b
           }
       }
   }"

end
