(* ===== verification/Conference_Laws.thy ===== *)
theory Conference_Laws
  imports Interfaces Shim_Callbacks Shim_Calls
begin

text \<open>
  What the shim's switching functions do to the graph of connections, over any environment with the
  contract \<open>bridge\<close>: muting, wiring a call's media, and merging two calls.
\<close>

text \<open>The conference slots of the active audio streams of a call, in order.\<close>

definition active_slots :: "call_info \<Rightarrow> int list" where
  "active_slots ci = map cm_conf_slot (filter active_audio (cl_media ci))"

lemma first_active_slot_Nil: "filter active_audio ms = [] \<Longrightarrow> first_active_slot ms = PJSUA_INVALID_ID"
  by (induction ms) (auto split: if_splits)

lemma first_active_slot_Cons:
  "filter active_audio ms = m # rest \<Longrightarrow> first_active_slot ms = cm_conf_slot m"
  by (induction ms) (auto split: if_splits)

lemma first_active_slot_eq:
  "first_active_slot (cl_media ci) = (case active_slots ci of [] \<Rightarrow> PJSUA_INVALID_ID | a # _ \<Rightarrow> a)"
  by (cases "filter active_audio (cl_media ci)")
    (simp_all add: active_slots_def first_active_slot_Nil first_active_slot_Cons)

locale switching =
  bridge "api_conf_connect P" "api_conf_disconnect P" slots links ready ok
  for P :: "'e pjsua" and slots links ready ok +
  assumes register: "ok e \<Longrightarrow> api_thread_register P e = (st, f) \<Longrightarrow>
    ok f \<and> slots f = slots e \<and> links f = links e \<and> (ready e \<longrightarrow> ready f) \<and>
    (\<forall>c. api_call_get_info P c f = api_call_get_info P c e)"
    and connect_info: "ok e \<Longrightarrow> api_conf_connect P a b e = (st, f) \<Longrightarrow>
      api_call_get_info P c f = api_call_get_info P c e"
    and disconnect_info: "ok e \<Longrightarrow> api_conf_disconnect P a b e = (st, f) \<Longrightarrow>
      api_call_get_info P c f = api_call_get_info P c e"
begin

definition graph :: "'e \<Rightarrow> 'e \<Rightarrow> (int \<times> int) set \<Rightarrow> bool" where
  "graph e f L \<longleftrightarrow> ok f \<and> slots f = slots e \<and> links f = L \<and> (ready e \<longrightarrow> ready f) \<and>
     (\<forall>c. api_call_get_info P c f = api_call_get_info P c e)"

lemma graph_refl: "ok e \<Longrightarrow> graph e e (links e)"
  by (simp add: graph_def)

lemma graph_trans: "graph e f L \<Longrightarrow> graph f g M \<Longrightarrow> graph e g M"
  by (simp add: graph_def)

lemma entered_graph: "ok (env s) \<Longrightarrow> graph (env s) (env (entered P s)) (links (env s))"
  using register [of "env s"]
  by (cases "api_thread_register P (env s)")
    (auto simp: graph_def entered_def run_ensure_thread simp del: run_ensure_thread_entered)

lemma disconnect_graph:
  "ok e \<Longrightarrow> graph e (snd (api_conf_disconnect P a b e)) (links e - {(a, b)})"
  using disconnect_ok [of e a b] disconnect_info [of e a b]
  by (cases "api_conf_disconnect P a b e") (simp add: graph_def)

lemma connect_graph:
  assumes "ok e"
  shows "graph e (snd (api_conf_connect P a b e))
    (if fst (api_conf_connect P a b e) = PJ_SUCCESS then insert (a, b) (links e) else links e)"
  using connect_ok [OF assms, of a b] connect_links [OF assms, of a b] connect_ready [OF assms, of a b]
    connect_info [OF assms, of a b]
  by (cases "api_conf_connect P a b e") (simp add: graph_def)

lemma connect_graph_ready:
  assumes "ok e" "ready e" "a \<in> slots e" "b \<in> slots e"
  shows "fst (api_conf_connect P a b e) = PJ_SUCCESS
    \<and> graph e (snd (api_conf_connect P a b e)) (insert (a, b) (links e))"
  using connect_ready [OF assms(1,2), of a b] assms connect_graph [OF assms(1), of a b]
  by (cases "api_conf_connect P a b e") simp

section \<open>Mute\<close>

lemma mute_loop:
  assumes "ok (env s)" "mute \<noteq> 0"
  shows "\<exists>f. run_state (for_each ms (mute_one P mute)) s = ((), s\<lparr>env := f\<rparr>)
    \<and> graph (env s) f (links (env s) - {0} \<times> set (map cm_conf_slot (filter active_audio ms)))"
  using assms
proof (induction ms arbitrary: s)
  case Nil
  then show ?case by (intro exI [of _ "env s"]) (simp add: graph_refl)
next
  case (Cons m ms)
  show ?case
  proof (cases "active_audio m")
    case False
    then show ?thesis using Cons by (simp add: mute_one_def)
  next
    case True
    define e1 where "e1 = snd (api_conf_disconnect P 0 (cm_conf_slot m) (env s))"
    have g1: "graph (env s) e1 (links (env s) - {(0, cm_conf_slot m)})"
      unfolding e1_def by (rule disconnect_graph [OF Cons.prems(1)])
    have "ok (env (s\<lparr>env := e1\<rparr>))" using g1 by (simp add: graph_def)
    then obtain f where f: "run_state (for_each ms (mute_one P mute)) (s\<lparr>env := e1\<rparr>) = ((), s\<lparr>env := e1, env := f\<rparr>)"
      "graph e1 f (links e1 - {0} \<times> set (map cm_conf_slot (filter active_audio ms)))"
      using Cons.IH [of "s\<lparr>env := e1\<rparr>"] Cons.prems(2) by auto
    have L: "links e1 - {0} \<times> set (map cm_conf_slot (filter active_audio ms))
        = links (env s) - {0} \<times> set (map cm_conf_slot (filter active_audio (m # ms)))"
      using g1 True by (auto simp: graph_def)
    have "run_state (for_each (m # ms) (mute_one P mute)) s = ((), s\<lparr>env := f\<rparr>)"
      using f(1) True Cons.prems(2) by (simp add: mute_one_def e1_def)
    then show ?thesis using graph_trans [OF g1 f(2)] unfolding L by blast
  qed
qed

lemma unmute_loop:
  assumes "ok (env s)" "ready (env s)" "0 \<in> slots (env s)"
    "\<forall>m \<in> set ms. active_audio m \<longrightarrow> cm_conf_slot m \<in> slots (env s)"
  shows "\<exists>f. run_state (for_each ms (mute_one P 0)) s = ((), s\<lparr>env := f\<rparr>)
    \<and> graph (env s) f (links (env s) \<union> {0} \<times> set (map cm_conf_slot (filter active_audio ms)))"
  using assms
proof (induction ms arbitrary: s)
  case Nil
  then show ?case by (intro exI [of _ "env s"]) (simp add: graph_refl)
next
  case (Cons m ms)
  show ?case
  proof (cases "active_audio m")
    case False
    then show ?thesis using Cons by (simp add: mute_one_def)
  next
    case True
    define e1 where "e1 = snd (api_conf_connect P 0 (cm_conf_slot m) (env s))"
    have g1: "graph (env s) e1 (insert (0, cm_conf_slot m) (links (env s)))"
      using connect_graph_ready [of "env s" 0 "cm_conf_slot m"] Cons.prems True by (simp add: e1_def)
    let ?s = "s\<lparr>env := e1\<rparr>"
    have "ok (env ?s)" "ready (env ?s)" "0 \<in> slots (env ?s)"
      "\<forall>m \<in> set ms. active_audio m \<longrightarrow> cm_conf_slot m \<in> slots (env ?s)"
      using g1 Cons.prems by (simp_all add: graph_def)
    then obtain f where f: "run_state (for_each ms (mute_one P 0)) ?s = ((), s\<lparr>env := e1, env := f\<rparr>)"
      "graph e1 f (links e1 \<union> {0} \<times> set (map cm_conf_slot (filter active_audio ms)))"
      using Cons.IH [of ?s] by auto
    have L: "links e1 \<union> {0} \<times> set (map cm_conf_slot (filter active_audio ms))
        = links (env s) \<union> {0} \<times> set (map cm_conf_slot (filter active_audio (m # ms)))"
      using g1 True by (auto simp: graph_def)
    have "run_state (for_each (m # ms) (mute_one P 0)) s = ((), s\<lparr>env := f\<rparr>)"
      using f(1) True by (simp add: mute_one_def e1_def)
    then show ?thesis using graph_trans [OF g1 f(2)] unfolding L by blast
  qed
qed

lemma set_mute_on:
  assumes ok: "ok (env s)" and ci: "api_call_get_info P c (env s) = Some ci" and "mute \<noteq> 0"
  shows "\<exists>f. run_state (pd_call_set_mute P c mute) s = (0, (entered P s)\<lparr>env := f\<rparr>)
    \<and> graph (env s) f (links (env s) - {0} \<times> set (active_slots ci))"
proof -
  note g = entered_graph [OF ok]
  have "ok (env (entered P s))" using g by (simp add: graph_def)
  from mute_loop [OF this assms(3), of "cl_media ci"] obtain f where
    f: "run_state (for_each (cl_media ci) (mute_one P mute)) (entered P s) = ((), (entered P s)\<lparr>env := f\<rparr>)"
      "graph (env (entered P s)) f (links (env (entered P s)) - {0} \<times> set (active_slots ci))"
    unfolding active_slots_def by blast
  have "run_state (pd_call_set_mute P c mute) s = (0, (entered P s)\<lparr>env := f\<rparr>)"
    using f(1) ci g by (simp add: pd_call_set_mute_def graph_def)
  moreover have "graph (env s) f (links (env s) - {0} \<times> set (active_slots ci))"
    using graph_trans [OF g f(2)] g by (simp add: graph_def)
  ultimately show ?thesis by blast
qed

lemma set_mute_off:
  assumes ok: "ok (env s)" "ready (env s)" "0 \<in> slots (env s)" "set (active_slots ci) \<subseteq> slots (env s)"
    and ci: "api_call_get_info P c (env s) = Some ci"
  shows "\<exists>f. run_state (pd_call_set_mute P c 0) s = (0, (entered P s)\<lparr>env := f\<rparr>)
    \<and> graph (env s) f (links (env s) \<union> {0} \<times> set (active_slots ci))"
proof -
  note g = entered_graph [OF ok(1)]
  have "ok (env (entered P s))" "ready (env (entered P s))" "0 \<in> slots (env (entered P s))"
    "\<forall>m \<in> set (cl_media ci). active_audio m \<longrightarrow> cm_conf_slot m \<in> slots (env (entered P s))"
    using g ok by (auto simp: graph_def active_slots_def)
  from unmute_loop [OF this] obtain f where
    f: "run_state (for_each (cl_media ci) (mute_one P 0)) (entered P s) = ((), (entered P s)\<lparr>env := f\<rparr>)"
      "graph (env (entered P s)) f (links (env (entered P s)) \<union> {0} \<times> set (active_slots ci))"
    unfolding active_slots_def by blast
  have "run_state (pd_call_set_mute P c 0) s = (0, (entered P s)\<lparr>env := f\<rparr>)"
    using f(1) ci g by (simp add: pd_call_set_mute_def graph_def)
  moreover have "graph (env s) f (links (env s) \<union> {0} \<times> set (active_slots ci))"
    using graph_trans [OF g f(2)] g by (simp add: graph_def)
  ultimately show ?thesis by blast
qed

section \<open>Wiring a call's media\<close>

lemma connect_media_graph:
  assumes "ok (env s)" "ready (env s)" "0 \<in> slots (env s)"
    "\<forall>m \<in> set ms. active_audio m \<longrightarrow> cm_conf_slot m \<in> slots (env s)"
  defines "K \<equiv> set (map cm_conf_slot (filter active_audio ms))"
  shows "\<exists>f. run_state (connect_media P ms n) s = (if K = {} then n else 1, s\<lparr>env := f\<rparr>)
    \<and> graph (env s) f (links (env s) \<union> K \<times> {0} \<union> {0} \<times> K)"
  using assms(1-4) unfolding K_def
proof (induction ms arbitrary: s n)
  case Nil
  then show ?case by (intro exI [of _ "env s"]) (simp add: graph_refl)
next
  case (Cons m ms)
  let ?K = "set (map cm_conf_slot (filter active_audio ms))"
  show ?case
  proof (cases "active_audio m")
    case False
    then have "connect_media P (m # ms) n = connect_media P ms n"
      "filter active_audio (m # ms) = filter active_audio ms"
      by (auto simp: active_audio_def)
    moreover have "\<forall>m \<in> set ms. active_audio m \<longrightarrow> cm_conf_slot m \<in> slots (env s)"
      using Cons.prems(4) by simp
    ultimately show ?thesis using Cons.IH [OF Cons.prems(1-3), of n] by simp
  next
    case True
    let ?k = "cm_conf_slot m"
    define e1 where "e1 = snd (api_conf_connect P ?k 0 (env s))"
    define e2 where "e2 = snd (api_conf_connect P 0 ?k e1)"
    have g1: "graph (env s) e1 (insert (?k, 0) (links (env s)))"
      using connect_graph_ready [of "env s" ?k 0] Cons.prems True by (simp add: e1_def)
    have "ok e1" "ready e1" "0 \<in> slots e1" "?k \<in> slots e1"
      using g1 Cons.prems True by (simp_all add: graph_def)
    then have g2: "graph e1 e2 (insert (0, ?k) (links e1))"
      using connect_graph_ready [of e1 0 ?k] by (simp add: e2_def)
    note g12 = graph_trans [OF g1 g2]
    let ?s = "s\<lparr>env := e2\<rparr>"
    have "ok (env ?s)" "ready (env ?s)" "0 \<in> slots (env ?s)"
      "\<forall>m \<in> set ms. active_audio m \<longrightarrow> cm_conf_slot m \<in> slots (env ?s)"
      using g12 Cons.prems by (simp_all add: graph_def)
    then obtain f where f: "run_state (connect_media P ms 1) ?s = (1, s\<lparr>env := e2, env := f\<rparr>)"
      "graph e2 f (links e2 \<union> ?K \<times> {0} \<union> {0} \<times> ?K)"
      using Cons.IH [of ?s 1] by auto
    have "run_state (connect_media P (m # ms) n) s = (1, s\<lparr>env := f\<rparr>)"
      using f(1) True by (simp add: e1_def e2_def active_audio_def)
    moreover have "graph (env s) f (links (env s) \<union> (insert ?k ?K) \<times> {0} \<union> {0} \<times> (insert ?k ?K))"
      using graph_trans [OF g12 f(2)] g1 g2 by (auto simp: graph_def)
    ultimately show ?thesis using True by auto
  qed
qed

lemma media_state_graph:
  assumes ok: "ok (env s)" "ready (env s)" "0 \<in> slots (env s)" "set (active_slots ci) \<subseteq> slots (env s)"
    and ci: "api_call_get_info P c (env s) = Some ci" and cb: "g_on_media s"
  shows "\<exists>f. exec (on_call_media_state P c) s
      = s\<lparr>env := f, trace := trace s @ [OnCallMedia c (if active_slots ci = [] then 0 else 1)]\<rparr>
    \<and> graph (env s) f (links (env s) \<union> set (active_slots ci) \<times> {0} \<union> {0} \<times> set (active_slots ci))"
proof -
  have "\<forall>m \<in> set (cl_media ci). active_audio m \<longrightarrow> cm_conf_slot m \<in> slots (env s)"
    using ok(4) by (auto simp: active_slots_def)
  from connect_media_graph [OF ok(1-3) this, of 0] obtain f where
    f: "run_state (connect_media P (cl_media ci) 0) s
        = (if set (active_slots ci) = {} then 0 else 1, s\<lparr>env := f\<rparr>)"
      "graph (env s) f (links (env s) \<union> set (active_slots ci) \<times> {0} \<union> {0} \<times> set (active_slots ci))"
    unfolding active_slots_def by blast
  have "exec (on_call_media_state P c) s
      = s\<lparr>env := f, trace := trace s @ [OnCallMedia c (if active_slots ci = [] then 0 else 1)]\<rparr>"
    using f(1) ci cb by (simp add: on_call_media_state_def)
  then show ?thesis using f(2) by blast
qed

section \<open>Merging two calls\<close>

definition mesh :: "int \<Rightarrow> int \<Rightarrow> (int \<times> int) set" where
  "mesh a b = {(a, b), (b, a), (a, 0), (0, a), (b, 0), (0, b)}"

lemma merge_ports_ready:
  assumes ok: "ok (env s)" "ready (env s)" and ab: "a \<in> slots (env s)" "b \<in> slots (env s)" "0 \<in> slots (env s)"
  shows "\<exists>f tr. run_state (merge_ports P x y a b) s = (0, s\<lparr>env := f, trace := tr\<rparr>)
    \<and> graph (env s) f (links (env s) \<union> mesh a b)"
proof -
  define e1 where "e1 = snd (api_conf_connect P a b (env s))"
  define e2 where "e2 = snd (api_conf_connect P b a e1)"
  define e3 where "e3 = snd (api_conf_connect P a 0 e2)"
  define e4 where "e4 = snd (api_conf_connect P 0 a e3)"
  define e5 where "e5 = snd (api_conf_connect P b 0 e4)"
  define e6 where "e6 = snd (api_conf_connect P 0 b e5)"
  have step: "fst (api_conf_connect P p q e) = PJ_SUCCESS
      \<and> graph (env s) (snd (api_conf_connect P p q e)) (insert (p, q) (links e))"
    if "graph (env s) e L" "p \<in> slots (env s)" "q \<in> slots (env s)" for p q e L
  proof -
    have e: "ok e" "ready e" "p \<in> slots e" "q \<in> slots e" using that ok(2) by (simp_all add: graph_def)
    show ?thesis using connect_graph_ready [OF e] graph_trans [OF that(1)] by blast
  qed
  have s1: "fst (api_conf_connect P a b (env s)) = PJ_SUCCESS \<and> graph (env s) e1 (insert (a, b) (links (env s)))"
    using step [OF graph_refl [OF ok(1)]] ab by (simp add: e1_def)
  have s2: "fst (api_conf_connect P b a e1) = PJ_SUCCESS \<and> graph (env s) e2 (insert (b, a) (links e1))"
    using step s1 ab unfolding e2_def by blast
  have s3: "graph (env s) e3 (insert (a, 0) (links e2))" using step s2 ab unfolding e3_def by blast
  have s4: "graph (env s) e4 (insert (0, a) (links e3))" using step s3 ab unfolding e4_def by blast
  have s5: "graph (env s) e5 (insert (b, 0) (links e4))" using step s4 ab unfolding e5_def by blast
  have s6: "graph (env s) e6 (insert (0, b) (links e5))" using step s5 ab unfolding e6_def by blast
  have "insert (0, b) (links e5) = links (env s) \<union> mesh a b"
    using s1 s2 s3 s4 s5 by (auto simp: graph_def mesh_def)
  with s6 have "graph (env s) e6 (links (env s) \<union> mesh a b)" by simp
  moreover have "\<exists>tr. run_state (merge_ports P x y a b) s = (0, s\<lparr>env := e6, trace := tr\<rparr>)"
  proof (cases "g_on_log s")
    case True
    then show ?thesis
      by (intro exI [of _ "trace s @ [OnLog 4 _]"])
        (simp add: merge_ports_def s1 s2 [unfolded e1_def] e1_def e2_def e3_def e4_def e5_def e6_def)
  next
    case False
    then show ?thesis
      by (intro exI [of _ "trace s"])
        (simp add: merge_ports_def s1 s2 [unfolded e1_def] e1_def e2_def e3_def e4_def e5_def e6_def)
  qed
  ultimately show ?thesis by blast
qed

text \<open>
  A merge that fails leaves the graph as it was, except that the roll-back also drops the connection
  from \<open>a\<close> to \<open>b\<close> when it existed before.
\<close>

lemma merge_ports_fail:
  assumes ok: "ok (env s)" and run: "run_state (merge_ports P x y a b) s = (res, t)" and "res \<noteq> 0"
  shows "res = -1 \<and> (graph (env s) (env t) (links (env s)) \<or> graph (env s) (env t) (links (env s) - {(a, b)}))"
proof -
  obtain st1 e1 where c1: "api_conf_connect P a b (env s) = (st1, e1)" by (metis surj_pair)
  have g1: "graph (env s) e1 (if st1 = PJ_SUCCESS then insert (a, b) (links (env s)) else links (env s))"
    using connect_graph [OF ok, of a b] c1 by simp
  have ok1: "ok e1" using g1 by (simp add: graph_def)
  obtain st2 e2 where c2: "api_conf_connect P b a e1 = (st2, e2)" by (metis surj_pair)
  have g2: "graph e1 e2 (if st2 = PJ_SUCCESS then insert (b, a) (links e1) else links e1)"
    using connect_graph [OF ok1, of b a] c2 by simp
  have ok2: "ok e2" using g2 by (simp add: graph_def)
  show ?thesis
  proof (cases "st1 = PJ_SUCCESS")
    case False
    then show ?thesis using run c1 g1 by (auto simp: merge_ports_def split: if_splits)
  next
    case st1: True
    have st2: "st2 \<noteq> PJ_SUCCESS" using run assms(3) c1 c2 st1 by (auto simp: merge_ports_def split: if_splits)
    define e3 where "e3 = snd (api_conf_disconnect P a b e2)"
    have "graph e2 e3 (links e2 - {(a, b)})" unfolding e3_def by (rule disconnect_graph [OF ok2])
    then have "graph (env s) e3 (links e2 - {(a, b)})" using graph_trans g1 g2 by blast
    moreover have "links e2 - {(a, b)} = links (env s) - {(a, b)}"
      using g1 g2 st1 st2 by (auto simp: graph_def)
    moreover have "res = -1 \<and> env t = e3"
      using run c1 c2 st1 st2 by (auto simp: merge_ports_def e3_def split: if_splits)
    ultimately show ?thesis by simp
  qed
qed

lemma merge_conference_ready:
  assumes ok: "ok (env s)" "ready (env s)" "0 \<in> slots (env s)"
    and a: "api_call_get_info P ca (env s) = Some ia" "active_slots ia = a # as" "a \<in> slots (env s)"
    and b: "api_call_get_info P cb (env s) = Some ib" "active_slots ib = b # bs" "b \<in> slots (env s)"
  shows "\<exists>t. run_state (pd_call_merge_conference P ca cb) s = (0, t)
    \<and> graph (env s) (env t) (links (env s) \<union> mesh a b)"
proof -
  note g = entered_graph [OF ok(1)]
  let ?u = "entered P s"
  have u: "ok (env ?u)" "ready (env ?u)" "a \<in> slots (env ?u)" "b \<in> slots (env ?u)" "0 \<in> slots (env ?u)"
    using g ok a(3) b(3) by (simp_all add: graph_def)
  have ne: "a \<noteq> PJSUA_INVALID_ID" "b \<noteq> PJSUA_INVALID_ID"
    using slots_valid [OF u(1)] u(3,4) by force+
  have first: "first_active_slot (cl_media ia) = a" "first_active_slot (cl_media ib) = b"
    using a(2) b(2) by (simp_all add: first_active_slot_eq)
  obtain f tr where f: "run_state (merge_ports P ca cb a b) ?u = (0, ?u\<lparr>env := f, trace := tr\<rparr>)"
    "graph (env ?u) f (links (env ?u) \<union> mesh a b)"
    using merge_ports_ready [OF u] by blast
  have "run_state (pd_call_merge_conference P ca cb) s = (0, ?u\<lparr>env := f, trace := tr\<rparr>)"
    using f(1) a(1) b(1) first ne g by (simp add: pd_call_merge_conference_def graph_def)
  moreover have "graph (env s) f (links (env s) \<union> mesh a b)"
    using graph_trans [OF g f(2)] g by (simp add: graph_def)
  ultimately show ?thesis by (intro exI [of _ "?u\<lparr>env := f, trace := tr\<rparr>"]) simp
qed

lemma merge_conference_fail:
  assumes ok: "ok (env s)" and run: "run_state (pd_call_merge_conference P ca cb) s = (res, t)" and "res \<noteq> 0"
  shows "res = -1 \<and> (\<exists>a b L. graph (env s) (env t) L \<and> links (env s) - {(a, b)} \<subseteq> L \<and> L \<subseteq> links (env s))"
proof -
  let ?u = "entered P s"
  note g = entered_graph [OF ok]
  have ok_u: "ok (env ?u)" using g by (simp add: graph_def)
  have same: "\<exists>a b L. graph (env s) (env ?u) L \<and> links (env s) - {(a, b)} \<subseteq> L \<and> L \<subseteq> links (env s)"
    using g by blast
  show ?thesis
  proof (cases "\<exists>ia ib. api_call_get_info P ca (env ?u) = Some ia \<and> api_call_get_info P cb (env ?u) = Some ib
      \<and> first_active_slot (cl_media ia) \<noteq> PJSUA_INVALID_ID \<and> first_active_slot (cl_media ib) \<noteq> PJSUA_INVALID_ID")
    case False
    then have "res = -1 \<and> env t = env ?u"
      using run by (auto simp: pd_call_merge_conference_def split: option.splits if_splits)
    then show ?thesis using same by simp
  next
    case True
    then obtain ia ib where i: "api_call_get_info P ca (env ?u) = Some ia" "api_call_get_info P cb (env ?u) = Some ib"
      "first_active_slot (cl_media ia) \<noteq> PJSUA_INVALID_ID" "first_active_slot (cl_media ib) \<noteq> PJSUA_INVALID_ID"
      by blast
    then have "run_state (merge_ports P ca cb (first_active_slot (cl_media ia)) (first_active_slot (cl_media ib))) ?u
        = (res, t)"
      using run by (simp add: pd_call_merge_conference_def)
    from merge_ports_fail [OF ok_u this assms(3)]
    have "res = -1 \<and> (\<exists>a b L. graph (env ?u) (env t) L \<and> links (env ?u) - {(a, b)} \<subseteq> L \<and> L \<subseteq> links (env ?u))"
      by blast
    then show ?thesis using g graph_trans [OF g] by (auto simp: graph_def)
  qed
qed

end

end
