(* ===== verification/Pjsua_Model.thy ===== *)
theory Pjsua_Model
  imports Recorder_Laws Pjsua_Buddy Pjsua_Acc Recording_Laws Conference_Laws
begin

text \<open>
  The interface record with the modelled functions of pjsua in it. \<open>B\<close> supplies the functions
  whose code is not modelled (call signalling, transports, statistics, codecs); they may
  change all of pjsua's state. The contracts of \<open>Interfaces\<close> are interpreted here on pjsua's
  functions and on the record.
\<close>

definition pjsua_model :: "'x hw \<Rightarrow> 'x pjsua_var pjsua \<Rightarrow> 'x pjsua_var pjsua" where
  "pjsua_model H B = B\<lparr>
     api_thread_is_registered := (\<lambda>v. hw_thread_known H (ext v)),
     api_thread_register := run_state (on_ext (hw_thread_register H)),
     api_enum_aud_devs := pjsua_enum_aud_devs H,
     api_set_snd_dev := (\<lambda>c p. run_state (pjsua_set_snd_dev H c p)),
     api_get_snd_dev := pjsua_get_snd_dev,
     api_set_null_snd_dev := run_state (pjsua_set_null_snd_dev H),
     api_set_ec := (\<lambda>t opts. run_state (pjsua_set_ec H t opts)),
     api_conf_add_port := (\<lambda>p. run_state (pjsua_conf_add_port H p)),
     api_conf_remove_port := (\<lambda>p. run_state (pjsua_conf_remove_port p)),
     api_conf_connect := (\<lambda>a b. run_state (pjsua_conf_connect H a b)),
     api_conf_disconnect := (\<lambda>a b. run_state (pjsua_conf_disconnect a b)),
     api_conf_adjust_tx_level := (\<lambda>a l. run_state (pjsua_conf_adjust_tx_level a l)),
     api_recorder_create := (\<lambda>path. run_state (pjsua_recorder_create H path)),
     api_recorder_get_conf_port := pjsua_recorder_get_conf_port,
     api_recorder_destroy := (\<lambda>r. run_state (pjsua_recorder_destroy H r)),
     api_acc_add := (\<lambda>cfg d. run_state (pjsua_acc_add H (with_defaults cfg) d)),
     api_acc_del := (\<lambda>a. run_state (pjsua_acc_del H a)),
     api_acc_get_info := pjsua_acc_get_info H,
     api_enum_accs := pjsua_enum_accs,
     api_enum_calls := pjsua_enum_calls,
     api_call_get_info := pjsua_call_get_info,
     api_call_get_conf_port := pjsua_call_get_conf_port,
     api_enum_buddies := pjsua_enum_buddies,
     api_buddy_add := (\<lambda>uri sub. run_state (pjsua_buddy_add H uri sub)),
     api_buddy_del := (\<lambda>b. run_state (pjsua_buddy_del H b))\<rparr>"

lemma model_simps [simp]:
  "api_thread_is_registered (pjsua_model H B) = (\<lambda>v. hw_thread_known H (ext v))"
  "api_thread_register (pjsua_model H B) = run_state (on_ext (hw_thread_register H))"
  "api_enum_aud_devs (pjsua_model H B) = pjsua_enum_aud_devs H"
  "api_set_snd_dev (pjsua_model H B) = (\<lambda>c p. run_state (pjsua_set_snd_dev H c p))"
  "api_get_snd_dev (pjsua_model H B) = pjsua_get_snd_dev"
  "api_set_null_snd_dev (pjsua_model H B) = run_state (pjsua_set_null_snd_dev H)"
  "api_set_ec (pjsua_model H B) = (\<lambda>t opts. run_state (pjsua_set_ec H t opts))"
  "api_conf_add_port (pjsua_model H B) = (\<lambda>p. run_state (pjsua_conf_add_port H p))"
  "api_conf_remove_port (pjsua_model H B) = (\<lambda>p. run_state (pjsua_conf_remove_port p))"
  "api_conf_connect (pjsua_model H B) = (\<lambda>a b. run_state (pjsua_conf_connect H a b))"
  "api_conf_disconnect (pjsua_model H B) = (\<lambda>a b. run_state (pjsua_conf_disconnect a b))"
  "api_conf_adjust_tx_level (pjsua_model H B) = (\<lambda>a l. run_state (pjsua_conf_adjust_tx_level a l))"
  "api_recorder_create (pjsua_model H B) = (\<lambda>path. run_state (pjsua_recorder_create H path))"
  "api_recorder_get_conf_port (pjsua_model H B) = pjsua_recorder_get_conf_port"
  "api_recorder_destroy (pjsua_model H B) = (\<lambda>r. run_state (pjsua_recorder_destroy H r))"
  "api_acc_add (pjsua_model H B) = (\<lambda>cfg d. run_state (pjsua_acc_add H (with_defaults cfg) d))"
  "api_acc_del (pjsua_model H B) = (\<lambda>a. run_state (pjsua_acc_del H a))"
  "api_acc_get_info (pjsua_model H B) = pjsua_acc_get_info H"
  "api_enum_accs (pjsua_model H B) = pjsua_enum_accs"
  "api_enum_calls (pjsua_model H B) = pjsua_enum_calls"
  "api_call_get_info (pjsua_model H B) = pjsua_call_get_info"
  "api_call_get_conf_port (pjsua_model H B) = pjsua_call_get_conf_port"
  "api_enum_buddies (pjsua_model H B) = pjsua_enum_buddies"
  "api_buddy_add (pjsua_model H B) = (\<lambda>uri sub. run_state (pjsua_buddy_add H uri sub))"
  "api_buddy_del (pjsua_model H B) = (\<lambda>b. run_state (pjsua_buddy_del H b))"
  by (simp_all add: pjsua_model_def)

section \<open>Interpretations\<close>

interpretation pv: bridge
  "\<lambda>a b. run_state (pjsua_conf_connect H a b)" "\<lambda>a b. run_state (pjsua_conf_disconnect a b)"
  pv_slots pv_links pv_ready pv_ok
  for H :: "'x hw"
proof unfold_locales
  fix e :: "'x pjsua_var"
  assume "pv_ok e"
  then have "edges (mconf e) \<subseteq> nodes (mconf e) \<times> nodes (mconf e)" by (simp add: pv_ok_def conf_inv_def)
  then show "pv_links e \<subseteq> pv_slots e \<times> pv_slots e" by (fastforce simp: pv_links_def pv_slots_def)
next
  fix e :: "'x pjsua_var" and a
  assume "a \<in> pv_slots e"
  then show "0 \<le> a" by (simp add: pv_slots_iff)
next
  fix e f :: "'x pjsua_var" and a b st
  assume e: "pv_ok e" and run: "run_state (pjsua_conf_connect H a b) e = (st, f)"
  note c = conf_connect_spec [OF e run]
  show "pv_ok f \<and> pv_slots f = pv_slots e" using c by simp
  show "pv_links f = (if st = PJ_SUCCESS then insert (a, b) (pv_links e) else pv_links e)" using c by simp
next
  fix e f :: "'x pjsua_var" and a b
  assume e: "pv_ok e" and run: "run_state (pjsua_conf_connect H a b) e = (PJ_SUCCESS, f)"
  show "a \<in> pv_slots e \<and> b \<in> pv_slots e" using conf_connect_spec [OF e run] by simp
next
  fix e f :: "'x pjsua_var" and a b st
  assume e: "pv_ok e" "pv_ready e" and run: "run_state (pjsua_conf_connect H a b) e = (st, f)"
  show "pv_ready f \<and> (a \<in> pv_slots e \<and> b \<in> pv_slots e \<longrightarrow> st = PJ_SUCCESS)"
    by (rule conf_connect_ready [OF e run])
next
  fix e f :: "'x pjsua_var" and a b st
  assume e: "pv_ok e" and run: "run_state (pjsua_conf_disconnect a b) e = (st, f)"
  note d = conf_disconnect_spec [OF e run]
  show "pv_ok f \<and> pv_slots f = pv_slots e \<and> pv_links f = pv_links e - {(a, b)} \<and> (pv_ready e \<longrightarrow> pv_ready f)"
    using d by simp
  show "(st = PJ_SUCCESS) = (a \<in> pv_slots e \<and> b \<in> pv_slots e)" using d by simp
qed

interpretation pv: recorders
  "\<lambda>a b. run_state (pjsua_conf_connect H a b)" "\<lambda>a b. run_state (pjsua_conf_disconnect a b)"
  pv_slots pv_links pv_ready pv_ok
  "\<lambda>path. run_state (pjsua_recorder_create H path)" pjsua_recorder_get_conf_port
  "\<lambda>r. run_state (pjsua_recorder_destroy H r)" pv_live
  for H :: "'x hw"
proof unfold_locales
  fix e f :: "'x pjsua_var" and a b st
  assume e: "pv_ok e" and run: "run_state (pjsua_conf_connect H a b) e = (st, f)"
  have "tables f = tables e" using conf_connect_spec [OF e run] by simp
  then show "pv_live f = pv_live e \<and> (\<forall>r. pjsua_recorder_get_conf_port r f = pjsua_recorder_get_conf_port r e)"
    by (simp add: tables_def pv_live_def live_rec_def pjsua_recorder_get_conf_port_def)
next
  fix e f :: "'x pjsua_var" and a b st
  assume e: "pv_ok e" and run: "run_state (pjsua_conf_disconnect a b) e = (st, f)"
  have "tables f = tables e" using conf_disconnect_spec [OF e run] by simp
  then show "pv_live f = pv_live e \<and> (\<forall>r. pjsua_recorder_get_conf_port r f = pjsua_recorder_get_conf_port r e)"
    by (simp add: tables_def pv_live_def live_rec_def pjsua_recorder_get_conf_port_def)
next
  fix e :: "'x pjsua_var" and r
  assume "r \<in> pv_live e"
  then show "0 \<le> r" by (simp add: pv_live_iff)
next
  fix e :: "'x pjsua_var" and r
  assume "pv_ok e" "r \<in> pv_live e"
  then show "pjsua_recorder_get_conf_port r e \<in> pv_slots e" by (rule port_slot)
next
  fix e :: "'x pjsua_var" and r q
  assume "pv_ok e" "r \<in> pv_live e" "q \<in> pv_live e"
    "pjsua_recorder_get_conf_port r e = pjsua_recorder_get_conf_port q e"
  then show "r = q" by (rule port_inj)
next
  fix e f :: "'x pjsua_var" and path st r
  assume e: "pv_ok e" and run: "run_state (pjsua_recorder_create H path) e = ((st, r), f)" and st: "st \<noteq> PJ_SUCCESS"
  have "\<exists>x. f = e\<lparr>ext := x\<rparr>"
  proof (rule recorder_create_cases [OF e run])
    assume "f = e"
    then show ?thesis by (intro exI [of _ "ext e"]) simp
  next
    fix i assume "i < PJSUA_MAX_RECORDERS" "i \<notin> rec_used (recorder e)"
      "run_state (create_wav_recorder H path i) e = ((st, r), f)"
    from create_wav_recorder_spec [OF e this] st show ?thesis by simp
  qed
  then show "pv_ok f \<and> pv_slots f = pv_slots e \<and> pv_links f = pv_links e \<and> pv_live f = pv_live e \<and>
      (\<forall>q. pjsua_recorder_get_conf_port q f = pjsua_recorder_get_conf_port q e) \<and> (pv_ready e \<longrightarrow> pv_ready f)"
    using e by (auto simp: ext_simps)
next
  fix e f :: "'x pjsua_var" and path r
  assume e: "pv_ok e" and run: "run_state (pjsua_recorder_create H path) e = ((PJ_SUCCESS, r), f)"
  show "pv_ok f \<and> r \<notin> pv_live e \<and> pv_live f = insert r (pv_live e) \<and>
      pjsua_recorder_get_conf_port r f \<notin> pv_slots e \<and>
      pv_slots f = insert (pjsua_recorder_get_conf_port r f) (pv_slots e) \<and> pv_links f = pv_links e \<and>
      (\<forall>q \<in> pv_live e. pjsua_recorder_get_conf_port q f = pjsua_recorder_get_conf_port q e) \<and>
      (pv_ready e \<longrightarrow> pv_ready f)"
  proof (rule recorder_create_cases [OF e run])
    assume "PJ_SUCCESS \<noteq> PJ_SUCCESS"
    then show ?thesis by simp
  next
    fix i assume "i < PJSUA_MAX_RECORDERS" "i \<notin> rec_used (recorder e)"
      "run_state (create_wav_recorder H path i) e = ((PJ_SUCCESS, r), f)"
    note c = create_wav_recorder_spec [OF e this, unfolded if_P [OF refl]]
    show ?thesis using c by (intro conjI) blast+
  qed
next
  fix e f :: "'x pjsua_var" and r st
  assume e: "pv_ok e" "r \<in> pv_live e" and run: "run_state (pjsua_recorder_destroy H r) e = (st, f)"
  show "st = PJ_SUCCESS \<and> pv_ok f \<and> pv_live f = pv_live e - {r} \<and>
      pv_slots f = pv_slots e - {pjsua_recorder_get_conf_port r e} \<and>
      pv_links f = {(a, b) \<in> pv_links e. a \<noteq> pjsua_recorder_get_conf_port r e \<and> b \<noteq> pjsua_recorder_get_conf_port r e} \<and>
      (\<forall>q \<in> pv_live e - {r}. pjsua_recorder_get_conf_port q f = pjsua_recorder_get_conf_port q e) \<and>
      (pv_ready e \<longrightarrow> pv_ready f)"
    using recorder_destroy_live [OF e run] by simp
next
  fix e f :: "'x pjsua_var" and r st
  assume "r \<notin> pv_live e" and run: "run_state (pjsua_recorder_destroy H r) e = (st, f)"
  then show "st \<noteq> PJ_SUCCESS \<and> f = e" by (auto simp: pjsua_recorder_destroy_def pv_live_def)
qed

text \<open>The shim's contracts on the whole record.\<close>

lemma register_view:
  fixes v :: "'x pjsua_var"
  assumes "run_state (on_ext f) v = (st, w)" "pv_ok v"
  shows "pv_ok w \<and> pv_slots w = pv_slots v \<and> pv_links w = pv_links v \<and> pv_live w = pv_live v
    \<and> (\<forall>r. pjsua_recorder_get_conf_port r w = pjsua_recorder_get_conf_port r v) \<and> pv_ready w = pv_ready v"
  using assms by (auto simp: ext_simps)

interpretation rm: recording "pjsua_model H B" pv_slots pv_links pv_ready pv_ok pv_live
  for H :: "'x hw" and B
  unfolding recording_def recording_axioms_def model_simps pv.alike_def
  using pv.recorders_axioms [of H] register_view by (auto simp: ext_simps)

lemma call_info_tables:
  "tables w = tables v \<Longrightarrow> pjsua_call_get_info c w = pjsua_call_get_info c v"
  by (simp add: tables_def pjsua_call_get_info_def valid_call_id_def)

lemma register_info: "run_state (on_ext f) v = (st, w) \<Longrightarrow> pjsua_call_get_info c w = pjsua_call_get_info c v"
  by (auto simp: pjsua_call_get_info_def valid_call_id_def)

interpretation sw: switching "pjsua_model H B" pv_slots pv_links pv_ready pv_ok
  for H :: "'x hw" and B
proof -
  have "pjsua_call_get_info c f = pjsua_call_get_info c e"
    if "pv_ok e" "run_state (pjsua_conf_connect H a b) e = (st, f)" for a b c st and e f :: "'x pjsua_var"
    using conf_connect_spec [OF that] by (intro call_info_tables) simp
  moreover have "pjsua_call_get_info c f = pjsua_call_get_info c e"
    if "pv_ok e" "run_state (pjsua_conf_disconnect a b) e = (st, f)" for a b c st and e f :: "'x pjsua_var"
    using conf_disconnect_spec [OF that] by (intro call_info_tables) simp
  ultimately show "switching (pjsua_model H B) pv_slots pv_links pv_ready pv_ok"
    unfolding switching_def switching_axioms_def model_simps
    using pv.bridge_axioms [of H] register_view register_info by fast
qed

end
