(* ===== verification/Shim_Stats.thy ===== *)
theory Shim_Stats
  imports Shim_Calls Pj_Time
begin

text \<open>
  Stream statistics, dialpad tones, echo cancellation and microphone amplification. Floating-point
  results are given by their exact values: the rounding of C's float and double is not modelled,
  the wrap-around of the unsigned counters is.
\<close>

section \<open>Stream statistics\<close>

text \<open>The index of the first active audio stream, -1 if there is none.\<close>

fun find_stream :: "nat \<Rightarrow> call_media_info list \<Rightarrow> int" where
  "find_stream i [] = -1"
| "find_stream i (m # ms) = (if active_audio m then int i else find_stream (Suc i) ms)"

definition jitter_ms :: "stream_stat \<Rightarrow> rat" where
  "jitter_ms st = of_int (ss_jitter_mean st) / 1000"

definition loss_pct :: "stream_stat \<Rightarrow> rat" where
  "loss_pct st =
     (let total = ss_rx_pkt st + ss_rx_loss st
      in if total > 0 then of_int (uint (ss_rx_loss st)) * 100 / of_int (uint total) else 0)"

definition codec_name :: "'e pjsua \<Rightarrow> int \<Rightarrow> nat \<Rightarrow> int \<Rightarrow> 'e \<Rightarrow> string option" where
  "codec_name P call_id stream_idx codec_buf_len e =
     (if codec_buf_len > 0 then
        (case api_call_get_stream_info P call_id stream_idx e of
           Some si \<Rightarrow> if si_type si = MEDIA_AUDIO
                      then Some (buf_copy (nat codec_buf_len) (si_encoding_name si))
                      else safe_copy codec_buf_len (Some ''unknown'')
         | None \<Rightarrow> safe_copy codec_buf_len (Some ''unknown''))
      else None)"

definition elapsed_secs :: "time_val \<Rightarrow> time_val \<Rightarrow> rat" where
  "elapsed_secs now start =
     (let diff = pj_time_val_normalize
                   \<lparr>tv_sec = tv_sec now - tv_sec start, tv_msec = tv_msec now - tv_msec start\<rparr>
      in of_int (tv_sec diff) + of_int (tv_msec diff) / 1000)"

definition bitrate_kbps :: "time_val \<Rightarrow> stream_stat \<Rightarrow> int" where
  "bitrate_kbps now st =
     (let elapsed = elapsed_secs now (ss_start st)
      in if elapsed > 1 \<and> ss_tx_bytes st > 0
         then \<lfloor>of_int (uint (ss_tx_bytes st)) * 8 / elapsed / 1000\<rfloor>
         else 64)"

record stat_out =
  so_jitter_ms :: rat
  so_loss_pct :: rat
  so_codec :: "string option"
  so_bitrate_kbps :: int

text \<open>The result, with what is stored through each output pointer that is not NULL.\<close>

definition pd_call_get_stream_stat :: "'e pjsua \<Rightarrow> int \<Rightarrow> int \<Rightarrow> ('e, int \<times> stat_out option) shim_m" where
  "pd_call_get_stream_stat P call_id codec_buf_len = do {
     pd_ensure_thread P;
     r \<leftarrow> ask (api_call_get_info P call_id);
     case r of
       None \<Rightarrow> ret (-1, None)
     | Some ci \<Rightarrow> do {
         let stream_idx = find_stream 0 (cl_media ci);
         if stream_idx < 0 then ret (-1, None)
         else do {
           q \<leftarrow> ask (api_call_get_stream_stat P call_id (nat stream_idx));
           case q of
             None \<Rightarrow> ret (-1, None)
           | Some st \<Rightarrow> do {
               codec \<leftarrow> ask (codec_name P call_id (nat stream_idx) codec_buf_len);
               now \<leftarrow> ask (api_gettimeofday P);
               ret (0, Some \<lparr>so_jitter_ms = jitter_ms st, so_loss_pct = loss_pct st,
                             so_codec = codec, so_bitrate_kbps = bitrate_kbps now st\<rparr>)
             }
         }
       }
   }"

section \<open>Dialpad tones\<close>

definition tone_digits :: "string \<Rightarrow> tone_digit list" where
  "tone_digits digits =
     map (\<lambda>c. \<lparr>td_digit = c, td_on_msec = 100, td_off_msec = 50, td_volume = 0\<rparr>)
         (take (if length digits > 32 then 32 else length digits) digits)"

definition pd_aud_play_dtmf :: "'e pjsua \<Rightarrow> string option \<Rightarrow> ('e, int) shim_m" where
  "pd_aud_play_dtmf P digits = do {
     port \<leftarrow> gets g_tone_port;
     case port of
       None \<Rightarrow> ret 0
     | Some p \<Rightarrow>
         if \<not> nonempty digits then ret 0
         else do {
           pd_ensure_thread P;
           pj (api_tonegen_play_digits P p (tone_digits (S digits)))
         }
   }"

section \<open>Echo cancellation\<close>

definition pd_set_ec_enabled :: "'e pjsua \<Rightarrow> int \<Rightarrow> ('e, int) shim_m" where
  "pd_set_ec_enabled P enabled = do {
     modify (\<lambda>s. s\<lparr>g_ec_enabled := (if enabled \<noteq> 0 then 1 else 0)\<rparr>);
     let tail_ms = (if enabled \<noteq> 0 then 200 else 0);
     status \<leftarrow> pj (api_set_ec P tail_ms 0);
     log_msg 3 (fmt 128 [''[EC] Echo cancellation '', if enabled \<noteq> 0 then ''enabled'' else ''disabled'',
                         '' (tail='', dec_nat tail_ms, '' ms, status='', dec status, '')'']);
     ret status
   }"

definition pd_get_ec_enabled :: "('e, int \<times> int) shim_m" where
  "pd_get_ec_enabled = do { v \<leftarrow> gets g_ec_enabled; ret (0, v) }"

section \<open>Microphone amplification\<close>

text \<open>
  The float constants \<open>0.1f\<close> and \<open>8.0f\<close>; \<open>%.2f\<close> of a value rounds half to even in the
  second decimal.
\<close>

definition f_0_1 :: cfloat where
  "f_0_1 = Fin (13421773 / 134217728)"

definition f_8 :: cfloat where
  "f_8 = Fin 8"

definition round_half_even :: "rat \<Rightarrow> int" where
  "round_half_even x =
     (let d = x - of_int \<lfloor>x\<rfloor>
      in if d < 1 / 2 then \<lfloor>x\<rfloor> else if d > 1 / 2 then \<lfloor>x\<rfloor> + 1
         else if even \<lfloor>x\<rfloor> then \<lfloor>x\<rfloor> else \<lfloor>x\<rfloor> + 1)"

definition pct_2f :: "cfloat \<Rightarrow> string" where
  "pct_2f f = (case f of
     NaN \<Rightarrow> ''nan''
   | PInf \<Rightarrow> ''inf''
   | NInf \<Rightarrow> ''-inf''
   | Fin x \<Rightarrow>
       (let h = round_half_even (\<bar>x\<bar> * 100)
        in (if x < 0 then ''-'' else '''') @ dec (h div 100) @ ''.'' @
           dec (h mod 100 div 10) @ dec (h mod 10)))"

definition clamp_level :: "cfloat \<Rightarrow> cfloat" where
  "clamp_level level =
     (let level = (if cless level f_0_1 then f_0_1 else level)
      in if cless f_8 level then f_8 else level)"

definition pd_set_mic_amplification :: "'e pjsua \<Rightarrow> cfloat \<Rightarrow> ('e, int) shim_m" where
  "pd_set_mic_amplification P level = do {
     let level = clamp_level level;
     modify (\<lambda>s. s\<lparr>g_mic_amplification := level\<rparr>);
     status \<leftarrow> pj (api_conf_adjust_tx_level P 0 level);
     log_msg 3 (fmt 128 [''[MicAmp] Microphone amplification set to '', pct_2f level, ''x (status='',
                         dec status, '')'']);
     ret status
   }"

definition pd_get_mic_amplification :: "('e, int \<times> cfloat) shim_m" where
  "pd_get_mic_amplification = do { v \<leftarrow> gets g_mic_amplification; ret (0, v) }"

end
