(* ===== verification/Shim_Accounts.thy ===== *)
theory Shim_Accounts
  imports Shim_State
begin

text \<open>
  Accounts: adding and removing them, the per-account settings the shim keeps itself (forwarding,
  lookup URL, auto-answer, DTMF method, codecs), the application-wide settings, and the buddies that
  carry BLF subscriptions. A getter returns its status with what it stores through its pointers
  (which a caller sees only where it passed one); a text is \<open>None\<close> when nothing is written.
\<close>

section \<open>Adding and removing accounts\<close>

definition select_transport :: "int \<Rightarrow> ('e, int) shim_m" where
  "select_transport transport_id = do {
     (udp, tcp, tls) \<leftarrow> gets (\<lambda>s. (g_udp_tp s, g_tcp_tp s, g_tls_tp s));
     if transport_id = 2 then
       (if tls \<noteq> PJSUA_INVALID_ID then do {
          log_msg 4 ''[PD_SHIM] pd_acc_add: using TLS transport'';
          ret tls
        } else do {
          log_msg 1 (''[PD_SHIM] pd_acc_add: TLS requested but transport unavailable '' @ em_dash @
                     '' falling back to UDP'');
          ret udp
        })
     else if transport_id = 1 then
       (if tcp \<noteq> PJSUA_INVALID_ID then do {
          log_msg 4 ''[PD_SHIM] pd_acc_add: using TCP transport'';
          ret tcp
        } else do {
          log_msg 2 (''[PD_SHIM] pd_acc_add: TCP requested but transport unavailable '' @ em_dash @
                     '' falling back to UDP'');
          ret udp
        })
     else if transport_id = 3 then do {
       log_msg 4 ''[PD_SHIM] pd_acc_add: using UDP+TCP auto transport'';
       ret PJSUA_INVALID_ID
     } else do {
       log_msg 4 ''[PD_SHIM] pd_acc_add: using UDP transport'';
       ret udp
     }
   }"

definition account_id :: "string option \<Rightarrow> string option \<Rightarrow> string" where
  "account_id display_name sip_uri =
     (if nonempty display_name
      then fmt 512 [[CHR 0x22], S display_name, [CHR 0x22], '' <'', pct_s sip_uri, ''>'']
      else S sip_uri)"

definition pd_acc_add ::
  "'e pjsua \<Rightarrow> string option \<Rightarrow> string option \<Rightarrow> string option \<Rightarrow> string option \<Rightarrow> string option
   \<Rightarrow> string option \<Rightarrow> int \<Rightarrow> string option \<Rightarrow> int \<Rightarrow> string option \<Rightarrow> ('e, int) shim_m" where
  "pd_acc_add P sip_uri registrar username password auth_username sip_proxy transport_id
              stun_server publish_presence display_name = do {
     pd_ensure_thread P;
     tp \<leftarrow> select_transport transport_id;
     let cfg = \<lparr>
       ac_id = account_id display_name sip_uri,
       ac_reg_uri = S registrar,
       ac_publish_enabled = (publish_presence \<noteq> 0),
       ac_cred_realm = ''*'',
       ac_cred_scheme = ''digest'',
       ac_cred_username = S (if nonempty auth_username then auth_username else username),
       ac_cred_data = S password,
       ac_proxy = (if nonempty sip_proxy then [S sip_proxy] else []),
       ac_transport_id = tp\<rparr>;
     (status, acc_id) \<leftarrow> pj (api_acc_add P cfg True);
     if status \<noteq> PJ_SUCCESS then do {
       log_msg 1 (fmt 512 [''[PD_SHIM] pd_acc_add: pjsua_acc_add FAILED status='', dec status, '' ('',
                           pj_strerror P status 256, '') uri='', or_null sip_uri]);
       ret (-1)
     } else do {
       log_msg 4 (fmt 256 [''[PD_SHIM] pd_acc_add: account added OK acc_id='', dec acc_id]);
       ret acc_id
     }
   }"

definition pd_acc_remove :: "'e pjsua \<Rightarrow> int \<Rightarrow> ('e, int) shim_m" where
  "pd_acc_remove P acc_id = do { pd_ensure_thread P; pj (api_acc_del P acc_id) }"

section \<open>Per-account settings\<close>

definition valid_acc :: "int \<Rightarrow> bool" where
  "valid_acc acc_id \<longleftrightarrow> \<not> (acc_id < 0 \<or> acc_id \<ge> int MAX_ACCOUNTS)"

definition pd_acc_set_forward :: "'e pjsua \<Rightarrow> int \<Rightarrow> string option \<Rightarrow> int \<Rightarrow> ('e, int) shim_m" where
  "pd_acc_set_forward P acc_id uri flags = do {
     pd_ensure_thread P;
     if \<not> valid_acc acc_id then ret (-1)
     else do {
       let stored = (if nonempty uri then c_trunc 256 (S uri) else []);
       modify (\<lambda>s. s\<lparr>g_acc_forward := put (g_acc_forward s) acc_id \<lparr>fwd_uri = stored, fwd_flags = flags\<rparr>\<rparr>);
       ret 0
     }
   }"

definition pd_acc_get_forward :: "'e pjsua \<Rightarrow> int \<Rightarrow> int \<Rightarrow> ('e, int \<times> string option \<times> int option) shim_m" where
  "pd_acc_get_forward P acc_id fwd_uri_len = do {
     pd_ensure_thread P;
     if \<not> valid_acc acc_id then ret (-1, None, None)
     else do {
       f \<leftarrow> gets (\<lambda>s. elem (g_acc_forward s) acc_id);
       ret (0, if fwd_uri_len > 0 then Some (c_trunc (nat fwd_uri_len) (fwd_uri f)) else None,
            Some (fwd_flags f))
     }
   }"

definition pd_acc_set_lookup_url :: "'e pjsua \<Rightarrow> int \<Rightarrow> string option \<Rightarrow> ('e, int) shim_m" where
  "pd_acc_set_lookup_url P acc_id lookup_url = do {
     pd_ensure_thread P;
     if \<not> valid_acc acc_id then ret (-1)
     else do {
       let stored = (if nonempty lookup_url then c_trunc 256 (S lookup_url) else []);
       modify (\<lambda>s. s\<lparr>g_acc_config :=
         put (g_acc_config s) acc_id ((elem (g_acc_config s) acc_id)\<lparr>st_user_data := stored\<rparr>)\<rparr>);
       ret 0
     }
   }"

definition pd_acc_get_lookup_url :: "'e pjsua \<Rightarrow> int \<Rightarrow> int \<Rightarrow> ('e, int \<times> string option) shim_m" where
  "pd_acc_get_lookup_url P acc_id url_len = do {
     pd_ensure_thread P;
     if \<not> valid_acc acc_id then ret (-1, None)
     else do {
       c \<leftarrow> gets (\<lambda>s. elem (g_acc_config s) acc_id);
       ret (0, if url_len > 0 then Some (c_trunc (nat url_len) (st_user_data c)) else None)
     }
   }"

definition pd_acc_set_codec_priority :: "'e pjsua \<Rightarrow> int \<Rightarrow> string option \<Rightarrow> ('e, int) shim_m" where
  "pd_acc_set_codec_priority P acc_id codec_priorities = do {
     pd_ensure_thread P;
     if \<not> valid_acc acc_id then ret (-1) else ret 0
   }"

definition pd_acc_get_codec_priority :: "'e pjsua \<Rightarrow> int \<Rightarrow> int \<Rightarrow> ('e, int \<times> string option) shim_m" where
  "pd_acc_get_codec_priority P acc_id json_len = do {
     pd_ensure_thread P;
     if \<not> valid_acc acc_id then ret (-1, None)
     else ret (0, if json_len > 0 then Some (c_trunc (nat json_len) ''[]'') else None)
   }"

fun find_codec :: "string list \<Rightarrow> string \<Rightarrow> bool" where
  "find_codec [] cid = False"
| "find_codec (c # cs) cid = (if c = cid then True else find_codec cs cid)"

definition pd_acc_set_codec :: "'e pjsua \<Rightarrow> int \<Rightarrow> string option \<Rightarrow> int \<Rightarrow> ('e, int) shim_m" where
  "pd_acc_set_codec P acc_id codec_id enabled = do {
     pd_ensure_thread P;
     case codec_id of
       None \<Rightarrow> ret (-1)
     | Some cid \<Rightarrow> do {
         r \<leftarrow> ask (api_enum_codecs P 32);
         case r of
           None \<Rightarrow> ret (-1)
         | Some codecs \<Rightarrow>
             if find_codec codecs cid then do {
               _ \<leftarrow> pj (api_codec_set_priority P cid (if enabled \<noteq> 0 then 255 else 0));
               ret 0
             } else ret (-1)
       }
   }"

definition pd_acc_set_auto_answer :: "'e pjsua \<Rightarrow> int \<Rightarrow> int \<Rightarrow> int \<Rightarrow> ('e, int) shim_m" where
  "pd_acc_set_auto_answer P acc_id enabled delay_ms = do {
     pd_ensure_thread P;
     if \<not> valid_acc acc_id then ret (-1)
     else do {
       modify (\<lambda>s. s\<lparr>g_acc_auto_answer :=
         put (g_acc_auto_answer s) acc_id \<lparr>aa_enabled = enabled, aa_delay_ms = delay_ms\<rparr>\<rparr>);
       ret 0
     }
   }"

definition pd_acc_get_auto_answer :: "'e pjsua \<Rightarrow> int \<Rightarrow> ('e, int \<times> (int \<times> int) option) shim_m" where
  "pd_acc_get_auto_answer P acc_id = do {
     pd_ensure_thread P;
     if \<not> valid_acc acc_id then ret (-1, None)
     else do {
       a \<leftarrow> gets (\<lambda>s. elem (g_acc_auto_answer s) acc_id);
       ret (0, Some (aa_enabled a, aa_delay_ms a))
     }
   }"

definition pd_acc_set_dtmf_method :: "'e pjsua \<Rightarrow> int \<Rightarrow> int \<Rightarrow> ('e, int) shim_m" where
  "pd_acc_set_dtmf_method P acc_id dtmf_method = do {
     pd_ensure_thread P;
     if \<not> valid_acc acc_id then ret (-1)
     else do {
       modify (\<lambda>s. s\<lparr>g_acc_dtmf_method := put (g_acc_dtmf_method s) acc_id dtmf_method\<rparr>);
       ret 0
     }
   }"

definition pd_acc_get_dtmf_method :: "'e pjsua \<Rightarrow> int \<Rightarrow> ('e, int \<times> int option) shim_m" where
  "pd_acc_get_dtmf_method P acc_id = do {
     pd_ensure_thread P;
     if \<not> valid_acc acc_id then ret (-1, None)
     else do {
       m \<leftarrow> gets (\<lambda>s. elem (g_acc_dtmf_method s) acc_id);
       ret (0, Some m)
     }
   }"

definition pd_acc_delete_profile :: "'e pjsua \<Rightarrow> string option \<Rightarrow> ('e, int) shim_m" where
  "pd_acc_delete_profile P uuid = do { pd_ensure_thread P; ret 0 }"

section \<open>Application-wide settings\<close>

definition pd_set_global_dnd :: "'e pjsua \<Rightarrow> int \<Rightarrow> ('e, int) shim_m" where
  "pd_set_global_dnd P enabled = do {
     pd_ensure_thread P;
     modify (\<lambda>s. s\<lparr>g_dnd_enabled := (enabled \<noteq> 0)\<rparr>);
     log_msg 4 (fmt 128 [''Global DND '', if enabled \<noteq> 0 then ''enabled'' else ''disabled'']);
     ret 0
   }"

definition pd_set_global_codec_priority :: "'e pjsua \<Rightarrow> string option \<Rightarrow> ('e, int) shim_m" where
  "pd_set_global_codec_priority P codec_priorities =
     (case codec_priorities of
        None \<Rightarrow> ret (-1)
      | Some cp \<Rightarrow> do {
          modify (\<lambda>s. s\<lparr>g_global_codec_priority := c_trunc 1024 cp\<rparr>);
          _ \<leftarrow> pd_enum_account_ids P MAX_ACCOUNTS;
          ret 0
        })"

text \<open>\<open>json_buf\<close> is not NULL; with a NULL buffer the function returns -1 as it does for \<open>json_len \<le> 0\<close>.\<close>

definition pd_get_global_codec_priority :: "int \<Rightarrow> ('e, int \<times> string option) shim_m" where
  "pd_get_global_codec_priority json_len =
     (if json_len \<le> 0 then ret (-1, None)
      else do {
        cp \<leftarrow> gets g_global_codec_priority;
        ret (0, Some (c_trunc (nat json_len) cp))
      })"

definition pd_set_global_dtmf_method :: "'e pjsua \<Rightarrow> int \<Rightarrow> ('e, int) shim_m" where
  "pd_set_global_dtmf_method P dtmf_method = do {
     modify (\<lambda>s. s\<lparr>g_global_dtmf_method := dtmf_method\<rparr>);
     acc_ids \<leftarrow> pd_enum_account_ids P MAX_ACCOUNTS;
     for_each (take MAX_ACCOUNTS acc_ids) (\<lambda>acc_id.
       only_if (acc_id \<noteq> PJSUA_INVALID_ID \<and> acc_id < int MAX_ACCOUNTS)
         (modify (\<lambda>s. s\<lparr>g_acc_dtmf_method := put (g_acc_dtmf_method s) acc_id dtmf_method\<rparr>)));
     ret 0
   }"

definition pd_get_global_dtmf_method :: "('e, int \<times> int) shim_m" where
  "pd_get_global_dtmf_method = do { m \<leftarrow> gets g_global_dtmf_method; ret (0, m) }"

definition pd_set_global_auto_answer :: "int \<Rightarrow> int \<Rightarrow> ('e, int) shim_m" where
  "pd_set_global_auto_answer enabled delay_ms = do {
     modify (\<lambda>s. s\<lparr>g_global_auto_answer := enabled, g_global_auto_answer_delay := delay_ms\<rparr>);
     ret 0
   }"

definition pd_get_global_auto_answer :: "('e, int \<times> int \<times> int) shim_m" where
  "pd_get_global_auto_answer = do {
     a \<leftarrow> gets (\<lambda>s. (g_global_auto_answer s, g_global_auto_answer_delay s));
     ret (0, a)
   }"

section \<open>BLF subscriptions\<close>

definition subscribe_one :: "'e pjsua \<Rightarrow> string option \<Rightarrow> ('e, unit) shim_m" where
  "subscribe_one P p =
     (case p of
        None \<Rightarrow> ret ()
      | Some uri \<Rightarrow> do {
          (status, buddy_id) \<leftarrow> pj (api_buddy_add P uri True);
          log_msg 4
            (if status = PJ_SUCCESS
             then fmt 256 [''[BLF] Subscribed buddy_id='', dec buddy_id, '' uri='', uri]
             else fmt 256 [''[BLF] Failed to add buddy uri='', uri, '' status='', dec status])
        })"

definition pd_blf_subscribe :: "'e pjsua \<Rightarrow> int \<Rightarrow> string option list option \<Rightarrow> int \<Rightarrow> ('e, int) shim_m" where
  "pd_blf_subscribe P acc_id uris count = do {
     pd_ensure_thread P;
     case uris of
       None \<Rightarrow> ret (-1)
     | Some us \<Rightarrow>
         if count \<le> 0 then ret (-1)
         else do { for_each (take (nat count) us) (subscribe_one P); ret 0 }
   }"

definition pd_blf_unsubscribe :: "'e pjsua \<Rightarrow> int \<Rightarrow> ('e, int) shim_m" where
  "pd_blf_unsubscribe P acc_id = do {
     pd_ensure_thread P;
     r \<leftarrow> ask (api_enum_buddies P PJSUA_ACC_MAX_PROXIES);
     case r of
       None \<Rightarrow> ret (-1)
     | Some buddies \<Rightarrow> do {
         for_each buddies (\<lambda>b. do { _ \<leftarrow> pj (api_buddy_del P b); ret () });
         ret 0
       }
   }"

end
