(* ===== verification/Shim_Lifecycle.thy ===== *)
theory Shim_Lifecycle
  imports Shim_State
begin

text \<open>
  \<^verbatim>\<open>pd_init\<close>, in the parts its comments name (engine, transports, start, audio devices, tone
  generator), and \<^verbatim>\<open>pd_shutdown\<close>.
\<close>

record callbacks =
  cb_reg :: bool
  cb_incoming :: bool
  cb_call :: bool
  cb_media :: bool
  cb_log :: bool
  cb_sip_msg :: bool
  cb_transfer_status :: bool
  cb_blf_status :: bool

definition save_callbacks :: "callbacks \<Rightarrow> ('e, unit) shim_m" where
  "save_callbacks cb = modify (\<lambda>s. s\<lparr>
     g_on_reg := cb_reg cb, g_on_incoming := cb_incoming cb, g_on_call := cb_call cb,
     g_on_media := cb_media cb, g_on_log := cb_log cb, g_on_sip_msg := cb_sip_msg cb,
     g_on_transfer_status := cb_transfer_status cb, g_on_blf_status := cb_blf_status cb\<rparr>)"

text \<open>The fields of the logging, UA and media configurations that are set.\<close>

definition init_settings :: "string option \<Rightarrow> string option \<Rightarrow> ua_settings" where
  "init_settings user_agent stun_server = \<lparr>
     ua_user_agent = (if nonempty user_agent then user_agent else None),
     ua_max_calls = 8,
     ua_stun_srv = (if nonempty stun_server then stun_server else None),
     ua_log_level = 4, ua_console_level = 0, ua_msg_logging = True,
     ua_clock_rate = 16000, ua_snd_clock_rate = 0, ua_ec_tail_len = 200, ua_no_vad = False\<rparr>"

text \<open>The engine: \<^verbatim>\<open>pjsua_create\<close>, \<^verbatim>\<open>pjsua_init\<close> and the capture module.\<close>

definition init_engine :: "'e pjsua \<Rightarrow> string option \<Rightarrow> string option \<Rightarrow> ('e, pj_status) shim_m" where
  "init_engine P user_agent stun_server = do {
     st \<leftarrow> pj (api_create P);
     if st \<noteq> PJ_SUCCESS then ret st
     else do {
       st \<leftarrow> pj (api_init P (init_settings user_agent stun_server));
       if st \<noteq> PJ_SUCCESS then do { _ \<leftarrow> pj (api_destroy P); ret st }
       else do {
         st \<leftarrow> pj (api_register_module P);
         only_if (st \<noteq> PJ_SUCCESS) (log_msg 2 ''Warning: SIP capture module registration failed'');
         ret PJ_SUCCESS
       }
     }
   }"

definition tp_default :: tp_settings where
  "tp_default = \<lparr>tp_port = 0, tp_verify_server = False, tp_verify_client = False, tp_tlsv1_method = False\<rparr>"

definition init_tcp :: "'e pjsua \<Rightarrow> ('e, unit) shim_m" where
  "init_tcp P = do {
     log_msg 4 ''[PD_SHIM] Creating TCP transport...'';
     (st, tp) \<leftarrow> pj (api_transport_create P TP_TCP tp_default);
     if st \<noteq> PJ_SUCCESS then do {
       log_msg 3 (fmt 512 [''[PD_SHIM] TCP transport unavailable status='', dec st, '' ('',
                           pj_strerror P st 256, '') '', em_dash, '' UDP only'']);
       modify (\<lambda>s. s\<lparr>g_tcp_tp := PJSUA_INVALID_ID\<rparr>)
     } else do {
       modify (\<lambda>s. s\<lparr>g_tcp_tp := tp\<rparr>);
       log_msg 4 ''[PD_SHIM] TCP transport created OK''
     }
   }"

definition init_tls :: "'e pjsua \<Rightarrow> ('e, unit) shim_m" where
  "init_tls P = do {
     log_msg 4 ''[PD_SHIM] Creating TLS transport (verify_server=off, method=TLSv1+)...'';
     (st, tp) \<leftarrow> pj (api_transport_create P TP_TLS (tp_default\<lparr>tp_tlsv1_method := True\<rparr>));
     if st \<noteq> PJ_SUCCESS then do {
       log_msg 1 (fmt 512 [''[PD_SHIM] TLS transport FAILED status='', dec st, '' ('',
                           pj_strerror P st 256, '') '', em_dash, '' TLS accounts will fall back to UDP'']);
       modify (\<lambda>s. s\<lparr>g_tls_tp := PJSUA_INVALID_ID\<rparr>)
     } else do {
       modify (\<lambda>s. s\<lparr>g_tls_tp := tp\<rparr>);
       log_msg 4 ''[PD_SHIM] TLS transport created OK''
     }
   }"

definition init_transports :: "'e pjsua \<Rightarrow> ('e, pj_status) shim_m" where
  "init_transports P = do {
     log_msg 4 ''[PD_SHIM] Creating UDP transport...'';
     (st, tp) \<leftarrow> pj (api_transport_create P TP_UDP tp_default);
     if st \<noteq> PJ_SUCCESS then do {
       log_msg 1 (fmt 512 [''[PD_SHIM] FATAL: UDP transport create failed status='', dec st, '' ('',
                           pj_strerror P st 256, '')'']);
       _ \<leftarrow> pj (api_destroy P);
       ret st
     } else do {
       modify (\<lambda>s. s\<lparr>g_udp_tp := tp\<rparr>);
       log_msg 4 ''[PD_SHIM] UDP transport created OK'';
       init_tcp P;
       init_tls P;
       ret PJ_SUCCESS
     }
   }"

definition init_start :: "'e pjsua \<Rightarrow> ('e, pj_status) shim_m" where
  "init_start P = do {
     st \<leftarrow> pj (api_start P);
     if st \<noteq> PJ_SUCCESS then do {
       log_msg 1 (fmt 512 [''[PD_SHIM] FATAL: pjsua_start failed status='', dec st, '' ('',
                           pj_strerror P st 256, '')'']);
       _ \<leftarrow> pj (api_destroy P);
       ret st
     } else do {
       (udp, tcp, tls) \<leftarrow> gets (\<lambda>s. (g_udp_tp s, g_tcp_tp s, g_tls_tp s));
       log_msg 3 (fmt 256 [''[PD_SHIM] Engine started. Transports: UDP='',
                           if udp \<noteq> PJSUA_INVALID_ID then ''OK'' else ''FAIL'', '' TCP='',
                           if tcp \<noteq> PJSUA_INVALID_ID then ''OK'' else ''unavail'', '' TLS='',
                           if tls \<noteq> PJSUA_INVALID_ID then ''OK'' else ''FAIL'']);
       ret PJ_SUCCESS
     }
   }"

text \<open>The loop that looks for the first input and the first output device, -1 for none.\<close>

fun find_pair :: "nat \<Rightarrow> aud_dev list \<Rightarrow> int \<Rightarrow> int \<Rightarrow> int \<times> int" where
  "find_pair i [] first_in first_out = (first_in, first_out)"
| "find_pair i (d # ds) first_in first_out =
     (let fi = (if first_in = -1 \<and> input_count d > 0 then int i else first_in);
          fo = (if first_out = -1 \<and> output_count d > 0 then int i else first_out)
      in if fi \<noteq> -1 \<and> fo \<noteq> -1 then (fi, fo) else find_pair (Suc i) ds fi fo)"

definition init_audio :: "'e pjsua \<Rightarrow> ('e, unit) shim_m" where
  "init_audio P = do {
     _ \<leftarrow> pj (api_set_null_snd_dev P);
     (enum_st, infos) \<leftarrow> ask (api_enum_aud_devs P 64);
     if enum_st = PJ_SUCCESS \<and> length infos > 0 then do {
       let (first_in, first_out) = find_pair 0 infos (-1) (-1);
       if first_in \<noteq> -1 \<and> first_out \<noteq> -1 then do {
         log_msg 4 (fmt 256 [''Found '', dec_nat (length infos), '' audio device(s), switching to in='',
                             dec first_in, '', out='', dec first_out]);
         up_st \<leftarrow> pj (api_set_snd_dev P first_in first_out);
         only_if (up_st \<noteq> PJ_SUCCESS)
           (log_msg 2 (fmt 512 [''pjsua_set_snd_dev('', dec first_in, '','', dec first_out, '') failed: '',
                                dec up_st, '' ('', pj_strerror P up_st 256, '') '', em_dash,
                                '' using null device'']))
       } else log_msg 2 ''No suitable input/output device pair found, staying on null device''
     } else log_msg 2 ''No audio devices found, using null sound device''
   }"

text \<open>A NULL port is refused by \<^verbatim>\<open>pjsua_conf_add_port\<close>, so nothing follows in that case.\<close>

definition init_tone :: "'e pjsua \<Rightarrow> ('e, unit) shim_m" where
  "init_tone P = do {
     (st, port) \<leftarrow> pj (api_tonegen_create P 8000 1 160 16);
     if st \<noteq> PJ_SUCCESS then ret ()
     else do {
       modify (\<lambda>s. s\<lparr>g_tone_port := port\<rparr>);
       case port of
         None \<Rightarrow> ret ()
       | Some p \<Rightarrow> do {
           (st, slot) \<leftarrow> pj (api_conf_add_port P p);
           if st \<noteq> PJ_SUCCESS then ret ()
           else do {
             modify (\<lambda>s. s\<lparr>g_tone_slot := slot\<rparr>);
             _ \<leftarrow> pj (api_conf_connect P slot 0);
             ret ()
           }
         }
     }
   }"

definition pd_init ::
  "'e pjsua \<Rightarrow> string option \<Rightarrow> string option \<Rightarrow> callbacks \<Rightarrow> ('e, int) shim_m" where
  "pd_init P user_agent stun_server cbs = do {
     pd_reset_recording_state;
     save_callbacks cbs;
     st \<leftarrow> init_engine P user_agent stun_server;
     if st \<noteq> PJ_SUCCESS then ret st
     else do {
       st \<leftarrow> init_transports P;
       if st \<noteq> PJ_SUCCESS then ret st
       else do {
         st \<leftarrow> init_start P;
         if st \<noteq> PJ_SUCCESS then ret st
         else do {
           init_audio P;
           init_tone P;
           ret 0
         }
       }
     }
   }"

section \<open>Shutdown\<close>

definition pd_shutdown :: "'e pjsua \<Rightarrow> ('e, int) shim_m" where
  "pd_shutdown P = do {
     recs \<leftarrow> gets g_recorder_id;
     for_each recs (\<lambda>r. only_if (r \<noteq> PJSUA_INVALID_ID)
                              (do { _ \<leftarrow> pj (api_recorder_destroy P r); ret () }));
     pd_reset_recording_state;
     slot \<leftarrow> gets g_tone_slot;
     only_if (slot \<noteq> PJSUA_INVALID_ID) (do {
       _ \<leftarrow> pj (api_conf_remove_port P slot);
       modify (\<lambda>s. s\<lparr>g_tone_slot := PJSUA_INVALID_ID\<rparr>)
     });
     port \<leftarrow> gets g_tone_port;
     (case port of
        None \<Rightarrow> ret ()
      | Some p \<Rightarrow> do {
          _ \<leftarrow> pj (api_port_destroy P p);
          modify (\<lambda>s. s\<lparr>g_tone_port := None\<rparr>)
        });
     st \<leftarrow> pj (api_destroy P);
     modify (\<lambda>s. s\<lparr>g_udp_tp := PJSUA_INVALID_ID, g_tcp_tp := PJSUA_INVALID_ID,
                    g_tls_tp := PJSUA_INVALID_ID\<rparr>);
     ret st
   }"

end
