(* ===== verification/Demo.thy ===== *)
theory Demo
  imports Pjsua_Model Shim_Stats Shim_Accounts Shim_Lifecycle
begin

text \<open>
  A concrete environment, on which the properties with hypotheses are shown to apply: modules below
  pjsua that always succeed, a bridge with the sound port and the ports of two calls, no recorder in
  use, two confirmed calls, two registered accounts and a buddy list.
\<close>

definition demo_dev :: aud_dev where
  "demo_dev = \<lparr>dev_name = ''Headset'', input_count = 1, output_count = 2, dev_caps = 3\<rparr>"

definition demo_mp :: "nat \<Rightarrow> media_port" where
  "demo_mp n = \<lparr>mp_id = n, mp_name = ''port'', mp_clock_rate = 16000, mp_samples_per_frame = 320,
                mp_channel_count = 1\<rparr>"

text \<open>Every text is a SIP URI of one user and domain.\<close>

definition demo_uri :: "string \<Rightarrow> sip_uri" where
  "demo_uri u = \<lparr>su_scheme = SCHEME_SIP, su_display = [], su_user = ''alice'', su_host = ''example.com'', su_port = 0,
     su_lr = False, su_rest = u\<rparr>"

definition demo_hw :: "unit hw" where
  "demo_hw = \<lparr>
     hw_dev_count = (\<lambda>_. 1), hw_dev_info = (\<lambda>_ _. (0, demo_dev)), hw_default_param = (\<lambda>_ _. 0),
     hw_snd_open = (\<lambda>_ _ _ _ _ _ x. (0, x)), hw_resample_port = (\<lambda>_ _. 0), hw_snd_connect = (\<lambda>x. (0, x)),
     hw_snd_close = (\<lambda>x. x), hw_rec_name = (\<lambda>_. Some ''Headset''), hw_set_ec = (\<lambda>_ _ x. (0, x)),
     hw_null_create = (\<lambda>x. (0, x)), hw_null_start = (\<lambda>x. (0, x)), hw_null_destroy = (\<lambda>x. x),
     hw_wav_create = (\<lambda>_ x. ((0, demo_mp 9), x)), hw_port_destroy = (\<lambda>_ x. x), hw_port = (\<lambda>n _. demo_mp n),
     hw_resampler = (\<lambda>_ _. 0), hw_uri_ok = (\<lambda>_ _. 0),
     hw_thread_known = (\<lambda>_. True), hw_thread_register = (\<lambda>x. (0, x)), hw_subscribe_pres = (\<lambda>_ _ x. x),
     hw_parse_uri = (\<lambda>u. if u = [] then None else Some (demo_uri u)), hw_print_route = (\<lambda>u. Some (su_rest u @ '';lr'')),
     hw_print_contact = (\<lambda>u. Some (su_rest u)), hw_parse_contact = demo_uri,
     hw_parse_route = (\<lambda>u. if u = [] then None else Some (demo_uri u, [])), hw_escape_user = (\<lambda>u. u),
     hw_addr_status = (\<lambda>_. 0), hw_same_addr = (=), hw_status_text = (\<lambda>c. if c = 200 then ''OK'' else ''Failed''),
     hw_hostname_hash = 0x12345678, hw_rand = (\<lambda>x. (1234567, x)), hw_schedule_timer = (\<lambda>_ _ x. (0, x)),
     hw_cancel_timer = (\<lambda>_ x. x), hw_tp_add_ref = (\<lambda>_ x. x), hw_tp_dec_ref = (\<lambda>_ x. x), hw_tp_shutdown = (\<lambda>_ x. x),
     hw_send_raw = (\<lambda>_ _ _ x. x), hw_uac_contact = (\<lambda>_ _ _. (0, ''<sip:alice@192.168.1.2:5060>'')),
     hw_regc_create = (\<lambda>i x. ((0, nat i), x)), hw_regc_init = (\<lambda>_ _ _ _ _ x. (0, x)), hw_regc_set = (\<lambda>_ _ x. x),
     hw_regc_destroy = (\<lambda>_ _ x. (0, x)), hw_regc_register = (\<lambda>_ x. (0, x)), hw_regc_unregister = (\<lambda>_ x. (0, x)),
     hw_regc_send = (\<lambda>_ x. (0, x)), hw_regc_next_reg = (\<lambda>_ _. 295), hw_regc_transport = (\<lambda>_ _. Some 1),
     hw_pres_init_acc = (\<lambda>_ x. (0, x)), hw_pres_delete_acc = (\<lambda>_ x. x), hw_publishing = (\<lambda>_ _. False),
     hw_publish = (\<lambda>_ x. x), hw_publish_via = (\<lambda>_ _ x. x), hw_unpublish = (\<lambda>_ x. x), hw_start_mwi = (\<lambda>_ _ x. x)\<rparr>"

text \<open>Functions whose code is not modelled: they succeed and change nothing.\<close>

definition demo_base :: "'e pjsua" where
  "demo_base = \<lparr>
     api_strerror = (\<lambda>_. ''error''), api_msg_print = (\<lambda>m n. Some (take n m)),
     api_thread_is_registered = (\<lambda>_. True), api_thread_register = (\<lambda>e. (0, e)),
     api_gettimeofday = (\<lambda>_. \<lparr>tv_sec = 100, tv_msec = 0\<rparr>), api_create = (\<lambda>e. (0, e)), api_init = (\<lambda>_ e. (0, e)),
     api_register_module = (\<lambda>e. (0, e)), api_transport_create = (\<lambda>_ _ e. ((0, 0), e)), api_start = (\<lambda>e. (0, e)),
     api_destroy = (\<lambda>e. (0, e)),
     api_enum_aud_devs = (\<lambda>_ _. (0, [demo_dev])), api_set_snd_dev = (\<lambda>_ _ e. (0, e)),
     api_get_snd_dev = (\<lambda>_. (0, 0, 0)), api_set_null_snd_dev = (\<lambda>e. (0, e)), api_set_ec = (\<lambda>_ _ e. (0, e)),
     api_tonegen_create = (\<lambda>_ _ _ _ e. ((0, Some 5), e)), api_tonegen_play_digits = (\<lambda>_ _ e. (0, e)),
     api_port_destroy = (\<lambda>_ e. (0, e)), api_conf_add_port = (\<lambda>_ e. ((0, 1), e)),
     api_conf_remove_port = (\<lambda>_ e. (0, e)), api_conf_connect = (\<lambda>_ _ e. (0, e)),
     api_conf_disconnect = (\<lambda>_ _ e. (0, e)), api_conf_adjust_tx_level = (\<lambda>_ _ e. (0, e)),
     api_recorder_create = (\<lambda>_ e. ((0, 0), e)), api_recorder_get_conf_port = (\<lambda>_ _. 1),
     api_recorder_destroy = (\<lambda>_ e. (0, e)), api_enum_codecs = (\<lambda>_ _. Some [''PCMU/8000/1'']),
     api_codec_set_priority = (\<lambda>_ _ e. (0, e)),
     api_acc_add = (\<lambda>_ _ e. ((0, 0), e)), api_acc_del = (\<lambda>_ e. (0, e)), api_acc_get_info = (\<lambda>_ _. None),
     api_enum_accs = (\<lambda>_ _. Some [0, 1]), api_enum_calls = (\<lambda>_ _. Some []), api_call_get_info = (\<lambda>_ _. None),
     api_call_get_conf_port = (\<lambda>_ _. -1), api_call_get_stream_info = (\<lambda>_ _ _. None),
     api_call_get_stream_stat = (\<lambda>_ _ _. None), api_call_make_call = (\<lambda>_ _ e. ((0, 2), e)),
     api_call_answer = (\<lambda>_ _ e. (0, e)), api_call_hangup = (\<lambda>_ _ e. (0, e)), api_call_set_hold = (\<lambda>_ e. (0, e)),
     api_call_reinvite = (\<lambda>_ _ e. (0, e)), api_call_xfer = (\<lambda>_ _ e. (0, e)),
     api_call_send_dtmf = (\<lambda>_ _ _ e. (0, e)), api_call_dial_dtmf = (\<lambda>_ _ e. (0, e)),
     api_enum_buddies = (\<lambda>_ _. Some []), api_buddy_get_info = (\<lambda>_ _. None), api_buddy_add = (\<lambda>_ _ e. ((0, 0), e)),
     api_buddy_del = (\<lambda>_ e. (0, e))\<rparr>"

definition demo_call :: "int \<Rightarrow> pjsua_call" where
  "demo_call slot = blank_call\<lparr>call_inv := Some INV_CONFIRMED, call_attached := True, call_async_dlg := True,
     last_code := 200, rem_info_str := ''<sip:bob@example.com>'', med_cnt := 1, med_prov_cnt := 1,
     call_media := [\<lparr>cm_type = MEDIA_AUDIO, cm_status = CALL_MEDIA_ACTIVE, cm_conf_slot = slot\<rparr>]\<rparr>"

definition demo_bridge0 :: pjmedia_conf where
  "demo_bridge0 = projr (pjmedia_conf_create (\<lambda>_ _. 0) 0 0 8 16000 1 320 16)"

definition demo_bridge1 :: pjmedia_conf where
  "demo_bridge1 = snd (pjmedia_conf_add_port (\<lambda>_ _. 0) demo_bridge0 (demo_mp 1) None)"

definition demo_bridge :: pjmedia_conf where
  "demo_bridge = snd (pjmedia_conf_add_port (\<lambda>_ _. 0) demo_bridge1 (demo_mp 2) None)"

definition free_acc :: pjsua_acc where
  "free_acc = \<lparr>a_valid = False, a_cfg = pjsua_acc_config_default, a_display = [], a_user_part = [], a_is_sips = False,
     a_contact = [], a_reg_contact = [], a_contact_rewritten = False, a_via_host = [], a_via_port = 0, a_via_tp = None,
     a_srv_domain = [], a_srv_port = 0, a_regc = None, a_reg_last_err = 0, a_reg_last_code = 0, a_reg_mapped_addr = [],
     a_rereg_active = False, a_rereg_timer = False, a_rereg_attempt_cnt = 0, a_ka_timer = False, a_ka_transport = None,
     a_ka_target = [], a_route_set = [], a_rfc5626_status = OUTBOUND_UNKNOWN, a_rfc5626_instprm = [],
     a_rfc5626_regprm = [], a_rfc5626_flowtmr = 0, a_cred = [], a_tp_type = 0, a_ip_change_op = IP_OP_NULL\<rparr>"

text \<open>A registered account, its session the number of its entry.\<close>

definition demo_cfg :: pjsua_acc_config where
  "demo_cfg = pjsua_acc_config_default\<lparr>ac_id := ''<sip:alice@example.com>'', ac_reg_uri := ''sip:example.com''\<rparr>"

definition demo_acc :: "nat \<Rightarrow> pjsua_acc" where
  "demo_acc i = free_acc\<lparr>a_valid := True, a_cfg := demo_cfg, a_user_part := ''alice'', a_srv_domain := ''example.com'',
     a_regc := Some i, a_contact := ''<sip:alice@192.168.1.2:5060>'', a_reg_contact := ''<sip:alice@192.168.1.2:5060>'',
     a_reg_last_code := 200\<rparr>"

definition demo_var :: "unit pjsua_var" where
  "demo_var = \<lparr>calls = [demo_call 1, demo_call 2] @ replicate 6 blank_call, call_cnt = 2, next_call_id = 2,
     thread_quit_flag = False, app_log = [],
     buddies = replicate 256 free_buddy, buddy_cnt = 0, mconf = demo_bridge, cap_dev = 0, play_dev = 0,
     no_snd = False, snd_port = True, snd_idle_timer = False, null_snd = False, snd_is_on = True,
     snd_mode = \<lparr>speaker_only = False, no_immediate_open = False\<rparr>, media_clock_rate = 16000,
     media_snd_clock_rate = 0, ec_tail_len = 200, ec_options = 0, snd_auto_close_time = 1,
     rec_cnt = 0, recorder = replicate 32 free_rec,
     accounts = [demo_acc 0, demo_acc 1, free_acc, free_acc], acc_cnt = 2, acc_ids = [0, 1], default_acc = 1,
     tpdata = [Some 1, Some 2] @ replicate 6 None, outbound_proxy = [],
     ua_cfg = \<lparr>uc_force_lr = True, uc_user_agent = ''PacketDial'', uc_creds = [], uc_enable_ice = False,
                uc_stun_srv_cnt = 0, uc_upnp_ready = False\<rparr>,
     ext = ()\<rparr>"

lemma replicate_6_8:
  "replicate 6 x = [x, x, x, x, x, x]" "replicate 8 x = [x, x, x, x, x, x, x, x]"
  by (simp_all add: eval_nat_numeral)

lemma demo_bridge_create: "pjmedia_conf_create (\<lambda>_ _. 0) 0 0 8 16000 1 320 16 = Inr demo_bridge0"
  by (simp add: demo_bridge0_def pjmedia_conf_create_def create_pasv_port_def create_conf_port_def Let_def)

lemmas bridge_eval = pjmedia_conf_create_def create_pasv_port_def create_conf_port_def Let_def
  pjmedia_conf_add_port_def port_buf_cap_def

lemma demo_bridge_ok:
  "conf_ok demo_bridge" "nodes demo_bridge = {0, 1, 2}" "edges demo_bridge = {}" "max_ports demo_bridge = 8"
proof -
  note b0 = create_spec [OF demo_bridge_create]
  have r1: "fst (pjmedia_conf_add_port (\<lambda>_ _. 0) demo_bridge0 (demo_mp 1) None) = (0, 1)"
    by (simp add: demo_bridge0_def demo_mp_def replicate_6_8 bridge_eval)
  then have "pjmedia_conf_add_port (\<lambda>_ _. 0) demo_bridge0 (demo_mp 1) None = ((0, 1), demo_bridge1)"
    by (metis demo_bridge1_def prod.collapse)
  from add_port_spec [OF _ this] b0
  have b1: "conf_ok demo_bridge1" "nodes demo_bridge1 = {0, 1}" "edges demo_bridge1 = {}" "max_ports demo_bridge1 = 8"
    by auto
  have r2: "fst (pjmedia_conf_add_port (\<lambda>_ _. 0) demo_bridge1 (demo_mp 2) None) = (0, 2)"
    by (simp add: demo_bridge1_def demo_bridge0_def demo_mp_def replicate_6_8 bridge_eval)
  then have "pjmedia_conf_add_port (\<lambda>_ _. 0) demo_bridge1 (demo_mp 2) None = ((0, 2), demo_bridge)"
    by (metis demo_bridge_def prod.collapse)
  from add_port_spec [OF b1(1) this] b1
  show "conf_ok demo_bridge" "nodes demo_bridge = {0, 1, 2}" "edges demo_bridge = {}" "max_ports demo_bridge = 8"
    by auto
qed

lemma demo_var_recorders: "rec_used (recorder demo_var) = {}"
  by (auto simp: rec_used_def demo_var_def free_rec_def)

lemma demo_var_ok: "pv_ok demo_var"
proof -
  have "conf_ok (mconf demo_var)" using demo_bridge_ok(1) by (simp add: demo_var_def)
  moreover have "length (recorder demo_var) = PJSUA_MAX_RECORDERS" "rec_cnt demo_var = 0"
    by (simp_all add: demo_var_def)
  ultimately show ?thesis by (simp add: pv_ok_def demo_var_recorders)
qed

lemma demo_var_view:
  "pv_slots demo_var = {0, 1, 2}" "pv_links demo_var = {}" "pv_live demo_var = {}" "pv_ready demo_var"
  using demo_bridge_ok demo_var_recorders
  by (auto simp: demo_var_def pv_slots_def pv_links_def pv_live_iff pv_ready_def)

abbreviation demo_pjsua :: "unit pjsua_var pjsua" where
  "demo_pjsua \<equiv> pjsua_model demo_hw demo_base"

definition all_callbacks :: callbacks where
  "all_callbacks = \<lparr>cb_reg = True, cb_incoming = True, cb_call = True, cb_media = True, cb_log = True,
     cb_sip_msg = True, cb_transfer_status = True, cb_blf_status = True\<rparr>"

text \<open>The shim with all callbacks installed, recording reset, on a registered thread.\<close>

definition demo_shim :: "unit pjsua_var shim" where
  "demo_shim = exec (do { pd_reset_recording_state; save_callbacks all_callbacks;
                          modify (\<lambda>s. s\<lparr>tls_thread_registered := (\<lambda>_. True)\<rparr>) }) (shim_load demo_var)"

lemma demo_shim_env [simp]: "env demo_shim = demo_var"
  by (simp add: demo_shim_def pd_reset_recording_state_def save_callbacks_def shim_load_def)

lemma demo_shim_entered [simp]: "entered P demo_shim = demo_shim"
  by (simp add: entered_def run_ensure_thread demo_shim_def pd_reset_recording_state_def
      save_callbacks_def shim_load_def del: run_ensure_thread_entered)

lemma demo_shim_fields:
  "g_is_recording demo_shim = replicate 8 0" "g_rec_path demo_shim = replicate 8 ''''"
  "g_recorder_id demo_shim = replicate 8 (-1)" "g_recorder_slot demo_shim = replicate 8 (-1)"
  "g_on_log demo_shim" "g_on_incoming demo_shim" "g_on_media demo_shim" "g_on_call demo_shim"
  "g_on_reg demo_shim" "g_on_sip_msg demo_shim" "g_on_blf_status demo_shim" "trace demo_shim = []"
  "\<not> g_dnd_enabled demo_shim" "cur_thread demo_shim = 0" "g_tone_port demo_shim = None"
  "g_udp_tp demo_shim = -1" "g_tls_tp demo_shim = -1" "g_tcp_tp demo_shim = -1"
  by (simp_all add: demo_shim_def pd_reset_recording_state_def save_callbacks_def shim_load_def all_callbacks_def)

lemma demo_call_info:
  "pjsua_call_get_info 0 demo_var = Some \<lparr>cl_acc_id = 0, cl_state = INV_CONFIRMED, cl_last_status = 200,
     cl_remote_info = ''<sip:bob@example.com>'',
     cl_media = [\<lparr>cm_type = MEDIA_AUDIO, cm_status = CALL_MEDIA_ACTIVE, cm_conf_slot = 1\<rparr>]\<rparr>"
  "pjsua_call_get_info 1 demo_var = Some \<lparr>cl_acc_id = 0, cl_state = INV_CONFIRMED, cl_last_status = 200,
     cl_remote_info = ''<sip:bob@example.com>'',
     cl_media = [\<lparr>cm_type = MEDIA_AUDIO, cm_status = CALL_MEDIA_ACTIVE, cm_conf_slot = 2\<rparr>]\<rparr>"
  by (simp_all add: pjsua_call_get_info_def valid_call_id_def demo_var_def demo_call_def blank_call_def call_info_state_def)

lemma demo_enum_accs: "pjsua_enum_accs 4 demo_var = Some [0, 1]"
  by (simp add: pjsua_enum_accs_def demo_var_def demo_acc_def free_acc_def replicate_6_8)

end
