(* ===== verification/Recording_Props.thy ===== *)
theory Recording_Props
  imports Demo
begin

text \<open>
  Recording on the model of pjsua: what a start and a stop do to pjsua's bridge and recorder table and
  to the shim's own arrays, on every outcome.
\<close>

lemma alike_model:
  "pv.alike e f \<longleftrightarrow> pv_ok f \<and> pv_slots f = pv_slots e \<and> pv_links f = pv_links e \<and> pv_live f = pv_live e \<and>
     (\<forall>q \<in> pv_live e. pjsua_recorder_get_conf_port q f = pjsua_recorder_get_conf_port q e) \<and>
     (pv_ready e \<longrightarrow> pv_ready f)"
  by (simp add: pv.alike_def)

lemma extends_model:
  "pv.extends e r k f \<longleftrightarrow> pv_ok f \<and> r \<notin> pv_live e \<and> pv_live f = insert r (pv_live e) \<and>
     pjsua_recorder_get_conf_port r f = k \<and> k \<notin> pv_slots e \<and> pv_slots f = insert k (pv_slots e) \<and>
     {(a, b) \<in> pv_links f. a \<noteq> k \<and> b \<noteq> k} = pv_links e \<and>
     (\<forall>q \<in> pv_live e. pjsua_recorder_get_conf_port q f = pjsua_recorder_get_conf_port q e) \<and>
     (pv_ready e \<longrightarrow> pv_ready f)"
  by (simp add: pv.extends_def)

text \<open>
  C2. A start of a recording that does not return 0 returns -1 and leaves nothing
  behind, at whichever of its steps it failed: the shim's recording arrays, the occupied slots of the
  bridge, its connections and the recorders in use are what they were, and the tables of pjsua are
  still consistent.
\<close>

theorem record_start_failure:
  assumes "pv_ok (env s)" "run_state (pd_call_start_recording (pjsua_model H B) c path) s = (res, t)" "res \<noteq> 0"
  shows "res = -1 \<and> rec_arrays t = rec_arrays s \<and> pv_ok (env t)
    \<and> pv_slots (env t) = pv_slots (env s) \<and> pv_links (env t) = pv_links (env s)
    \<and> pv_live (env t) = pv_live (env s)"
proof (rule rm.start_recording_cases [OF assms(1,2)])
  fix f assume "res = -1" "t = (entered (pjsua_model H B) s)\<lparr>env := f\<rparr>" "rm.alike H B (env s) f"
  moreover have "rec_arrays ((entered (pjsua_model H B) s)\<lparr>env := f\<rparr>) = rec_arrays s"
    using rec_arrays_entered [of "pjsua_model H B" s] by (simp add: rec_arrays_def)
  ultimately show ?thesis by (simp add: alike_model)
qed (use assms(3) in simp)

theorem record_start_failure_witness:
  "result (pd_call_start_recording demo_pjsua 0 (Some ''/tmp/a.ogg'')) demo_shim = -1
   \<and> pv_live (env (exec (pd_call_start_recording demo_pjsua 0 (Some ''/tmp/a.ogg'')) demo_shim)) = {}"
proof -
  let ?r = "run_state (pd_call_start_recording demo_pjsua 0 (Some ''/tmp/a.ogg'')) demo_shim"
  have ff: "file_format ''/tmp/a.ogg'' = None" by (simp add: file_format_def pj_tolower_def)
  have ne: "fst ?r \<noteq> 0"
    by (simp add: pd_call_start_recording_def attach_recorder_def pjsua_recorder_create_def S_def ff
        split: prod.splits option.splits)
  have ok: "pv_ok (env demo_shim)" using demo_var_ok by simp
  have "run_state (pd_call_start_recording demo_pjsua 0 (Some ''/tmp/a.ogg'')) demo_shim = (fst ?r, snd ?r)"
    by simp
  from record_start_failure [OF ok this ne] show ?thesis using demo_var_view by simp
qed

text \<open>
  C24. A start that returns 0 was given a valid call that is not being recorded and
  a non-empty path; it has created one recorder that was not in use, on a slot that was free, and
  connected to it the call's port and the microphone (slot 0), and nothing else; the call's entry of the
  shim's arrays names that recorder and that slot and holds the path cut to 511 bytes, and the entries
  of the other calls are as before.
\<close>

theorem record_start_success:
  assumes "pv_ok (env s)" "rec_lengths s"
    "run_state (pd_call_start_recording (pjsua_model H B) c path) s = (0, t)"
  shows "\<exists>r k. valid_call c \<and> nonempty path \<and> elem (g_is_recording s) c = 0
    \<and> r \<notin> pv_live (env s) \<and> pv_live (env t) = insert r (pv_live (env s))
    \<and> k \<notin> pv_slots (env s) \<and> pv_slots (env t) = insert k (pv_slots (env s))
    \<and> pv_links (env t) = pv_links (env s)
        \<union> {(pjsua_call_get_conf_port c (env (entered (pjsua_model H B) s)), k), (0, k)}
    \<and> rec_entry t c = (1, take 511 (S path), r, k)
    \<and> (\<forall>d. valid_call d \<longrightarrow> d \<noteq> c \<longrightarrow> rec_entry t d = rec_entry s d)"
proof (rule rm.start_recording_cases [OF assms(1,3)])
  fix f assume "0 = (-1::int)"
  then show ?thesis by simp
next
  fix r k f
  let ?u = "(entered (pjsua_model H B) s)\<lparr>env := f\<rparr>"
  assume v: "valid_call c" "nonempty path" "elem (g_is_recording s) c = 0"
    and t: "t = exec (set_recording c 1 (c_trunc 512 (S path)) r k) ?u"
    and x: "rm.extends H B (env s) r k f"
    and l: "pv_links f = pv_links (env s) \<union>
      {(api_call_get_conf_port (pjsua_model H B) c (env (entered (pjsua_model H B) s)), k), (0, k)}"
  have arr: "rec_arrays ?u = rec_arrays s"
    using rec_arrays_entered [of "pjsua_model H B" s] by (simp add: rec_arrays_def)
  have len: "rec_lengths ?u" using rec_arrays_lengths [OF arr] assms(2) by simp
  note entry = set_recording_entry [OF len v(1)] rec_arrays_entry [OF arr]
  have "rec_entry t c = (1, take 511 (S path), r, k)" using entry(1) [OF v(1)] by (simp add: t c_trunc_def)
  moreover have "\<forall>d. valid_call d \<longrightarrow> d \<noteq> c \<longrightarrow> rec_entry t d = rec_entry s d" using entry by (auto simp: t)
  moreover have "env t = f" by (simp add: t)
  ultimately show ?thesis
    by (intro exI [of _ k] exI [of _ r]) (use v x l in \<open>simp add: extends_model\<close>)
qed

lemma index_of_replicate: "P x \<Longrightarrow> index_of P (replicate n x) = 0"
  by (cases n) auto

lemma demo_record:
  "\<exists>t. run_state (pd_call_start_recording demo_pjsua 0 (Some ''/tmp/a.wav'')) demo_shim = (0, t)"
proof -
  have ff: "file_format ''/tmp/a.wav'' = Some True" by (simp add: file_format_def pj_tolower_def)
  obtain st r e1 where c: "run_state (pjsua_recorder_create demo_hw ''/tmp/a.wav'') demo_var = ((st, r), e1)"
    by (metis surj_pair)
  have fr: "index_of (\<lambda>r. rd_port r = None) (replicate 32 free_rec) = 0"
    by (rule index_of_replicate) (simp add: free_rec_def)
  have add: "fst (pjmedia_conf_add_port (\<lambda>_ _. 0) demo_bridge (demo_mp 9) (Some ''/tmp/a.wav'')) = (0, 3)"
    by (simp add: demo_bridge_def demo_bridge1_def demo_bridge0_def demo_mp_def replicate_6_8 bridge_eval)
  then obtain b where add: "pjmedia_conf_add_port (\<lambda>_ _. 0) demo_bridge (demo_mp 9) (Some ''/tmp/a.wav'') = ((0, 3), b)"
    by (metis prod.collapse)
  have st: "st = 0"
    using c by (auto simp: pjsua_recorder_create_def ff demo_var_def fr create_wav_recorder_def
        demo_hw_def add)
  have ok: "pv_ok demo_var" by (rule demo_var_ok)
  note x = pv.create_extends [OF ok, of demo_hw "''/tmp/a.wav''" r e1]
  have x: "pv.extends demo_var r (pjsua_recorder_get_conf_port r e1) e1"
    using x c st by simp
  define k where "k = pjsua_recorder_get_conf_port r e1"
  have e1: "pv_ok e1" "pv_ready e1" "0 \<in> pv_slots e1" "1 \<in> pv_slots e1" "k \<in> pv_slots e1" "k \<noteq> -1"
    using x demo_var_view pv_slots_iff [of k e1] by (auto simp: extends_model k_def)
  obtain st2 e2 where c1: "run_state (pjsua_conf_connect demo_hw 1 k) e1 = (st2, e2)" by (metis surj_pair)
  have s2: "st2 = 0" "pv_ok e2" "pv_ready e2" "0 \<in> pv_slots e2" "k \<in> pv_slots e2"
    using conf_connect_ready [OF e1(1,2) c1] conf_connect_spec [OF e1(1) c1] e1 by auto
  obtain st3 e3 where c2: "run_state (pjsua_conf_connect demo_hw 0 k) e2 = (st3, e3)" by (metis surj_pair)
  have s3: "st3 = 0" using conf_connect_ready [OF s2(2,3) c2] s2 by auto
  have cp: "pjsua_call_get_conf_port 0 demo_var = 1"
    by (simp add: pjsua_call_get_conf_port_def valid_call_id_def pjsua_call_is_active_def demo_var_def demo_call_def blank_call_def)
  have v: "valid_call 0" "elem (g_is_recording demo_shim) 0 = 0"
    by (simp_all add: valid_call_def demo_shim_fields elem_def)
  show ?thesis
    using c st c1 s2(1) c2 s3 cp v e1(6)
    by (simp add: pd_call_start_recording_def attach_recorder_def S_def demo_call_info k_def run_set_recording)
qed

theorem record_start_success_witness:
  "\<exists>t r k. run_state (pd_call_start_recording demo_pjsua 0 (Some ''/tmp/a.wav'')) demo_shim = (0, t)
    \<and> pv_live (env t) = {r} \<and> (0, k) \<in> pv_links (env t) \<and> rec_entry t 0 = (1, ''/tmp/a.wav'', r, k)"
proof -
  obtain t where t: "run_state (pd_call_start_recording demo_pjsua 0 (Some ''/tmp/a.wav'')) demo_shim = (0, t)"
    using demo_record by blast
  have ok: "pv_ok (env demo_shim)" "rec_lengths demo_shim"
    using demo_var_ok by (simp_all add: rec_lengths_def demo_shim_fields)
  from record_start_success [OF ok t] obtain r k where
    "pv_live (env t) = insert r (pv_live (env demo_shim))" "(0, k) \<in> pv_links (env t)"
    "rec_entry t 0 = (1, take 511 (S (Some ''/tmp/a.wav'')), r, k)"
    by blast
  then show ?thesis using t demo_var_view by (auto simp: S_def)
qed

text \<open>
  C25. A stop right after a start that returned 0 returns 0 and undoes it: slots,
  connections and recorders in use are those before the start, and the call's entry is cleared.
\<close>

theorem record_start_stop:
  assumes "pv_ok (env s)" "rec_lengths s"
    "run_state (pd_call_start_recording (pjsua_model H B) c path) s = (0, t)"
  shows "let r = run_state (pd_call_stop_recording (pjsua_model H B) c) t
    in fst r = 0 \<and> pv_ok (env (snd r)) \<and> pv_slots (env (snd r)) = pv_slots (env s)
     \<and> pv_links (env (snd r)) = pv_links (env s) \<and> pv_live (env (snd r)) = pv_live (env s)
     \<and> rec_entry (snd r) c = (0, [], -1, -1)"
proof -
  obtain res w where w: "run_state (pd_call_stop_recording (pjsua_model H B) c) t = (res, w)" by fastforce
  from rm.start_stop [OF assms w] show ?thesis by (simp add: w alike_model)
qed

theorem record_start_stop_witness:
  "\<exists>t. run_state (pd_call_start_recording demo_pjsua 0 (Some ''/tmp/a.wav'')) demo_shim = (0, t)
    \<and> pv_live (env (exec (pd_call_stop_recording demo_pjsua 0) t)) = {}
    \<and> pv_slots (env (exec (pd_call_stop_recording demo_pjsua 0) t)) = {0, 1, 2}"
proof -
  obtain t where t: "run_state (pd_call_start_recording demo_pjsua 0 (Some ''/tmp/a.wav'')) demo_shim = (0, t)"
    using demo_record by blast
  have ok: "pv_ok (env demo_shim)" "rec_lengths demo_shim"
    using demo_var_ok by (simp_all add: rec_lengths_def demo_shim_fields)
  from record_start_stop [OF ok t] show ?thesis using t demo_var_view by (auto simp: Let_def)
qed

end
