(* ===== verification/Conference_Props.thy ===== *)
theory Conference_Props
  imports Demo
begin

text \<open>
  Conferences, muting and the wiring of a call's media, on the model of pjsua: the effect of each on
  the connections of pjsua's bridge.
\<close>

lemma sw_graph_model:
  "sw.graph H B e f L \<longleftrightarrow> pv_ok f \<and> pv_slots f = pv_slots e \<and> pv_links f = L \<and> (pv_ready e \<longrightarrow> pv_ready f)
    \<and> (\<forall>c. pjsua_call_get_info c f = pjsua_call_get_info c e)"
  by (simp add: sw.graph_def)

text \<open>
  C8. Merging two calls that both have an active audio stream returns 0 once the sound
  device is in place, and adds exactly the six connections of the three-party mesh: each call hears
  the other and the microphone, and the speaker hears both. No other connection changes.
\<close>

theorem merge_full_mesh:
  assumes "pv_ok (env s)" "pv_ready (env s)" "0 \<in> pv_slots (env s)"
    and "pjsua_call_get_info ca (env s) = Some ia" "active_slots ia = a # as" "a \<in> pv_slots (env s)"
    and "pjsua_call_get_info cb (env s) = Some ib" "active_slots ib = b # bs" "b \<in> pv_slots (env s)"
  shows "let r = run_state (pd_call_merge_conference (pjsua_model H B) ca cb) s
    in fst r = 0 \<and> pv_ok (env (snd r)) \<and> pv_slots (env (snd r)) = pv_slots (env s)
     \<and> pv_links (env (snd r)) = pv_links (env s) \<union> {(a, b), (b, a), (a, 0), (0, a), (b, 0), (0, b)}"
proof -
  obtain t where "run_state (pd_call_merge_conference (pjsua_model H B) ca cb) s = (0, t)"
    "sw.graph H B (env s) (env t) (pv_links (env s) \<union> sw.mesh a b)"
    using sw.merge_conference_ready [where s = s and H = H and B = B, OF assms(1-3) _ assms(5,6) _ assms(8,9)] assms
    by auto
  then show ?thesis by (simp add: Let_def sw_graph_model sw.mesh_def)
qed

lemma demo_active:
  "active_slots (the (pjsua_call_get_info 0 demo_var)) = [1]"
  "active_slots (the (pjsua_call_get_info 1 demo_var)) = [2]"
  by (simp_all add: demo_call_info active_slots_def active_audio_def)

theorem merge_full_mesh_witness:
  "result (pd_call_merge_conference demo_pjsua 0 1) demo_shim = 0
   \<and> pv_links (env (exec (pd_call_merge_conference demo_pjsua 0 1) demo_shim))
     = {(1, 2), (2, 1), (1, 0), (0, 1), (2, 0), (0, 2)}"
proof -
  have e: "pv_ok (env demo_shim)" "pv_ready (env demo_shim)" "0 \<in> pv_slots (env demo_shim)"
    "1 \<in> pv_slots (env demo_shim)" "2 \<in> pv_slots (env demo_shim)"
    using demo_var_ok demo_var_view by simp_all
  have i: "pjsua_call_get_info 0 (env demo_shim) = Some (the (pjsua_call_get_info 0 demo_var))"
    "pjsua_call_get_info 1 (env demo_shim) = Some (the (pjsua_call_get_info 1 demo_var))"
    by (simp_all add: demo_call_info)
  from merge_full_mesh [OF e(1-3) i(1) demo_active(1) e(4) i(2) demo_active(2) e(5)]
  show ?thesis using demo_var_view by (simp add: Let_def)
qed

text \<open>
  C32. A merge that does not return 0 returns -1; the bridge's occupied slots are what they
  were, it has made no connection that was not there before, and the roll-back has removed at most
  one.
\<close>

theorem merge_failure:
  assumes "pv_ok (env s)" "run_state (pd_call_merge_conference (pjsua_model H B) ca cb) s = (res, t)" "res \<noteq> 0"
  shows "res = -1 \<and> pv_ok (env t) \<and> pv_slots (env t) = pv_slots (env s) \<and> pv_links (env t) \<subseteq> pv_links (env s)
    \<and> (\<exists>a b. pv_links (env s) - {(a, b)} \<subseteq> pv_links (env t))"
  using sw.merge_conference_fail [OF assms] by (auto simp: sw_graph_model)

theorem merge_failure_witness:
  "result (pd_call_merge_conference demo_pjsua 0 5) demo_shim = -1
   \<and> pv_links (env (exec (pd_call_merge_conference demo_pjsua 0 5) demo_shim)) = {}"
proof -
  let ?r = "run_state (pd_call_merge_conference demo_pjsua 0 5) demo_shim"
  have "pjsua_call_get_info 5 demo_var = None"
    by (simp add: pjsua_call_get_info_def valid_call_id_def demo_var_def blank_call_def)
  then have ne: "fst ?r \<noteq> 0" by (simp add: pd_call_merge_conference_def demo_call_info)
  have r: "run_state (pd_call_merge_conference demo_pjsua 0 5) demo_shim = (fst ?r, snd ?r)" by simp
  have "pv_ok (env demo_shim)" using demo_var_ok by simp
  from merge_failure [OF this r ne] show ?thesis using demo_var_view by simp
qed

text \<open>
  C31. Muting a call cuts the microphone off its active audio streams and changes nothing
  else, so the call is still heard; unmuting it afterwards connects the microphone to each of them
  again.
\<close>

theorem mute_unmute:
  assumes "pv_ok (env s)" "pv_ready (env s)" "0 \<in> pv_slots (env s)" "mute \<noteq> 0"
    and ci: "pjsua_call_get_info c (env s) = Some ci" "set (active_slots ci) \<subseteq> pv_slots (env s)"
  shows "let t = run_state (pd_call_set_mute (pjsua_model H B) c mute) s;
         u = run_state (pd_call_set_mute (pjsua_model H B) c 0) (snd t)
    in fst t = 0 \<and> pv_links (env (snd t)) = pv_links (env s) - {0} \<times> set (active_slots ci)
     \<and> fst u = 0 \<and> pv_links (env (snd u)) = pv_links (env s) \<union> {0} \<times> set (active_slots ci)
     \<and> pv_slots (env (snd u)) = pv_slots (env s) \<and> pv_ok (env (snd u))"
proof -
  let ?P = "pjsua_model H B"
  obtain f where f: "run_state (pd_call_set_mute ?P c mute) s = (0, (entered ?P s)\<lparr>env := f\<rparr>)"
    "sw.graph H B (env s) f (pv_links (env s) - {0} \<times> set (active_slots ci))"
    using sw.set_mute_on [where s = s and H = H and B = B and c = c and ci = ci and mute = mute] assms by auto
  let ?t = "(entered ?P s)\<lparr>env := f\<rparr>"
  have t: "pv_ok (env ?t)" "pv_ready (env ?t)" "0 \<in> pv_slots (env ?t)" "set (active_slots ci) \<subseteq> pv_slots (env ?t)"
    "api_call_get_info ?P c (env ?t) = Some ci"
    using f(2) assms by (simp_all add: sw_graph_model)
  obtain g where g: "run_state (pd_call_set_mute ?P c 0) ?t = (0, (entered ?P ?t)\<lparr>env := g\<rparr>)"
    "sw.graph H B f g (pv_links f \<union> {0} \<times> set (active_slots ci))"
    using sw.set_mute_off [OF t] by auto
  then show ?thesis using f by (auto simp: Let_def sw_graph_model)
qed

theorem mute_unmute_witness:
  "result (pd_call_set_mute demo_pjsua 0 1) demo_shim = 0
   \<and> pv_links (env (exec (pd_call_set_mute demo_pjsua 0 0) (exec (pd_call_set_mute demo_pjsua 0 1) demo_shim)))
     = {(0, 1)}"
proof -
  have e: "pv_ok (env demo_shim)" "pv_ready (env demo_shim)" "0 \<in> pv_slots (env demo_shim)"
    "(1::int) \<noteq> 0" "pjsua_call_get_info 0 (env demo_shim) = Some (the (pjsua_call_get_info 0 demo_var))"
    "set (active_slots (the (pjsua_call_get_info 0 demo_var))) \<subseteq> pv_slots (env demo_shim)"
    using demo_var_ok demo_var_view by (simp_all add: demo_call_info active_slots_def active_audio_def)
  from mute_unmute [OF e] show ?thesis using demo_var_view by (simp add: Let_def demo_active)
qed

text \<open>
  When pjsua reports a media change of a call, the shim connects every active audio
  stream of the call to the speaker and the microphone to it, changes no other connection, and reports
  to Rust once, with 1 if there is such a stream and 0 otherwise.
\<close>

theorem media_state_wiring:
  assumes "pv_ok (env s)" "pv_ready (env s)" "0 \<in> pv_slots (env s)" "g_on_media s"
    and "pjsua_call_get_info c (env s) = Some ci" "set (active_slots ci) \<subseteq> pv_slots (env s)"
  shows "let t = exec (on_call_media_state (pjsua_model H B) c) s; A = set (active_slots ci)
    in pv_links (env t) = pv_links (env s) \<union> A \<times> {0} \<union> {0} \<times> A
     \<and> pv_slots (env t) = pv_slots (env s) \<and> pv_ok (env t)
     \<and> trace t = trace s @ [OnCallMedia c (if A = {} then 0 else 1)]"
proof -
  obtain f where "exec (on_call_media_state (pjsua_model H B) c) s
      = s\<lparr>env := f, trace := trace s @ [OnCallMedia c (if active_slots ci = [] then 0 else 1)]\<rparr>"
    "sw.graph H B (env s) f (pv_links (env s) \<union> set (active_slots ci) \<times> {0} \<union> {0} \<times> set (active_slots ci))"
    using sw.media_state_graph [where s = s and H = H and B = B and c = c and ci = ci] assms by auto
  then show ?thesis by (simp add: Let_def sw_graph_model)
qed

theorem media_state_wiring_witness:
  "pv_links (env (exec (on_call_media_state demo_pjsua 1) demo_shim)) = {(2, 0), (0, 2)}
   \<and> trace (exec (on_call_media_state demo_pjsua 1) demo_shim) = [OnCallMedia 1 1]"
proof -
  have e: "pv_ok (env demo_shim)" "pv_ready (env demo_shim)" "0 \<in> pv_slots (env demo_shim)"
    "g_on_media demo_shim" "pjsua_call_get_info 1 (env demo_shim) = Some (the (pjsua_call_get_info 1 demo_var))"
    "set (active_slots (the (pjsua_call_get_info 1 demo_var))) \<subseteq> pv_slots (env demo_shim)"
    using demo_var_ok demo_var_view by (simp_all add: demo_call_info active_slots_def active_audio_def demo_shim_fields)
  from media_state_wiring [OF e, of demo_hw demo_base] show ?thesis using demo_var_view
    by (auto simp: Let_def demo_active demo_shim_fields)
qed

end
