(* ===== verification/Incoming_Props.thy ===== *)
theory Incoming_Props
  imports Demo
begin

text \<open>
  The screening of incoming calls on pjsua's call table, and what the state callbacks report.
\<close>

section \<open>Other live calls\<close>

text \<open>A call with an INVITE session that is neither disconnected nor hanging up.\<close>

definition in_progress :: "int \<Rightarrow> 'x pjsua_var \<Rightarrow> bool" where
  "in_progress d v \<longleftrightarrow> valid_call_id d v \<and> \<not> hanging_up (calls v ! nat d)
     \<and> (case call_inv (calls v ! nat d) of None \<Rightarrow> False | Some st \<Rightarrow> st \<noteq> INV_DISCONNECTED)"

lemma live_loop_iff:
  "live_loop P e c ids \<longleftrightarrow>
     (\<exists>d \<in> set ids. d \<noteq> c \<and> (\<exists>ci. api_call_get_info P d e = Some ci \<and> cl_state ci \<noteq> INV_DISCONNECTED))"
  by (induction P e c ids rule: live_loop.induct) (auto split: option.splits)

lemma call_info_in_progress:
  assumes "valid_call_id d v" "call_inv (calls v ! nat d) \<noteq> None"
  shows "(\<exists>ci. pjsua_call_get_info d v = Some ci \<and> cl_state ci \<noteq> INV_DISCONNECTED) \<longleftrightarrow> in_progress d v"
  using assms by (auto simp: pjsua_call_get_info_def call_info_state_def in_progress_def Let_def split: if_splits)

lemma other_live_eq:
  assumes "length (calls (env s)) \<le> MAX_CALLS"
  shows "run_state (pd_has_other_live_call (pjsua_model H B) c) s = ((\<exists>d. d \<noteq> c \<and> in_progress d (env s)), s)"
proof -
  obtain ids where ids: "pjsua_enum_calls MAX_CALLS (env s) = Some ids"
    "set ids = {i. valid_call_id i (env s) \<and> call_inv (calls (env s) ! nat i) \<noteq> None}"
    using set_enum_calls [OF assms] by auto
  have "live_loop (pjsua_model H B) (env s) c ids \<longleftrightarrow> (\<exists>d. d \<noteq> c \<and> in_progress d (env s))"
    unfolding live_loop_iff
    using ids(2) call_info_in_progress [of _ "env s"] by (auto simp: in_progress_def split: option.splits)
  then show ?thesis using ids(1) by (simp add: pd_has_other_live_call_def)
qed

text \<open>
  With a call table of at most 8 entries, the busy check is true exactly when a
  call other than the incoming one has an INVITE session that is neither disconnected nor hanging up;
  it changes nothing.
\<close>

theorem other_live_call_exact:
  assumes "length (calls (env s)) \<le> MAX_CALLS"
  shows "(result (pd_has_other_live_call (pjsua_model H B) c) s \<longleftrightarrow> (\<exists>d. d \<noteq> c \<and> in_progress d (env s)))
    \<and> exec (pd_has_other_live_call (pjsua_model H B) c) s = s"
  by (simp add: other_live_eq [OF assms])

lemma demo_in_progress: "in_progress 0 demo_var" "in_progress 1 demo_var"
  by (simp_all add: in_progress_def valid_call_id_def demo_var_def demo_call_def blank_call_def)

theorem other_live_call_exact_witness:
  "result (pd_has_other_live_call demo_pjsua 1) demo_shim
   \<and> exec (pd_has_other_live_call demo_pjsua 1) demo_shim = demo_shim"
proof -
  have "length (calls (env demo_shim)) \<le> MAX_CALLS" by (simp add: demo_var_def)
  from other_live_call_exact [OF this, of demo_hw demo_base 1] demo_in_progress(1) show ?thesis
    by (auto intro!: exI [of _ 0])
qed

section \<open>Incoming calls\<close>

text \<open>
  C11. An incoming call is refused with 486 when do-not-disturb is on or another call is
  in progress, and Rust sees no incoming-call event for it. Otherwise pjsua is left alone and, when the
  callback is installed and the call can be described, Rust gets exactly one event, with the caller's
  identity cut to 255 bytes.
\<close>

theorem incoming_screen:
  assumes "length (calls (env s)) \<le> MAX_CALLS"
  shows "let t = exec (on_incoming_call (pjsua_model H B) acc c) s
    in if g_dnd_enabled s \<or> (\<exists>d. d \<noteq> c \<and> in_progress d (env s))
    then env t = snd (api_call_hangup B c 486 (env s))
      \<and> (\<exists>l. trace t = trace s @ l \<and> (\<forall>ev \<in> set l. \<exists>m. ev = OnLog 3 m))
    else env t = env s
      \<and> trace t = trace s @ (if g_on_incoming s
          then case pjsua_call_get_info c (env s) of None \<Rightarrow> []
               | Some ci \<Rightarrow> [OnIncomingCall acc c (take 255 (cl_remote_info ci))]
          else [])"
proof -
  define t where "t = exec (on_incoming_call (pjsua_model H B) acc c) s"
  have hang: "api_call_hangup (pjsua_model H B) = api_call_hangup B" by (simp add: pjsua_model_def)
  note busy = other_live_eq [OF assms(1), of H B c]
  show ?thesis
  proof (cases "g_dnd_enabled s \<or> (\<exists>d. d \<noteq> c \<and> in_progress d (env s))")
    case True
    then have "env t = snd (api_call_hangup B c 486 (env s))" "\<exists>m. trace t = trace s @ (if g_on_log s then [OnLog 3 m] else [])"
      unfolding t_def on_incoming_call_def by (auto simp: busy hang)
    then show ?thesis unfolding t_def [symmetric] using True by auto
  next
    case False
    then show ?thesis
      unfolding on_incoming_call_def
      by (auto simp: busy c_trunc_def split: option.splits)
  qed
qed

theorem incoming_screen_witness:
  "\<not> (\<exists>acc c uri. OnIncomingCall acc c uri \<in> set (trace (exec (on_incoming_call demo_pjsua 0 2) demo_shim)))"
proof -
  have len: "length (calls (env demo_shim)) \<le> MAX_CALLS" by (simp add: demo_var_def)
  have "\<exists>d. d \<noteq> 2 \<and> in_progress d (env demo_shim)"
    using demo_in_progress(1) by (intro exI [of _ 0]) simp
  with incoming_screen [OF len, of demo_hw demo_base 0 2] show ?thesis
    by (auto simp: demo_shim_fields Let_def)
qed

end
