(* ===== verification/Shim_Laws.thy ===== *)
theory Shim_Laws
  imports Shim_Calls Shim_Accounts
begin

text \<open>
  What the functions of the shim can do to its state whatever pjsua does: a calculus for the commands
  that only log, and the outcome of the checks that consist of such commands.
\<close>

named_theorems logs_intro \<open>commands that only log\<close>

definition is_log :: "shim_event \<Rightarrow> bool" where
  "is_log ev = (case ev of OnLog _ _ \<Rightarrow> True | _ \<Rightarrow> False)"

definition logs_only :: "('e, 'a) shim_m \<Rightarrow> bool" where
  "logs_only m \<longleftrightarrow> (\<forall>s. \<exists>l. exec m s = s\<lparr>trace := trace s @ l\<rparr> \<and> list_all is_log l)"

lemma logs_onlyE:
  assumes "logs_only m"
  obtains x l where "run_state m s = (x, s\<lparr>trace := trace s @ l\<rparr>)" "list_all is_log l"
  using assms unfolding logs_only_def by (metis prod.collapse)

text \<open>Such a command, as a change of the trace alone.\<close>

definition logged :: "('e, 'a) shim_m \<Rightarrow> 'e shim \<Rightarrow> 'e shim" where
  "logged m s = s\<lparr>trace := trace (exec m s)\<rparr>"

lemma run_logged: "logs_only m \<Longrightarrow> run_state m s = (result m s, logged m s)"
  by (erule logs_onlyE [where s = s]) (simp add: logged_def)

lemma env_logged [simp]: "env (logged m s) = env s"
  by (simp add: logged_def)

lemma logs_ret [logs_intro]: "logs_only (ret x)"
  by (auto simp: logs_only_def intro!: exI [of _ "[]"])

lemma logs_gets [logs_intro]: "logs_only (gets f)"
  by (auto simp: logs_only_def intro!: exI [of _ "[]"])

lemma logs_ask [logs_intro]: "logs_only (ask f)"
  by (simp add: ask_def logs_gets)

lemma logs_log_msg [logs_intro]: "logs_only (log_msg l m)"
  unfolding logs_only_def
proof
  fix s :: "'a shim"
  show "\<exists>k. exec (log_msg l m) s = s\<lparr>trace := trace s @ k\<rparr> \<and> list_all is_log k"
    by (cases "g_on_log s") (auto simp: is_log_def intro: exI [of _ "[OnLog l m]"] exI [of _ "[]"])
qed

lemma logs_bind [logs_intro]:
  assumes "logs_only m" "\<And>x. logs_only (n x)"
  shows "logs_only (State_Monad.bind m n)"
  unfolding logs_only_def
proof
  fix s
  obtain x l where l: "run_state m s = (x, s\<lparr>trace := trace s @ l\<rparr>)" "list_all is_log l"
    using logs_onlyE [OF assms(1)] by blast
  obtain y k where k: "run_state (n x) (s\<lparr>trace := trace s @ l\<rparr>) = (y, s\<lparr>trace := trace s @ l @ k\<rparr>)"
    "list_all is_log k"
    by (rule logs_onlyE [OF assms(2), of x "s\<lparr>trace := trace s @ l\<rparr>"]) simp
  have "exec (State_Monad.bind m n) s = s\<lparr>trace := trace s @ (l @ k)\<rparr>" by (simp add: l(1) k(1))
  then show "\<exists>j. exec (State_Monad.bind m n) s = s\<lparr>trace := trace s @ j\<rparr> \<and> list_all is_log j"
    using l(2) k(2) by (intro exI [of _ "l @ k"]) simp
qed

lemma logs_if [logs_intro]: "logs_only m \<Longrightarrow> logs_only n \<Longrightarrow> logs_only (if b then m else n)"
  by simp

lemma logs_only_if [logs_intro]: "logs_only m \<Longrightarrow> logs_only (only_if b m)"
  by (simp add: only_if_def logs_ret)

lemma logs_option [logs_intro]:
  "logs_only m \<Longrightarrow> (\<And>x. logs_only (n x)) \<Longrightarrow> logs_only (case y of None \<Rightarrow> m | Some x \<Rightarrow> n x)"
  by (cases y) auto

lemma logs_prod [logs_intro]: "(\<And>x z. logs_only (n x z)) \<Longrightarrow> logs_only (case y of (x, z) \<Rightarrow> n x z)"
  by (cases y) auto

lemma env_entered:
  "env (entered P s) = (if tls_thread_registered s (cur_thread s) \<or> api_thread_is_registered P (env s) then env s
                        else snd (api_thread_register P (env s)))"
  by (simp add: entered_def run_ensure_thread del: run_ensure_thread_entered)

section \<open>Audio checks\<close>

lemma logs_devices [logs_intro]: "logs_only (log_devices prefix cap play i ds)"
  by (induction prefix cap play i ds rule: log_devices.induct) (auto intro!: logs_intro)

lemma logs_audio_state [logs_intro]: "logs_only (pd_log_audio_state P prefix)"
  unfolding pd_log_audio_state_def by (intro logs_intro)

lemma logs_scan_media [logs_intro]: "logs_only (scan_media i ds a b)"
  by (induction i ds a b rule: scan_media.induct) (auto simp: Let_def intro!: logs_intro)

lemma logs_check_media [logs_intro]: "logs_only (pd_check_media_ready P)"
  unfolding pd_check_media_ready_def by (intro logs_intro)

lemma logs_device_exists [logs_intro]: "logs_only (pd_audio_device_exists P i a b prefix)"
  unfolding pd_audio_device_exists_def by (intro logs_intro)

lemma logs_select_transport [logs_intro]: "logs_only (select_transport i)"
  unfolding select_transport_def by (intro logs_intro)

text \<open>The status of the readiness check, as a function of what pjsua enumerates.\<close>

definition media_status :: "'e pjsua \<Rightarrow> 'e \<Rightarrow> pj_status" where
  "media_status P e =
     (if fst (api_enum_aud_devs P 64 e) \<noteq> PJ_SUCCESS then fst (api_enum_aud_devs P 64 e)
      else if snd (api_enum_aud_devs P 64 e) = [] then PJMEDIA_EAUD_NODEVICES else PJ_SUCCESS)"

lemma run_audio_state [simp]:
  "run_state (pd_log_audio_state P x) s = ((), logged (pd_log_audio_state P x) s)"
  using run_logged [OF logs_audio_state, of P x s] by simp

definition scan_result :: "nat \<Rightarrow> aud_dev list \<Rightarrow> bool \<Rightarrow> bool \<Rightarrow> 'e shim \<Rightarrow> bool \<times> bool" where
  "scan_result i ds a b s = result (scan_media i ds a b) s"

lemma run_scan_media [simp]:
  "run_state (scan_media i ds a b) s = (scan_result i ds a b s, logged (scan_media i ds a b) s)"
  unfolding scan_result_def by (rule run_logged [OF logs_scan_media])

lemma result_check_media: "result (pd_check_media_ready P) s = media_status P (env s)"
  by (cases "api_enum_aud_devs P 64 (env s)")
    (simp add: pd_check_media_ready_def media_status_def split: prod.splits)

lemma run_check_media [simp]:
  "run_state (pd_check_media_ready P) s = (media_status P (env s), logged (pd_check_media_ready P) s)"
  using run_logged [OF logs_check_media, of P s] by (simp add: result_check_media)

text \<open>A device id is acceptable for a direction if it is in range and the device has channels for it.\<close>

definition device_ok :: "aud_dev list \<Rightarrow> nat \<Rightarrow> bool \<Rightarrow> bool \<Rightarrow> bool" where
  "device_ok ds i input output \<longleftrightarrow> i < length ds
     \<and> (input \<longrightarrow> 0 < input_count (ds ! i)) \<and> (output \<longrightarrow> 0 < output_count (ds ! i))"

lemma run_device_exists [simp]:
  "run_state (pd_audio_device_exists P i a b x) s =
     (fst (api_enum_aud_devs P 64 (env s)) = PJ_SUCCESS \<and> device_ok (snd (api_enum_aud_devs P 64 (env s))) i a b,
      logged (pd_audio_device_exists P i a b x) s)"
proof -
  have "result (pd_audio_device_exists P i a b x) s
      \<longleftrightarrow> fst (api_enum_aud_devs P 64 (env s)) = PJ_SUCCESS \<and> device_ok (snd (api_enum_aud_devs P 64 (env s))) i a b"
    by (cases "api_enum_aud_devs P 64 (env s)") (auto simp: pd_audio_device_exists_def device_ok_def)
  then show ?thesis using run_logged [OF logs_device_exists, of P i a b x s] by simp
qed

end
