(* ===== verification/Call_Props.thy ===== *)
theory Call_Props
  imports Demo Shim_Laws
begin

text \<open>
  Call control: which calls into pjsua a request from Rust leads to and what it returns, for any
  functions of pjsua.
\<close>

section \<open>Making calls\<close>

text \<open>The attempts to make a call: what is returned and the state pjsua is left in.\<close>

definition call_attempts :: "'e pjsua \<Rightarrow> int \<Rightarrow> string \<Rightarrow> 'e \<Rightarrow> int \<times> 'e" where
  "call_attempts P acc dst e =
     (let ((st, k), e1) = api_call_make_call P acc dst e in
      if st = PJ_SUCCESS then (k, e1)
      else if audio_dev_error st then
        (let ((st2, k2), e2) = api_call_make_call P acc dst (snd (api_set_snd_dev P (-1) (-1) e1)) in (- st2, e2))
      else (- st, e1))"

text \<open>
  Making a call does nothing to pjsua when no audio device can be enumerated, and
  returns the negated status. Otherwise it makes one attempt, and exactly one more, with the system's
  default devices, when the first one failed on the audio device. It returns the id of the call if the
  first attempt succeeds and the negated status of the last attempt if it does not.
\<close>

theorem call_make_attempts:
  "let e = env (entered P s); r = run_state (pd_call_make P acc dst) s
   in (fst r, env (snd r)) =
      (if media_status P e \<noteq> PJ_SUCCESS then (- media_status P e, e) else call_attempts P acc (S dst) e)"
proof -
  let ?e = "env (entered P s)"
  obtain st k e1 where c: "api_call_make_call P acc (S dst) ?e = ((st, k), e1)" by (metis surj_pair)
  obtain st2 k2 e2 where c2: "api_call_make_call P acc (S dst) (snd (api_set_snd_dev P (-1) (-1) e1)) = ((st2, k2), e2)"
    by (metis surj_pair)
  show ?thesis
    by (simp add: pd_call_make_def retry_call_def call_attempts_def Let_def c c2)
qed

text \<open>
  When the first attempt fails on the audio device and the second succeeds
  with a call \<open>k\<close>, the result is 0 and not \<open>k\<close>.
\<close>

theorem call_make_retry_loses_id:
  assumes "media_status P (env (entered P s)) = PJ_SUCCESS"
    and "api_call_make_call P acc (S dst) (env (entered P s)) = ((st, k1), e1)" "audio_dev_error st"
    and "api_call_make_call P acc (S dst) (snd (api_set_snd_dev P (-1) (-1) e1)) = ((PJ_SUCCESS, k), e2)"
  shows "result (pd_call_make P acc dst) s = 0 \<and> env (exec (pd_call_make P acc dst) s) = e2"
proof -
  have "st \<noteq> PJ_SUCCESS" using assms(3) by (auto simp: audio_dev_error_def)
  then show ?thesis
    using call_make_attempts [of P s acc dst] assms by (auto simp: Let_def call_attempts_def)
qed

text \<open>A pjsua whose first attempt at a call finds the audio device gone; the second makes call 7.\<close>

definition flaky_pjsua :: "bool pjsua" where
  "flaky_pjsua = demo_base\<lparr>
     api_call_make_call := (\<lambda>_ _ tried. if tried then ((0, 7), tried) else ((420006, -1), tried)),
     api_set_snd_dev := (\<lambda>_ _ _. (0, True))\<rparr>"

theorem call_make_retry_loses_id_witness:
  "result (pd_call_make flaky_pjsua 0 (Some ''sip:bob@example.com'')) (shim_load False) = 0"
proof -
  have e: "env (entered flaky_pjsua (shim_load False)) = False"
    by (simp add: env_entered shim_load_def flaky_pjsua_def demo_base_def)
  have "media_status flaky_pjsua (env (entered flaky_pjsua (shim_load False))) = PJ_SUCCESS"
    "api_call_make_call flaky_pjsua 0 (S (Some ''sip:bob@example.com'')) (env (entered flaky_pjsua (shim_load False)))
      = ((420006, -1), False)"
    "audio_dev_error 420006"
    "api_call_make_call flaky_pjsua 0 (S (Some ''sip:bob@example.com'')) (snd (api_set_snd_dev flaky_pjsua (-1) (-1) False))
      = ((PJ_SUCCESS, 7), True)"
    unfolding e by (simp_all add: media_status_def flaky_pjsua_def demo_base_def audio_dev_error_def S_def)
  from call_make_retry_loses_id [OF this] show ?thesis by simp
qed

section \<open>Transfers\<close>

text \<open>
  Completing an attended transfer sends the REFER for call A with the first 255
  bytes of call B's remote identity, then hangs up call B whether or not the REFER was accepted; the
  result is the status of the REFER. When B cannot be described nothing is sent.
\<close>

theorem complete_xfer_ends_b:
  "let e = env (entered P s); r = run_state (pd_call_complete_xfer P a b) s
   in (fst r, env (snd r)) =
      (case api_call_get_info P b e of
         None \<Rightarrow> (-1, e)
       | Some ci \<Rightarrow>
           (let (st, e1) = api_call_xfer P a (take 255 (cl_remote_info ci)) e
            in (st, snd (api_call_hangup P b 0 e1))))"
proof (cases "api_call_get_info P b (env (entered P s))")
  case None
  then show ?thesis by (simp add: pd_call_complete_xfer_def Let_def)
next
  case (Some ci)
  then show ?thesis
    by (cases "api_call_xfer P a (take 255 (cl_remote_info ci)) (env (entered P s))")
      (simp add: pd_call_complete_xfer_def Let_def c_trunc_def)
qed

text \<open>
  Starting an attended transfer puts the call on hold and goes on even when that
  fails; the consultation call is made on the account of the first call, and its id is returned. Every
  failure returns -1, with the first call left as the hold request left it.
\<close>

theorem start_xfer_consults:
  assumes "S dst \<noteq> []"
  shows "let e1 = snd (api_call_set_hold P c (env (entered P s)));
      r = run_state (pd_call_start_attended_xfer P c dst) s
    in (fst r, env (snd r)) =
      (case api_call_get_info P c e1 of
         None \<Rightarrow> (-1, e1)
       | Some ci \<Rightarrow>
           (let ((st, k), e2) = api_call_make_call P (cl_acc_id ci) (S dst) e1
            in (if st = PJ_SUCCESS then k else -1, e2)))"
proof -
  have ne: "nonempty dst" using assms by (cases dst) (simp_all add: S_def)
  let ?e1 = "snd (api_call_set_hold P c (env (entered P s)))"
  show ?thesis
  proof (cases "api_call_get_info P c ?e1")
    case None
    then show ?thesis using ne by (simp add: pd_call_start_attended_xfer_def Let_def)
  next
    case (Some ci)
    obtain st k e2 where "api_call_make_call P (cl_acc_id ci) (S dst) ?e1 = ((st, k), e2)" by (metis surj_pair)
    then show ?thesis using ne Some by (simp add: pd_call_start_attended_xfer_def Let_def)
  qed
qed

theorem start_xfer_consults_witness:
  "result (pd_call_start_attended_xfer demo_pjsua 0 (Some ''sip:carol@example.com'')) demo_shim = 2"
proof -
  have "S (Some ''sip:carol@example.com'') \<noteq> []" by (simp add: S_def)
  from start_xfer_consults [OF this, of demo_pjsua 0 demo_shim] show ?thesis
    by (simp add: Let_def pjsua_model_def demo_base_def demo_call_info)
qed

end
