(* ===== verification/Account_Store.thy ===== *)
theory Account_Store
  imports Shim_Laws
begin

text \<open>
  The per-account settings as a keyed store: the contract of a setter and its getter, the law that a
  read returns the last write, and the four pairs of the shim that keep the contract.
\<close>

lemma entered_simps [simp]:
  "g_acc_forward (entered P s) = g_acc_forward s" "g_acc_config (entered P s) = g_acc_config s"
  "g_acc_auto_answer (entered P s) = g_acc_auto_answer s" "g_acc_dtmf_method (entered P s) = g_acc_dtmf_method s"
  "g_global_dtmf_method (entered P s) = g_global_dtmf_method s" "trace (entered P s) = trace s"
  "g_on_log (entered P s) = g_on_log s" "g_udp_tp (entered P s) = g_udp_tp s"
  "g_tcp_tp (entered P s) = g_tcp_tp s" "g_tls_tp (entered P s) = g_tls_tp s"
  by (rule entered_fields [of P s], simp)+

text \<open>The arrays of the settings have their declared length.\<close>

definition settings_ok :: "'e shim \<Rightarrow> bool" where
  "settings_ok s \<longleftrightarrow> length (g_acc_forward s) = MAX_ACCOUNTS \<and> length (g_acc_config s) = MAX_ACCOUNTS
     \<and> length (g_acc_auto_answer s) = MAX_ACCOUNTS \<and> length (g_acc_dtmf_method s) = MAX_ACCOUNTS"

section \<open>The contract\<close>

locale account_store =
  fixes set :: "int \<Rightarrow> 'v \<Rightarrow> ('e, int) shim_m"
    and get :: "int \<Rightarrow> ('e, 'w) shim_m"
    and seen :: "'v \<Rightarrow> 'w"
  assumes set_get: "settings_ok s \<Longrightarrow> valid_acc a \<Longrightarrow> result (get a) (exec (set a v) s) = seen v"
    and set_other: "settings_ok s \<Longrightarrow> a \<noteq> b \<or> \<not> valid_acc a \<Longrightarrow> result (get b) (exec (set a v) s) = result (get b) s"
    and set_ok: "settings_ok s \<Longrightarrow> settings_ok (exec (set a v) s)"
    and set_result: "result (set a v) s = (if valid_acc a then 0 else -1)"
begin

definition store :: "int \<times> 'v \<Rightarrow> ('e, unit) shim_m" where
  "store w = do { _ \<leftarrow> set (fst w) (snd w); ret () }"

lemma exec_store: "exec (store w) s = exec (set (fst w) (snd w)) s"
  by (simp add: store_def split: prod.splits)

lemma last_write:
  assumes "settings_ok s" "valid_acc a"
  shows "result (get a) (exec (for_each ws store) s)
    = (case map_of (rev ws) a of Some v \<Rightarrow> seen v | None \<Rightarrow> result (get a) s)"
  using assms(1)
proof (induction ws arbitrary: s)
  case Nil
  then show ?case by simp
next
  case (Cons w ws)
  let ?t = "exec (set (fst w) (snd w)) s"
  have "exec (for_each (w # ws) store) s = exec (for_each ws store) ?t"
    using exec_store [of w s] by (cases "run_state (store w) s") simp
  moreover have "settings_ok ?t" by (rule set_ok [OF Cons.prems])
  ultimately have *: "result (get a) (exec (for_each (w # ws) store) s)
      = (case map_of (rev ws) a of Some v \<Rightarrow> seen v | None \<Rightarrow> result (get a) ?t)"
    using Cons.IH by simp
  have "result (get a) ?t = (if fst w = a then seen (snd w) else result (get a) s)"
    using set_get [OF Cons.prems assms(2)] set_other [OF Cons.prems] by auto
  then show ?case unfolding * by (auto simp: map_add_def split: option.splits)
qed

end

section \<open>The settings of the shim\<close>

lemma valid_acc_nat: "valid_acc a \<Longrightarrow> 0 \<le> a \<and> nat a < 4"
  by (auto simp: valid_acc_def)

lemma settings_ok_entered [simp]: "settings_ok (entered P s) = settings_ok s"
  by (simp add: settings_ok_def)

definition clip :: "nat \<Rightarrow> string option \<Rightarrow> string" where
  "clip n p = take n (S p)"

lemma S_empty: "\<not> nonempty p \<Longrightarrow> S p = []"
  by (cases p) (auto simp: S_def)

lemma elem_put_acc [simp]:
  "length xs = MAX_ACCOUNTS \<Longrightarrow> valid_acc a \<Longrightarrow> valid_acc b \<Longrightarrow>
   elem (put xs a v) b = (if a = b then v else elem xs b)"
  by (rule elem_put) (auto dest: valid_acc_nat)

interpretation forward: account_store
  "\<lambda>a v. pd_acc_set_forward P a (fst v) (snd v)" "\<lambda>a. pd_acc_get_forward P a n"
  "\<lambda>v. (0, if n > 0 then Some (take (nat n - 1) (clip 255 (fst v))) else None, Some (snd v))"
  for P :: "'e pjsua" and n
  by unfold_locales
    (auto simp: pd_acc_set_forward_def pd_acc_get_forward_def clip_def S_empty c_trunc_def settings_ok_def)

interpretation lookup: account_store
  "pd_acc_set_lookup_url P" "\<lambda>a. pd_acc_get_lookup_url P a n"
  "\<lambda>v. (0, if n > 0 then Some (take (nat n - 1) (clip 255 v)) else None)"
  for P :: "'e pjsua" and n
  by unfold_locales
    (auto simp: pd_acc_set_lookup_url_def pd_acc_get_lookup_url_def clip_def S_empty c_trunc_def settings_ok_def)

interpretation auto_answer: account_store
  "\<lambda>a v. pd_acc_set_auto_answer P a (fst v) (snd v)" "pd_acc_get_auto_answer P" "\<lambda>v. (0, Some v)"
  for P :: "'e pjsua"
  by unfold_locales (auto simp: pd_acc_set_auto_answer_def pd_acc_get_auto_answer_def settings_ok_def)

interpretation dtmf: account_store
  "pd_acc_set_dtmf_method P" "pd_acc_get_dtmf_method P" "\<lambda>m. (0, Some m)"
  for P :: "'e pjsua"
  by unfold_locales (auto simp: pd_acc_set_dtmf_method_def pd_acc_get_dtmf_method_def settings_ok_def)

end
