(* ===== verification/Account_Props.thy ===== *)
theory Account_Props
  imports Account_Store Demo
begin

text \<open>The settings Rust keeps in the shim, the request for a new account, and the codec switch.\<close>

text \<open>
  C21. After any sequence of writes to the forwarding, lookup-URL, auto-answer or DTMF
  settings of any accounts, valid or not, reading a setting of a valid account gives the last value
  written to that account, texts cut to 255 bytes and to the reader's buffer, or what was there before
  if none was written.
\<close>

theorem settings_last_write:
  assumes "settings_ok s" "valid_acc a" "0 < n"
  shows "result (pd_acc_get_forward P a n)
        (exec (for_each fs (\<lambda>w. do { _ \<leftarrow> pd_acc_set_forward P (fst w) (fst (snd w)) (snd (snd w)); ret () })) s)
      = (case map_of (rev fs) a of
           Some (uri, flags) \<Rightarrow> (0, Some (take (nat n - 1) (clip 255 uri)), Some flags)
         | None \<Rightarrow> result (pd_acc_get_forward P a n) s)
    \<and> result (pd_acc_get_lookup_url P a n)
        (exec (for_each us (\<lambda>w. do { _ \<leftarrow> pd_acc_set_lookup_url P (fst w) (snd w); ret () })) s)
      = (case map_of (rev us) a of
           Some url \<Rightarrow> (0, Some (take (nat n - 1) (clip 255 url)))
         | None \<Rightarrow> result (pd_acc_get_lookup_url P a n) s)
    \<and> result (pd_acc_get_auto_answer P a)
        (exec (for_each as (\<lambda>w. do { _ \<leftarrow> pd_acc_set_auto_answer P (fst w) (fst (snd w)) (snd (snd w)); ret () })) s)
      = (case map_of (rev as) a of Some v \<Rightarrow> (0, Some v) | None \<Rightarrow> result (pd_acc_get_auto_answer P a) s)
    \<and> result (pd_acc_get_dtmf_method P a)
        (exec (for_each ms (\<lambda>w. do { _ \<leftarrow> pd_acc_set_dtmf_method P (fst w) (snd w); ret () })) s)
      = (case map_of (rev ms) a of Some m \<Rightarrow> (0, Some m) | None \<Rightarrow> result (pd_acc_get_dtmf_method P a) s)"
  using forward.last_write [OF assms(1,2), of P n fs] lookup.last_write [OF assms(1,2), of P n us]
    auto_answer.last_write [OF assms(1,2), of P as] dtmf.last_write [OF assms(1,2), of P ms] assms(3)
  by (simp_all add: forward.store_def [abs_def] lookup.store_def [abs_def] auto_answer.store_def [abs_def]
      dtmf.store_def [abs_def] split: option.splits prod.splits)

theorem settings_last_write_witness:
  "result (pd_acc_get_dtmf_method demo_pjsua 1)
     (exec (for_each [(1, 2), (2, 3), (1, 1), (7, 0)]
       (\<lambda>w. do { _ \<leftarrow> pd_acc_set_dtmf_method demo_pjsua (fst w) (snd w); ret () })) demo_shim) = (0, Some 1)"
proof -
  have ok: "settings_ok demo_shim" "valid_acc 1" "0 < (4::int)"
    by (simp_all add: settings_ok_def valid_acc_def demo_shim_def pd_reset_recording_state_def save_callbacks_def
        shim_load_def)
  note w = settings_last_write [OF ok, of demo_pjsua "[]" "[]" "[]" "[(1, 2), (2, 3), (1, 1), (7, 0)]"]
  then have "result (pd_acc_get_dtmf_method demo_pjsua 1)
     (exec (for_each [(1, 2), (2, 3), (1, 1), (7, 0)]
       (\<lambda>w. do { _ \<leftarrow> pd_acc_set_dtmf_method demo_pjsua (fst w) (snd w); ret () })) demo_shim)
     = (case map_of (rev [(1, 2), (2, 3), (1, 1), (7, 0)]) (1::int) of Some m \<Rightarrow> (0, Some m)
        | None \<Rightarrow> result (pd_acc_get_dtmf_method demo_pjsua 1) demo_shim)"
    by (elim conjE)
  then show ?thesis by (simp del: for_each.simps)
qed

section \<open>The global DTMF method\<close>

lemma run_unit: "exec m s = t \<Longrightarrow> run_state m s = ((), t)"
  by (cases "run_state m s") simp

lemma dtmf_loop:
  assumes "length (g_acc_dtmf_method s) = MAX_ACCOUNTS" "\<forall>i \<in> set ids. 0 \<le> i"
  shows "exec (for_each ids (\<lambda>i. only_if (i \<noteq> PJSUA_INVALID_ID \<and> i < int MAX_ACCOUNTS)
      (modify (\<lambda>s. s\<lparr>g_acc_dtmf_method := put (g_acc_dtmf_method s) i m\<rparr>)))) s
    = s\<lparr>g_acc_dtmf_method := map (\<lambda>i. if int i \<in> set ids then m else g_acc_dtmf_method s ! i) [0..<MAX_ACCOUNTS]\<rparr>"
  using assms
proof (induction ids arbitrary: s)
  case Nil
  have "map ((!) (g_acc_dtmf_method s)) [0..<length (g_acc_dtmf_method s)] = g_acc_dtmf_method s"
    by (rule map_nth)
  then show ?case using Nil by simp
next
  case (Cons i ids)
  let ?f = "\<lambda>i. only_if (i \<noteq> PJSUA_INVALID_ID \<and> i < int MAX_ACCOUNTS)
      (modify (\<lambda>s. s\<lparr>g_acc_dtmf_method := put (g_acc_dtmf_method s) i m\<rparr>))"
  let ?t = "exec (?f i) s"
  have "exec (for_each (i # ids) ?f) s = exec (for_each ids ?f) ?t"
    by (cases "run_state (?f i) s") simp
  also have "\<dots> = ?t\<lparr>g_acc_dtmf_method := map (\<lambda>j. if int j \<in> set ids then m else g_acc_dtmf_method ?t ! j) [0..<MAX_ACCOUNTS]\<rparr>"
    using Cons by (intro Cons.IH) auto
  also have "\<dots> = s\<lparr>g_acc_dtmf_method :=
      map (\<lambda>j. if int j \<in> set (i # ids) then m else g_acc_dtmf_method s ! j) [0..<MAX_ACCOUNTS]\<rparr>"
  proof -
    have "map (\<lambda>j. if int j \<in> set ids then m else g_acc_dtmf_method ?t ! j) [0..<MAX_ACCOUNTS]
        = map (\<lambda>j. if int j \<in> set (i # ids) then m else g_acc_dtmf_method s ! j) [0..<MAX_ACCOUNTS]"
      using Cons.prems by (intro map_cong) (auto simp: put_def nth_list_update)
    then show ?thesis by (simp del: upt_rec_numeral)
  qed
  finally show ?case .
qed

text \<open>
  Setting the global DTMF method returns 0, makes it the method of each of the
  first four accounts pjsua enumerates, and leaves the method of every other account as it was.
\<close>

theorem global_dtmf_applies:
  assumes "settings_ok s" "api_enum_accs P 4 (env s) = Some ids" "\<forall>i \<in> set ids. 0 \<le> i" "valid_acc a"
  shows "let r = run_state (pd_set_global_dtmf_method P m) s
    in fst r = 0 \<and> result pd_get_global_dtmf_method (snd r) = (0, m)
     \<and> g_acc_dtmf_method (snd r) ! nat a = (if a \<in> set (take 4 ids) then m else g_acc_dtmf_method s ! nat a)"
proof -
  let ?s = "s\<lparr>g_global_dtmf_method := m\<rparr>"
  have pre: "length (g_acc_dtmf_method ?s) = MAX_ACCOUNTS" "\<forall>i \<in> set (take MAX_ACCOUNTS ids). 0 \<le> i"
    using assms(1,3) set_take_subset [of MAX_ACCOUNTS ids] by (auto simp: settings_ok_def)
  have "run_state (pd_set_global_dtmf_method P m) s
      = (0, ?s\<lparr>g_acc_dtmf_method := map (\<lambda>i. if int i \<in> set (take MAX_ACCOUNTS ids) then m
                                          else g_acc_dtmf_method s ! i) [0..<MAX_ACCOUNTS]\<rparr>)"
    using run_unit [OF dtmf_loop [OF pre, of m]] assms(2)
    by (simp add: pd_set_global_dtmf_method_def pd_enum_account_ids_def del: upt_rec_numeral)
  moreover have "nat a < 4" "0 \<le> a" using assms(4) valid_acc_nat by auto
  ultimately show ?thesis by (simp add: Let_def pd_get_global_dtmf_method_def del: upt_rec_numeral)
qed

theorem global_dtmf_applies_witness:
  "g_acc_dtmf_method (exec (pd_set_global_dtmf_method demo_pjsua 2) demo_shim) ! 1 = 2"
proof -
  have "settings_ok demo_shim" "api_enum_accs demo_pjsua 4 (env demo_shim) = Some [0, 1]"
    "\<forall>i \<in> set [0, 1]. 0 \<le> (i::int)" "valid_acc 1"
    by (simp_all add: settings_ok_def valid_acc_def demo_shim_def pd_reset_recording_state_def save_callbacks_def
        shim_load_def demo_enum_accs)
  from global_dtmf_applies [OF this, of 2] show ?thesis by (simp add: Let_def)
qed

section \<open>Adding an account\<close>

definition chosen_transport :: "int \<Rightarrow> 'e shim \<Rightarrow> int" where
  "chosen_transport tp s =
     (if tp = 2 \<and> g_tls_tp s \<noteq> PJSUA_INVALID_ID then g_tls_tp s
      else if tp = 1 \<and> g_tcp_tp s \<noteq> PJSUA_INVALID_ID then g_tcp_tp s
      else if tp = 3 then PJSUA_INVALID_ID else g_udp_tp s)"

lemma acc_add_run:
  "\<exists>cfg. (let r = run_state (pd_acc_add P uri reg user pw auth proxy tp stun pub name) s
       in (fst r, env (snd r))) =
      (let ((st, k), e) = api_acc_add P cfg True (env (entered P s)) in (if st = PJ_SUCCESS then k else -1, e))
    \<and> ac_id cfg = account_id name uri \<and> ac_reg_uri cfg = S reg
    \<and> ac_cred_username cfg = S (if nonempty auth then auth else user)
    \<and> ac_proxy cfg = (if nonempty proxy then [S proxy] else []) \<and> ac_transport_id cfg = chosen_transport tp s"
proof -
  have res: "result (select_transport tp) (entered P s) = chosen_transport tp s"
    by (simp add: select_transport_def chosen_transport_def)
  have sel: "run_state (select_transport tp) (entered P s)
      = (chosen_transport tp s, logged (select_transport tp) (entered P s))"
    using run_logged [OF logs_select_transport, of tp "entered P s"] unfolding res .
  define cfg where "cfg = \<lparr>ac_id = account_id name uri, ac_reg_uri = S reg, ac_publish_enabled = (pub \<noteq> 0),
       ac_cred_realm = ''*'', ac_cred_scheme = ''digest'',
       ac_cred_username = S (if nonempty auth then auth else user), ac_cred_data = S pw,
       ac_proxy = (if nonempty proxy then [S proxy] else []), ac_transport_id = chosen_transport tp s\<rparr>"
  obtain st k e where c: "api_acc_add P cfg True (env (entered P s)) = ((st, k), e)" by (metis surj_pair)
  have "(let r = run_state (pd_acc_add P uri reg user pw auth proxy tp stun pub name) s in (fst r, env (snd r)))
      = (if st = PJ_SUCCESS then k else -1, e)"
    unfolding pd_acc_add_def by (simp add: sel c [unfolded cfg_def] Let_def)
  then show ?thesis by (intro exI [of _ cfg]) (simp add: c, simp add: cfg_def)
qed

text \<open>
  Adding an account makes one request to pjsua and returns the new id or -1. The
  request carries an identity of at most 511 bytes when a display name is given and the URI as it is
  otherwise, the authentication name or else the user name, at most one proxy, and the transport: the
  TLS or TCP one when it was asked for and exists, none when left to pjsua, and UDP in all other
  cases, so that a missing TLS transport silently becomes UDP.
\<close>

theorem acc_add_request:
  "\<exists>cfg. (let r = run_state (pd_acc_add P uri reg user pw auth proxy tp stun pub name) s
       in (fst r, env (snd r))) =
      (let ((st, k), e) = api_acc_add P cfg True (env (entered P s)) in (if st = PJ_SUCCESS then k else -1, e))
    \<and> (if nonempty name then length (ac_id cfg) \<le> 511 else ac_id cfg = S uri)
    \<and> ac_cred_username cfg = (if S auth = [] then S user else S auth)
    \<and> ac_proxy cfg = (if S proxy = [] then [] else [S proxy])
    \<and> ac_transport_id cfg =
        (if tp = 2 \<and> g_tls_tp s \<noteq> PJSUA_INVALID_ID then g_tls_tp s
         else if tp = 1 \<and> g_tcp_tp s \<noteq> PJSUA_INVALID_ID then g_tcp_tp s
         else if tp = 3 then PJSUA_INVALID_ID else g_udp_tp s)"
proof -
  have S_ne: "nonempty p \<longleftrightarrow> S p \<noteq> []" for p by (cases p) (auto simp: S_def)
  from acc_add_run [of P uri reg user pw auth proxy tp stun pub name s] show ?thesis
    using length_fmt [of 512] by (force simp: account_id_def chosen_transport_def S_ne)
qed

section \<open>Codecs\<close>

lemma find_codec_iff: "find_codec cs c \<longleftrightarrow> c \<in> set cs"
  by (induction cs c rule: find_codec.induct) auto

text \<open>
  Switching a codec on or off sets its priority to 255 or 0 in pjsua when the codec
  is one of those enumerated, and fails with -1 and no effect otherwise; the account it is meant for
  makes no difference.
\<close>

theorem set_codec_global:
  "let e = env (entered P s); r = run_state (pd_acc_set_codec P acc (Some cid) on) s
   in (fst r, env (snd r)) =
     (case api_enum_codecs P 32 e of
        Some cs \<Rightarrow> if cid \<in> set cs then (0, snd (api_codec_set_priority P cid (if on = 0 then 0 else 255) e))
                   else (-1, e)
      | None \<Rightarrow> (-1, e))"
  by (cases "api_enum_codecs P 32 (env (entered P s))")
    (simp_all add: pd_acc_set_codec_def Let_def find_codec_iff)

end
