(* ===== verification/Blf_Props.thy ===== *)
theory Blf_Props
  imports Demo Shim_Laws
begin

text \<open>BLF: what a buddy's notification reports, and what subscribing and unsubscribing do to pjsua's buddy list.\<close>

section \<open>Notifications\<close>

text \<open>
  A notification for a buddy pjsua can describe reaches Rust as exactly one event after at
  most one log line, with the URI cut to 255 bytes and a state from 0 to 6: 6 for an ended
  subscription, 5, 2 or 3, and 4 for the presence of an open one that is closed, busy (3 when the
  note mentions ringing) or away, 1 when it is none of these, and 0 or 1 when there is no presence.
\<close>

theorem blf_report:
  assumes "g_on_blf_status s" "api_buddy_get_info P b (env s) = Some info"
  shows "\<exists>l st act. trace (exec (on_blf_notify P b) s) = trace s @ l @ [OnBlfStatus (take 255 (bi_uri info)) st act]
    \<and> length l \<le> 1 \<and> list_all is_log l \<and> 0 \<le> st \<and> st \<le> 6
    \<and> (st = 6 \<longleftrightarrow> bi_sub_state info = EVSUB_TERMINATED)
    \<and> (st \<in> {2, 3, 4, 5} \<longleftrightarrow> bi_sub_state info \<in> {EVSUB_ACTIVE, EVSUB_PENDING} \<and> bi_pres info \<noteq> []
         \<and> (\<not> pr_basic_open (hd (bi_pres info)) \<or> pr_activity (hd (bi_pres info)) \<noteq> RPID_UNKNOWN))
    \<and> (st = 5 \<longrightarrow> \<not> pr_basic_open (hd (bi_pres info)))
    \<and> (st = 3 \<longrightarrow> strstr (map pj_tolower (take 127 (pr_note (hd (bi_pres info))))) ''ring'')
    \<and> (st = 1 \<and> bi_sub_state info = EVSUB_PENDING \<longrightarrow> bi_pres info \<noteq> [])"
proof -
  obtain st act where b: "blf_state info = (st, act)" by (metis surj_pair)
  have r: "0 \<le> st \<and> st \<le> 6 \<and> (st = 6 \<longleftrightarrow> bi_sub_state info = EVSUB_TERMINATED)
    \<and> (st \<in> {2, 3, 4, 5} \<longleftrightarrow> bi_sub_state info \<in> {EVSUB_ACTIVE, EVSUB_PENDING} \<and> bi_pres info \<noteq> []
         \<and> (\<not> pr_basic_open (hd (bi_pres info)) \<or> pr_activity (hd (bi_pres info)) \<noteq> RPID_UNKNOWN))
    \<and> (st = 5 \<longrightarrow> \<not> pr_basic_open (hd (bi_pres info)))
    \<and> (st = 3 \<longrightarrow> strstr (map pj_tolower (take 127 (pr_note (hd (bi_pres info))))) ''ring'')
    \<and> (st = 1 \<and> bi_sub_state info = EVSUB_PENDING \<longrightarrow> bi_pres info \<noteq> [])"
  proof (cases "bi_pres info")
    case Nil
    then show ?thesis using b by (auto simp: blf_state_def Let_def split: if_splits)
  next
    case (Cons pr rest)
    then show ?thesis using b
      by (cases "pr_activity pr") (auto simp: blf_state_def Let_def c_trunc_def split: if_splits)
  qed
  have "\<exists>l. trace (exec (on_blf_notify P b) s) = trace s @ l @ [OnBlfStatus (take 255 (bi_uri info)) st act]
    \<and> length l \<le> 1 \<and> list_all is_log l"
    using assms by (cases "g_on_log s") (auto simp: on_blf_notify_def b Let_def c_trunc_def is_log_def)
  then show ?thesis using r by blast
qed

definition ringing_buddy :: buddy_info where
  "ringing_buddy = \<lparr>bi_uri = ''sip:201@example.com'', bi_sub_state = EVSUB_ACTIVE, bi_term_reason = '''',
     bi_pres = [\<lparr>pr_basic_open = True, pr_activity = RPID_BUSY, pr_note = ''Ringing''\<rparr>]\<rparr>"

theorem blf_report_witness:
  "\<exists>st act. OnBlfStatus ''sip:201@example.com'' st act
      \<in> set (trace (exec (on_blf_notify (demo_base\<lparr>api_buddy_get_info := (\<lambda>_ _. Some ringing_buddy)\<rparr>) 0) demo_shim))
    \<and> st \<in> {2, 3, 4, 5}"
proof -
  have "g_on_blf_status demo_shim"
    "api_buddy_get_info (demo_base\<lparr>api_buddy_get_info := (\<lambda>_ _. Some ringing_buddy)\<rparr>) 0 (env demo_shim)
      = Some ringing_buddy"
    by (simp_all add: demo_shim_fields)
  from blf_report [OF this] obtain l st act where
    t: "trace (exec (on_blf_notify (demo_base\<lparr>api_buddy_get_info := (\<lambda>_ _. Some ringing_buddy)\<rparr>) 0) demo_shim)
      = trace demo_shim @ l @ [OnBlfStatus (take 255 (bi_uri ringing_buddy)) st act]"
    "st \<in> {2, 3, 4, 5} \<longleftrightarrow> bi_sub_state ringing_buddy \<in> {EVSUB_ACTIVE, EVSUB_PENDING} \<and> bi_pres ringing_buddy \<noteq> []
       \<and> (\<not> pr_basic_open (hd (bi_pres ringing_buddy)) \<or> pr_activity (hd (bi_pres ringing_buddy)) \<noteq> RPID_UNKNOWN)"
    by (elim exE conjE) simp
  have "st \<in> {2, 3, 4, 5}" "take 255 (bi_uri ringing_buddy) = ''sip:201@example.com''"
    using t(2) by (simp_all add: ringing_buddy_def)
  then show ?thesis unfolding t(1) by (intro exI [of _ st] exI [of _ act]) simp
qed

section \<open>Subscriptions\<close>

lemma del_loop:
  "\<exists>w. run_state (for_each ids (\<lambda>b. do { _ \<leftarrow> pj (api_buddy_del (pjsua_model H B) b); ret () })) s = ((), s\<lparr>env := w\<rparr>)
     \<and> pv_buddies w = pv_buddies (env s) - set ids"
proof (induction ids arbitrary: s)
  case Nil
  then show ?case by (intro exI [of _ "env s"]) simp
next
  case (Cons b ids)
  obtain st v where d: "run_state (pjsua_buddy_del H b) (env s) = (st, v)" by (metis surj_pair)
  obtain w where "run_state (for_each ids (\<lambda>b. do { _ \<leftarrow> pj (api_buddy_del (pjsua_model H B) b); ret () })) (s\<lparr>env := v\<rparr>)
      = ((), s\<lparr>env := v, env := w\<rparr>)" "pv_buddies w = pv_buddies v - set ids"
    using Cons.IH [of "s\<lparr>env := v\<rparr>"] by auto
  then show ?case using buddy_del_spec [OF d] by (intro exI [of _ w]) (auto simp: d)
qed

lemma entered_buddies [simp]: "pv_buddies (env (entered (pjsua_model H B) s)) = pv_buddies (env s)"
  by (simp add: env_entered pv_buddies_def pjsua_buddy_is_valid_def)

text \<open>
  Ending the BLF subscriptions returns 0, removes no more than eight buddies and
  adds none: all are gone when there were at most eight, and all but eight remain otherwise. The
  account makes no difference.
\<close>

theorem blf_unsubscribe_eight:
  "let r = run_state (pd_blf_unsubscribe (pjsua_model H B) acc) s
   in fst r = 0 \<and> pv_buddies (env (snd r)) \<subseteq> pv_buddies (env s)
    \<and> card (pv_buddies (env (snd r))) = card (pv_buddies (env s)) - 8"
proof -
  let ?u = "entered (pjsua_model H B) s"
  obtain ids where ids: "pjsua_enum_buddies 8 (env ?u) = Some ids" by (simp add: pjsua_enum_buddies_def)
  have spec: "distinct ids" "set ids \<subseteq> pv_buddies (env s)" "length ids = min 8 (card (pv_buddies (env s)))"
    using enum_buddies_spec [OF ids] by simp_all
  obtain w where w: "run_state (for_each ids (\<lambda>b. do { _ \<leftarrow> pj (api_buddy_del (pjsua_model H B) b); ret () })) ?u
      = ((), ?u\<lparr>env := w\<rparr>)" "pv_buddies w = pv_buddies (env s) - set ids"
    using del_loop [of ids H B ?u] by auto
  have "run_state (pd_blf_unsubscribe (pjsua_model H B) acc) s = (0, ?u\<lparr>env := w\<rparr>)"
    using ids w(1) by (simp add: pd_blf_unsubscribe_def)
  moreover have "card (pv_buddies w) = card (pv_buddies (env s)) - 8"
    using spec w(2) finite_pv_buddies distinct_card [OF spec(1)] by (simp add: card_Diff_subset)
  ultimately show ?thesis using w(2) by (auto simp: Let_def)
qed

text \<open>A buddy list with nine entries.\<close>

definition nine_buddies :: "unit pjsua_var" where
  "nine_buddies = demo_var\<lparr>buddies := replicate 9 \<lparr>bd_uri = ''sip:1@example.com'', bd_monitor = True\<rparr>
                              @ replicate 247 free_buddy, buddy_cnt := 9\<rparr>"

lemma nine_buddies_card: "card (pv_buddies nine_buddies) = 9"
proof -
  have "pv_buddies nine_buddies = {0..<9}"
    by (auto simp: pv_buddies_def pjsua_buddy_is_valid_def nine_buddies_def nth_append free_buddy_def split: if_splits)
  then show ?thesis by simp
qed

theorem blf_unsubscribe_eight_witness:
  "let r = run_state (pd_blf_unsubscribe demo_pjsua 0) (demo_shim\<lparr>env := nine_buddies\<rparr>)
   in fst r = 0 \<and> card (pv_buddies (env (snd r))) = 1"
  using blf_unsubscribe_eight [of demo_hw demo_base 0 "demo_shim\<lparr>env := nine_buddies\<rparr>"]
  by (simp add: Let_def nine_buddies_card)

end
