(* ===== verification/Pj_Long.thy ===== *)
theory Pj_Long
  imports Pj_Time "HOL-Library.Signed_Division"
begin

text \<open>
  The normalisation of times at the width of C's \<^verbatim>\<open>long\<close> (32 bits on Windows, 64 elsewhere): each arithmetic
  result is checked, and one out of range, which C leaves undefined, is \<open>None\<close>. So would be a loop that does not end.
\<close>

definition in_long :: "nat \<Rightarrow> int \<Rightarrow> bool" where
  "in_long w x \<longleftrightarrow> - (2 ^ (w - 1)) \<le> x \<and> x < 2 ^ (w - 1)"

definition to_long :: "nat \<Rightarrow> int \<Rightarrow> int option" where
  "to_long w x = (if in_long w x then Some x else None)"

partial_function (option) carry_long :: "nat \<Rightarrow> int \<Rightarrow> int \<Rightarrow> (int \<times> int) option" where
  "carry_long w sec msec =
     (if msec \<le> -1000
      then Option.bind (to_long w (sec - 1)) (\<lambda>sec.
             Option.bind (to_long w (msec + 1000)) (\<lambda>msec. carry_long w sec msec))
      else Some (sec, msec))"

declare carry_long.simps [code]

definition whole_seconds :: "nat \<Rightarrow> int \<Rightarrow> int \<Rightarrow> (int \<times> int) option" where
  "whole_seconds w sec msec =
     (if msec \<ge> 1000 then map_option (\<lambda>sec. (sec, msec smod 1000)) (to_long w (sec + msec sdiv 1000))
      else if msec \<le> -1000 then carry_long w sec msec
      else Some (sec, msec))"

definition normalize_long :: "nat \<Rightarrow> time_val \<Rightarrow> time_val option" where
  "normalize_long w t = Option.bind (whole_seconds w (tv_sec t) (tv_msec t)) (\<lambda>(sec, msec).
     if sec \<ge> 1 \<and> msec < 0 then
       Option.bind (to_long w (sec - 1)) (\<lambda>sec. map_option (\<lambda>msec. \<lparr>tv_sec = sec, tv_msec = msec\<rparr>) (to_long w (msec + 1000)))
     else if sec < 0 \<and> msec > 0 then
       Option.bind (to_long w (sec + 1)) (\<lambda>sec. map_option (\<lambda>msec. \<lparr>tv_sec = sec, tv_msec = msec\<rparr>) (to_long w (msec - 1000)))
     else Some \<lparr>tv_sec = sec, tv_msec = msec\<rparr>)"

text \<open>The seconds that the milliseconds carry: their quotient, towards zero.\<close>

lemma carry_long_eq:
  assumes "in_long w sec" "in_long w msec" "msec < 0"
  shows "carry_long w sec msec =
    (if in_long w (sec - (- msec) div 1000) then Some (sec - (- msec) div 1000, - ((- msec) mod 1000)) else None)"
  using assms
proof (induction "nat (- msec)" arbitrary: sec msec rule: less_induct)
  case less
  show ?case
  proof (cases "msec \<le> -1000")
    case False
    then have "(- msec) div 1000 = 0" "(- msec) mod 1000 = - msec" using less.prems(3) by simp_all
    then show ?thesis using False less.prems(1) by (simp add: carry_long.simps)
  next
    case True
    define q where "q = (- msec) div 1000"
    have "(- msec) div 1000 = ((- msec - 1000) + 1000) div 1000" "(- msec) mod 1000 = ((- msec - 1000) + 1000) mod 1000"
      by simp_all
    then have next': "(- (msec + 1000)) div 1000 = q - 1" "(- (msec + 1000)) mod 1000 = (- msec) mod 1000"
      unfolding q_def by (simp_all only: div_add_self2 mod_add_self2) simp_all
    have q: "1 \<le> q" using True by (simp add: q_def)
    have small: "in_long w (msec + 1000)" using less.prems(2) True by (auto simp: in_long_def intro: order_trans)
    show ?thesis
    proof (cases "in_long w (sec - 1)")
      case out: False
      then have "\<not> in_long w (sec - q)" using less.prems(1) q by (auto simp: in_long_def)
      then show ?thesis using True out by (subst carry_long.simps) (simp add: to_long_def q_def)
    next
      case ok: True
      show ?thesis
      proof (cases "msec + 1000 = 0")
        case zero: True
        then have "msec = -1000" by simp
        then show ?thesis using ok by (subst carry_long.simps) (simp add: to_long_def in_long_def carry_long.simps)
      next
        case False
        have "carry_long w (sec - 1) (msec + 1000)
            = (if in_long w (sec - 1 - (q - 1)) then Some (sec - 1 - (q - 1), - ((- msec) mod 1000)) else None)"
          using less.hyps [of "msec + 1000" "sec - 1"] ok small True False unfolding next' by simp
        then show ?thesis using True ok small by (subst carry_long.simps) (simp add: to_long_def q_def)
      qed
    qed
  qed
qed

lemma quotient_1000: "x = q * 1000 + r \<Longrightarrow> 0 \<le> r \<Longrightarrow> r < 1000 \<Longrightarrow> x div 1000 = q \<and> x mod 1000 = r" for x :: int
  by simp

lemma carry_msec_eq:
  assumes "msec \<le> -1000"
  shows "carry_msec sec msec = (sec - (- msec) div 1000, - ((- msec) mod 1000))"
proof -
  obtain s m where c: "carry_msec sec msec = (s, m)" by fastforce
  have m: "s * 1000 + m = sec * 1000 + msec" "-1000 < m" "m \<le> 0" using carry_msec_spec [OF c] assms by simp_all
  then have "(- msec) div 1000 = sec - s \<and> (- msec) mod 1000 = - m" by (intro quotient_1000) simp_all
  then show ?thesis using c by simp
qed

lemma sdiv_1000:
  "0 \<le> x \<Longrightarrow> x sdiv 1000 = x div 1000" "x \<le> 0 \<Longrightarrow> x sdiv 1000 = - ((- x) div 1000)"
  "0 \<le> x \<Longrightarrow> x smod 1000 = x mod 1000" "x \<le> 0 \<Longrightarrow> x smod 1000 = - ((- x) mod 1000)" for x :: int
  by (auto simp: signed_divide_int_def signed_modulo_int_def sgn_if minus_mult_div_eq_mod [symmetric])

lemma long_step:
  assumes "11 \<le> w" "in_long w sec"
  shows "1 \<le> sec \<Longrightarrow> in_long w (sec - 1)" "sec < 0 \<Longrightarrow> in_long w (sec + 1)" "\<bar>m\<bar> \<le> 1000 \<Longrightarrow> in_long w m"
proof -
  have "(2 :: int) ^ 10 \<le> 2 ^ (w - 1)" using assms(1) by (intro power_increasing) auto
  then show "1 \<le> sec \<Longrightarrow> in_long w (sec - 1)" "sec < 0 \<Longrightarrow> in_long w (sec + 1)" "\<bar>m\<bar> \<le> 1000 \<Longrightarrow> in_long w m"
    using assms(2) by (auto simp: in_long_def)
qed

text \<open>The checked code agrees with the code without limits just when the seconds carried fit.\<close>

lemma normalize_long_eq:
  assumes w: "11 \<le> w" and sec: "in_long w (tv_sec t)" and msec: "in_long w (tv_msec t)"
  shows "normalize_long w t =
    (if in_long w (tv_sec t + tv_msec t sdiv 1000) then Some (pj_time_val_normalize t) else None)"
proof -
  have final: "Option.bind (Some (s, m)) (\<lambda>(sec, msec).
     if sec \<ge> 1 \<and> msec < 0 then
       Option.bind (to_long w (sec - 1)) (\<lambda>sec. map_option (\<lambda>msec. \<lparr>tv_sec = sec, tv_msec = msec\<rparr>) (to_long w (msec + 1000)))
     else if sec < 0 \<and> msec > 0 then
       Option.bind (to_long w (sec + 1)) (\<lambda>sec. map_option (\<lambda>msec. \<lparr>tv_sec = sec, tv_msec = msec\<rparr>) (to_long w (msec - 1000)))
     else Some \<lparr>tv_sec = sec, tv_msec = msec\<rparr>) =
     Some (if s \<ge> 1 \<and> m < 0 then \<lparr>tv_sec = s - 1, tv_msec = m + 1000\<rparr>
           else if s < 0 \<and> m > 0 then \<lparr>tv_sec = s + 1, tv_msec = m - 1000\<rparr> else \<lparr>tv_sec = s, tv_msec = m\<rparr>)"
    if "in_long w s" "\<bar>m\<bar> < 1000" for s m
    using that long_step [OF w that(1)] by (auto simp: to_long_def)
  consider "1000 \<le> tv_msec t" | "tv_msec t \<le> -1000" | "\<bar>tv_msec t\<bar> < 1000" by linarith
  then show ?thesis
  proof cases
    case 1
    then show ?thesis using final [of "tv_sec t + tv_msec t div 1000" "tv_msec t mod 1000"]
      by (simp add: normalize_long_def whole_seconds_def pj_time_val_normalize_def sdiv_1000 to_long_def)
  next
    case 2
    then show ?thesis
      using final [of "tv_sec t - (- tv_msec t) div 1000" "- ((- tv_msec t) mod 1000)"] carry_long_eq [OF sec msec]
      by (simp add: normalize_long_def whole_seconds_def pj_time_val_normalize_def sdiv_1000 carry_msec_eq)
  next
    case 3
    then have "\<not> 1000 \<le> tv_msec t" "\<not> tv_msec t \<le> -1000" by linarith+
    moreover from 3 have "tv_msec t sdiv 1000 = 0" by (cases "0 \<le> tv_msec t") (simp_all add: sdiv_1000)
    ultimately show ?thesis using 3 final [of "tv_sec t" "tv_msec t"] sec
      by (simp add: normalize_long_def whole_seconds_def pj_time_val_normalize_def)
  qed
qed

text \<open>The normal form: quotient and remainder, towards zero.\<close>

lemma normalize_quotient:
  "pj_time_val_normalize t =
     (let T = tv_sec t * 1000 + tv_msec t in \<lparr>tv_sec = T sdiv 1000, tv_msec = T smod 1000\<rparr>)"
proof -
  define n where "n = pj_time_val_normalize t"
  define T where "T = tv_sec t * 1000 + tv_msec t"
  have n: "tv_sec n * 1000 + tv_msec n = T" "\<bar>tv_msec n\<bar> < 1000" "\<not> (0 < tv_sec n \<and> tv_msec n < 0)"
    "\<not> (tv_sec n < 0 \<and> 0 < tv_msec n)"
    using normalize_spec [of t] by (simp_all add: Let_def n_def T_def)
  have "tv_sec n = T sdiv 1000 \<and> tv_msec n = T smod 1000"
  proof (cases "0 \<le> T")
    case True
    then have "0 \<le> tv_sec n" "0 \<le> tv_msec n" using n by linarith+
    then have "T div 1000 = tv_sec n" "T mod 1000 = tv_msec n" using n(1,2) unfolding n(1) [symmetric] by simp_all
    then show ?thesis using True by (simp add: sdiv_1000)
  next
    case False
    then have neg: "tv_sec n \<le> 0" "tv_msec n \<le> 0" using n by linarith+
    have "(- T) div 1000 = - tv_sec n \<and> (- T) mod 1000 = - tv_msec n"
      using n(1,2) neg by (intro quotient_1000) simp_all
    then show ?thesis using False by (simp add: sdiv_1000)
  qed
  then show ?thesis by (simp add: Let_def n_def [symmetric] T_def [symmetric])
qed

lemma normalize_in_long:
  assumes w: "11 \<le> w" and sec: "in_long w (tv_sec t)" and msec: "in_long w (tv_msec t)"
    and fits: "in_long w (tv_sec t + tv_msec t sdiv 1000)"
  shows "in_long w (tv_sec (pj_time_val_normalize t))" "in_long w (tv_msec (pj_time_val_normalize t))"
proof -
  define n where "n = pj_time_val_normalize t"
  define q where "q = tv_sec t + tv_msec t sdiv 1000"
  have n: "tv_sec n * 1000 + tv_msec n = tv_sec t * 1000 + tv_msec t" "\<bar>tv_msec n\<bar> < 1000"
    "\<not> (0 < tv_sec n \<and> tv_msec n < 0)" "\<not> (tv_sec n < 0 \<and> 0 < tv_msec n)"
    using normalize_spec [of t] by (simp_all add: Let_def n_def)
  have "tv_sec t * 1000 + tv_msec t = q * 1000 + tv_msec t smod 1000 \<and> \<bar>tv_msec t smod 1000\<bar> < 1000"
    using div_mult_mod_eq [of "tv_msec t" 1000] div_mult_mod_eq [of "- tv_msec t" 1000]
    by (cases "0 \<le> tv_msec t") (simp_all add: q_def sdiv_1000 algebra_simps)
  then have "tv_sec n = q \<or> 1 \<le> q \<and> tv_sec n = q - 1 \<or> q < 0 \<and> tv_sec n = q + 1" using n by linarith
  then show "in_long w (tv_sec (pj_time_val_normalize t))"
    using fits long_step [OF w fits] unfolding n_def [symmetric] q_def [symmetric] by auto
  show "in_long w (tv_msec (pj_time_val_normalize t))"
    using n(2) long_step(3) [OF w sec] unfolding n_def by simp
qed

end
