(* ===== verification/Stats_Props.thy ===== *)
theory Stats_Props
  imports Demo Shim_Laws Pj_Long
begin

text \<open>Arithmetic: time values, stream statistics, the microphone level, and the dialpad tones.\<close>

section \<open>Time\<close>

text \<open>
  C40. Normalising a time value whose fields are of C's \<^verbatim>\<open>long\<close> ends: its loop and its corrections
  stay within the type unless the whole seconds among the milliseconds, added to the seconds, do not fit, and then
  the sum the code forms overflows. Otherwise it gives the normal form: the same instant, its seconds and
  milliseconds the quotient and the remainder by 1000 towards zero, so below 1000 in size and of one sign.
\<close>

theorem time_normal_form:
  assumes "11 \<le> w" "in_long w (tv_sec t)" "in_long w (tv_msec t)"
  shows "case normalize_long w t of
      None \<Rightarrow> \<not> in_long w (tv_sec t + tv_msec t sdiv 1000)
    | Some n \<Rightarrow> in_long w (tv_sec t + tv_msec t sdiv 1000) \<and> in_long w (tv_sec n) \<and> in_long w (tv_msec n)
        \<and> n = pj_time_val_normalize t
        \<and> tv_sec n = (tv_sec t * 1000 + tv_msec t) sdiv 1000 \<and> tv_msec n = (tv_sec t * 1000 + tv_msec t) smod 1000
        \<and> tv_sec n * 1000 + tv_msec n = tv_sec t * 1000 + tv_msec t \<and> \<bar>tv_msec n\<bar> < 1000
        \<and> \<not> (0 < tv_sec n \<and> tv_msec n < 0) \<and> \<not> (tv_sec n < 0 \<and> 0 < tv_msec n)"
proof (cases "in_long w (tv_sec t + tv_msec t sdiv 1000)")
  case False
  then show ?thesis by (simp add: normalize_long_eq [OF assms])
next
  case True
  define n where "n = pj_time_val_normalize t"
  define T where "T = tv_sec t * 1000 + tv_msec t"
  have form: "tv_sec n = T sdiv 1000" "tv_msec n = T smod 1000"
    using normalize_quotient [of t] by (simp_all add: n_def T_def Let_def)
  have spec: "tv_sec n * 1000 + tv_msec n = T" "\<bar>tv_msec n\<bar> < 1000"
    "\<not> (0 < tv_sec n \<and> tv_msec n < 0)" "\<not> (tv_sec n < 0 \<and> 0 < tv_msec n)"
    using normalize_spec [of t] by (simp_all add: Let_def n_def T_def)
  have "in_long w (tv_sec n)" "in_long w (tv_msec n)"
    using normalize_in_long [OF assms True] by (simp_all add: n_def)
  moreover have "normalize_long w t = Some n" using True by (simp add: normalize_long_eq [OF assms] n_def)
  ultimately show ?thesis using True form spec by (simp add: n_def [symmetric] T_def [symmetric])
qed

theorem time_normal_form_witness:
  "in_long 32 (5 + (-2500) sdiv 1000) \<and> normalize_long 32 \<lparr>tv_sec = 5, tv_msec = -2500\<rparr> = Some \<lparr>tv_sec = 2, tv_msec = 500\<rparr>
   \<and> normalize_long 32 \<lparr>tv_sec = 2147483647, tv_msec = 1000\<rparr> = None"
  using time_normal_form [of 32 "\<lparr>tv_sec = 5, tv_msec = -2500\<rparr>"]
    time_normal_form [of 32 "\<lparr>tv_sec = 2147483647, tv_msec = 1000\<rparr>"]
  by (auto simp: in_long_def sdiv_1000 split: option.splits)

section \<open>Loss and bitrate\<close>

text \<open>
  The reported loss is between 0 and 100 percent, and is the share of lost packets, when
  the number of packets received and lost is below \<open>2 ^ 32\<close>.
\<close>

theorem loss_pct_range:
  assumes "uint (ss_rx_pkt st) + uint (ss_rx_loss st) < 2 ^ 32"
  shows "0 \<le> loss_pct st \<and> loss_pct st \<le> 100
    \<and> loss_pct st * of_int (uint (ss_rx_pkt st) + uint (ss_rx_loss st)) = of_int (uint (ss_rx_loss st)) * 100"
proof -
  define p l where "p = uint (ss_rx_pkt st)" and "l = uint (ss_rx_loss st)"
  have nn: "0 \<le> p" "0 \<le> l" by (simp_all add: p_def l_def)
  have total: "uint (ss_rx_pkt st + ss_rx_loss st) = p + l"
    using assms by (simp add: uint_word_ariths p_def l_def)
  have pct: "loss_pct st = (if 0 < p + l then of_int l * 100 / of_int (p + l) else 0)"
    unfolding loss_pct_def Let_def total by (simp add: word_less_def total l_def del: of_int_add)
  have "0 \<le> loss_pct st \<and> loss_pct st \<le> 100 \<and> loss_pct st * of_int (p + l) = of_int l * 100"
  proof (cases "0 < p + l")
    case True
    then have "0 < (of_int (p + l) :: rat)" "(of_int l :: rat) \<le> of_int (p + l)" "0 \<le> (of_int l :: rat)"
      using nn by (simp_all only: of_int_0_less_iff of_int_le_iff of_int_0_le_iff)
    then show ?thesis unfolding pct by (simp add: divide_le_eq True del: of_int_add)
  next
    case False
    then have "l = 0" "p = 0" using nn by linarith+
    then show ?thesis by (simp add: pct)
  qed
  then show ?thesis by (simp only: p_def l_def)
qed

definition demo_stat :: "u32 \<Rightarrow> u32 \<Rightarrow> stream_stat" where
  "demo_stat pkt loss = \<lparr>ss_jitter_mean = 2500, ss_rx_pkt = pkt, ss_rx_loss = loss, ss_tx_bytes = 80000,
     ss_start = \<lparr>tv_sec = 90, tv_msec = 0\<rparr>\<rparr>"

theorem loss_pct_range_witness: "loss_pct (demo_stat 900 100) \<le> 100 \<and> loss_pct (demo_stat 900 100) * 1000 = 10000"
  using loss_pct_range [of "demo_stat 900 100"] by (simp add: demo_stat_def)

text \<open>
  When the 32-bit sum of the two counters wraps the reported loss can exceed 100
  percent: 4294967295 packets received and 2 lost are reported as 200 percent.
\<close>

theorem loss_pct_wraps: "loss_pct (demo_stat 4294967295 2) = 200"
  by (simp add: loss_pct_def demo_stat_def)

text \<open>
  The reported bitrate is never negative and fits a 32-bit int, whatever the clock and
  the byte counter say.
\<close>

theorem bitrate_range: "0 \<le> bitrate_kbps now st \<and> bitrate_kbps now st < 2 ^ 31"
proof (cases "elapsed_secs now (ss_start st) > 1 \<and> ss_tx_bytes st > 0")
  case True
  define e i where "e = elapsed_secs now (ss_start st)" and "i = uint (ss_tx_bytes st)"
  have i: "0 \<le> i" "i < 2 ^ 32" using uint_lt2p [of "ss_tx_bytes st"] by (simp_all add: i_def)
  have e: "1 < e" using True by (simp add: e_def)
  have v: "bitrate_kbps now st = \<lfloor>of_int i * 8 / e / 1000\<rfloor>" using True by (simp add: bitrate_kbps_def Let_def e_def i_def)
  have b: "0 \<le> (of_int i :: rat)" "(of_int i :: rat) < 2 ^ 32"
    using i of_int_less_iff [of i "2 ^ 32", where 'a = rat] by simp_all
  have "of_int i * 8 / e \<le> of_int i * 8" using b e by (simp add: divide_le_eq mult_le_cancel_left1)
  then have "of_int i * 8 / e / 1000 \<le> of_int i * 8 / 1000" by (rule divide_right_mono) simp
  also have "\<dots> < 2 ^ 31" using b by simp
  finally have "of_int i * 8 / e / 1000 < 2 ^ 31" .
  moreover have "0 \<le> of_int i * 8 / e / 1000" using b e by simp
  ultimately show ?thesis unfolding v by (simp add: floor_less_iff)
next
  case False
  then show ?thesis by (auto simp: bitrate_kbps_def Let_def)
qed

section \<open>Microphone level\<close>

text \<open>
  After setting the microphone level the shim reports, and has given to the bridge,
  a level between the floats 0.1 and 8, the requested one if it was in that range; only a NaN goes
  through as it is.
\<close>

theorem mic_level_clamped:
  "let r = run_state (pd_set_mic_amplification P level) s; v = snd (result pd_get_mic_amplification (snd r))
   in (fst r, env (snd r)) = api_conf_adjust_tx_level P 0 v (env s)
    \<and> (level = NaN \<longleftrightarrow> v = NaN) \<and> \<not> cless v f_0_1 \<and> \<not> cless f_8 v
    \<and> (\<not> cless level f_0_1 \<and> \<not> cless f_8 level \<longrightarrow> v = level)"
proof -
  have c: "(level = NaN \<longleftrightarrow> clamp_level level = NaN) \<and> \<not> cless (clamp_level level) f_0_1
      \<and> \<not> cless f_8 (clamp_level level) \<and> (\<not> cless level f_0_1 \<and> \<not> cless f_8 level \<longrightarrow> clamp_level level = level)"
    by (cases level) (auto simp: clamp_level_def f_0_1_def f_8_def Let_def)
  then show ?thesis
    by (simp add: pd_set_mic_amplification_def pd_get_mic_amplification_def Let_def)
qed

theorem mic_level_clamped_witness:
  "snd (result pd_get_mic_amplification (exec (pd_set_mic_amplification demo_base (Fin 2)) demo_shim)) = Fin 2"
proof -
  have "\<not> cless (Fin 2) f_0_1 \<and> \<not> cless f_8 (Fin 2)" by (simp add: f_0_1_def f_8_def)
  then show ?thesis using mic_level_clamped [of demo_base "Fin 2" demo_shim] by (simp add: Let_def)
qed

end
