(* ===== verification/Audio_Props.thy ===== *)
theory Audio_Props
  imports Demo Shim_Laws
begin

text \<open>Audio devices: validation and selection over any pjsua, and what selecting does on the model of pjsua.\<close>

section \<open>Validation\<close>

definition usable :: "'e pjsua \<Rightarrow> 'e \<Rightarrow> int \<Rightarrow> bool \<Rightarrow> bool" where
  "usable P e i input \<longleftrightarrow> i < 0 \<or>
     fst (api_enum_aud_devs P 64 e) = PJ_SUCCESS \<and> device_ok (snd (api_enum_aud_devs P 64 e)) (nat i) input (\<not> input)"

lemma set_devs_run:
  "let e = env (entered P s); r = run_state (pd_aud_set_devs P c p) s
   in (fst r, env (snd r)) = (if usable P e c True \<and> usable P e p False then api_set_snd_dev P c p e else (-1, e))"
  by (cases "api_set_snd_dev P c p (env (entered P s))") (auto simp: pd_aud_set_devs_def usable_def Let_def)

text \<open>
  C36. Selecting devices reaches pjsua only when each id is negative (a default) or names
  a device among the first 64 with channels in the direction it is wanted for; pjsua's status is then
  returned. Otherwise the result is -1 and pjsua is left alone.
\<close>

theorem set_devs_checked:
  "let e = env (entered P s); r = run_state (pd_aud_set_devs P c p) s
   in (fst r, env (snd r)) = (if usable P e c True \<and> usable P e p False then api_set_snd_dev P c p e else (-1, e))"
  by (rule set_devs_run)
theorem set_devs_checked_witness:
  "result (pd_aud_set_devs demo_base 0 5) demo_shim = -1 \<and> result (pd_aud_set_devs demo_base 0 (-1)) demo_shim = 0"
  using set_devs_checked [of demo_base demo_shim 0 5] set_devs_checked [of demo_base demo_shim 0 "-1"]
  by (simp add: Let_def usable_def device_ok_def demo_base_def demo_dev_def split: if_splits)

section \<open>Selection\<close>

lemma close_snd_dev_ids [simp]:
  "cap_dev (exec (close_snd_dev H) v) = cap_dev v" "play_dev (exec (close_snd_dev H) v) = play_dev v"
  by (simp_all add: close_snd_dev_def)

lemma open_snd_dev_ids:
  assumes "run_state (open_snd_dev H rec_id play_id rate) v = (PJ_SUCCESS, w)"
    "rec_id \<noteq> SND_NULL_DEV" "play_id \<noteq> SND_NULL_DEV"
  shows "cap_dev w = rec_id \<and> play_dev w = play_id"
  using assms by (auto simp: open_snd_dev_def close_snd_dev_def split: prod.splits if_splits option.splits)

lemma create_param_ids:
  "run_state (create_aud_param H c p) v = ((st, r, q), w)
   \<Longrightarrow> r = c \<and> q = (if p = SND_DEFAULT_CAPTURE_DEV then SND_DEFAULT_PLAYBACK_DEV else p)"
  by (auto simp: create_aud_param_def Let_def)

lemma try_rates_ids:
  assumes "run_state (try_rates H c p rs st) v = (PJ_SUCCESS, w)" "st \<noteq> PJ_SUCCESS" "0 \<le> c" "0 \<le> p"
  shows "cap_dev w = c \<and> play_dev w = p"
  using assms
proof (induction rs arbitrary: st v)
  case Nil
  then show ?case by simp
next
  case (Cons r rs)
  obtain st1 rid pid u where a: "run_state (create_aud_param H c p) v = ((st1, rid, pid), u)" by (metis surj_pair)
  have ids: "rid = c" "pid = p" using create_param_ids [OF a] Cons.prems(4) by simp_all
  obtain st2 t where o: "run_state (open_snd_dev H c p r) u = (st2, t)" by (metis surj_pair)
  have st1: "st1 = PJ_SUCCESS" using Cons.prems(1) a by (auto split: if_splits)
  show ?case
  proof (cases "st2 = PJ_SUCCESS")
    case True
    then have "w = t" using Cons.prems(1) a o st1 ids by simp
    then show ?thesis using open_snd_dev_ids [of H c p r u t] o True Cons.prems(3,4) by simp
  next
    case False
    then have "run_state (try_rates H c p rs st2) t = (PJ_SUCCESS, w)" using Cons.prems(1) a o st1 ids by simp
    then show ?thesis using Cons.IH False Cons.prems(3,4) by blast
  qed
qed

lemma set_snd_dev_ids:
  assumes "run_state (pjsua_set_snd_dev H c p) v = (PJ_SUCCESS, w)" "0 \<le> c" "0 \<le> p"
  shows "cap_dev w = c \<and> play_dev w = p"
proof (cases "cap_dev v = c \<and> play_dev v = p \<and> snd_mode v = (snd_mode v)\<lparr>no_immediate_open := False\<rparr> \<and> snd_is_on v")
  case True
  then show ?thesis using assms by (simp add: pjsua_set_snd_dev_def pjsua_set_snd_dev2_def)
next
  case False
  define rates where "rates = [if media_snd_clock_rate v = 0 then media_clock_rate v else media_snd_clock_rate v,
    44100, 48000, 32000, 16000, 8000]"
  let ?u = "v\<lparr>snd_mode := (snd_mode v)\<lparr>no_immediate_open := False\<rparr>\<rparr>"
  obtain st t where t: "run_state (try_rates H c p rates (-1)) ?u = (st, t)" by (metis surj_pair)
  have c: "c \<noteq> SND_NO_DEV" "c \<noteq> SND_NULL_DEV" using assms(2) by auto
  have "run_state (pjsua_set_snd_dev H c p) v
      = (if st \<noteq> PJ_SUCCESS then (st, t\<lparr>snd_mode := snd_mode v\<rparr>) else (PJ_SUCCESS, t\<lparr>no_snd := False, snd_is_on := True\<rparr>))"
    using False c t [unfolded rates_def]
    by (auto simp: pjsua_set_snd_dev_def pjsua_set_snd_dev2_def Let_def simp del: try_rates.simps)
  then have "st = PJ_SUCCESS \<and> cap_dev w = cap_dev t \<and> play_dev w = play_dev t"
    using assms(1) by (auto split: if_splits)
  then show ?thesis using try_rates_ids [of H c p rates "-1" ?u t] t assms(2,3) by simp
qed

text \<open>
  On the model of pjsua, selecting two devices by id with result 0 makes them the devices
  that are reported afterwards, and disturbs no slot, connection, recorder or call.
\<close>

theorem aud_set_get:
  assumes "run_state (pd_aud_set_devs (pjsua_model H B) c p) s = (0, t)" "0 \<le> c" "0 \<le> p" "pv_ok (env s)"
  shows "result (pd_aud_get_devs (pjsua_model H B)) t = (0, c, p) \<and> pv_ok (env t)
    \<and> pv_slots (env t) = pv_slots (env s) \<and> pv_links (env t) = pv_links (env s)
    \<and> pv_live (env t) = pv_live (env s) \<and> calls (env t) = calls (env s)"
proof -
  let ?P = "pjsua_model H B" and ?e = "env (entered (pjsua_model H B) s)"
  have "(0, env t) = (if usable ?P ?e c True \<and> usable ?P ?e p False then api_set_snd_dev ?P c p ?e else (-1, ?e))"
    using set_devs_run [of ?P s c p] assms(1) by (simp add: Let_def)
  then have set: "run_state (pjsua_set_snd_dev H c p) ?e = (PJ_SUCCESS, env t)" by (simp split: if_splits)
  have e: "pv_ok ?e" "pv_slots ?e = pv_slots (env s)" "pv_links ?e = pv_links (env s)" "pv_live ?e = pv_live (env s)"
    "calls ?e = calls (env s)"
    using assms(4) by (auto simp: env_entered ext_simps)
  note same_view [OF neutral_run [OF neutral_set_snd_dev set] e(1)]
  moreover have "pjsua_get_snd_dev (env (entered ?P t)) = (0, c, p)"
    using set_snd_dev_ids [OF set assms(2,3)] by (simp add: env_entered pjsua_get_snd_dev_def)
  ultimately show ?thesis using e by (simp add: pd_aud_get_devs_def)
qed

theorem aud_set_get_witness:
  "\<exists>t. run_state (pd_aud_set_devs demo_pjsua 0 0) demo_shim = (0, t)
    \<and> result (pd_aud_get_devs demo_pjsua) t = (0, 0, 0) \<and> pv_slots (env t) = {0, 1, 2}"
proof -
  have e: "pjsua_enum_aud_devs demo_hw 64 demo_var = (0, [demo_dev])"
    by (simp add: pjsua_enum_aud_devs_def demo_hw_def)
  have "usable demo_pjsua demo_var 0 True" "usable demo_pjsua demo_var 0 False"
    by (simp_all add: usable_def e device_ok_def) (simp_all add: demo_dev_def)
  moreover have "run_state (pjsua_set_snd_dev demo_hw 0 0) demo_var = (0, demo_var)"
    by (simp add: pjsua_set_snd_dev_def pjsua_set_snd_dev2_def demo_var_def)
  ultimately have "fst (run_state (pd_aud_set_devs demo_pjsua 0 0) demo_shim) = 0"
    using set_devs_run [of demo_pjsua demo_shim 0 0] by (simp add: Let_def)
  then obtain t where t: "run_state (pd_aud_set_devs demo_pjsua 0 0) demo_shim = (0, t)"
    by (metis prod.collapse)
  have ok: "0 \<le> (0::int)" "pv_ok (env demo_shim)" using demo_var_ok by simp_all
  from aud_set_get [OF t ok(1) ok(1) ok(2)] show ?thesis using t demo_var_view by auto
qed

end
