(* ===== verification/Lifecycle_Props.thy ===== *)
theory Lifecycle_Props
  imports Demo Shim_Laws
begin

text \<open>Start-up and shutdown of the shim, and the log relay.\<close>

section \<open>Start-up\<close>

text \<open>What the stages after the first do not touch: recording, the callbacks, and the UDP transport.\<close>

definition callbacks_of :: "'e shim \<Rightarrow> callbacks" where
  "callbacks_of s = \<lparr>cb_reg = g_on_reg s, cb_incoming = g_on_incoming s, cb_call = g_on_call s,
     cb_media = g_on_media s, cb_log = g_on_log s, cb_sip_msg = g_on_sip_msg s,
     cb_transfer_status = g_on_transfer_status s, cb_blf_status = g_on_blf_status s\<rparr>"

definition fixed :: "'e shim \<Rightarrow> _" where
  "fixed s = (rec_arrays s, callbacks_of s)"

lemmas fixed_defs = fixed_def rec_arrays_def callbacks_of_def no_env_def no_trace_def

lemma fixed_kept [keeps_intro]:
  "keeps fixed (init_engine P ua stun)" "keeps fixed (init_tcp P)" "keeps fixed (init_tls P)"
  "keeps fixed (init_start P)" "keeps fixed (init_audio P)" "keeps fixed (init_tone P)"
  unfolding init_engine_def init_tcp_def init_tls_def init_start_def init_audio_def init_tone_def
  by (auto intro!: keeps_intro simp: fixed_defs Let_def split: option.splits)

lemma fixed_kept_transports [keeps_intro]: "keeps fixed (init_transports P)"
  unfolding init_transports_def by (auto intro!: keeps_intro simp: fixed_defs)

lemma udp_kept [keeps_intro]:
  "keeps g_udp_tp (init_tcp P)" "keeps g_udp_tp (init_tls P)" "keeps g_udp_tp (init_start P)"
  "keeps g_udp_tp (init_audio P)" "keeps g_udp_tp (init_tone P)"
  unfolding init_tcp_def init_tls_def init_start_def init_audio_def init_tone_def
  by (auto intro!: keeps_intro simp: no_env_def no_trace_def Let_def split: option.splits)

lemma init_engine_fails:
  assumes "run_state (init_engine P ua stun) s = (st, t)" "st \<noteq> PJ_SUCCESS"
  shows "api_create P (env s) = (st, env t) \<or> (\<exists>e. env t = snd (api_destroy P e))"
  using assms by (auto simp: init_engine_def split: if_splits)

lemma init_start_fails:
  assumes "run_state (init_start P) s = (st, t)" "st \<noteq> PJ_SUCCESS"
  shows "\<exists>e. env t = snd (api_destroy P e)"
  using assms by (auto simp: init_start_def split: if_splits prod.splits)

lemma init_transports_cases:
  assumes "run_state (init_transports P) s = (st, t)"
  shows "if st = PJ_SUCCESS then \<exists>e f. api_transport_create P TP_UDP tp_default e = ((PJ_SUCCESS, g_udp_tp t), f)
    else \<exists>e. env t = snd (api_destroy P e)"
proof -
  obtain st1 tp f where c: "api_transport_create P TP_UDP tp_default (env s) = ((st1, tp), f)" by (metis surj_pair)
  show ?thesis
  proof (cases "st1 = PJ_SUCCESS")
    case False
    then show ?thesis using assms c by (auto simp: init_transports_def split: if_splits)
  next
    case True
    let ?m = "do { log_msg 4 ''[PD_SHIM] UDP transport created OK''; init_tcp P; init_tls P; ret PJ_SUCCESS }"
    have "\<exists>u. g_udp_tp u = tp \<and> run_state ?m u = (st, t)"
    proof (cases "g_on_log s")
      case True
      then show ?thesis using assms c \<open>st1 = PJ_SUCCESS\<close>
        by (intro exI [of _ "s\<lparr>trace := trace s @ [OnLog 4 ''[PD_SHIM] Creating UDP transport...''], env := f,
                              g_udp_tp := tp\<rparr>"]) (simp add: init_transports_def)
    next
      case False
      then show ?thesis using assms c \<open>st1 = PJ_SUCCESS\<close>
        by (intro exI [of _ "s\<lparr>env := f, g_udp_tp := tp\<rparr>"]) (simp add: init_transports_def)
    qed
    then obtain u where u: "g_udp_tp u = tp" "run_state ?m u = (st, t)" by blast
    have "keeps g_udp_tp (?m :: ('a, _) shim_m)" by (intro keeps_intro) (simp_all add: no_trace_def)
    then have "g_udp_tp t = tp" using keepsD [of g_udp_tp ?m u] u by simp
    moreover have "st = PJ_SUCCESS" using u(2) by (auto split: prod.splits)
    ultimately show ?thesis using c True by auto
  qed
qed

text \<open>What follows once the recording state is reset and the callbacks are saved.\<close>

definition init_rest :: "'e pjsua \<Rightarrow> string option \<Rightarrow> string option \<Rightarrow> ('e, int) shim_m" where
  "init_rest P ua stun = do {
     st \<leftarrow> init_engine P ua stun;
     if st \<noteq> PJ_SUCCESS then ret st
     else do {
       st \<leftarrow> init_transports P;
       if st \<noteq> PJ_SUCCESS then ret st
       else do {
         st \<leftarrow> init_start P;
         if st \<noteq> PJ_SUCCESS then ret st
         else do { init_audio P; init_tone P; ret 0 }
       }
     }
   }"

definition init_saved :: "callbacks \<Rightarrow> 'e shim \<Rightarrow> 'e shim" where
  "init_saved cbs s = exec (save_callbacks cbs) (exec pd_reset_recording_state s)"

lemma run_init: "run_state (pd_init P ua stun cbs) s = run_state (init_rest P ua stun) (init_saved cbs s)"
  by (simp add: pd_init_def init_rest_def init_saved_def pd_reset_recording_state_def save_callbacks_def)

lemma fixed_kept_rest: "keeps fixed (init_rest P ua stun)"
  unfolding init_rest_def by (intro keeps_intro)

lemma init_saved_fields:
  "fixed (init_saved cbs s) = ((replicate 8 0, replicate 8 [], replicate 8 (-1), replicate 8 (-1)), cbs)"
  "env (init_saved cbs s) = env s"
  by (simp_all add: init_saved_def fixed_def rec_arrays_def callbacks_of_def pd_reset_recording_state_def
      save_callbacks_def)

lemma init_rest_cases:
  assumes "run_state (init_rest P ua stun) s = (r, t)"
  shows "if r = 0 then \<exists>e f. api_transport_create P TP_UDP tp_default e = ((PJ_SUCCESS, g_udp_tp t), f)
     else api_create P (env s) = (r, env t) \<or> (\<exists>e. env t = snd (api_destroy P e))"
proof -
  obtain st1 s1 where 1: "run_state (init_engine P ua stun) s = (st1, s1)" by fastforce
  obtain st2 s2 where 2: "run_state (init_transports P) s1 = (st2, s2)" by fastforce
  obtain st3 s3 where 3: "run_state (init_start P) s2 = (st3, s3)" by fastforce
  obtain s4 where 4: "run_state (init_audio P) s3 = ((), s4)" by (metis old.unit.exhaust surj_pair)
  obtain s5 where 5: "run_state (init_tone P) s4 = ((), s5)" by (metis old.unit.exhaust surj_pair)
  have udp: "g_udp_tp s5 = g_udp_tp s2"
    using keepsD [OF udp_kept(3), of P s2] keepsD [OF udp_kept(4), of P s3] keepsD [OF udp_kept(5), of P s4] 3 4 5
    by simp
  consider "st1 \<noteq> PJ_SUCCESS" "r = st1" "t = s1" | "st2 \<noteq> PJ_SUCCESS" "r = st2" "t = s2"
    | "st3 \<noteq> PJ_SUCCESS" "r = st3" "t = s3" | "st2 = PJ_SUCCESS" "r = 0" "t = s5"
    using assms 1 2 3 4 5 by (auto simp: init_rest_def split: if_splits)
  then show ?thesis
    using init_engine_fails [OF 1] init_transports_cases [OF 2] init_start_fails [OF 3] udp by cases auto
qed

text \<open>
  Starting up clears every call's recording entry and installs the given callbacks, on
  every outcome. It returns 0 only with a UDP transport created and remembered; when it fails after
  the engine was created, pjsua has been destroyed as the last thing done to it.
\<close>

theorem init_outcome:
  "let r = run_state (pd_init P ua stun cbs) s; t = snd r
   in (\<forall>c. valid_call c \<longrightarrow> rec_entry t c = (0, [], -1, -1)) \<and> callbacks_of t = cbs
    \<and> (if fst r = 0 then \<exists>e f. api_transport_create P TP_UDP tp_default e = ((PJ_SUCCESS, g_udp_tp t), f)
       else api_create P (env s) = (fst r, env t) \<or> (\<exists>e. env t = snd (api_destroy P e)))"
proof -
  obtain r t where run: "run_state (init_rest P ua stun) (init_saved cbs s) = (r, t)" by fastforce
  have "fixed t = ((replicate 8 0, replicate 8 [], replicate 8 (-1), replicate 8 (-1)), cbs)"
    using keepsD [OF fixed_kept_rest, of P ua stun "init_saved cbs s"] run init_saved_fields(1) [of cbs s] by simp
  then have arr: "rec_arrays t = (replicate 8 0, replicate 8 [], replicate 8 (-1), replicate 8 (-1))"
      "callbacks_of t = cbs"
    by (simp_all add: fixed_def)
  have "rec_entry t c = (0, [], -1, -1)" if "valid_call c" for c
  proof -
    have "nat c < 8" using that by (auto simp: valid_call_def)
    then show ?thesis using arr(1) by (simp add: rec_entry_def rec_arrays_def elem_def)
  qed
  then show ?thesis
    using init_rest_cases [OF run] arr(2) run unfolding run_init Let_def init_saved_fields(2) by simp
qed

theorem init_outcome_witness:
  "rec_entry (exec (pd_init demo_base None None all_callbacks) (shim_load ())) 3 = (0, [], -1, -1)"
proof -
  have "valid_call 3" by (simp add: valid_call_def)
  then show ?thesis using init_outcome [of demo_base None None all_callbacks "shim_load ()"] by (simp add: Let_def)
qed

section \<open>The first audio devices\<close>

definition first_with :: "(aud_dev \<Rightarrow> nat) \<Rightarrow> aud_dev list \<Rightarrow> int" where
  "first_with f ds = (if \<exists>d \<in> set ds. 0 < f d then int (index_of (\<lambda>d. 0 < f d) ds) else -1)"

lemma find_pair_eq:
  "find_pair i ds a b =
     (if a \<noteq> -1 \<or> first_with input_count ds = -1 then a else int i + first_with input_count ds,
      if b \<noteq> -1 \<or> first_with output_count ds = -1 then b else int i + first_with output_count ds)"
proof (induction i ds a b rule: find_pair.induct)
  case (1 i a b)
  then show ?case by (simp add: first_with_def)
next
  case (2 i d ds a b)
  have step: "first_with f (d # ds) = (if 0 < f d then 0 else if first_with f ds = -1 then -1 else first_with f ds + 1)"
    for f :: "aud_dev \<Rightarrow> nat"
    by (auto simp: first_with_def)
  have nn: "first_with f ds = -1 \<or> 0 \<le> first_with f ds" for f :: "aud_dev \<Rightarrow> nat"
    by (auto simp: first_with_def)
  show ?case using "2.IH" [OF refl refl] nn [of input_count] nn [of output_count]
    by (auto simp: step Let_def)
qed

text \<open>
  Start-up puts pjsua on the null device and then, when both directions are to be
  had among the first 64 devices, on the first device with input and the first with output, which may
  differ; otherwise it stays on the null device.
\<close>

theorem init_audio_choice:
  "env (exec (init_audio P) s) =
     (let e = snd (api_set_null_snd_dev P (env s)); (st, ds) = api_enum_aud_devs P 64 e in
      if st = PJ_SUCCESS \<and> (\<exists>d \<in> set ds. 0 < input_count d) \<and> (\<exists>d \<in> set ds. 0 < output_count d)
      then snd (api_set_snd_dev P (int (index_of (\<lambda>d. 0 < input_count d) ds))
                                  (int (index_of (\<lambda>d. 0 < output_count d) ds)) e)
      else e)"
proof -
  let ?e = "snd (api_set_null_snd_dev P (env s))"
  obtain st ds where en: "api_enum_aud_devs P 64 ?e = (st, ds)" by (metis surj_pair)
  have fp: "find_pair 0 ds (-1) (-1) = (first_with input_count ds, first_with output_count ds)"
    by (simp add: find_pair_eq)
  have ne: "first_with f ds \<noteq> -1 \<longleftrightarrow> (\<exists>d \<in> set ds. 0 < f d)" for f :: "aud_dev \<Rightarrow> nat"
    by (auto simp: first_with_def)
  show ?thesis
  proof (cases "(\<exists>d \<in> set ds. 0 < input_count d) \<and> (\<exists>d \<in> set ds. 0 < output_count d)")
    case True
    then have "ds \<noteq> []" by auto
    then show ?thesis using True ne
      by (simp add: init_audio_def en fp Let_def) (simp add: first_with_def)
  next
    case False
    then have "first_with input_count ds = -1 \<or> first_with output_count ds = -1" using ne by blast
    then show ?thesis using False by (auto simp: init_audio_def en fp Let_def)
  qed
qed

section \<open>The log relay\<close>

lemma strip_eol_le: "strip_eol buf n \<le> n"
  by (induction n) (auto split: if_splits)

lemma strip_eol_last:
  "strip_eol buf n = Suc k \<Longrightarrow> buf ! k \<noteq> CHR 0x0A \<and> buf ! k \<noteq> CHR 0x0D"
  by (induction n) (auto split: if_splits)

lemma strip_eol_tail:
  "strip_eol buf n \<le> k \<Longrightarrow> k < n \<Longrightarrow> buf ! k = CHR 0x0A \<or> buf ! k = CHR 0x0D"
  by (induction n) (auto simp: less_Suc_eq split: if_splits)

text \<open>
  C34. A line of pjsip's log reaches Rust as one event at its level: its first 2047 bytes
  without the line ends that close them, and nothing else is removed. Without a callback, or for an
  empty line, nothing is sent.
\<close>

theorem log_relay:
  assumes "len = int (length data)"
  shows "if g_on_log s \<and> data \<noteq> []
    then \<exists>m tail. trace (exec (pj_log_writer level data len) s) = trace s @ [OnLog level m]
      \<and> take 2047 data = m @ tail \<and> set tail \<subseteq> {CHR 0x0A, CHR 0x0D}
      \<and> (m \<noteq> [] \<longrightarrow> last m \<notin> {CHR 0x0A, CHR 0x0D})
    else exec (pj_log_writer level data len) s = s"
proof (cases "g_on_log s \<and> data \<noteq> []")
  case False
  then show ?thesis using assms by (auto simp: pj_log_writer_def)
next
  case True
  define n where "n = min (length data) 2047"
  define buf where "buf = take 2047 data"
  define k where "k = strip_eol buf n"
  have n: "(if len \<ge> 2048 then 2047 else nat len) = n" using assms by (auto simp: n_def)
  have pos: "\<not> len \<le> 0" using True assms by simp
  have buf: "take n data = buf" "length buf = n" by (auto simp: n_def buf_def min_def)
  have k: "k \<le> n" unfolding k_def by (rule strip_eol_le)
  have "trace (exec (pj_log_writer level data len) s) = trace s @ [OnLog level (take k buf)]"
    using True pos by (simp add: pj_log_writer_def Let_def n buf k_def del: take_take)
  moreover have "set (drop k buf) \<subseteq> {CHR 0x0A, CHR 0x0D}"
  proof
    fix x assume "x \<in> set (drop k buf)"
    then obtain i where "x = buf ! (k + i)" "k + i < n" using buf(2) k by (auto simp: in_set_conv_nth)
    then show "x \<in> {CHR 0x0A, CHR 0x0D}" using strip_eol_tail [of buf n "k + i"] by (auto simp: k_def)
  qed
  moreover have "last (take k buf) \<notin> {CHR 0x0A, CHR 0x0D}" if "take k buf \<noteq> []"
  proof -
    obtain j where j: "k = Suc j" using \<open>take k buf \<noteq> []\<close> by (cases k) auto
    then have "last (take k buf) = buf ! j" using k buf(2) that by (simp add: last_conv_nth)
    then show ?thesis using strip_eol_last [of buf n j] j by (simp add: k_def)
  qed
  ultimately show ?thesis using True
    by (simp add: buf_def [symmetric]) (metis append_take_drop_id empty_iff insert_iff)
qed

theorem log_relay_witness:
  "\<exists>m. trace (exec (pj_log_writer 4 ''ok\<newline>'' 3) demo_shim) = [OnLog 4 m]"
proof -
  have "(3::int) = int (length ''ok\<newline>'')" by simp
  from log_relay [OF this, of demo_shim 4] show ?thesis by (auto simp: demo_shim_fields)
qed

section \<open>Shutdown\<close>

lemma destroy_loop:
  assumes "pv_ok (env s)"
  shows "\<exists>e. run_state (for_each rs (\<lambda>r. only_if (r \<noteq> PJSUA_INVALID_ID)
        (do { _ \<leftarrow> pj (api_recorder_destroy (pjsua_model H B) r); ret () }))) s = ((), s\<lparr>env := e\<rparr>)
    \<and> pv_ok e \<and> pv_live e = pv_live (env s) - set rs"
  using assms
proof (induction rs arbitrary: s)
  case Nil
  then show ?case by (intro exI [of _ "env s"]) simp
next
  case (Cons r rs)
  obtain st f where d: "run_state (pjsua_recorder_destroy H r) (env s) = (st, f)" by (metis surj_pair)
  have f: "pv_ok f \<and> pv_live f = pv_live (env s) - {r}"
    using pv.destroy_live [OF Cons.prems _ d] pv.destroy_dead [OF Cons.prems _ d] Cons.prems by (cases "r \<in> pv_live (env s)") auto
  have "-1 \<notin> pv_live (env s)" using pv.live_valid [OF Cons.prems, of "-1"] by auto
  then show ?case
    using Cons.IH [of "s\<lparr>env := f\<rparr>"] Cons.IH [of s] Cons.prems f d
    by (cases "r = -1") auto
qed

lemma remove_port_live:
  "pv_live (snd (run_state (pjsua_conf_remove_port a) v)) = pv_live v"
  by (simp add: pjsua_conf_remove_port_def pjsua_check_snd_dev_idle_def Let_def pv_live_def live_rec_def)

text \<open>
  C37. Shutting down destroys every recorder the shim has a record of before pjsua itself
  is destroyed, whose status it returns; it forgets the recordings, the tone generator and the three
  transports. Destroying the tone port is taken to leave pjsua's recorders alone.
\<close>

theorem shutdown_releases:
  assumes "pv_ok (env s)" "\<And>p e. pv_live (snd (api_port_destroy B p e)) = pv_live e"
  shows "let r = run_state (pd_shutdown (pjsua_model H B)) s; t = snd r
    in (\<exists>e. (fst r, env t) = api_destroy B e \<and> pv_live e = pv_live (env s) - set (g_recorder_id s))
     \<and> rec_arrays t = (replicate 8 0, replicate 8 [], replicate 8 (-1), replicate 8 (-1))
     \<and> g_tone_port t = None \<and> g_tone_slot t = -1 \<and> g_udp_tp t = -1 \<and> g_tcp_tp t = -1 \<and> g_tls_tp t = -1"
proof -
  have B: "api_port_destroy (pjsua_model H B) = api_port_destroy B" "api_destroy (pjsua_model H B) = api_destroy B"
    by (simp_all add: pjsua_model_def)
  obtain e where e: "run_state (for_each (g_recorder_id s) (\<lambda>r. only_if (r \<noteq> PJSUA_INVALID_ID)
        (do { _ \<leftarrow> pj (api_recorder_destroy (pjsua_model H B) r); ret () }))) s = ((), s\<lparr>env := e\<rparr>)"
    "pv_live e = pv_live (env s) - set (g_recorder_id s)"
    using destroy_loop [OF assms(1)] by blast
  define e1 where "e1 = (if g_tone_slot s \<noteq> -1 then snd (run_state (pjsua_conf_remove_port (g_tone_slot s)) e) else e)"
  define e2 where "e2 = (case g_tone_port s of None \<Rightarrow> e1 | Some p \<Rightarrow> snd (api_port_destroy B p e1))"
  have "pv_live e2 = pv_live e" by (auto simp: e2_def e1_def assms(2) remove_port_live split: option.splits)
  moreover have "run_state (pd_shutdown (pjsua_model H B)) s
    = (fst (api_destroy B e2), s\<lparr>g_is_recording := replicate 8 0, g_rec_path := replicate 8 [],
        g_recorder_id := replicate 8 (-1), g_recorder_slot := replicate 8 (-1), g_tone_slot := -1,
        g_tone_port := None, env := snd (api_destroy B e2), g_udp_tp := -1, g_tcp_tp := -1, g_tls_tp := -1\<rparr>)"
    using e(1) by (cases "g_tone_port s")
      (simp_all add: pd_shutdown_def pd_reset_recording_state_def B e1_def e2_def)
  ultimately show ?thesis using e(2)
    by (auto simp: Let_def rec_arrays_def intro!: exI [of _ e2])
qed

theorem shutdown_releases_witness:
  "rec_arrays (exec (pd_shutdown demo_pjsua) demo_shim) = (replicate 8 0, replicate 8 [], replicate 8 (-1), replicate 8 (-1))
   \<and> (\<exists>e. env (exec (pd_shutdown demo_pjsua) demo_shim) = e \<and> pv_live e = {})"
proof -
  have ok: "pv_ok (env demo_shim)" using demo_var_ok by simp
  have B: "pv_live (snd (api_port_destroy demo_base p e)) = pv_live e" for p and e :: "unit pjsua_var"
    by (simp add: demo_base_def)
  have D: "api_destroy demo_base e = (0, e)" for e :: "unit pjsua_var" by (simp add: demo_base_def)
  from shutdown_releases [OF ok B, of demo_hw] show ?thesis using demo_var_view by (auto simp: Let_def D)
qed

end
