(* ===== verification/Shim_System.thy ===== *)
theory Shim_System
  imports Shim_Stats Shim_Recording Shim_Callbacks Shim_Laws Shim_Lifecycle
begin

text \<open>
  The shim as one machine: the requests Rust can make, the callbacks pjsua can make, and the states
  they lead to after start-up, in any order and from any thread.
\<close>

section \<open>Requests and callbacks\<close>

datatype acc_request =
    Acc_Add "string option" "string option" "string option" "string option" "string option" "string option"
      int "string option" int "string option"
  | Acc_Remove int
  | Set_Forward int "string option" int
  | Get_Forward int int
  | Set_Lookup_Url int "string option"
  | Get_Lookup_Url int int
  | Set_Codec_Priority int "string option"
  | Get_Codec_Priority int int
  | Set_Codec int "string option" int
  | Set_Auto_Answer int int int
  | Get_Auto_Answer int
  | Set_Dtmf_Method int int
  | Get_Dtmf_Method int
  | Delete_Profile "string option"
  | Blf_Subscribe int "string option list option" int
  | Blf_Unsubscribe int

datatype global_request =
    Set_Dnd int
  | Set_Global_Codecs "string option"
  | Get_Global_Codecs int
  | Set_Global_Dtmf int
  | Get_Global_Dtmf
  | Set_Global_Auto_Answer int int
  | Get_Global_Auto_Answer
  | Dev_List int bool bool int bool
  | Set_Devs int int
  | Get_Devs
  | Play_Dtmf "string option"
  | Set_Ec int
  | Get_Ec
  | Set_Mic cfloat
  | Get_Mic

datatype call_request =
    Call_Make int "string option"
  | Call_Answer int
  | Call_Hangup int
  | Call_Hold int int
  | Call_Mute int int
  | Call_Dtmf int "string option"
  | Call_Transfer int "string option"
  | Start_Xfer int "string option"
  | Complete_Xfer int int
  | Merge int int
  | Stream_Stat int int

datatype rec_request =
    Start_Recording int "string option"
  | Stop_Recording int
  | Is_Recording int

datatype callback =
    Reg_State int
  | Incoming_Call int int
  | Call_State int
  | Call_Media_State int
  | Tsx_State int tsx_event
  | Transfer_Status int int "string option" bool
  | Buddy_State int
  | Log_Line int string int
  | Rx_Request "string option"
  | Rx_Response "string option"
  | Tx_Request "string option"
  | Tx_Response "string option"

text \<open>A command, with the thread it is run on.\<close>

datatype command =
    Account acc_request
  | Global global_request
  | Call call_request
  | Recording rec_request
  | Callback callback

definition silent :: "('s, 'a) state \<Rightarrow> ('s, unit) state" where
  "silent m = State_Monad.bind m (\<lambda>_. ret ())"

lemma exec_silent [simp]: "exec (silent m) s = exec m s"
  by (simp add: silent_def split: prod.splits)

fun run_acc :: "'e pjsua \<Rightarrow> acc_request \<Rightarrow> ('e, unit) shim_m" where
  "run_acc P (Acc_Add uri reg user pw auth proxy tp stun pub name) =
     silent (pd_acc_add P uri reg user pw auth proxy tp stun pub name)"
| "run_acc P (Acc_Remove a) = silent (pd_acc_remove P a)"
| "run_acc P (Set_Forward a uri flags) = silent (pd_acc_set_forward P a uri flags)"
| "run_acc P (Get_Forward a n) = silent (pd_acc_get_forward P a n)"
| "run_acc P (Set_Lookup_Url a url) = silent (pd_acc_set_lookup_url P a url)"
| "run_acc P (Get_Lookup_Url a n) = silent (pd_acc_get_lookup_url P a n)"
| "run_acc P (Set_Codec_Priority a p) = silent (pd_acc_set_codec_priority P a p)"
| "run_acc P (Get_Codec_Priority a n) = silent (pd_acc_get_codec_priority P a n)"
| "run_acc P (Set_Codec a c on) = silent (pd_acc_set_codec P a c on)"
| "run_acc P (Set_Auto_Answer a on delay) = silent (pd_acc_set_auto_answer P a on delay)"
| "run_acc P (Get_Auto_Answer a) = silent (pd_acc_get_auto_answer P a)"
| "run_acc P (Set_Dtmf_Method a m) = silent (pd_acc_set_dtmf_method P a m)"
| "run_acc P (Get_Dtmf_Method a) = silent (pd_acc_get_dtmf_method P a)"
| "run_acc P (Delete_Profile u) = silent (pd_acc_delete_profile P u)"
| "run_acc P (Blf_Subscribe a uris n) = silent (pd_blf_subscribe P a uris n)"
| "run_acc P (Blf_Unsubscribe a) = silent (pd_blf_unsubscribe P a)"

fun run_global :: "'e pjsua \<Rightarrow> global_request \<Rightarrow> ('e, unit) shim_m" where
  "run_global P (Set_Dnd on) = silent (pd_set_global_dnd P on)"
| "run_global P (Set_Global_Codecs p) = silent (pd_set_global_codec_priority P p)"
| "run_global P (Get_Global_Codecs n) = silent (pd_get_global_codec_priority n)"
| "run_global P (Set_Global_Dtmf m) = silent (pd_set_global_dtmf_method P m)"
| "run_global P Get_Global_Dtmf = silent pd_get_global_dtmf_method"
| "run_global P (Set_Global_Auto_Answer on delay) = silent (pd_set_global_auto_answer on delay)"
| "run_global P Get_Global_Auto_Answer = silent pd_get_global_auto_answer"
| "run_global P (Dev_List n i nm len k) = silent (pd_aud_dev_list P n i nm len k)"
| "run_global P (Set_Devs c p) = silent (pd_aud_set_devs P c p)"
| "run_global P Get_Devs = silent (pd_aud_get_devs P)"
| "run_global P (Play_Dtmf d) = silent (pd_aud_play_dtmf P d)"
| "run_global P (Set_Ec on) = silent (pd_set_ec_enabled P on)"
| "run_global P Get_Ec = silent pd_get_ec_enabled"
| "run_global P (Set_Mic l) = silent (pd_set_mic_amplification P l)"
| "run_global P Get_Mic = silent pd_get_mic_amplification"

fun run_call :: "'e pjsua \<Rightarrow> call_request \<Rightarrow> ('e, unit) shim_m" where
  "run_call P (Call_Make a uri) = silent (pd_call_make P a uri)"
| "run_call P (Call_Answer c) = silent (pd_call_answer P c)"
| "run_call P (Call_Hangup c) = silent (pd_call_hangup P c)"
| "run_call P (Call_Hold c on) = silent (pd_call_hold P c on)"
| "run_call P (Call_Mute c on) = silent (pd_call_set_mute P c on)"
| "run_call P (Call_Dtmf c d) = silent (pd_call_send_dtmf P c d)"
| "run_call P (Call_Transfer c uri) = silent (pd_call_transfer P c uri)"
| "run_call P (Start_Xfer c uri) = silent (pd_call_start_attended_xfer P c uri)"
| "run_call P (Complete_Xfer a b) = silent (pd_call_complete_xfer P a b)"
| "run_call P (Merge a b) = silent (pd_call_merge_conference P a b)"
| "run_call P (Stream_Stat c n) = silent (pd_call_get_stream_stat P c n)"

fun run_rec :: "'e pjsua \<Rightarrow> rec_request \<Rightarrow> ('e, unit) shim_m" where
  "run_rec P (Start_Recording c path) = silent (pd_call_start_recording P c path)"
| "run_rec P (Stop_Recording c) = silent (pd_call_stop_recording P c)"
| "run_rec P (Is_Recording c) = silent (pd_call_is_recording c)"

fun run_callback :: "'e pjsua \<Rightarrow> callback \<Rightarrow> ('e, unit) shim_m" where
  "run_callback P (Reg_State a) = on_reg_state P a"
| "run_callback P (Incoming_Call a c) = on_incoming_call P a c"
| "run_callback P (Call_State c) = on_call_state P c"
| "run_callback P (Call_Media_State c) = on_call_media_state P c"
| "run_callback P (Tsx_State c ev) = on_call_tsx_state P c ev"
| "run_callback P (Transfer_Status c code txt final) = silent (on_call_transfer_status c code txt final)"
| "run_callback P (Buddy_State b) = on_blf_notify P b"
| "run_callback P (Log_Line l d n) = pj_log_writer l d n"
| "run_callback P (Rx_Request m) = silent (on_rx_request_mod P m)"
| "run_callback P (Rx_Response m) = silent (on_rx_response_mod P m)"
| "run_callback P (Tx_Request m) = silent (on_tx_request_mod P m)"
| "run_callback P (Tx_Response m) = silent (on_tx_response_mod P m)"

fun run_command :: "'e pjsua \<Rightarrow> command \<Rightarrow> ('e, unit) shim_m" where
  "run_command P (Account r) = run_acc P r"
| "run_command P (Global r) = run_global P r"
| "run_command P (Call r) = run_call P r"
| "run_command P (Recording r) = run_rec P r"
| "run_command P (Callback r) = run_callback P r"

section \<open>Runs\<close>

text \<open>
  A session starts with a \<^verbatim>\<open>pd_init\<close> that returns 0 on the globals as loaded; a step runs a command
  on some thread.
\<close>

inductive shim_step :: "'e pjsua \<Rightarrow> 'e shim \<Rightarrow> 'e shim \<Rightarrow> bool" for P where
  run: "shim_step P s (exec (run_command P c) (s\<lparr>cur_thread := n\<rparr>))"

inductive reachable :: "'e pjsua \<Rightarrow> 'e \<Rightarrow> 'e shim \<Rightarrow> bool" for P e where
  init: "run_state (pd_init P ua stun cbs) (shim_load e) = (0, s) \<Longrightarrow> reachable P e s"
| step: "reachable P e s \<Longrightarrow> shim_step P s t \<Longrightarrow> reachable P e t"

inductive_cases shim_stepE: "shim_step P s t"

text \<open>The rule every invariant of the shim is proved by.\<close>

lemma reachable_invariant:
  assumes "reachable P e s"
    and "\<And>ua stun cbs s. run_state (pd_init P ua stun cbs) (shim_load e) = (0, s) \<Longrightarrow> I s"
    and "\<And>s n. I s \<Longrightarrow> I (s\<lparr>cur_thread := n\<rparr>)"
    and "\<And>s c. I s \<Longrightarrow> I (exec (run_command P c) s)"
  shows "I s"
  using assms(1)
proof (induction rule: reachable.induct)
  case (init ua stun cbs s)
  then show ?case by (rule assms(2))
next
  case (step s t)
  then show ?case using assms(3,4) by (auto elim!: shim_stepE)
qed

end
