(* ===== verification/Shim_Safety.thy ===== *)
theory Shim_Safety
  imports Shim_System Account_Store Recording_Laws Demo
begin

text \<open>
  What holds in every reachable state of the shim whatever pjsua does: the arrays keep their lengths,
  every text fits the buffer it is kept in, and every event Rust was sent is within its bounds.
\<close>

lemma pres_ask [pres_intro]: "pres I (ask f)"
  by (simp add: pres_def)

lemma pres_silent [pres_intro]: "pres I m \<Longrightarrow> pres I (silent m)"
  by (simp add: pres_def)

section \<open>The invariant\<close>

fun event_ok :: "shim_event \<Rightarrow> bool" where
  "event_ok (OnRegState a expires status reason) \<longleftrightarrow> length reason \<le> 127"
| "event_ok (OnIncomingCall a c uri) \<longleftrightarrow> length uri \<le> 255"
| "event_ok (OnCallState c state status) \<longleftrightarrow> 0 \<le> state \<and> state \<le> 6"
| "event_ok (OnCallMedia c active) \<longleftrightarrow> active = 0 \<or> active = 1"
| "event_ok (OnLog level msg) \<longleftrightarrow> length msg \<le> 2047"
| "event_ok (OnSipMsg c is_tx msg) \<longleftrightarrow> (is_tx = 0 \<or> is_tx = 1) \<and> msg \<noteq> [] \<and> length msg \<le> 4095"
| "event_ok (OnTransferStatus c code reason final) \<longleftrightarrow> length reason \<le> 127 \<and> (final = 0 \<or> final = 1)"
| "event_ok (OnBlfStatus uri state activity) \<longleftrightarrow> length uri \<le> 255 \<and> 0 \<le> state \<and> state \<le> 6 \<and> length activity \<le> 63"

definition texts_ok :: "'e shim \<Rightarrow> bool" where
  "texts_ok s \<longleftrightarrow> (\<forall>f \<in> set (g_acc_forward s). length (fwd_uri f) \<le> 255)
     \<and> (\<forall>c \<in> set (g_acc_config s). length (st_user_data c) \<le> 255)
     \<and> (\<forall>p \<in> set (g_rec_path s). length p \<le> 511)
     \<and> length (g_global_codec_priority s) \<le> 1023"

definition flags_ok :: "'e shim \<Rightarrow> bool" where
  "flags_ok s \<longleftrightarrow> set (g_is_recording s) \<subseteq> {0, 1} \<and> g_ec_enabled s \<in> {0, 1}
     \<and> \<not> cless (g_mic_amplification s) f_0_1 \<and> \<not> cless f_8 (g_mic_amplification s)"

definition safe :: "'e shim \<Rightarrow> bool" where
  "safe s \<longleftrightarrow> settings_ok s \<and> rec_lengths s \<and> texts_ok s \<and> flags_ok s \<and> list_all event_ok (trace s)"

lemmas safe_defs = safe_def settings_ok_def rec_lengths_def texts_ok_def flags_ok_def

lemma safe_load: "safe (shim_load e)"
  by (simp add: safe_defs shim_load_def f_0_1_def f_8_def)

lemma length_c_trunc_le [simp]: "n - 1 \<le> k \<Longrightarrow> length (c_trunc n s) \<le> k"
  by (simp add: c_trunc_def)

lemma length_fmt_le [simp]: "n - 1 \<le> k \<Longrightarrow> length (fmt n ps) \<le> k"
  using length_fmt [of n ps] by simp

section \<open>Primitives\<close>

lemma safe_env [simp]: "safe (s\<lparr>env := e\<rparr>) = safe s"
  by (simp add: safe_defs)

lemma safe_thread [simp]: "safe (s\<lparr>tls_thread_registered := t\<rparr>) = safe s" "safe (s\<lparr>cur_thread := n\<rparr>) = safe s"
  by (simp_all add: safe_defs)

lemma pres_pj [pres_intro]: "pres safe (pj f)"
  by (simp add: pres_def)

lemma pres_emit [pres_intro]: "event_ok ev \<Longrightarrow> pres safe (emit ev)"
  by (simp add: pres_def safe_defs)

lemma pres_log_msg [pres_intro]: "length m \<le> 2047 \<Longrightarrow> pres safe (log_msg l m)"
  by (simp add: pres_def safe_defs)

lemma pres_ensure_thread [pres_intro]: "pres safe (pd_ensure_thread P)"
  unfolding pd_ensure_thread_def by (intro pres_intro pres_modify) simp

lemma pres_enum_account_ids [pres_intro]: "pres safe (pd_enum_account_ids P n)"
  unfolding pd_enum_account_ids_def by (intro pres_intro)

lemma put_in: "x \<in> set (put xs i v) \<Longrightarrow> x = v \<or> x \<in> set xs"
  using set_update_subset_insert [of xs "nat i" v] by (auto simp: put_def)

section \<open>Requests\<close>

lemma pres_log_devices [pres_intro]: "pres safe (log_devices prefix cap play i ds)"
  by (induction prefix cap play i ds rule: log_devices.induct) (auto intro!: pres_intro)

lemma pres_audio_state [pres_intro]: "pres safe (pd_log_audio_state P prefix)"
  unfolding pd_log_audio_state_def by (intro pres_intro) auto

lemma pres_device_exists [pres_intro]: "pres safe (pd_audio_device_exists P i a b prefix)"
  unfolding pd_audio_device_exists_def by (intro pres_intro) auto

lemma pres_scan_media [pres_intro]: "pres safe (scan_media i ds a b)"
  by (induction ds arbitrary: i a b) (simp_all add: Let_def pres_intro)

lemma pres_check_media [pres_intro]: "pres safe (pd_check_media_ready P)"
  unfolding pd_check_media_ready_def by (intro pres_intro) auto

lemma pres_select_transport [pres_intro]: "pres safe (select_transport i)"
  unfolding select_transport_def by (intro pres_intro) (auto simp: em_dash_def)

lemma pres_subscribe_one [pres_intro]: "pres safe (subscribe_one P p)"
  unfolding subscribe_one_def by (intro pres_intro) auto

lemma valid_acc_elem: "length xs = MAX_ACCOUNTS \<Longrightarrow> valid_acc a \<Longrightarrow> elem xs a \<in> set xs"
  by (auto simp: elem_def dest: valid_acc_nat)

lemma safe_put:
  "safe s \<Longrightarrow> length (fwd_uri f) \<le> 255 \<Longrightarrow> safe (s\<lparr>g_acc_forward := put (g_acc_forward s) a f\<rparr>)"
  "safe s \<Longrightarrow> length (st_user_data c) \<le> 255 \<Longrightarrow> safe (s\<lparr>g_acc_config := put (g_acc_config s) a c\<rparr>)"
  "safe s \<Longrightarrow> safe (s\<lparr>g_acc_auto_answer := put (g_acc_auto_answer s) a aa\<rparr>)"
  "safe s \<Longrightarrow> safe (s\<lparr>g_acc_dtmf_method := put (g_acc_dtmf_method s) a m\<rparr>)"
  by (auto simp: safe_defs dest!: put_in)

lemma pres_settings [pres_intro]:
  "pres safe (pd_acc_set_forward P a uri flags)" "pres safe (pd_acc_set_lookup_url P a url)"
  "pres safe (pd_acc_set_auto_answer P a on delay)" "pres safe (pd_acc_set_dtmf_method P a m)"
  unfolding pd_acc_set_forward_def pd_acc_set_lookup_url_def pd_acc_set_auto_answer_def pd_acc_set_dtmf_method_def Let_def
  by (intro pres_intro pres_modify safe_put; simp)+

lemma pres_getters [pres_intro]:
  "pres safe (pd_acc_get_forward P a n)" "pres safe (pd_acc_get_lookup_url P a n)"
  "pres safe (pd_acc_set_codec_priority P a cp)" "pres safe (pd_acc_get_codec_priority P a n)"
  "pres safe (pd_acc_get_auto_answer P a)" "pres safe (pd_acc_get_dtmf_method P a)"
  "pres safe (pd_acc_delete_profile P u)" "pres safe (pd_acc_remove P a)" "pres safe (pd_acc_set_codec P a c on)"
  unfolding pd_acc_get_forward_def pd_acc_get_lookup_url_def pd_acc_set_codec_priority_def
    pd_acc_get_codec_priority_def pd_acc_get_auto_answer_def pd_acc_get_dtmf_method_def pd_acc_delete_profile_def
    pd_acc_remove_def pd_acc_set_codec_def
  by (intro pres_intro)+

lemma pres_acc_add [pres_intro]: "pres safe (pd_acc_add P uri reg user pw auth proxy tp stun pub name)"
  unfolding pd_acc_add_def Let_def by (intro pres_intro) auto

lemma pres_blf [pres_intro]: "pres safe (pd_blf_subscribe P a uris n)" "pres safe (pd_blf_unsubscribe P a)"
  unfolding pd_blf_subscribe_def pd_blf_unsubscribe_def by (intro pres_intro)+

lemma pres_acc: "pres safe (run_acc P r)"
  by (cases r) (auto intro!: pres_intro)

lemma pres_global_settings [pres_intro]:
  "pres safe (pd_set_global_dnd P on)" "pres safe (pd_set_global_codec_priority P cp)"
  "pres safe (pd_set_global_dtmf_method P m)" "pres safe (pd_set_global_auto_answer on' delay)"
  "pres safe (pd_set_ec_enabled P on)"
  unfolding pd_set_global_dnd_def pd_set_global_codec_priority_def pd_set_global_dtmf_method_def
    pd_set_global_auto_answer_def pd_set_ec_enabled_def Let_def
  by (intro pres_intro pres_modify; auto simp: safe_defs)+

lemma clamp_level_range: "\<not> cless (clamp_level l) f_0_1 \<and> \<not> cless f_8 (clamp_level l)"
  by (cases l) (auto simp: clamp_level_def f_0_1_def f_8_def Let_def)

lemma pres_mic [pres_intro]: "pres safe (pd_set_mic_amplification P l)"
  unfolding pd_set_mic_amplification_def Let_def
  by (intro pres_intro pres_modify) (auto simp: safe_defs clamp_level_range)

lemma pres_global_getters [pres_intro]:
  "pres safe (pd_get_global_codec_priority n)" "pres safe pd_get_global_dtmf_method"
  "pres safe pd_get_global_auto_answer" "pres safe pd_get_ec_enabled" "pres safe pd_get_mic_amplification"
  "pres safe (pd_aud_get_devs P)" "pres safe (pd_aud_play_dtmf P d)" "pres safe (pd_aud_dev_list P n i nm len k)"
  unfolding pd_get_global_codec_priority_def pd_get_global_dtmf_method_def pd_get_global_auto_answer_def
    pd_get_ec_enabled_def pd_get_mic_amplification_def pd_aud_get_devs_def pd_aud_play_dtmf_def pd_aud_dev_list_def Let_def
  by (intro pres_intro)+

lemma pres_set_devs [pres_intro]: "pres safe (pd_aud_set_devs P c p)"
  unfolding pd_aud_set_devs_def by (intro pres_intro) auto

lemma pres_global: "pres safe (run_global P r)"
  by (cases r) (auto intro!: pres_intro)

lemma pres_retry_call [pres_intro]: "pres safe (retry_call P a d r)"
  unfolding retry_call_def by (intro pres_intro) auto

lemma pres_call_make [pres_intro]: "pres safe (pd_call_make P a uri)"
  unfolding pd_call_make_def by (intro pres_intro) auto

lemma pres_simple_calls [pres_intro]:
  "pres safe (pd_call_answer P c)" "pres safe (pd_call_hangup P c)" "pres safe (pd_call_hold P c on)"
  "pres safe (pd_call_set_mute P c on)"
  unfolding pd_call_answer_def pd_call_hangup_def pd_call_hold_def pd_call_set_mute_def mute_one_def
  by (intro pres_intro; auto)+

lemma pres_call_dtmf [pres_intro]: "pres safe (pd_call_send_dtmf P c d)"
  unfolding pd_call_send_dtmf_def effective_dtmf_method_def Let_def by (intro pres_intro) auto

lemma pres_transfers [pres_intro]:
  "pres safe (pd_call_transfer P c uri)" "pres safe (pd_call_start_attended_xfer P c uri)"
  "pres safe (pd_call_complete_xfer P a b)"
  unfolding pd_call_transfer_def pd_call_start_attended_xfer_def pd_call_complete_xfer_def
  by (intro pres_intro; auto)+

lemma pres_merge [pres_intro]: "pres safe (pd_call_merge_conference P a b)"
  unfolding pd_call_merge_conference_def merge_ports_def Let_def by (intro pres_intro) auto

lemma pres_stream_stat [pres_intro]: "pres safe (pd_call_get_stream_stat P c n)"
  unfolding pd_call_get_stream_stat_def Let_def by (intro pres_intro)

lemma pres_call: "pres safe (run_call P r)"
  by (cases r) (auto intro!: pres_intro)

lemma pres_set_recording [pres_intro]:
  "length path \<le> 511 \<Longrightarrow> flag = 0 \<or> flag = 1 \<Longrightarrow> pres safe (set_recording c flag path r k)"
  unfolding set_recording_def by (intro pres_modify) (auto simp: safe_defs dest!: put_in)

lemma pres_attach_recorder [pres_intro]: "pres safe (attach_recorder P k path)"
  unfolding attach_recorder_def by (intro pres_intro)

lemma pres_recording [pres_intro]:
  "pres safe (pd_call_start_recording P c path)" "pres safe (pd_call_stop_recording P c)"
  "pres safe (pd_call_is_recording c)"
  unfolding pd_call_start_recording_def pd_call_stop_recording_def pd_call_is_recording_def
  by (intro pres_intro; simp)+

lemma pres_rec: "pres safe (run_rec P r)"
  by (cases r) (auto intro!: pres_intro)

section \<open>Callbacks\<close>

lemma inv_code_range: "0 \<le> inv_code st \<and> inv_code st \<le> 6"
  by (cases st) auto

lemma pres_states [pres_intro]: "pres safe (on_reg_state P a)" "pres safe (on_call_state P c)"
  unfolding on_reg_state_def on_call_state_def Let_def by (intro pres_intro; simp add: inv_code_range)+

lemma pres_incoming [pres_intro]: "pres safe (on_incoming_call P a c)"
  unfolding on_incoming_call_def pd_has_other_live_call_def by (intro pres_intro) (auto simp: em_dash_def)

lemma connect_media_result: "result (connect_media P ms n) s \<in> {n, 1}"
  by (induction P ms n arbitrary: s rule: connect_media.induct) (auto split: prod.splits)

lemma pres_connect_media [pres_intro]: "pres safe (connect_media P ms n)"
  by (induction P ms n rule: connect_media.induct) (simp_all add: pres_intro)

lemma pres_wire:
  "pres safe (State_Monad.bind (connect_media P ms 0)
      (\<lambda>n. State_Monad.bind (gets g_on_media) (\<lambda>cb. only_if cb (emit (OnCallMedia c n)))))"
proof (rule pres_bind_result [where Q = "\<lambda>n. n \<in> {0, 1}"])
  show "result (connect_media P ms 0) s \<in> {0, 1}" for s by (rule connect_media_result)
qed (auto intro!: pres_intro)

lemma pres_media_state [pres_intro]: "pres safe (on_call_media_state P c)"
  unfolding on_call_media_state_def
  by (rule pres_bind [OF pres_ask], rule pres_option, rule pres_ret, rule pres_wire)

text \<open>pjsip prints a message into the buffer it is given.\<close>

definition print_ok :: "'e pjsua \<Rightarrow> bool" where
  "print_ok P \<longleftrightarrow> (\<forall>m n t. api_msg_print P m n = Some t \<longrightarrow> length t \<le> n)"

lemma pres_capture [pres_intro]:
  "print_ok P \<Longrightarrow> is_tx = 0 \<or> is_tx = 1 \<Longrightarrow> pres safe (capture P c is_tx m)"
  unfolding capture_def by (intro pres_intro) (auto simp: print_ok_def)

lemma pres_tsx: "print_ok P \<Longrightarrow> pres safe (on_call_tsx_state P c ev)"
  unfolding on_call_tsx_state_def
  by (cases ev) (auto intro!: pres_intro split: option.splits)

lemma pres_modules:
  assumes "print_ok P"
  shows "pres safe (on_rx_request_mod P m)" "pres safe (on_rx_response_mod P m)"
    "pres safe (on_tx_request_mod P m)" "pres safe (on_tx_response_mod P m)"
  unfolding on_rx_request_mod_def on_rx_response_mod_def on_tx_request_mod_def on_tx_response_mod_def
  by (intro pres_intro; simp add: assms)+

lemma pres_transfer_status [pres_intro]: "pres safe (on_call_transfer_status c code txt final)"
  unfolding on_call_transfer_status_def Let_def by (intro pres_intro) (auto split: option.splits)

lemma blf_state_range: "blf_state info = (st, act) \<Longrightarrow> 0 \<le> st \<and> st \<le> 6 \<and> length act \<le> 63"
  by (auto simp: blf_state_def Let_def split: if_splits list.splits)

lemma pres_blf_notify [pres_intro]: "pres safe (on_blf_notify P b)"
  unfolding on_blf_notify_def Let_def by (intro pres_intro) (auto dest: blf_state_range)

lemma pres_log_writer [pres_intro]: "pres safe (pj_log_writer l d n)"
  unfolding pj_log_writer_def Let_def by (intro pres_intro) auto

lemma pres_callback: "print_ok P \<Longrightarrow> pres safe (run_callback P c)"
  by (cases c) (auto intro!: pres_intro pres_tsx pres_modules)

lemma pres_command: "print_ok P \<Longrightarrow> pres safe (run_command P c)"
  by (cases c) (simp_all add: pres_acc pres_global pres_call pres_rec pres_callback)

section \<open>Start-up\<close>

lemma pres_start [pres_intro]:
  "pres safe (init_engine P ua stun)" "pres safe (init_tcp P)" "pres safe (init_tls P)"
  "pres safe (init_start P)" "pres safe (init_audio P)" "pres safe (init_tone P)"
  unfolding init_engine_def init_tcp_def init_tls_def init_start_def init_audio_def init_tone_def Let_def
  by (intro pres_intro pres_modify; auto simp: safe_defs em_dash_def)+

lemma pres_init: "pres safe (pd_init P ua stun cbs)"
  unfolding pd_init_def init_transports_def pd_reset_recording_state_def save_callbacks_def
  by (intro pres_intro pres_modify) (auto simp: safe_defs)

lemma reachable_safe:
  assumes "print_ok P" "reachable P e s"
  shows "safe s"
proof (rule reachable_invariant [OF assms(2)])
  fix ua stun cbs t
  assume "run_state (pd_init P ua stun cbs) (shim_load e) = (0, t)"
  then show "safe t" using presD [OF pres_init safe_load, of P ua stun cbs e] by simp
qed (use presD [OF pres_command [OF assms(1)]] in auto)

end
