(* ===== verification/Acc_Laws.thy ===== *)
theory Acc_Laws
  imports Pjsua_Model
begin

text \<open>
  Laws of the account code: it leaves the bridge, recorders, calls and buddies alone (\<open>neutral\<close>), and
  it keeps the account table consistent.
\<close>

section \<open>Accounts and the rest of pjsua\<close>

lemma neutral_get_acc [neutral_intro]: "neutral (get_acc i)"
  unfolding get_acc_def by (rule neutral_gets)

lemma neutral_accounts [neutral_intro]: "neutral (upd_acc i f)"
  unfolding upd_acc_def by (rule neutral_modify) (simp add: same_fields tables_def)

lemma neutral_option [neutral_intro]:
  "neutral m \<Longrightarrow> (\<And>x. neutral (n x)) \<Longrightarrow> neutral (case y of None \<Rightarrow> m | Some x \<Rightarrow> n x)"
  by (cases y) auto

lemma neutral_sum [neutral_intro]:
  "(\<And>x. neutral (m x)) \<Longrightarrow> (\<And>x. neutral (n x)) \<Longrightarrow> neutral (case y of Inl x \<Rightarrow> m x | Inr x \<Rightarrow> n x)"
  by (cases y) auto

lemma neutral_destroy_regc [neutral_intro]: "neutral (destroy_regc H i force)"
  unfolding destroy_regc_def by (intro neutral_intro)

lemma neutral_regc_setup [neutral_intro]: "neutral (regc_setup H i r)"
  unfolding regc_setup_def Let_def by (intro neutral_intro)

lemma neutral_regc_init [neutral_intro]: "neutral (pjsua_regc_init H i)"
  unfolding pjsua_regc_init_def by (intro neutral_intro)

lemma neutral_requests [neutral_intro]:
  "neutral (make_register H i)" "neutral (make_unregister H i)" "neutral (cancel_rereg_timer H i)"
  unfolding make_register_def make_unregister_def cancel_rereg_timer_def by (intro neutral_intro)+

lemma neutral_set_registration [neutral_intro]: "neutral (pjsua_acc_set_registration H i renew)"
  unfolding pjsua_acc_set_registration_def Let_def by (intro neutral_intro)

lemma neutral_initialize_acc [neutral_intro]: "neutral (initialize_acc H i)"
  unfolding initialize_acc_def
  by (intro neutral_intro) (simp add: enter_acc_id_def Let_def same_fields tables_def)

lemma neutral_start_acc [neutral_intro]: "neutral (start_acc H i)"
  unfolding start_acc_def Let_def by (intro neutral_intro)

lemma neutral_acc_add: "neutral (pjsua_acc_add H cfg d)"
  unfolding pjsua_acc_add_def Let_def by (intro neutral_intro) (simp add: same_fields tables_def)

lemma neutral_release [neutral_intro]:
  "neutral (release_timers H i)" "neutral (release_regc H i)" "neutral (release_sessions H i)"
  unfolding release_timers_def release_regc_def release_sessions_def by (intro neutral_intro)+

lemma neutral_acc_del: "neutral (pjsua_acc_del H a)"
  unfolding pjsua_acc_del_def Let_def
  by (intro neutral_intro) (simp_all add: forget_acc_id_def Let_def same_fields tables_def)

section \<open>Invariants of the registration code\<close>

text \<open>
  A gentle change of an account keeps what the table depends on, and starts no client registration. A
  property is stable for the account \<open>i\<close> if it survives such changes of that account and any change of
  the modules below; it is registration-stable if it also survives the start of a client registration
  for an account in use that has a registrar.
\<close>

definition gentle :: "(pjsua_acc \<Rightarrow> pjsua_acc) \<Rightarrow> bool" where
  "gentle f \<longleftrightarrow> (\<forall>a. a_valid (f a) = a_valid a \<and> ac_priority (a_cfg (f a)) = ac_priority (a_cfg a)
     \<and> ac_reg_uri (a_cfg (f a)) = ac_reg_uri (a_cfg a)
     \<and> ac_reg_retry_interval (a_cfg (f a)) = ac_reg_retry_interval (a_cfg a) \<and> (a_regc (f a) \<noteq> None \<longrightarrow> a_regc a \<noteq> None))"

definition put_acc :: "nat \<Rightarrow> (pjsua_acc \<Rightarrow> pjsua_acc) \<Rightarrow> 'x pjsua_var \<Rightarrow> 'x pjsua_var" where
  "put_acc i f v = v\<lparr>accounts := (accounts v)[i := f (accounts v ! i)]\<rparr>"

definition live :: "nat \<Rightarrow> 'x pjsua_var \<Rightarrow> bool" where
  "live i v \<longleftrightarrow> i < length (accounts v) \<longrightarrow> a_valid (accounts v ! i) \<and> ac_reg_uri (a_cfg (accounts v ! i)) \<noteq> []"

definition stable :: "nat \<Rightarrow> ('x pjsua_var \<Rightarrow> bool) \<Rightarrow> bool" where
  "stable i I \<longleftrightarrow> (\<forall>v x. I v \<longrightarrow> I (v\<lparr>ext := x\<rparr>)) \<and> (\<forall>v f. gentle f \<longrightarrow> I v \<longrightarrow> I (put_acc i f v))"

definition regc_stable :: "nat \<Rightarrow> ('x pjsua_var \<Rightarrow> bool) \<Rightarrow> bool" where
  "regc_stable i I \<longleftrightarrow> stable i I \<and>
     (\<forall>v r. I v \<longrightarrow> live i v \<longrightarrow> I (put_acc i (\<lambda>a. a\<lparr>a_regc := Some r\<rparr>) v))"

lemma run_upd_acc [simp, run_simps]: "run_state (upd_acc i f) v = ((), put_acc i f v)"
  by (simp add: upd_acc_def put_acc_def)

lemma run_get_acc [simp, run_simps]: "run_state (get_acc i) v = (accounts v ! i, v)"
  by (simp add: get_acc_def)

lemma regc_stable_stable: "regc_stable i I \<Longrightarrow> stable i I"
  by (simp add: regc_stable_def)

lemma stable_conj: "stable i I \<Longrightarrow> stable i J \<Longrightarrow> stable i (\<lambda>v. I v \<and> J v)"
  by (auto simp: stable_def)

lemma stable_live: "stable i (live i)"
  by (auto simp: stable_def live_def gentle_def put_acc_def)

lemma pres_get_acc [pres_intro]: "pres I (get_acc i)"
  unfolding get_acc_def by (rule pres_gets)

lemma pres_on_ext: "stable i I \<Longrightarrow> pres I (on_ext f)"
  by (simp add: pres_def stable_def)

lemma pres_upd_ext: "stable i I \<Longrightarrow> pres I (upd_ext f)"
  by (simp add: pres_def stable_def)

lemma pres_upd_acc: "stable i I \<Longrightarrow> gentle f \<Longrightarrow> pres I (upd_acc i f)"
  by (simp add: pres_def stable_def)

lemma pres_sum [pres_intro]:
  "(\<And>x. pres I (m x)) \<Longrightarrow> (\<And>x. pres I (n x)) \<Longrightarrow> pres I (case y of Inl x \<Rightarrow> m x | Inr x \<Rightarrow> n x)"
  by (cases y) auto

lemma gentle_fields [simp]:
  "gentle (\<lambda>a. a\<lparr>a_regc := None, a_contact := x1, a_reg_mapped_addr := x2, a_rfc5626_status := x3, a_rfc5626_flowtmr := x4\<rparr>)"
  "gentle (\<lambda>a. a\<lparr>a_rereg_timer := b\<rparr>)" "gentle (\<lambda>a. a\<lparr>a_rereg_active := b\<rparr>)"
  "gentle (\<lambda>a. a\<lparr>a_rereg_active := b, a_rereg_attempt_cnt := n\<rparr>)"
  "gentle (\<lambda>a. a\<lparr>a_rereg_attempt_cnt := a_rereg_attempt_cnt a + 1\<rparr>)"
  "gentle (\<lambda>a. a\<lparr>a_ka_timer := b\<rparr>)" "gentle (\<lambda>a. a\<lparr>a_ka_transport := t\<rparr>)" "gentle (\<lambda>a. a\<lparr>a_ka_target := d\<rparr>)"
  "gentle (\<lambda>a. a\<lparr>a_rfc5626_flowtmr := n\<rparr>)"
  "gentle (\<lambda>a. a\<lparr>a_via_host := h, a_via_port := p, a_via_tp := t\<rparr>)" "gentle (\<lambda>a. a\<lparr>a_reg_mapped_addr := h\<rparr>)"
  "gentle (\<lambda>a. a\<lparr>a_contact_rewritten := b\<rparr>)" "gentle (\<lambda>a. a\<lparr>a_route_set := g a\<rparr>)"
  "gentle (\<lambda>a. a\<lparr>a_reg_last_err := st, a_reg_last_code := c, a_contact_rewritten := b\<rparr>)"
  "gentle (\<lambda>a. a\<lparr>a_ip_change_op := op\<rparr>)" "gentle (update_rfc5626_status rx)"
  by (auto simp: gentle_def update_rfc5626_status_def Let_def)

lemma gentle_contact [simp]: "gentle (\<lambda>a. update_regc_contact H (a\<lparr>a_contact := c\<rparr>))"
  by (auto simp: gentle_def update_regc_contact_def Let_def)

lemma pres_regc_set: "stable i I \<Longrightarrow> pres I (regc_set H r op)"
  unfolding regc_set_def by (intro pres_intro pres_upd_ext [of i])

lemmas stable_rules = pres_on_ext pres_upd_ext pres_upd_acc pres_regc_set
lemmas acc_pres_intro = pres_intro gentle_fields gentle_contact

lemma pres_destroy_regc: "stable i I \<Longrightarrow> pres I (destroy_regc H i force)"
  unfolding destroy_regc_def by (intro acc_pres_intro stable_rules [of i])

lemma pres_cancel_rereg_timer: "stable i I \<Longrightarrow> pres I (cancel_rereg_timer H i)"
  unfolding cancel_rereg_timer_def by (intro acc_pres_intro stable_rules [of i])

lemma pres_regc_setup: "stable i I \<Longrightarrow> pres I (regc_setup H i r)"
  unfolding regc_setup_def Let_def by (intro acc_pres_intro stable_rules [of i])

text \<open>Creating a client registration happens only for an account in use with a registrar.\<close>

lemma pres_regc_init:
  assumes I: "regc_stable i I"
  shows "pres I (pjsua_regc_init H i)"
proof -
  define J where "J v \<longleftrightarrow> I v \<and> live i v" for v :: "'a pjsua_var"
  have s: "stable i J"
    using stable_conj [OF regc_stable_stable [OF I] stable_live] by (simp add: J_def [abs_def])
  have start: "pres J (upd_acc i (\<lambda>a. a\<lparr>a_regc := Some r\<rparr>))" for r
    using I by (auto simp: pres_def J_def regc_stable_def live_def put_acc_def)
  define body where "body = do {
        destroy_regc H i True;
        (st, r) \<leftarrow> on_ext (hw_regc_create H (int i));
        if st \<noteq> PJ_SUCCESS then ret st
        else do {
          upd_acc i (\<lambda>a. a\<lparr>a_regc := Some r\<rparr>);
          a \<leftarrow> get_acc i;
          (st, contact) \<leftarrow> (if a_contact a = [] then gets (\<lambda>v. hw_uac_contact H (int i) (ac_reg_uri (a_cfg a)) (ext v))
                           else ret (PJ_SUCCESS, a_contact a));
          if st \<noteq> PJ_SUCCESS then do {
            destroy_regc H i True;
            ret st
          } else do {
            only_if (a_contact a = []) (upd_acc i (\<lambda>a. update_regc_contact H (a\<lparr>a_contact := contact\<rparr>)));
            a \<leftarrow> get_acc i;
            st \<leftarrow> on_ext (hw_regc_init H r (ac_reg_uri (a_cfg a)) (ac_id (a_cfg a)) (a_reg_contact a)
                           (ac_reg_timeout (a_cfg a)));
            if st \<noteq> PJ_SUCCESS then do {
              destroy_regc H i True;
              ret st
            } else do {
              regc_setup H i r;
              ret PJ_SUCCESS
            }
          }
        }
      }"
  have b: "pres J body"
    unfolding body_def
    by (intro start acc_pres_intro pres_destroy_regc [OF s] pres_regc_setup [OF s] stable_rules [OF s])
  have run: "run_state (pjsua_regc_init H i) v =
      (let a = accounts v ! i in
       if \<not> a_valid a then (PJ_EINVAL, v)
       else if ac_reg_uri (a_cfg a) = [] then (PJ_SUCCESS, v) else run_state body v)" for v
    by (simp add: pjsua_regc_init_def body_def Let_def)
  show ?thesis
    unfolding pres_def
  proof (intro allI impI)
    fix v assume v: "I v"
    show "I (exec (pjsua_regc_init H i) v)"
    proof (cases "a_valid (accounts v ! i) \<and> ac_reg_uri (a_cfg (accounts v ! i)) \<noteq> []")
      case True
      then have "J v" using v by (simp add: J_def live_def)
      from presD [OF b this] True show ?thesis by (simp add: run Let_def J_def)
    next
      case False
      then show ?thesis using v by (auto simp: run Let_def)
    qed
  qed
qed

lemma pres_set_registration:
  assumes I: "regc_stable i I"
  shows "pres I (pjsua_acc_set_registration H (int i) renew)"
proof -
  note s = regc_stable_stable [OF I]
  have "pres I (make_register H i)" "pres I (make_unregister H i)"
    unfolding make_register_def make_unregister_def by (intro acc_pres_intro pres_regc_init [OF I] stable_rules [OF s])+
  then show ?thesis
    unfolding pjsua_acc_set_registration_def Let_def nat_int
    by (intro acc_pres_intro pres_cancel_rereg_timer [OF s] stable_rules [OF s])
qed

lemmas stable_regc_rules = stable_rules pres_destroy_regc pres_cancel_rereg_timer

end
