(* ===== verification/Ownership.thy ===== *)
theory Ownership
  imports Shim_Safety Acc_Laws Lifecycle_Props
begin

text \<open>
  Recorders over whole sessions: in every reachable state of the shim on the model of pjsua the
  recorders in use are those of the calls marked as recorded, one each.
\<close>

section \<open>Frames\<close>

text \<open>A transition of pjsua that does not concern recorders, and a function that makes only such.\<close>

definition stays :: "'x pjsua_var \<Rightarrow> 'x pjsua_var \<Rightarrow> bool" where
  "stays e f \<longleftrightarrow> pv_ok f \<and> pv_live f = pv_live e
     \<and> (\<forall>r \<in> pv_live e. pjsua_recorder_get_conf_port r f = pjsua_recorder_get_conf_port r e)"

definition frame :: "('x pjsua_var \<Rightarrow> 'a \<times> 'x pjsua_var) \<Rightarrow> bool" where
  "frame g \<longleftrightarrow> (\<forall>e. pv_ok e \<longrightarrow> stays e (snd (g e)))"

lemma stays_refl: "pv_ok e \<Longrightarrow> stays e e"
  by (simp add: stays_def)

lemma stays_trans: "stays e f \<Longrightarrow> stays f g \<Longrightarrow> stays e g"
  by (simp add: stays_def)

text \<open>
  What the unmodelled functions of pjsua are relied on for: signalling, tones, codecs and
  start-up may open and close ports of the bridge, but not those of recorders, and use no recorder.
\<close>

definition base_ok :: "'x pjsua_var pjsua \<Rightarrow> bool" where
  "base_ok B \<longleftrightarrow> frame (api_create B) \<and> (\<forall>x. frame (api_init B x)) \<and> frame (api_register_module B)
     \<and> (\<forall>t x. frame (api_transport_create B t x)) \<and> frame (api_start B)
     \<and> (\<forall>a b c d. frame (api_tonegen_create B a b c d)) \<and> (\<forall>p ds. frame (api_tonegen_play_digits B p ds))
     \<and> (\<forall>c p. frame (api_codec_set_priority B c p))
     \<and> (\<forall>a u. frame (api_call_make_call B a u)) \<and> (\<forall>c n. frame (api_call_answer B c n))
     \<and> (\<forall>c n. frame (api_call_hangup B c n)) \<and> (\<forall>c. frame (api_call_set_hold B c))
     \<and> (\<forall>c opt. frame (api_call_reinvite B c opt)) \<and> (\<forall>c u. frame (api_call_xfer B c u))
     \<and> (\<forall>c k d. frame (api_call_send_dtmf B c k d)) \<and> (\<forall>c d. frame (api_call_dial_dtmf B c d))"

lemma base_frames:
  "base_ok B \<Longrightarrow> frame (api_create (pjsua_model H B))"
  "base_ok B \<Longrightarrow> frame (api_init (pjsua_model H B) x)"
  "base_ok B \<Longrightarrow> frame (api_register_module (pjsua_model H B))"
  "base_ok B \<Longrightarrow> frame (api_transport_create (pjsua_model H B) t ts)"
  "base_ok B \<Longrightarrow> frame (api_start (pjsua_model H B))"
  "base_ok B \<Longrightarrow> frame (api_tonegen_create (pjsua_model H B) a1 a2 a3 a4)"
  "base_ok B \<Longrightarrow> frame (api_tonegen_play_digits (pjsua_model H B) p ds)"
  "base_ok B \<Longrightarrow> frame (api_codec_set_priority (pjsua_model H B) cid pr)"
  "base_ok B \<Longrightarrow> frame (api_call_make_call (pjsua_model H B) a u)"
  "base_ok B \<Longrightarrow> frame (api_call_answer (pjsua_model H B) c n)"
  "base_ok B \<Longrightarrow> frame (api_call_hangup (pjsua_model H B) c n)"
  "base_ok B \<Longrightarrow> frame (api_call_set_hold (pjsua_model H B) c)"
  "base_ok B \<Longrightarrow> frame (api_call_reinvite (pjsua_model H B) c opt)"
  "base_ok B \<Longrightarrow> frame (api_call_xfer (pjsua_model H B) c u)"
  "base_ok B \<Longrightarrow> frame (api_call_send_dtmf (pjsua_model H B) c k digits)"
  "base_ok B \<Longrightarrow> frame (api_call_dial_dtmf (pjsua_model H B) c digits)"
  by (simp_all add: base_ok_def pjsua_model_def)

lemma stays_same: "same e f \<Longrightarrow> pv_ok e \<Longrightarrow> stays e f"
  using same_view [of e f] same_get_port [of e f] by (simp add: stays_def)

lemma frame_neutral: "neutral m \<Longrightarrow> frame (run_state m)"
  using neutralD by (auto simp: frame_def intro: stays_same)

lemma stays_tables: "tables f = tables e \<Longrightarrow> pv_ok f \<Longrightarrow> stays e f"
  by (simp add: stays_def tables_def pv_live_def live_rec_def pjsua_recorder_get_conf_port_def)

lemma stays_buddies: "pv_ok e \<Longrightarrow> recorder f = recorder e \<Longrightarrow> rec_cnt f = rec_cnt e \<Longrightarrow> mconf f = mconf e \<Longrightarrow> stays e f"
  by (simp add: stays_def pv_ok_def pv_live_def live_rec_def pjsua_recorder_get_conf_port_def)

lemma frame_connect: "frame (run_state (pjsua_conf_connect H a b))"
  unfolding frame_def
proof (intro allI impI)
  fix e :: "'a pjsua_var" assume e: "pv_ok e"
  obtain st f where "run_state (pjsua_conf_connect H a b) e = (st, f)" by (metis surj_pair)
  then show "stays e (snd (run_state (pjsua_conf_connect H a b) e))"
    using conf_connect_spec [OF e] by (simp add: stays_tables)
qed

lemma frame_disconnect: "frame (run_state (pjsua_conf_disconnect a b))"
  unfolding frame_def
proof (intro allI impI)
  fix e :: "'a pjsua_var" assume e: "pv_ok e"
  obtain st f where "run_state (pjsua_conf_disconnect a b) e = (st, f)" by (metis surj_pair)
  then show "stays e (snd (run_state (pjsua_conf_disconnect a b) e))"
    using conf_disconnect_spec [OF e] by (simp add: stays_tables)
qed

lemma frame_adjust: "frame (run_state (pjsua_conf_adjust_tx_level a l))"
  unfolding frame_def
proof (intro allI impI)
  fix e :: "'a pjsua_var" assume e: "pv_ok e"
  have "stays e (e\<lparr>mconf := snd (pjmedia_conf_adjust_tx_level (mconf e) (nat a) (level_adj l))\<rparr>)"
    using adjust_tx_keeps [OF pv_ok_conf [OF e]] pv_ok_conf_change [OF e] by (simp add: stays_tables tables_def)
  then show "stays e (snd (run_state (pjsua_conf_adjust_tx_level a l) e))"
    using stays_refl [OF e] by (simp add: pjsua_conf_adjust_tx_level_def)
qed

lemma frame_add_port: "frame (run_state (pjsua_conf_add_port H p))"
  unfolding frame_def
proof (intro allI impI)
  fix e :: "'a pjsua_var" assume e: "pv_ok e"
  obtain st i c where a: "pjmedia_conf_add_port (hw_resampler H) (mconf e) (hw_port H p (ext e)) None = ((st, i), c)"
    by (metis surj_pair)
  have "conf_ok c" "nodes (mconf e) \<subseteq> nodes c" using add_port_spec [OF pv_ok_conf [OF e] a] by (auto split: if_splits)
  then have "pv_ok (e\<lparr>mconf := c\<rparr>)" using e by (auto simp: pv_ok_def)
  then have "stays e (e\<lparr>mconf := c\<rparr>)" by (rule stays_tables [rotated]) (simp add: tables_def)
  then show "stays e (snd (run_state (pjsua_conf_add_port H p) e))" by (simp add: pjsua_conf_add_port_def a)
qed

lemma frame_buddy_add: "frame (run_state (pjsua_buddy_add H uri sub))"
  by (auto simp: frame_def pjsua_buddy_add_def reset_buddy_def intro!: stays_buddies)

lemma frame_buddy_del: "frame (run_state (pjsua_buddy_del H i))"
  by (auto simp: frame_def pjsua_buddy_del_def reset_buddy_def intro!: stays_buddies)

lemma model_frames:
  "frame (api_thread_register (pjsua_model H B))" "frame (api_set_snd_dev (pjsua_model H B) c p)"
  "frame (api_set_null_snd_dev (pjsua_model H B))" "frame (api_set_ec (pjsua_model H B) t opts)"
  "frame (api_conf_add_port (pjsua_model H B) q)" "frame (api_conf_connect (pjsua_model H B) a b)"
  "frame (api_conf_disconnect (pjsua_model H B) a b)" "frame (api_conf_adjust_tx_level (pjsua_model H B) a l)"
  "frame (api_buddy_add (pjsua_model H B) uri sub)" "frame (api_buddy_del (pjsua_model H B) i)"
  "frame (api_acc_add (pjsua_model H B) cfg d)" "frame (api_acc_del (pjsua_model H B) i)"
  unfolding model_simps
  by (rule frame_neutral [OF neutral_on_ext] frame_neutral [OF neutral_set_snd_dev]
      frame_neutral [OF neutral_set_null_snd_dev] frame_neutral [OF neutral_set_ec]
      frame_add_port frame_connect frame_disconnect frame_adjust frame_buddy_add frame_buddy_del
      frame_neutral [OF neutral_acc_add] frame_neutral [OF neutral_acc_del])+

section \<open>The invariant\<close>

definition recorded :: "'e shim \<Rightarrow> int set" where
  "recorded s = {c. valid_call c \<and> elem (g_is_recording s) c \<noteq> 0}"

definition owns :: "'x pjsua_var shim \<Rightarrow> bool" where
  "owns s \<longleftrightarrow> pv_ok (env s) \<and> rec_lengths s
     \<and> bij_betw (elem (g_recorder_id s)) (recorded s) (pv_live (env s))
     \<and> (\<forall>c \<in> recorded s. pjsua_recorder_get_conf_port (elem (g_recorder_id s) c) (env s) = elem (g_recorder_slot s) c)"

lemma owns_alike:
  assumes "owns s" "rec_arrays t = rec_arrays s" "stays (env s) (env t)"
  shows "owns t"
proof -
  have arr: "g_is_recording t = g_is_recording s" "g_recorder_id t = g_recorder_id s"
    "g_recorder_slot t = g_recorder_slot s"
    using assms(2) by (simp_all add: rec_arrays_def)
  have len: "rec_lengths t" using rec_arrays_lengths [OF assms(2)] assms(1) by (simp add: owns_def)
  have "elem (g_recorder_id s) c \<in> pv_live (env s)" if "c \<in> recorded s" for c
    using assms(1) that unfolding owns_def by (meson bij_betwE)
  moreover have "recorded t = recorded s" by (simp add: recorded_def arr)
  ultimately show ?thesis using assms(1,3) len unfolding owns_def stays_def arr by metis
qed

lemma owns_ok: "owns s \<Longrightarrow> pv_ok (env s)"
  by (simp add: owns_def)

lemma pres_owns_pj: "frame g \<Longrightarrow> pres owns (pj g)"
  unfolding pres_def
proof (intro allI impI)
  fix s :: "'a pjsua_var shim" assume g: "frame g" and s: "owns s"
  have "stays (env s) (snd (g (env s)))" using g owns_ok [OF s] by (simp add: frame_def)
  then show "owns (exec (pj g) s)" by (intro owns_alike [OF s]) (simp_all add: rec_arrays_def)
qed

lemma pres_owns_keeps:
  fixes m :: "('a pjsua_var, 'b) shim_m"
  assumes "keeps rec_arrays m" "keeps env m"
  shows "pres owns m"
  unfolding pres_def
proof (intro allI impI)
  fix s :: "'a pjsua_var shim" assume s: "owns s"
  show "owns (exec m s)"
    by (rule owns_alike [OF s keepsD [OF assms(1)]])
      (simp add: keepsD [OF assms(2)] stays_refl [OF owns_ok [OF s]])
qed

lemma pres_owns_modify:
  "(\<And>s. rec_arrays (f s) = rec_arrays s) \<Longrightarrow> (\<And>s. env (f s) = env s) \<Longrightarrow> pres owns (modify f)"
  by (intro pres_owns_keeps) (simp_all add: keeps_def)

lemma pres_owns_log: "pres owns (log_msg l m)" "pres owns (emit ev)"
  by (intro pres_owns_keeps; simp add: keeps_def rec_arrays_def)+

lemma pres_owns_enter: "pres owns (pd_ensure_thread (pjsua_model H B))"
  unfolding pd_ensure_thread_def
  by (intro pres_intro pres_owns_pj model_frames pres_owns_modify) (simp_all add: rec_arrays_def)

lemmas owns_intro = pres_intro pres_owns_pj pres_owns_log pres_owns_enter pres_owns_modify model_frames base_frames

section \<open>Requests and callbacks\<close>

lemma owns_log_devices: "pres owns (log_devices prefix cap play i ds)"
  by (induction prefix cap play i ds rule: log_devices.induct) (auto intro!: owns_intro)

lemma owns_scan_media: "pres owns (scan_media i ds a b)"
  by (induction ds arbitrary: i a b) (simp_all add: Let_def owns_intro)

lemma owns_audio_state: "pres owns (pd_log_audio_state P prefix)"
  unfolding pd_log_audio_state_def by (intro owns_intro owns_log_devices)

lemma owns_audio_checks:
  "pres owns (pd_audio_device_exists P i a b prefix)" "pres owns (pd_check_media_ready P)"
  "pres owns (select_transport tp)" "pres owns (pd_enum_account_ids P n)"
  unfolding pd_audio_device_exists_def pd_check_media_ready_def select_transport_def pd_enum_account_ids_def
  by (intro owns_intro owns_audio_state owns_scan_media)+

lemmas owns_checks = owns_intro owns_audio_state owns_audio_checks

lemma owns_acc:
  assumes "base_ok B"
  shows "pres owns (run_acc (pjsua_model H B) r)"
  using assms
  by (cases r)
    (simp_all add: pd_acc_add_def pd_acc_remove_def pd_acc_set_forward_def pd_acc_get_forward_def
      pd_acc_set_lookup_url_def pd_acc_get_lookup_url_def pd_acc_set_codec_priority_def
      pd_acc_get_codec_priority_def pd_acc_set_codec_def pd_acc_set_auto_answer_def pd_acc_get_auto_answer_def
      pd_acc_set_dtmf_method_def pd_acc_get_dtmf_method_def pd_acc_delete_profile_def pd_blf_subscribe_def
      pd_blf_unsubscribe_def subscribe_one_def Let_def rec_arrays_def owns_checks del: model_simps)

lemma owns_global:
  assumes "base_ok B"
  shows "pres owns (run_global (pjsua_model H B) r)"
  using assms
  by (cases r)
    (simp_all add: pd_set_global_dnd_def pd_set_global_codec_priority_def pd_get_global_codec_priority_def
      pd_set_global_dtmf_method_def pd_get_global_dtmf_method_def pd_set_global_auto_answer_def
      pd_get_global_auto_answer_def pd_aud_dev_list_def pd_aud_set_devs_def pd_aud_get_devs_def
      pd_aud_play_dtmf_def pd_set_ec_enabled_def pd_get_ec_enabled_def pd_set_mic_amplification_def
      pd_get_mic_amplification_def Let_def rec_arrays_def owns_checks del: model_simps)

lemma owns_call:
  assumes "base_ok B"
  shows "pres owns (run_call (pjsua_model H B) r)"
  using assms
  by (cases r)
    (simp_all add: pd_call_make_def retry_call_def pd_call_answer_def pd_call_hangup_def pd_call_hold_def
      pd_call_set_mute_def mute_one_def pd_call_send_dtmf_def effective_dtmf_method_def pd_call_transfer_def
      pd_call_start_attended_xfer_def pd_call_complete_xfer_def pd_call_merge_conference_def merge_ports_def
      pd_call_get_stream_stat_def Let_def rec_arrays_def owns_checks del: model_simps)

lemma owns_connect_media: "pres owns (connect_media (pjsua_model H B) ms n)"
  by (induction ms arbitrary: n) (simp_all add: owns_intro del: model_simps)

lemma owns_capture: "pres owns (capture P c is_tx m)"
  unfolding capture_def by (intro owns_intro)

lemma owns_callback:
  assumes "base_ok B"
  shows "pres owns (run_callback (pjsua_model H B) r)"
proof (cases r)
  case (Tsx_State c ev)
  show ?thesis unfolding Tsx_State run_callback.simps on_call_tsx_state_def
    by (cases ev) (simp_all add: owns_intro owns_capture)
qed (use assms in \<open>simp_all add: on_reg_state_def on_incoming_call_def pd_has_other_live_call_def on_call_state_def
      on_call_media_state_def on_call_transfer_status_def on_blf_notify_def pj_log_writer_def on_rx_request_mod_def
      on_rx_response_mod_def on_tx_request_mod_def on_tx_response_mod_def Let_def rec_arrays_def owns_checks
      owns_connect_media owns_capture del: model_simps\<close>)

section \<open>Starting and stopping a recording\<close>

lemma recorded_entry:
  fixes flag path r k
  assumes "rec_lengths s" "valid_call c" "valid_call d"
  defines "t \<equiv> exec (set_recording c flag path r k) s"
  shows "elem (g_recorder_id t) d = (if d = c then r else elem (g_recorder_id s) d)"
    "elem (g_recorder_slot t) d = (if d = c then k else elem (g_recorder_slot s) d)"
    "elem (g_is_recording t) d = (if d = c then flag else elem (g_is_recording s) d)"
proof -
  have "rec_entry t d = (if c = d then (flag, path, r, k) else rec_entry s d)"
    unfolding t_def by (rule set_recording_entry [OF assms(1-3)])
  then show "elem (g_recorder_id t) d = (if d = c then r else elem (g_recorder_id s) d)"
    "elem (g_recorder_slot t) d = (if d = c then k else elem (g_recorder_slot s) d)"
    "elem (g_is_recording t) d = (if d = c then flag else elem (g_is_recording s) d)"
    by (cases "c = d"; simp add: rec_entry_def)+
qed

lemma recorded_set:
  assumes "rec_lengths s" "valid_call c"
  shows "recorded (exec (set_recording c flag path r k) s) = (if flag = 0 then recorded s - {c} else insert c (recorded s))"
  using recorded_entry(3) [OF assms, of _ flag path r k] assms(2) by (auto simp: recorded_def split: if_splits)

lemma recorded_valid: "c \<in> recorded s \<Longrightarrow> valid_call c"
  by (simp add: recorded_def)

lemma owns_start:
  assumes s: "owns s" and u: "rec_arrays u = rec_arrays s" and v: "valid_call c" "c \<notin> recorded s"
    and x: "pv_ok (env u)" "r \<notin> pv_live (env s)" "pv_live (env u) = insert r (pv_live (env s))"
      "pjsua_recorder_get_conf_port r (env u) = k"
      "\<forall>q \<in> pv_live (env s). pjsua_recorder_get_conf_port q (env u) = pjsua_recorder_get_conf_port q (env s)"
  shows "owns (exec (set_recording c 1 path r k) u)"
proof -
  let ?t = "exec (set_recording c 1 path r k) u"
  have len: "rec_lengths u" using s rec_arrays_lengths [OF u] by (simp add: owns_def)
  have rec: "recorded u = recorded s" using u by (simp add: recorded_def rec_arrays_def)
  have t: "recorded ?t = insert c (recorded s)" using recorded_set [OF len v(1)] rec by simp
  note e = recorded_entry [OF len v(1) recorded_valid, of _ s 1 path r k]
  have old: "elem (g_recorder_id u) = elem (g_recorder_id s)" "elem (g_recorder_slot u) = elem (g_recorder_slot s)"
    using u by (simp_all add: rec_arrays_def)
  have "bij_betw (elem (g_recorder_id ?t)) (recorded s) (pv_live (env s))"
  proof -
    have "elem (g_recorder_id ?t) d = elem (g_recorder_id s) d" if "d \<in> recorded s" for d
      using e(1) [OF that] that v(2) old(1) by auto
    then have "bij_betw (elem (g_recorder_id ?t)) (recorded s) (pv_live (env s))
        = bij_betw (elem (g_recorder_id s)) (recorded s) (pv_live (env s))"
      by (rule bij_betw_cong)
    then show ?thesis using s by (simp add: owns_def)
  qed
  moreover have "elem (g_recorder_id ?t) c = r" using recorded_entry(1) [OF len v(1,1)] by simp
  ultimately have "bij_betw (elem (g_recorder_id ?t)) (recorded ?t) (pv_live (env ?t))"
    using v(2) x(2,3) notIn_Un_bij_betw [of c "recorded s" "elem (g_recorder_id ?t)" "pv_live (env s)"]
    by (simp add: t)
  moreover have "pjsua_recorder_get_conf_port (elem (g_recorder_id ?t) d) (env ?t) = elem (g_recorder_slot ?t) d"
    if d: "d \<in> recorded ?t" for d
  proof (cases "d = c")
    case True
    then show ?thesis using recorded_entry [OF len v(1,1)] x(4) by simp
  next
    case False
    then have "d \<in> recorded s" using d t by simp
    moreover then have "elem (g_recorder_id s) d \<in> pv_live (env s)" using s unfolding owns_def by (meson bij_betwE)
    ultimately show ?thesis using e False old s x(5) by (simp add: owns_def)
  qed
  ultimately show ?thesis using x(1) set_recording_lengths [OF len] by (simp add: owns_def)
qed

lemma owns_stop:
  assumes s: "owns s" and u: "rec_arrays u = rec_arrays s" and c: "c \<in> recorded s"
    and x: "pv_ok (env u)" "pv_live (env u) = pv_live (env s) - {elem (g_recorder_id s) c}"
      "\<forall>q \<in> pv_live (env s) - {elem (g_recorder_id s) c}.
         pjsua_recorder_get_conf_port q (env u) = pjsua_recorder_get_conf_port q (env s)"
  shows "owns (exec (set_recording c 0 path r k) u)"
proof -
  let ?t = "exec (set_recording c 0 path r k) u" and ?f = "elem (g_recorder_id s)"
  have len: "rec_lengths u" using s rec_arrays_lengths [OF u] by (simp add: owns_def)
  have v: "valid_call c" using c by (rule recorded_valid)
  have old: "recorded u = recorded s" "elem (g_recorder_id u) = ?f" "elem (g_recorder_slot u) = elem (g_recorder_slot s)"
    using u by (simp_all add: recorded_def rec_arrays_def)
  have t: "recorded ?t = recorded s - {c}" using recorded_set [OF len v] old(1) by simp
  have same: "elem (g_recorder_id ?t) d = ?f d \<and> elem (g_recorder_slot ?t) d = elem (g_recorder_slot s) d"
    if "d \<in> recorded ?t" for d
    using recorded_entry(1,2) [OF len v recorded_valid, of d s 0 path r k] that t old by auto
  have bij: "bij_betw ?f (recorded s) (pv_live (env s))" using s by (simp add: owns_def)
  then have "bij_betw ?f (recorded ?t) (pv_live (env ?t))"
    using c bij_betw_DiffI [OF bij bij_betw_singletonI] bij_betwE [OF bij] by (simp add: t x(2))
  moreover have "bij_betw (elem (g_recorder_id ?t)) (recorded ?t) (pv_live (env ?t))
      = bij_betw ?f (recorded ?t) (pv_live (env ?t))"
    by (rule bij_betw_cong) (use same in \<open>simp\<close>)
  ultimately have live: "bij_betw ?f (recorded ?t) (pv_live (env ?t))"
    "bij_betw (elem (g_recorder_id ?t)) (recorded ?t) (pv_live (env ?t))" by simp_all
  note live(2)
  moreover have "pjsua_recorder_get_conf_port (elem (g_recorder_id ?t) d) (env ?t) = elem (g_recorder_slot ?t) d"
    if d: "d \<in> recorded ?t" for d
  proof -
    have "?f d \<in> pv_live (env s) - {?f c}"
      using bij_betwE [OF live(1)] d x(2) by auto
    moreover have "d \<in> recorded s" using d t by simp
    ultimately show ?thesis using x(3) same [OF d] s by (simp add: owns_def)
  qed
  ultimately show ?thesis using x(1) set_recording_lengths [OF len] by (simp add: owns_def)
qed

lemma pres_owns_start: "pres owns (pd_call_start_recording (pjsua_model H B) c path)"
  unfolding pres_def
proof (intro allI impI)
  fix s :: "'a pjsua_var shim" assume s: "owns s"
  obtain res t where run: "run_state (pd_call_start_recording (pjsua_model H B) c path) s = (res, t)" by fastforce
  have arr: "rec_arrays ((entered (pjsua_model H B) s)\<lparr>env := f\<rparr>) = rec_arrays s" for f
    using rec_arrays_entered [of "pjsua_model H B" s] by (simp add: rec_arrays_def)
  have "owns t"
  proof (rule rm.start_recording_cases [OF owns_ok [OF s] run])
    fix f assume "t = (entered (pjsua_model H B) s)\<lparr>env := f\<rparr>" "rm.alike H B (env s) f"
    then show "owns t" using owns_alike [OF s arr] by (simp add: pv.alike_def stays_def)
  next
    fix r k f
    assume "valid_call c" "elem (g_is_recording s) c = 0" "rm.extends H B (env s) r k f"
      "t = exec (set_recording c 1 (c_trunc 512 (S path)) r k) ((entered (pjsua_model H B) s)\<lparr>env := f\<rparr>)"
    then show "owns t" using owns_start [OF s arr, of c f r k] by (simp add: pv.extends_def recorded_def)
  qed
  then show "owns (exec (pd_call_start_recording (pjsua_model H B) c path) s)" by (simp add: run)
qed

lemma pres_owns_stop: "pres owns (pd_call_stop_recording (pjsua_model H B) c)"
  unfolding pres_def
proof (intro allI impI)
  fix s :: "'a pjsua_var shim" assume s: "owns s"
  let ?u = "entered (pjsua_model H B) s"
  have arr: "rec_arrays (?u\<lparr>env := f\<rparr>) = rec_arrays s" for f
    using rec_arrays_entered [of "pjsua_model H B" s] by (simp add: rec_arrays_def)
  show "owns (exec (pd_call_stop_recording (pjsua_model H B) c) s)"
  proof (cases "c \<in> recorded s")
    case False
    then have "\<not> valid_call c \<or> elem (g_is_recording s) c = 0" by (simp add: recorded_def)
    then show ?thesis
      using rm.stop_recording_refused [of c s H B] presD [OF pres_owns_enter s, of H B] by simp
  next
    case True
    obtain res t where run: "run_state (pd_call_stop_recording (pjsua_model H B) c) s = (res, t)" by fastforce
    have "elem (g_recorder_id s) c \<in> pv_live (env s)" using s True unfolding owns_def by (meson bij_betwE)
    then have at: "rm.rec_at H B s c (elem (g_recorder_id s) c) (elem (g_recorder_slot s) c)"
      using s True by (simp add: rm.rec_at_def owns_def recorded_def)
    show ?thesis
      using rm.stop_recording_success [OF owns_ok [OF s] recorded_valid [OF True] at run] run
        owns_stop [OF s arr True, of _ "[]" "-1" "-1"] by auto
  qed
qed

lemma stop_recorded:
  assumes s: "owns s"
  shows "recorded (exec (pd_call_stop_recording (pjsua_model H B) c) s) = recorded s - {c}"
proof (cases "c \<in> recorded s")
  case False
  then have "\<not> valid_call c \<or> elem (g_is_recording s) c = 0" by (simp add: recorded_def)
  then show ?thesis
    using False rm.stop_recording_refused [of c s H B] rec_arrays_entered [of "pjsua_model H B" s]
    by (simp add: recorded_def rec_arrays_def)
next
  case True
  let ?u = "entered (pjsua_model H B) s"
  obtain res t where run: "run_state (pd_call_stop_recording (pjsua_model H B) c) s = (res, t)" by fastforce
  have "elem (g_recorder_id s) c \<in> pv_live (env s)" using s True unfolding owns_def by (meson bij_betwE)
  then have at: "rm.rec_at H B s c (elem (g_recorder_id s) c) (elem (g_recorder_slot s) c)"
    using s True by (simp add: rm.rec_at_def owns_def recorded_def)
  obtain f where t: "t = exec (set_recording c 0 [] PJSUA_INVALID_ID PJSUA_INVALID_ID) (?u\<lparr>env := f\<rparr>)"
    using rm.stop_recording_success [OF owns_ok [OF s] recorded_valid [OF True] at run] by auto
  have arr: "rec_arrays (?u\<lparr>env := f\<rparr>) = rec_arrays s"
    using rec_arrays_entered [of "pjsua_model H B" s] by (simp add: rec_arrays_def)
  then have "rec_lengths (?u\<lparr>env := f\<rparr>)" "recorded (?u\<lparr>env := f\<rparr>) = recorded s"
    using s rec_arrays_lengths [OF arr] by (simp_all add: owns_def recorded_def rec_arrays_def)
  then show ?thesis using recorded_set [OF _ recorded_valid [OF True], of "?u\<lparr>env := f\<rparr>" 0] t run by simp
qed

lemma stop_loop:
  assumes "owns s"
  shows "owns (exec (for_each cs (\<lambda>c. silent (pd_call_stop_recording (pjsua_model H B) c))) s)
    \<and> recorded (exec (for_each cs (\<lambda>c. silent (pd_call_stop_recording (pjsua_model H B) c))) s) = recorded s - set cs"
  using assms
proof (induction cs arbitrary: s)
  case Nil
  then show ?case by simp
next
  case (Cons c cs)
  let ?stop = "\<lambda>c. silent (pd_call_stop_recording (pjsua_model H B) c)"
  have "exec (for_each (c # cs) ?stop) s = exec (for_each cs ?stop) (exec (pd_call_stop_recording (pjsua_model H B) c) s)"
    using exec_silent [of "pd_call_stop_recording (pjsua_model H B) c" s] by (cases "run_state (?stop c) s") simp
  then show ?case
    using Cons.IH [OF presD [OF pres_owns_stop Cons.prems]] stop_recorded [OF Cons.prems, of H B c] by auto
qed

section \<open>Start-up\<close>

text \<open>Preservation by the runs of a command that return 0.\<close>

definition pres_ok :: "('s \<Rightarrow> bool) \<Rightarrow> ('s, int) state \<Rightarrow> bool" where
  "pres_ok I m \<longleftrightarrow> (\<forall>s t. I s \<longrightarrow> run_state m s = (PJ_SUCCESS, t) \<longrightarrow> I t)"

lemma pres_ok_pres: "pres I m \<Longrightarrow> pres_ok I m"
  by (auto simp: pres_ok_def dest: presD)

lemma pres_ok_bind: "pres I m \<Longrightarrow> (\<And>x. pres_ok I (n x)) \<Longrightarrow> pres_ok I (State_Monad.bind m n)"
  by (auto simp: pres_ok_def split: prod.splits) (metis presD snd_conv)

lemma pres_ok_if: "(b \<Longrightarrow> pres_ok I m) \<Longrightarrow> (\<not> b \<Longrightarrow> pres_ok I n) \<Longrightarrow> pres_ok I (if b then m else n)"
  by simp

lemma pres_ok_prod: "(\<And>x z. pres_ok I (n x z)) \<Longrightarrow> pres_ok I (case y of (x, z) \<Rightarrow> n x z)"
  by (cases y) auto

lemma pres_ok_fail: "(\<And>s. result m s \<noteq> PJ_SUCCESS) \<Longrightarrow> pres_ok I m"
  unfolding pres_ok_def by (metis fst_conv)

lemma pres_ok_stage:
  assumes "pres_ok I m" "pres_ok I n"
  shows "pres_ok I (State_Monad.bind m (\<lambda>st. if st \<noteq> PJ_SUCCESS then ret st else n))"
  unfolding pres_ok_def
proof (intro allI impI)
  fix s t assume s: "I s" and run: "run_state (State_Monad.bind m (\<lambda>st. if st \<noteq> PJ_SUCCESS then ret st else n)) s = (PJ_SUCCESS, t)"
  obtain st u where m: "run_state m s = (st, u)" by fastforce
  then have "st = PJ_SUCCESS" "run_state n u = (PJ_SUCCESS, t)" using run by (auto split: if_splits)
  then show "I t" using assms s m unfolding pres_ok_def by blast
qed

lemma pres_ok_abort: "st \<noteq> PJ_SUCCESS \<Longrightarrow> pres_ok I (State_Monad.bind m (\<lambda>_. ret st))"
  by (rule pres_ok_fail) (simp split: prod.splits)

lemma owns_init_engine:
  assumes "base_ok B"
  shows "pres_ok owns (init_engine (pjsua_model H B) ua stun)"
proof -
  note f = base_frames [OF assms]
  show ?thesis
    unfolding init_engine_def
    by (rule pres_ok_bind [OF pres_owns_pj [OF f(1)]], rule pres_ok_if, rule pres_ok_fail, simp,
        rule pres_ok_bind [OF pres_owns_pj [OF f(2)]], rule pres_ok_if, rule pres_ok_abort, simp,
        intro pres_ok_pres owns_intro f)
qed

lemma owns_init_tcp_tls:
  assumes "base_ok B"
  shows "pres owns (init_tcp (pjsua_model H B))" "pres owns (init_tls (pjsua_model H B))"
  unfolding init_tcp_def init_tls_def
  by (intro owns_intro base_frames [OF assms]; simp add: rec_arrays_def)+

lemma owns_init_transports:
  assumes "base_ok B"
  shows "pres_ok owns (init_transports (pjsua_model H B))"
  unfolding init_transports_def
  by (rule pres_ok_bind [OF pres_owns_log(1)], rule pres_ok_bind [OF pres_owns_pj [OF base_frames(4) [OF assms]]],
      rule pres_ok_prod, rule pres_ok_if, rule pres_ok_bind [OF pres_owns_log(1)], rule pres_ok_abort, simp,
      intro pres_ok_pres owns_intro owns_init_tcp_tls assms) (simp_all add: rec_arrays_def)

lemma owns_init_start:
  assumes "base_ok B"
  shows "pres_ok owns (init_start (pjsua_model H B))"
  unfolding init_start_def
  by (rule pres_ok_bind [OF pres_owns_pj [OF base_frames(5) [OF assms]]],
      rule pres_ok_if, rule pres_ok_bind [OF pres_owns_log(1)], rule pres_ok_abort, simp,
      intro pres_ok_pres owns_intro)

lemma owns_init_media:
  assumes "base_ok B"
  shows "pres owns (init_audio (pjsua_model H B))" "pres owns (init_tone (pjsua_model H B))"
  unfolding init_audio_def init_tone_def Let_def
  by (intro owns_intro base_frames [OF assms]; simp add: rec_arrays_def)+

lemma owns_init_rest:
  assumes "base_ok B"
  shows "pres_ok owns (init_rest (pjsua_model H B) ua stun)"
  unfolding init_rest_def
  by (intro pres_ok_stage owns_init_engine owns_init_transports owns_init_start assms)
    (intro pres_ok_pres pres_intro owns_init_media assms)

lemma owns_saved:
  assumes "pv_ok (env s)" "pv_live (env s) = {}"
  shows "owns (init_saved cbs s)"
proof -
  let ?t = "init_saved cbs s"
  have arr: "g_is_recording ?t = replicate 8 0" "g_rec_path ?t = replicate 8 []"
    "g_recorder_id ?t = replicate 8 (-1)" "g_recorder_slot ?t = replicate 8 (-1)"
    using init_saved_fields(1) [of cbs s] by (simp_all add: fixed_def rec_arrays_def)
  have "elem (replicate 8 (0::int)) c = 0" if "valid_call c" for c
  proof -
    have "nat c < 8" using that by (auto simp: valid_call_def)
    then show ?thesis by (simp add: elem_def)
  qed
  then have "recorded ?t = {}" by (auto simp: recorded_def arr)
  moreover have "rec_lengths ?t" by (simp add: rec_lengths_def arr)
  ultimately show ?thesis using assms by (simp add: owns_def init_saved_fields(2) bij_betw_def)
qed

lemma shim_load_env: "env (shim_load e) = e"
  by (simp add: shim_load_def)

lemma owns_command:
  assumes "base_ok B"
  shows "pres owns (run_command (pjsua_model H B) c)"
proof (cases c)
  case (Recording r)
  then show ?thesis
    by (cases r) (auto intro!: pres_silent pres_owns_start pres_owns_stop pres_intro simp: pd_call_is_recording_def)
qed (simp_all add: owns_acc owns_global owns_call owns_callback assms)

lemma reachable_owns:
  assumes "base_ok B" "pv_ok e" "pv_live e = {}" "reachable (pjsua_model H B) e s"
  shows "owns s"
proof (rule reachable_invariant [OF assms(4)])
  fix ua stun cbs t
  assume "run_state (pd_init (pjsua_model H B) ua stun cbs) (shim_load e) = (0, t)"
  moreover have "owns (init_saved cbs (shim_load e))"
    by (rule owns_saved) (simp_all add: shim_load_env assms(2,3))
  ultimately show "owns t" using owns_init_rest [OF assms(1)] unfolding run_init pres_ok_def by blast
next
  fix s :: "'a pjsua_var shim" and n assume s: "owns s"
  show "owns (s\<lparr>cur_thread := n\<rparr>)"
    by (rule owns_alike [OF s]) (simp_all add: rec_arrays_def stays_refl [OF owns_ok [OF s]])
qed (use presD [OF owns_command [OF assms(1)]] in auto)

end
