(* ===== verification/System_Props.thy ===== *)
theory System_Props
  imports Ownership
begin

text \<open>Properties of whole sessions: they hold in every state requests and callbacks can lead to.\<close>

section \<open>A session\<close>

lemma stage_results:
  assumes "result m s = PJ_SUCCESS" "\<And>t. result n t = PJ_SUCCESS"
  shows "result (State_Monad.bind m (\<lambda>st. if st \<noteq> PJ_SUCCESS then ret st else n)) s = PJ_SUCCESS"
  using assms by (cases "run_state m s") simp

lemma demo_init:
  assumes "api_create P = api_create demo_base" "api_init P = api_init demo_base"
    "api_transport_create P = api_transport_create demo_base" "api_start P = api_start demo_base"
  shows "\<exists>s. run_state (pd_init P ua stun cbs) (shim_load e) = (0, s) \<and> callbacks_of s = cbs"
proof -
  have "result (init_engine P ua stun) s = PJ_SUCCESS" "result (init_transports P) s = PJ_SUCCESS"
    "result (init_start P) s = PJ_SUCCESS" "result (do { init_audio P; init_tone P; ret 0 }) s = PJ_SUCCESS" for s
    by (simp_all add: init_engine_def init_transports_def init_start_def assms demo_base_def split: prod.splits)
  then have r: "result (init_rest P ua stun) (init_saved cbs (shim_load e)) = 0"
    unfolding init_rest_def by (intro stage_results) simp_all
  obtain s where s: "run_state (init_rest P ua stun) (init_saved cbs (shim_load e)) = (0, s)"
    using r by (metis prod.collapse)
  have "fixed s = fixed (init_saved cbs (shim_load e))"
    using keepsD [OF fixed_kept_rest, of P ua stun "init_saved cbs (shim_load e)"] s by simp
  then have "callbacks_of s = cbs" using init_saved_fields(1) [of cbs "shim_load e"] by (simp add: fixed_def)
  then show ?thesis using s by (simp add: run_init)
qed

text \<open>A session on which pjsip has logged a line.\<close>

lemma demo_logged: "\<exists>s. reachable demo_base () s \<and> (\<exists>m. OnLog 3 m \<in> set (trace s))"
proof -
  obtain s where s: "run_state (pd_init demo_base None None all_callbacks) (shim_load ()) = (0, s)"
    "callbacks_of s = all_callbacks"
    using demo_init [of demo_base None None all_callbacks "()"] by auto
  let ?t = "exec (run_command demo_base (Callback (Log_Line 3 ''x'' 1))) (s\<lparr>cur_thread := 1\<rparr>)"
  have "g_on_log s" using s(2) by (simp add: callbacks_of_def all_callbacks_def)
  then have "OnLog 3 ''x'' \<in> set (trace ?t)" by (simp add: pj_log_writer_def)
  moreover have "reachable demo_base () ?t"
    by (rule reachable.step [OF reachable.init [OF s(1)] shim_step.run])
  ultimately show ?thesis by blast
qed

lemma demo_print: "print_ok demo_base"
  by (simp add: print_ok_def demo_base_def)

section \<open>Bounds\<close>

text \<open>
  C14. In every state a session can reach, by any requests and callbacks in any order,
  every event Rust was sent is within the bounds of its kind: texts fit the buffers they come from,
  call states are 0 to 6, media flags 0 or 1, BLF states 0 to 6, and captured messages are not empty.
  pjsip's printing is taken to respect the buffer size it is given.
\<close>

theorem events_bounded:
  assumes "print_ok P" "reachable P e s"
  shows "\<forall>ev \<in> set (trace s). event_ok ev"
  using reachable_safe [OF assms] by (simp add: safe_def list_all_iff)

theorem events_bounded_witness:
  "\<exists>s m. reachable demo_base () s \<and> OnLog 3 m \<in> set (trace s) \<and> length m \<le> 2047"
proof -
  obtain s m where s: "reachable demo_base () s" "OnLog 3 m \<in> set (trace s)" using demo_logged by blast
  from events_bounded [OF demo_print s(1)] s show ?thesis by force
qed

text \<open>
  C38. In every state a session can reach the arrays of the shim have their declared
  lengths, every text kept in them fits its buffer, a call is marked recorded with 0 or 1, and the
  microphone level is not outside its range.
\<close>

theorem buffers_bounded:
  assumes "print_ok P" "reachable P e s"
  shows "settings_ok s \<and> rec_lengths s \<and> texts_ok s \<and> flags_ok s"
  using reachable_safe [OF assms] by (simp add: safe_def)

theorem buffers_bounded_witness:
  "\<exists>s. reachable demo_base () s \<and> settings_ok s \<and> texts_ok s"
proof -
  obtain s where s: "reachable demo_base () s" using demo_logged by blast
  from buffers_bounded [OF demo_print s] s show ?thesis by blast
qed

section \<open>Recorders\<close>

text \<open>
  C1. From a pjsua without recorders, in every state a session can reach by any requests
  and callbacks in any order, pjsua's recorders in use are exactly those the shim has noted for the calls
  marked as recorded, a different one for each, on the bridge slot noted with it: no recorder is ever
  leaked, shared or lost. The functions of pjsua that are not modelled are taken not to touch recorders.
\<close>

theorem recorder_ownership:
  assumes "base_ok B" "pv_ok e" "pv_live e = {}" "reachable (pjsua_model H B) e s"
  shows "pv_live (env s) = elem (g_recorder_id s) ` recorded s \<and> inj_on (elem (g_recorder_id s)) (recorded s)
    \<and> (\<forall>c \<in> recorded s. elem (g_recorder_slot s) c \<in> pv_slots (env s)
         \<and> pjsua_recorder_get_conf_port (elem (g_recorder_id s) c) (env s) = elem (g_recorder_slot s) c)"
proof -
  have o: "owns s" by (rule reachable_owns [OF assms])
  then have b: "bij_betw (elem (g_recorder_id s)) (recorded s) (pv_live (env s))" by (simp add: owns_def)
  have "elem (g_recorder_slot s) c \<in> pv_slots (env s)" if "c \<in> recorded s" for c
    using pv.port_slot [OF owns_ok [OF o]] bij_betwE [OF b] that o unfolding owns_def by metis
  then show ?thesis using o b by (auto simp: owns_def bij_betw_def)
qed

lemma demo_base_frames: "base_ok (demo_base :: unit pjsua_var pjsua)"
  by (simp add: base_ok_def demo_base_def frame_def stays_refl)

theorem recorder_ownership_witness:
  "\<exists>s. reachable demo_pjsua demo_var s \<and> pv_live (env s) = elem (g_recorder_id s) ` recorded s"
proof -
  obtain s where "run_state (pd_init demo_pjsua None None all_callbacks) (shim_load demo_var) = (0, s)"
    using demo_init [of demo_pjsua None None all_callbacks demo_var] by (auto simp: pjsua_model_def)
  then have "reachable demo_pjsua demo_var s" by (rule reachable.init)
  from recorder_ownership [OF demo_base_frames demo_var_ok demo_var_view(3) this] this show ?thesis by blast
qed

text \<open>
  C26. From every state a session can reach, asking to stop the recording of each of
  the eight calls leaves no call marked as recorded and no recorder in use in pjsua.
\<close>

theorem recordings_stoppable:
  assumes "base_ok B" "pv_ok e" "pv_live e = {}" "reachable (pjsua_model H B) e s"
  shows "let t = exec (for_each [0, 1, 2, 3, 4, 5, 6, 7] (\<lambda>c. silent (pd_call_stop_recording (pjsua_model H B) c))) s
    in recorded t = {} \<and> pv_live (env t) = {}"
proof -
  let ?t = "exec (for_each [0, 1, 2, 3, 4, 5, 6, 7] (\<lambda>c. silent (pd_call_stop_recording (pjsua_model H B) c))) s"
  have l: "owns ?t" "recorded ?t = recorded s - {0, 1, 2, 3, 4, 5, 6, 7}"
    using stop_loop [OF reachable_owns [OF assms], of "[0, 1, 2, 3, 4, 5, 6, 7]" H B] by (simp_all del: for_each.simps)
  have "recorded s \<subseteq> {0..7}" by (auto simp: recorded_def valid_call_def)
  also have "\<dots> = {0, 1, 2, 3, 4, 5, 6, 7}" by auto
  finally have "recorded ?t = {}" using l(2) by auto
  then show ?thesis using l(1) by (simp add: Let_def owns_def bij_betw_def)
qed

theorem recordings_stoppable_witness:
  "\<exists>s. reachable demo_pjsua demo_var s
    \<and> pv_live (env (exec (for_each [0, 1, 2, 3, 4, 5, 6, 7] (\<lambda>c. silent (pd_call_stop_recording demo_pjsua c))) s)) = {}"
proof -
  obtain s where "run_state (pd_init demo_pjsua None None all_callbacks) (shim_load demo_var) = (0, s)"
    using demo_init [of demo_pjsua None None all_callbacks demo_var] by (auto simp: pjsua_model_def)
  then have "reachable demo_pjsua demo_var s" by (rule reachable.init)
  from recordings_stoppable [OF demo_base_frames demo_var_ok demo_var_view(3) this] this show ?thesis
    by (auto simp: Let_def simp del: for_each.simps)
qed

end
