(* ===== verification/Reg_Laws.thy ===== *)
theory Reg_Laws
  imports Acc_Laws
begin

text \<open>
  The registration callback, the timers and lost transports keep every registration-stable property of
  the account they work on, provided hanging up a call keeps it.
\<close>

lemma pres_drop_calls:
  assumes "\<And>k. pres I (hangup k)"
  shows "pres I (drop_calls hangup i)"
  unfolding drop_calls_def by (intro pres_intro assms)

lemma pres_schedule:
  assumes "stable i I" "\<And>k. pres I (hangup k)"
  shows "pres I (schedule_reregistration H hangup i)"
  unfolding schedule_reregistration_def
  by (intro acc_pres_intro stable_regc_rules [OF assms(1)] pres_drop_calls [OF assms(2)])

lemma pres_refresh_contact: "stable i I \<Longrightarrow> pres I (refresh_contact H i)"
  unfolding refresh_contact_def by (intro acc_pres_intro stable_regc_rules [of i])

lemma pres_rereg_timer:
  assumes "regc_stable i I" "\<And>k. pres I (hangup k)"
  shows "pres I (auto_rereg_timer_cb H hangup i)"
  unfolding auto_rereg_timer_cb_def
  by (intro acc_pres_intro stable_regc_rules [OF regc_stable_stable [OF assms(1)]] pres_refresh_contact
      pres_schedule [OF regc_stable_stable [OF assms(1)] assms(2)] pres_set_registration [OF assms(1)]
      regc_stable_stable [OF assms(1)])

lemma pres_stop_keep_alive: "stable i I \<Longrightarrow> pres I (stop_keep_alive H i)"
  unfolding stop_keep_alive_def by (intro acc_pres_intro stable_regc_rules [of i])

lemma pres_update_keep_alive: "stable i I \<Longrightarrow> pres I (update_keep_alive H i start)"
  unfolding update_keep_alive_def by (intro acc_pres_intro stable_regc_rules [of i] pres_stop_keep_alive)

lemma pres_keep_alive_timer: "stable i I \<Longrightarrow> pres I (keep_alive_timer_cb H i)"
  unfolding keep_alive_timer_cb_def by (intro acc_pres_intro stable_regc_rules [of i])

lemma pres_save_via: "stable i I \<Longrightarrow> pres I (save_via_addr H i rx)"
  unfolding save_via_addr_def Let_def by (intro acc_pres_intro stable_regc_rules [of i])

lemma pres_check_nat:
  assumes "regc_stable i I"
  shows "pres I (acc_check_nat_addr H i rewrite_method rx)"
  unfolding acc_check_nat_addr_def Let_def
  by (intro acc_pres_intro stable_regc_rules [OF regc_stable_stable [OF assms]] pres_set_registration [OF assms]
      pres_save_via regc_stable_stable [OF assms])

lemma pres_service_route: "stable i I \<Longrightarrow> pres I (update_service_route H i rx)"
  unfolding update_service_route_def
  by (cases "collect_headers H [] (rx_service_route rx)")
    (simp_all, (intro acc_pres_intro stable_regc_rules [of i]; assumption)+)

lemma pres_tsx_cb: "regc_stable i I \<Longrightarrow> pres I (regc_tsx_cb H i p b)"
  unfolding regc_tsx_cb_def by (intro acc_pres_intro pres_check_nat)

lemma pres_regc_outcome:
  assumes "regc_stable i I"
  shows "pres I (regc_outcome H i p)"
  unfolding regc_outcome_def regc_registered_def
  by (intro acc_pres_intro stable_regc_rules [OF regc_stable_stable [OF assms]] pres_check_nat [OF assms]
      pres_service_route [OF regc_stable_stable [OF assms]] pres_update_keep_alive [OF regc_stable_stable [OF assms]])

lemma pres_regc_cb_update:
  assumes "regc_stable i I" "\<And>k. pres I (hangup k)"
  shows "pres I (regc_cb_update H hangup i p)"
  unfolding regc_cb_update_def
  by (intro acc_pres_intro stable_regc_rules [OF regc_stable_stable [OF assms(1)]] pres_regc_outcome [OF assms(1)]
      pres_schedule [OF regc_stable_stable [OF assms(1)] assms(2)])

lemma pres_end_ip_change: "stable i I \<Longrightarrow> pres I (pjsua_acc_end_ip_change i)"
  unfolding pjsua_acc_end_ip_change_def by (intro acc_pres_intro stable_regc_rules [of i])

lemma pres_regc_cb:
  assumes "regc_stable i I" "\<And>k. pres I (hangup k)" "\<And>k. pres I (on_reg k)"
  shows "pres I (regc_cb H hangup on_reg i p)"
  unfolding regc_cb_def regc_cb_ip_change_def
  by (intro acc_pres_intro pres_regc_cb_update [OF assms(1,2)] assms(3) pres_set_registration [OF assms(1)]
      pres_end_ip_change [OF regc_stable_stable [OF assms(1)]] stable_regc_rules [OF regc_stable_stable [OF assms(1)]])

lemma pres_tp_lost:
  assumes "regc_stable i I" "\<And>k. pres I (hangup k)" "pres I (ip_change i)"
  shows "pres I (acc_tp_lost H hangup ip_change tp i)"
  unfolding acc_tp_lost_def
  by (intro acc_pres_intro stable_regc_rules [OF regc_stable_stable [OF assms(1)]] assms(3)
      pres_schedule [OF regc_stable_stable [OF assms(1)] assms(2)])

lemma pres_tp_state:
  assumes "\<And>i. regc_stable i I" "\<And>k. pres I (hangup k)" "\<And>i. pres I (ip_change i)"
  shows "pres I (pjsua_acc_on_tp_state_changed H hangup ip_change tp d)"
  unfolding pjsua_acc_on_tp_state_changed_def
  by (intro pres_intro pres_tp_lost assms pres_upd_ext [OF regc_stable_stable [OF assms(1)]])

end
