(* ===== verification/Acc_Table.thy ===== *)
theory Acc_Table
  imports Reg_Laws
begin

text \<open>
  The account table: the ids in use are listed once each, by descending priority, and counted, and only
  accounts in use with a registrar have a client registration. The specifications of adding and
  deleting an account.
\<close>

section \<open>The invariant\<close>

definition acc_used :: "'x pjsua_var \<Rightarrow> nat set" where
  "acc_used v = {i. i < length (accounts v) \<and> a_valid (accounts v ! i)}"

definition acc_prio :: "'x pjsua_var \<Rightarrow> nat \<Rightarrow> int" where
  "acc_prio v i = ac_priority (a_cfg (accounts v ! i))"

definition acc_ok :: "'x pjsua_var \<Rightarrow> bool" where
  "acc_ok v \<longleftrightarrow> length (accounts v) = PJSUA_MAX_ACC
     \<and> distinct (acc_ids v) \<and> set (acc_ids v) = acc_used v \<and> acc_cnt v = of_nat (length (acc_ids v))
     \<and> sorted_wrt (\<lambda>j k. acc_prio v j \<ge> acc_prio v k) (acc_ids v)
     \<and> (\<forall>i < length (accounts v). a_regc (accounts v ! i) \<noteq> None \<longrightarrow>
          a_valid (accounts v ! i) \<and> ac_reg_uri (a_cfg (accounts v ! i)) \<noteq> [])"

lemma acc_okD:
  assumes "acc_ok v"
  shows "length (accounts v) = 4" "distinct (acc_ids v)" "set (acc_ids v) = acc_used v"
    "acc_cnt v = of_nat (length (acc_ids v))" "sorted_wrt (\<lambda>j k. acc_prio v j \<ge> acc_prio v k) (acc_ids v)"
    "\<And>i. i < 4 \<Longrightarrow> a_regc (accounts v ! i) \<noteq> None \<Longrightarrow>
       a_valid (accounts v ! i) \<and> ac_reg_uri (a_cfg (accounts v ! i)) \<noteq> []"
  using assms by (simp_all add: acc_ok_def)

lemma acc_used_default [simp]: "acc_used (v\<lparr>default_acc := d\<rparr>) = acc_used v"
  by (simp add: acc_used_def)

lemma finite_acc_used [simp]: "finite (acc_used v)"
  by (simp add: acc_used_def)

lemma acc_ids_card: "acc_ok v \<Longrightarrow> length (acc_ids v) = card (acc_used v)"
  using acc_okD(2,3) distinct_card by metis

lemma card_acc_used: "acc_ok v \<Longrightarrow> card (acc_used v) \<le> 4"
proof -
  assume "acc_ok v"
  then have "card (acc_used v) \<le> card {..<4::nat}"
    by (intro card_mono) (auto simp: acc_used_def acc_okD(1))
  then show ?thesis by simp
qed

lemma acc_cnt_card: "acc_ok v \<Longrightarrow> unat (acc_cnt v) = card (acc_used v)"
  using card_acc_used [of v] by (simp add: acc_okD(4) acc_ids_card unat_of_nat take_bit_nat_eq_self)

text \<open>The view of the table the invariant is about.\<close>

lemma acc_ok_cong:
  assumes "acc_ok v" "length (accounts w) = length (accounts v)" "acc_ids w = acc_ids v" "acc_cnt w = acc_cnt v"
    "\<And>j. j < length (accounts v) \<Longrightarrow> a_valid (accounts w ! j) = a_valid (accounts v ! j)
      \<and> (a_valid (accounts v ! j) \<longrightarrow> ac_priority (a_cfg (accounts w ! j)) = ac_priority (a_cfg (accounts v ! j)))
      \<and> (a_regc (accounts w ! j) \<noteq> None \<longrightarrow> a_valid (accounts w ! j) \<and> ac_reg_uri (a_cfg (accounts w ! j)) \<noteq> [])"
  shows "acc_ok w"
proof -
  have used: "acc_used w = acc_used v" using assms(2,5) by (auto simp: acc_used_def)
  have prio: "acc_prio w j = acc_prio v j" if "j \<in> set (acc_ids v)" for j
    using that assms(1,5) by (simp add: acc_prio_def acc_okD(3) acc_used_def)
  have "sorted_wrt (\<lambda>j k. acc_prio w j \<ge> acc_prio w k) (acc_ids v)"
    by (rule sorted_wrt_mono_rel [OF _ acc_okD(5) [OF assms(1)]]) (simp add: prio)
  moreover have "\<forall>i < length (accounts w). a_regc (accounts w ! i) \<noteq> None \<longrightarrow>
      a_valid (accounts w ! i) \<and> ac_reg_uri (a_cfg (accounts w ! i)) \<noteq> []"
    using assms(2,5) by metis
  ultimately show ?thesis
    using acc_okD(1-4) [OF assms(1)] assms(2-4) used by (simp add: acc_ok_def)
qed

lemma put_acc_simps [simp]:
  "length (accounts (put_acc i f v)) = length (accounts v)" "acc_ids (put_acc i f v) = acc_ids v"
  "acc_cnt (put_acc i f v) = acc_cnt v" "default_acc (put_acc i f v) = default_acc v"
  "tpdata (put_acc i f v) = tpdata v" "outbound_proxy (put_acc i f v) = outbound_proxy v"
  "ua_cfg (put_acc i f v) = ua_cfg v" "calls (put_acc i f v) = calls v" "ext (put_acc i f v) = ext v"
  by (simp_all add: put_acc_def)

lemma put_acc_nth: "i < length (accounts v) \<Longrightarrow>
    accounts (put_acc i f v) ! j = (if j = i then f (accounts v ! i) else accounts v ! j)"
  by (simp add: put_acc_def)

lemma put_acc_out: "\<not> i < length (accounts v) \<Longrightarrow> put_acc i f v = v"
  by (simp add: put_acc_def list_update_beyond)

lemma acc_ok_put:
  assumes "acc_ok v" "i < length (accounts v) \<Longrightarrow> a_valid (f (accounts v ! i)) = a_valid (accounts v ! i)
      \<and> (a_valid (accounts v ! i) \<longrightarrow> ac_priority (a_cfg (f (accounts v ! i))) = ac_priority (a_cfg (accounts v ! i)))
      \<and> (a_regc (f (accounts v ! i)) \<noteq> None \<longrightarrow>
           a_valid (accounts v ! i) \<and> ac_reg_uri (a_cfg (f (accounts v ! i))) \<noteq> [])"
  shows "acc_ok (put_acc i f v)"
proof (cases "i < length (accounts v)")
  case True
  show ?thesis
    by (rule acc_ok_cong [OF assms(1)]) (use True assms acc_okD(1,6) [OF assms(1)] in \<open>auto simp: put_acc_nth\<close>)
qed (simp add: put_acc_out assms(1))

lemma acc_ok_ext: "acc_ok v \<Longrightarrow> acc_ok (v\<lparr>ext := x\<rparr>)"
  by (rule acc_ok_cong) (auto simp: acc_ok_def)

lemma acc_ok_stable: "regc_stable i acc_ok"
  unfolding regc_stable_def stable_def
proof (intro conjI allI impI)
  fix v :: "'a pjsua_var" and f assume g: "gentle f" and v: "acc_ok v"
  show "acc_ok (put_acc i f v)"
  proof (rule acc_ok_put [OF v])
    assume "i < length (accounts v)"
    then show "a_valid (f (accounts v ! i)) = a_valid (accounts v ! i)
      \<and> (a_valid (accounts v ! i) \<longrightarrow> ac_priority (a_cfg (f (accounts v ! i))) = ac_priority (a_cfg (accounts v ! i)))
      \<and> (a_regc (f (accounts v ! i)) \<noteq> None \<longrightarrow>
           a_valid (accounts v ! i) \<and> ac_reg_uri (a_cfg (f (accounts v ! i))) \<noteq> [])"
      using g acc_okD(6) [OF v, of i] by (auto simp: gentle_def acc_okD(1) [OF v])
  qed
next
  fix v :: "'a pjsua_var" and r assume v: "acc_ok v" and l: "live i v"
  show "acc_ok (put_acc i (\<lambda>a. a\<lparr>a_regc := Some r\<rparr>) v)"
    by (rule acc_ok_put [OF v]) (use l in \<open>simp add: live_def\<close>)
qed (simp add: acc_ok_ext)

text \<open>What concerns the other accounts and the table itself is stable, too.\<close>

definition others :: "nat \<Rightarrow> 'x pjsua_var \<Rightarrow> 'x pjsua_var \<Rightarrow> bool" where
  "others i v w \<longleftrightarrow> length (accounts w) = length (accounts v) \<and> acc_ids w = acc_ids v \<and> acc_cnt w = acc_cnt v
     \<and> default_acc w = default_acc v \<and> tpdata w = tpdata v \<and> (\<forall>j. j \<noteq> i \<longrightarrow> accounts w ! j = accounts v ! j)"

lemma others_refl [simp]: "others i v v"
  by (simp add: others_def)

lemma others_put: "others i v (put_acc i f v)"
  by (auto simp: others_def put_acc_def)

lemma others_trans: "others i u v \<Longrightarrow> others i v w \<Longrightarrow> others i u w"
  by (simp add: others_def)

lemma others_stable: "regc_stable i (others i v)"
  unfolding regc_stable_def stable_def
  by (intro conjI allI impI; (erule others_trans [OF _ others_put])?; simp add: others_def)

text \<open>An account in use stays so, with its registrar and priority.\<close>

definition same_user :: "pjsua_acc \<Rightarrow> pjsua_acc \<Rightarrow> bool" where
  "same_user a b \<longleftrightarrow> a_valid b = a_valid a \<and> ac_priority (a_cfg b) = ac_priority (a_cfg a)
     \<and> ac_reg_uri (a_cfg b) = ac_reg_uri (a_cfg a)"

lemma same_user_stable: "regc_stable i (\<lambda>v. i < length (accounts v) \<and> same_user a (accounts v ! i))"
  by (auto simp: regc_stable_def stable_def same_user_def gentle_def put_acc_nth)

section \<open>Initialising an account\<close>

lemma put_acc_put_acc: "i < length (accounts v) \<Longrightarrow> put_acc i f (put_acc i g v) = put_acc i (\<lambda>a. f (g a)) v"
  by (simp add: put_acc_def)

lemma put_acc_ext: "put_acc i f (v\<lparr>ext := x\<rparr>) = (put_acc i f v)\<lparr>ext := x\<rparr>"
  by (simp add: put_acc_def)

text \<open>What the steps of initialisation keep of the account.\<close>

definition kept :: "pjsua_acc \<Rightarrow> pjsua_acc \<Rightarrow> bool" where
  "kept a b \<longleftrightarrow> a_regc b = a_regc a \<and> a_reg_last_code b = a_reg_last_code a
     \<and> ac_reg_uri (a_cfg b) = ac_reg_uri (a_cfg a) \<and> ac_priority (a_cfg b) = ac_priority (a_cfg a)"

lemma kept_refl [simp]: "kept a a"
  by (simp add: kept_def)

lemma kept_trans: "kept a b \<Longrightarrow> kept b c \<Longrightarrow> kept a c"
  by (simp add: kept_def)

lemma kept_steps:
  "kept a (set_local_uri H u a)" "kept a (snd (check_reg_uri H a))" "kept a (config_cred_ice g a)"
  "kept a (init_outbound_setting H a)"
  by (auto simp: kept_def set_local_uri_def check_reg_uri_def config_cred_ice_def init_outbound_setting_def Let_def
      split: option.splits)

lemma valid_steps:
  "a_valid (set_local_uri H u a) = a_valid a" "a_valid (snd (check_reg_uri H a)) = a_valid a"
  "a_valid (config_cred_ice g a) = a_valid a" "a_valid (init_outbound_setting H a) = a_valid a"
  by (auto simp: set_local_uri_def check_reg_uri_def config_cred_ice_def init_outbound_setting_def Let_def
      split: option.splits)

definition initialised :: "nat \<Rightarrow> bool \<Rightarrow> 'x pjsua_var \<Rightarrow> 'x pjsua_var \<Rightarrow> bool" where
  "initialised i ok v w \<longleftrightarrow>
     length (accounts w) = length (accounts v) \<and> (\<forall>j. j \<noteq> i \<longrightarrow> accounts w ! j = accounts v ! j)
     \<and> kept (accounts v ! i) (accounts w ! i) \<and> a_valid (accounts w ! i) = (ok \<or> a_valid (accounts v ! i))
     \<and> acc_cnt w = acc_cnt v \<and> default_acc w = default_acc v \<and> tpdata w = tpdata v
     \<and> acc_ids w = (if ok then insert_at (index_of (\<lambda>k. acc_prio v k < acc_prio v i) (acc_ids v)) i (acc_ids v)
                    else acc_ids v)"

lemma initialised_put:
  "i < length (accounts v) \<Longrightarrow> kept (accounts v ! i) (f (accounts v ! i)) \<Longrightarrow>
   a_valid (f (accounts v ! i)) = a_valid (accounts v ! i) \<Longrightarrow> initialised i False v (put_acc i f v)"
  by (simp add: initialised_def put_acc_nth)

lemma initialised_trans:
  "initialised i False v u \<Longrightarrow> initialised i ok u w \<Longrightarrow> initialised i ok v w"
proof -
  assume 1: "initialised i False v u" and 2: "initialised i ok u w"
  have "acc_prio u k = acc_prio v k" for k
    using 1 by (cases "k = i") (simp_all add: initialised_def acc_prio_def kept_def)
  then show ?thesis using 1 2 unfolding initialised_def by (auto intro: kept_trans)
qed

lemma initialised_ext: "initialised i False v (v\<lparr>ext := x\<rparr>)"
  by (simp add: initialised_def)

lemma initialised_enter:
  assumes i: "i < length (accounts v)" "\<And>a. kept a (f a)" "\<And>a. a_valid (f a) = a_valid a"
  shows "initialised i True v (put_acc i f (enter_acc_id i (put_acc i (\<lambda>a. a\<lparr>a_valid := True\<rparr>) v)))"
proof -
  have [simp]: "(if k = i then (accounts v ! i)\<lparr>a_valid := True\<rparr> else accounts v ! k)
      = (accounts v ! k)\<lparr>a_valid := a_valid (accounts v ! k) \<or> k = i\<rparr>" for k
    by simp
  have p: "(\<lambda>k. ac_priority (a_cfg (accounts (put_acc i (\<lambda>a. a\<lparr>a_valid := True\<rparr>) v) ! k))) = acc_prio v"
    using i(1) by (auto simp: fun_eq_iff put_acc_nth acc_prio_def)
  have "kept (accounts v ! i) (f ((accounts v ! i)\<lparr>a_valid := True\<rparr>))"
    by (rule kept_trans [OF _ i(2)]) (simp add: kept_def)
  moreover have "a_valid (f ((accounts v ! i)\<lparr>a_valid := True\<rparr>))" by (simp add: i(3))
  ultimately show ?thesis
    using i(1) unfolding enter_acc_id_def Let_def p
    by (auto simp: initialised_def put_acc_def)
qed

lemma initialised_length: "initialised i ok v w \<Longrightarrow> length (accounts w) = length (accounts v)"
  by (simp add: initialised_def)

lemma initialize_acc_spec:
  assumes i: "i < length (accounts v)" and run: "run_state (initialize_acc H i) v = (st, w)"
  shows "initialised i (st = PJ_SUCCESS) v w"
proof (cases "hw_parse_uri H (ac_id (a_cfg (accounts v ! i)))")
  case None
  then have "st = PJSIP_EINVALIDURI" "w = v" using run by (simp_all add: initialize_acc_def)
  then show ?thesis by (simp add: initialised_def)
next
  case (Some u)
  define v1 where "v1 = put_acc i (set_local_uri H u) v"
  have 1: "initialised i False v v1" unfolding v1_def by (rule initialised_put [OF i]) (simp_all add: kept_steps valid_steps)
  have i1: "i < length (accounts v1)" using i by (simp add: v1_def)
  obtain s1 a1 where c: "check_reg_uri H (accounts v1 ! i) = (s1, a1)" by (metis surj_pair)
  define v2 where "v2 = put_acc i (\<lambda>_. a1) v1"
  have "initialised i False v1 v2"
    unfolding v2_def using kept_steps(2) [of "accounts v1 ! i" H] valid_steps(2) [of H "accounts v1 ! i"]
    by (intro initialised_put [OF i1]) (simp_all add: c)
  then have 2: "initialised i False v v2" by (rule initialised_trans [OF 1])
  have i2: "i < length (accounts v2)" using i1 by (simp add: v2_def)
  show ?thesis
  proof (cases "s1 = PJ_SUCCESS")
    case False
    then have "st = s1" "w = v1" using run Some c by (simp_all add: initialize_acc_def v1_def)
    then show ?thesis using 1 False by simp
  next
    case s1: True
    show ?thesis
    proof (cases "proxy_routes H (ac_proxy (a_cfg a1))")
      case None
      then have "st = PJ_EINVAL" "w = v2" using run Some c s1 by (simp_all add: initialize_acc_def v1_def v2_def)
      then show ?thesis using 2 by simp
    next
      case (Some routes)
      define v3 where "v3 = put_acc i (\<lambda>a. config_cred_ice (ua_cfg v2) (a\<lparr>a_route_set := outbound_proxy v2 @ routes\<rparr>)) v2"
      have k: "kept a (config_cred_ice g (a\<lparr>a_route_set := rs\<rparr>))" for a g rs
        by (rule kept_trans [OF _ kept_steps(3)]) (simp add: kept_def)
      have "initialised i False v2 v3"
        unfolding v3_def by (rule initialised_put [OF i2]) (simp_all add: k valid_steps)
      then have 3: "initialised i False v v3" by (rule initialised_trans [OF 2])
      obtain s4 x where e: "hw_pres_init_acc H (int i) (ext v2) = (s4, x)" by (metis surj_pair)
      have x3: "ext v3 = ext v2" by (simp add: v3_def)
      define v4 where "v4 = v3\<lparr>ext := x\<rparr>"
      have 4: "initialised i False v v4" unfolding v4_def by (rule initialised_trans [OF 3 initialised_ext])
      have i4: "i < length (accounts v4)" using initialised_length [OF 4] i by simp
      have split: "put_acc i (config_cred_ice (ua_cfg v2)) (put_acc i (\<lambda>a. a\<lparr>a_route_set := outbound_proxy v2 @ routes\<rparr>) v2) = v3"
        using i2 by (simp add: v3_def put_acc_put_acc)
      show ?thesis
      proof (cases "s4 = PJ_SUCCESS")
        case False
        have "st = s4" "w = v4"
          using x3 run \<open>hw_parse_uri H _ = Some u\<close> c s1 Some e False
          by (simp_all add: initialize_acc_def v1_def [symmetric] v2_def [symmetric] split v4_def)
        then show ?thesis using 4 False by simp
      next
        case s4: True
        define v5 where "v5 = (if ac_use_rfc5626 (a_cfg a1) then put_acc i (init_outbound_setting H) v4 else v4)"
        have "initialised i False v4 v5"
          unfolding v5_def
          using initialised_put [OF i4, of "init_outbound_setting H"] by (simp add: kept_steps valid_steps initialised_def)
        then have 5: "initialised i False v v5" by (rule initialised_trans [OF 4])
        have i5: "i < length (accounts v5)" using initialised_length [OF 5] i by simp
        define tp :: "pjsua_acc \<Rightarrow> pjsua_acc"
          where "tp = (\<lambda>a. a\<lparr>a_tp_type := acc_tp_type (tpdata v5) (a_cfg a), a_ip_change_op := IP_OP_NULL\<rparr>)"
        have "st = PJ_SUCCESS" and w: "w = put_acc i tp (enter_acc_id i (put_acc i (\<lambda>a. a\<lparr>a_valid := True\<rparr>) v5))"
          using run \<open>hw_parse_uri H _ = Some u\<close> c s1 Some e s4
          by (auto simp: initialize_acc_def v1_def [symmetric] v2_def [symmetric] split v4_def [symmetric] v5_def tp_def
              enter_acc_id_def Let_def split: if_splits)
        moreover have "initialised i True v5 w"
          unfolding w by (rule initialised_enter [OF i5]) (simp_all add: tp_def kept_def)
        ultimately show ?thesis using initialised_trans [OF 5] by simp
      qed
    qed
  qed
qed

section \<open>Adding an account\<close>

lemma set_insert_at: "set (insert_at k x xs) = insert x (set xs)"
  by (metis append_take_drop_id insert_at_def set_append Un_insert_right append_Cons append_Nil list.simps(15))

lemma length_insert_at: "length (insert_at k x xs) = Suc (length xs)"
  by (simp add: insert_at_def)

lemma distinct_insert_at: "distinct xs \<Longrightarrow> x \<notin> set xs \<Longrightarrow> distinct (insert_at k x xs)"
  unfolding insert_at_def
  by (auto simp: set_take_disj_set_drop_if_distinct dest: in_set_takeD in_set_dropD)

lemma sorted_insert_at:
  fixes p :: "nat \<Rightarrow> int"
  assumes "sorted_wrt (\<lambda>j k. p j \<ge> p k) xs"
  shows "sorted_wrt (\<lambda>j k. p j \<ge> p k) (insert_at (index_of (\<lambda>k. p k < p i) xs) i xs)"
  using assms
proof (induction xs)
  case Nil
  then show ?case by (simp add: insert_at_def)
next
  case (Cons x xs)
  show ?case
  proof (cases "p x < p i")
    case True
    then show ?thesis using Cons.prems by (fastforce simp: insert_at_def)
  next
    case False
    let ?k = "index_of (\<lambda>k. p k < p i) xs"
    have "insert_at (index_of (\<lambda>k. p k < p i) (x # xs)) i (x # xs) = x # insert_at ?k i xs"
      using False by (simp add: insert_at_def)
    moreover have "sorted_wrt (\<lambda>j k. p j \<ge> p k) (insert_at ?k i xs)" using Cons by simp
    moreover have "\<forall>y \<in> set (insert_at ?k i xs). p y \<le> p x" using Cons.prems False by (auto simp: set_insert_at)
    ultimately show ?thesis by simp
  qed
qed

lemma acc_ok_enter:
  assumes v: "acc_ok v" and i: "i < 4" "\<not> a_valid (accounts v ! i)" and init: "initialised i True v w"
  shows "acc_ok (w\<lparr>default_acc := d, acc_cnt := acc_cnt w + 1\<rparr>)" "acc_used w = insert i (acc_used v)"
proof -
  note v' = acc_okD [OF v] and w = init [unfolded initialised_def, simplified]
  show used: "acc_used w = insert i (acc_used v)" using w i v'(1) by (auto simp: acc_used_def)
  have prio: "acc_prio w = acc_prio v"
  proof
    fix k show "acc_prio w k = acc_prio v k"
      using w by (cases "k = i") (simp_all add: acc_prio_def kept_def)
  qed
  have notin: "i \<notin> set (acc_ids v)" using v'(3) i(2) by (simp add: acc_used_def)
  have "\<forall>j < length (accounts w). a_regc (accounts w ! j) \<noteq> None \<longrightarrow>
      a_valid (accounts w ! j) \<and> ac_reg_uri (a_cfg (accounts w ! j)) \<noteq> []"
  proof (intro allI impI)
    fix j assume j: "j < length (accounts w)" "a_regc (accounts w ! j) \<noteq> None"
    show "a_valid (accounts w ! j) \<and> ac_reg_uri (a_cfg (accounts w ! j)) \<noteq> []"
    proof (cases "j = i")
      case True
      then have "a_regc (accounts v ! i) \<noteq> None" using j(2) w by (simp add: kept_def)
      then show ?thesis using v'(6) [OF i(1)] i(2) by blast
    next
      case False
      then show ?thesis using j w v'(1,6) by simp
    qed
  qed
  moreover have "sorted_wrt (\<lambda>j k. acc_prio v j \<ge> acc_prio v k) (acc_ids w)"
    using w sorted_insert_at [OF v'(5), of i] by simp
  ultimately show "acc_ok (w\<lparr>default_acc := d, acc_cnt := acc_cnt w + 1\<rparr>)"
    using w v'(1-4) used notin distinct_insert_at [OF v'(2) notin]
    by (simp add: acc_ok_def acc_used_def acc_prio_def set_insert_at length_insert_at
        prio [unfolded acc_prio_def fun_eq_iff, rule_format])
qed

lemma pres_start_acc: "regc_stable i I \<Longrightarrow> pres I (start_acc H i)"
  unfolding start_acc_def Let_def
  by (intro pres_intro pres_set_registration pres_upd_ext regc_stable_stable)

definition added :: "pjsua_acc_config \<Rightarrow> nat \<Rightarrow> 'x pjsua_var \<Rightarrow> 'x pjsua_var \<Rightarrow> bool" where
  "added cfg i v w \<longleftrightarrow> i < 4 \<and> i \<notin> acc_used v \<and> (\<forall>j < i. j \<in> acc_used v) \<and> acc_used w = insert i (acc_used v)
     \<and> (\<forall>j. j \<noteq> i \<longrightarrow> accounts w ! j = accounts v ! j)
     \<and> acc_ids w = insert_at (index_of (\<lambda>k. acc_prio v k < ac_priority cfg) (acc_ids v)) i (acc_ids v)
     \<and> a_reg_last_code (accounts w ! i) = a_reg_last_code (accounts v ! i)
     \<and> ac_reg_uri (a_cfg (accounts w ! i)) = ac_reg_uri cfg \<and> ac_priority (a_cfg (accounts w ! i)) = ac_priority cfg"

text \<open>The last status code is only set by the registration callback.\<close>

definition reg_codes :: "'x pjsua_var \<Rightarrow> int list" where
  "reg_codes v = map a_reg_last_code (accounts v)"

lemma reg_codes_put [simp]:
  "i < length (accounts v) \<Longrightarrow> a_reg_last_code (f (accounts v ! i)) = a_reg_last_code (accounts v ! i) \<Longrightarrow>
   reg_codes (put_acc i f v) = reg_codes v"
  by (simp add: reg_codes_def put_acc_def list_eq_iff_nth_eq nth_list_update)

lemma codes_upd_acc:
  assumes "\<And>a. a_reg_last_code (f a) = a_reg_last_code a"
  shows "keeps reg_codes (upd_acc i f)"
proof (rule keepsI)
  fix v :: "'a pjsua_var"
  show "reg_codes (exec (upd_acc i f) v) = reg_codes v"
    by (cases "i < length (accounts v)") (simp_all add: put_acc_out assms)
qed

lemma codes_ext: "keeps reg_codes (on_ext f)" "keeps reg_codes (upd_ext g)" "keeps reg_codes (get_acc i)"
  by (simp_all add: keeps_def reg_codes_def)

lemma codes_contact: "a_reg_last_code (update_regc_contact H a) = a_reg_last_code a"
  by (simp add: update_regc_contact_def Let_def)

lemma codes_destroy_regc: "keeps reg_codes (destroy_regc H i force)"
  unfolding destroy_regc_def by (intro keeps_intro codes_ext codes_upd_acc) simp

lemma codes_regc_init: "keeps reg_codes (pjsua_regc_init H i)"
  unfolding pjsua_regc_init_def regc_setup_def Let_def
  by (intro keeps_intro codes_ext codes_upd_acc codes_destroy_regc) (simp_all add: codes_contact)

lemma codes_set_registration: "keeps reg_codes (pjsua_acc_set_registration H a renew)"
proof -
  have c: "keeps f (case y of Inl a \<Rightarrow> m a | Inr b \<Rightarrow> n b)"
    if "\<And>a. keeps f (m a)" "\<And>b. keeps f (n b)" for f :: "'a pjsua_var \<Rightarrow> int list" and m n y
    using that by (cases y) auto
  show ?thesis
    unfolding pjsua_acc_set_registration_def make_register_def make_unregister_def cancel_rereg_timer_def Let_def
    by (intro keeps_intro c codes_ext codes_upd_acc codes_regc_init) simp_all
qed

lemma codes_start_acc: "keeps reg_codes (start_acc H i)"
  unfolding start_acc_def Let_def by (intro keeps_intro codes_ext codes_set_registration)

lemma normalize_kept:
  "ac_reg_uri ((normalize_timeouts cfg)\<lparr>ac_proxy := ps\<rparr>) = ac_reg_uri cfg"
  "ac_priority ((normalize_timeouts cfg)\<lparr>ac_proxy := ps\<rparr>) = ac_priority cfg"
  by (simp_all add: normalize_timeouts_def)

definition add_outcome :: "pjsua_acc_config \<Rightarrow> bool \<Rightarrow> 'x pjsua_var \<Rightarrow> pj_status \<Rightarrow> int \<Rightarrow> 'x pjsua_var \<Rightarrow> bool" where
  "add_outcome cfg d v st k w \<longleftrightarrow> acc_ok w \<and>
     (if st = PJ_SUCCESS
      then \<exists>i. k = int i \<and> added cfg i v w \<and> default_acc w = (if d then int i else default_acc v)
      else k = PJSUA_INVALID_ID \<and> acc_ids w = acc_ids v \<and> acc_used w = acc_used v
           \<and> default_acc w = default_acc v \<and> (\<forall>j \<in> acc_used v. accounts w ! j = accounts v ! j))"

lemma index_of_cong: "(\<And>x. x \<in> set xs \<Longrightarrow> P x = Q x) \<Longrightarrow> index_of P xs = index_of Q xs"
  by (induction xs) auto

text \<open>A free entry: its configuration may be overwritten.\<close>

lemma free_no_regc: "acc_ok v \<Longrightarrow> i < 4 \<Longrightarrow> \<not> a_valid (accounts v ! i) \<Longrightarrow> a_regc (accounts v ! i) = None"
  using acc_okD(6) by (metis not_None_eq)

lemma overwrite_free:
  fixes c :: pjsua_acc_config
  assumes v: "acc_ok v" and i: "i < 4" "\<not> a_valid (accounts v ! i)"
  defines "u \<equiv> put_acc i (\<lambda>a. a\<lparr>a_cfg := c\<rparr>) v"
  shows "acc_ok u" "acc_used u = acc_used v" "\<not> a_valid (accounts u ! i)"
    "\<And>j. j \<noteq> i \<Longrightarrow> accounts u ! j = accounts v ! j"
    "a_reg_last_code (accounts u ! i) = a_reg_last_code (accounts v ! i)" "a_cfg (accounts u ! i) = c"
proof -
  have l: "i < length (accounts v)" using i(1) acc_okD(1) [OF v] by simp
  show "acc_ok u"
    unfolding u_def by (rule acc_ok_put [OF v]) (simp add: i free_no_regc [OF v i])
qed (use i acc_okD(1) [OF v] in \<open>auto simp: u_def acc_used_def put_acc_nth\<close>)

lemma initialise_failed:
  assumes u: "acc_ok u" and i: "i < 4" "\<not> a_valid (accounts u ! i)" and init: "initialised i False u w"
  shows "acc_ok w" "acc_used w = acc_used u" "acc_ids w = acc_ids u" "default_acc w = default_acc u"
    "\<And>j. j \<noteq> i \<Longrightarrow> accounts w ! j = accounts u ! j"
proof -
  note w = init [unfolded initialised_def, simplified]
  have r: "a_regc (accounts w ! i) = None" using w free_no_regc [OF u i] by (simp add: kept_def)
  show "acc_ok w"
  proof (rule acc_ok_cong [OF u])
    fix j assume "j < length (accounts u)"
    then show "a_valid (accounts w ! j) = a_valid (accounts u ! j)
      \<and> (a_valid (accounts u ! j) \<longrightarrow> ac_priority (a_cfg (accounts w ! j)) = ac_priority (a_cfg (accounts u ! j)))
      \<and> (a_regc (accounts w ! j) \<noteq> None \<longrightarrow> a_valid (accounts w ! j) \<and> ac_reg_uri (a_cfg (accounts w ! j)) \<noteq> [])"
      using w r i acc_okD(1,6) [OF u] by (cases "j = i") simp_all
  qed (use w in simp_all)
  show "acc_used w = acc_used u" using w by (auto simp: acc_used_def)
qed (use init in \<open>simp_all add: initialised_def\<close>)

lemma acc_add_spec:
  assumes v: "acc_ok v" and run: "run_state (pjsua_acc_add H cfg d) v = ((st, k), w)"
  shows "add_outcome cfg d v st k w"
proof -
  define i where "i = index_of (\<lambda>a. \<not> a_valid a) (accounts v)"
  have stop: "add_outcome cfg d v st k w" if "st \<noteq> PJ_SUCCESS" "k = PJSUA_INVALID_ID" "w = v"
    using that v by (simp add: add_outcome_def)
  show ?thesis
  proof (cases "unat (acc_cnt v) < length (accounts v) \<and> tpdata v ! 0 \<noteq> None \<and> i < length (accounts v)")
    case False
    show ?thesis
      by (rule stop; use run False in \<open>auto simp: pjsua_acc_add_def i_def [symmetric] Let_def split: if_splits\<close>)
  next
    case True
    then have i: "i < 4" "i < length (accounts v)" using acc_okD(1) [OF v] by simp_all
    have free: "\<not> a_valid (accounts v ! i)" using index_of_holds [of "\<lambda>a. \<not> a_valid a" "accounts v"] i by (simp add: i_def)
    have low: "\<forall>j < i. j \<in> acc_used v"
      using index_of_before [of _ "\<lambda>a. \<not> a_valid a" "accounts v"] i by (auto simp: i_def acc_used_def)
    obtain s1 ps where n: "normalize_proxies H (uc_force_lr (ua_cfg v)) (ac_proxy cfg) = (s1, ps)" by (metis surj_pair)
    define u where "u = put_acc i (\<lambda>a. a\<lparr>a_cfg := (normalize_timeouts cfg)\<lparr>ac_proxy := ps\<rparr>\<rparr>) v"
    note u = overwrite_free [OF v i(1) free, where c = "(normalize_timeouts cfg)\<lparr>ac_proxy := ps\<rparr>", folded u_def]
    have ne: "j \<noteq> i" if "j \<in> acc_used v" for j using that free by (auto simp: acc_used_def)
    have ids: "acc_ids u = acc_ids v" "default_acc u = default_acc v" "length (accounts u) = length (accounts v)"
      by (simp_all add: u_def)
    show ?thesis
    proof (cases "s1 = PJ_SUCCESS")
      case False
      then have "st = s1" "k = PJSUA_INVALID_ID" "w = u"
        using run True n by (simp_all add: pjsua_acc_add_def i_def [symmetric] Let_def u_def)
      then show ?thesis using False u(1,2,4) ids ne by (simp add: add_outcome_def)
    next
      case s1: True
      obtain s2 x where e: "run_state (initialize_acc H i) u = (s2, x)" by (metis surj_pair)
      have init: "initialised i (s2 = PJ_SUCCESS) u x" by (rule initialize_acc_spec [OF _ e]) (simp add: ids i)
      show ?thesis
      proof (cases "s2 = PJ_SUCCESS")
        case False
        then have "st = s2" "k = PJSUA_INVALID_ID" "w = x"
          using run True n s1 e by (simp_all add: pjsua_acc_add_def i_def [symmetric] Let_def u_def)
        then show ?thesis
          using initialise_failed [OF u(1) i(1) u(3)] init False u(1,2,4) ids ne by (simp add: add_outcome_def)
      next
        case s2: True
        define y where "y = x\<lparr>default_acc := (if d then int i else default_acc x), acc_cnt := acc_cnt x + 1\<rparr>"
        have r: "st = PJ_SUCCESS" "k = int i" "w = exec (start_acc H i) y"
          using run True n s1 e s2 by (auto simp: pjsua_acc_add_def i_def [symmetric] Let_def u_def y_def split: prod.splits)
        have y: "acc_ok y" "acc_used x = insert i (acc_used u)"
          using acc_ok_enter [OF u(1) i(1) u(3)] init s2 by (simp_all add: y_def)
        have o: "others i y w" unfolding r(3) by (rule presD [OF pres_start_acc [OF others_stable]]) simp
        have iy: "i < length (accounts y)" using i(1) acc_okD(1) [OF y(1)] by simp
        have su: "i < length (accounts w) \<and> same_user (accounts y ! i) (accounts w ! i)"
          unfolding r(3) by (rule presD [OF pres_start_acc [OF same_user_stable]]) (simp add: iy same_user_def)
        have ok: "acc_ok w" unfolding r(3) by (rule presD [OF pres_start_acc [OF acc_ok_stable] y(1)])
        have codes: "reg_codes w = reg_codes y" unfolding r(3) by (rule keepsD [OF codes_start_acc])
        have "a_reg_last_code (accounts w ! i) = a_reg_last_code (accounts y ! i)"
          using codes su iy by (metis reg_codes_def nth_map)
        moreover have "acc_used w = acc_used y" using o su by (auto simp: acc_used_def others_def same_user_def)
        moreover have "acc_prio u k = (if k = i then ac_priority cfg else acc_prio v k)" for k
          using u(4,6) normalize_kept(2) by (simp add: acc_prio_def)
        then have "index_of (\<lambda>k. acc_prio u k < acc_prio u i) (acc_ids v)
            = index_of (\<lambda>k. acc_prio v k < ac_priority cfg) (acc_ids v)"
          using ne acc_okD(3) [OF v] by (intro index_of_cong) auto
        then have "acc_ids w = insert_at (index_of (\<lambda>k. acc_prio v k < ac_priority cfg) (acc_ids v)) i (acc_ids v)"
          using init s2 o ids by (simp add: initialised_def others_def y_def)
        ultimately have "added cfg i v w"
          using init s2 o su low u i free y(2)
          by (simp add: added_def initialised_def others_def y_def kept_def same_user_def normalize_kept acc_used_def)
        then show ?thesis
          using r ok o init s2 ids by (auto simp: add_outcome_def others_def y_def initialised_def)
      qed
    qed
  qed
qed

section \<open>Deleting an account\<close>

lemma regc_stable_conj: "regc_stable i I \<Longrightarrow> regc_stable i J \<Longrightarrow> regc_stable i (\<lambda>v. I v \<and> J v)"
  by (auto simp: regc_stable_def stable_def)

definition no_regc :: "nat \<Rightarrow> 'x pjsua_var \<Rightarrow> bool" where
  "no_regc i v \<longleftrightarrow> i < length (accounts v) \<longrightarrow> a_regc (accounts v ! i) = None"

lemma no_regc_stable: "stable i (no_regc i)"
  by (auto simp: stable_def no_regc_def gentle_def put_acc_nth)

lemma no_regc_destroyed: "no_regc i (exec (destroy_regc H i True) v)"
  by (cases "a_regc (accounts v ! i)") (simp_all add: destroy_regc_def no_regc_def put_acc_nth)

lemma gentle_mwi [simp]: "gentle (\<lambda>a. a\<lparr>a_cfg := (a_cfg a)\<lparr>ac_mwi_enabled := b\<rparr>\<rparr>)"
  by (simp add: gentle_def)

lemma pres_release_timers: "stable i I \<Longrightarrow> pres I (release_timers H i)"
  unfolding release_timers_def by (intro acc_pres_intro stable_regc_rules [of i])

lemma pres_release_sessions: "stable i I \<Longrightarrow> pres I (release_sessions H i)"
  unfolding release_sessions_def by (intro acc_pres_intro stable_regc_rules [of i] gentle_mwi)

lemma pres_release_regc: "regc_stable i I \<Longrightarrow> pres I (release_regc H i)"
  unfolding release_regc_def
  by (intro acc_pres_intro pres_set_registration pres_destroy_regc regc_stable_stable)

lemma no_regc_released: "no_regc i (exec (release_regc H i) v)"
proof (cases "a_regc (accounts v ! i) = None")
  case True
  then show ?thesis by (simp add: release_regc_def no_regc_def)
next
  case False
  obtain st u where u: "run_state (pjsua_acc_set_registration H (int i) False) v = (st, u)" by (metis surj_pair)
  obtain st2 w where w: "run_state (destroy_regc H i True) u = (st2, w)" by (metis surj_pair)
  have "exec (release_regc H i) v = w" using False u w by (auto simp: release_regc_def)
  moreover have "no_regc i w" using no_regc_destroyed [of i H u] w by simp
  ultimately show ?thesis by simp
qed

definition deleted :: "nat \<Rightarrow> 'x pjsua_var \<Rightarrow> 'x pjsua_var \<Rightarrow> bool" where
  "deleted i v w \<longleftrightarrow> acc_used w = acc_used v - {i} \<and> acc_ids w = erase_at (index_of (\<lambda>x. x = i) (acc_ids v)) (acc_ids v)
     \<and> (\<forall>j. j \<noteq> i \<longrightarrow> accounts w ! j = accounts v ! j) \<and> a_regc (accounts w ! i) = None
     \<and> default_acc w = (if default_acc v = int i then 0 else default_acc v) \<and> tpdata w = tpdata v"

lemma sorted_erase_at: "sorted_wrt P xs \<Longrightarrow> sorted_wrt P (erase_at k xs)"
proof -
  assume "sorted_wrt P xs"
  then have "sorted_wrt P (take k xs @ drop k xs)" by simp
  then show ?thesis
    unfolding erase_at_def sorted_wrt_append
    by (metis Cons_nth_drop_Suc drop_all not_less order_le_less list.set_intros(2) sorted_wrt.simps(2) nat_less_le Suc_leD leI)
qed

text \<open>Freeing the entry of an account that has no client registration.\<close>

lemma free_entry:
  assumes u: "acc_ok u" and i: "i \<in> acc_used u" and r: "a_regc (accounts u ! i) = None"
    and f: "\<And>a. \<not> a_valid (f a)" "\<And>a. a_regc (f a) = a_regc a"
  defines "w \<equiv> forget_acc_id i (put_acc i f u)"
  shows "acc_ok w" "deleted i u (w\<lparr>default_acc := (if default_acc w = int i then 0 else default_acc w)\<rparr>)"
proof -
  note u' = acc_okD [OF u]
  have i8: "i < 4" "i < length (accounts u)" using i u'(1) by (simp_all add: acc_used_def)
  let ?k = "index_of (\<lambda>x. x = i) (acc_ids u)"
  have k: "?k < length (acc_ids u)" using i u'(3) by (simp add: index_of_less_iff)
  have ki: "acc_ids u ! ?k = i" using index_of_holds [OF k] .
  have w: "acc_ids w = erase_at ?k (acc_ids u)" "acc_cnt w = acc_cnt u - 1" "accounts w = accounts (put_acc i f u)"
      "default_acc w = default_acc u" "tpdata w = tpdata u"
    using k by (simp_all add: w_def forget_acc_id_def put_acc_def Let_def)
  have used: "acc_used w = acc_used u - {i}"
    using i8 f(1) by (auto simp: acc_used_def w(3) put_acc_nth)
  have len: "length (erase_at ?k (acc_ids u)) = length (acc_ids u) - 1" by (rule length_erase_at [OF k])
  have "acc_cnt w = of_nat (length (acc_ids w))"
    using k unfolding w(1,2) len u'(4) by (simp add: of_nat_diff)
  moreover have "sorted_wrt (\<lambda>j k. acc_prio w j \<ge> acc_prio w k) (acc_ids w)"
  proof (rule sorted_wrt_mono_rel [OF _ sorted_erase_at [OF u'(5), of ?k, folded w(1)]])
    fix j l assume "j \<in> set (acc_ids w)" "l \<in> set (acc_ids w)" "acc_prio u l \<le> acc_prio u j"
    then show "acc_prio w l \<le> acc_prio w j"
      using set_erase_at [OF u'(2) k] ki i8 by (auto simp: w(1,3) acc_prio_def put_acc_nth)
  qed
  moreover have "a_regc (accounts w ! j) \<noteq> None \<longrightarrow> a_valid (accounts w ! j) \<and> ac_reg_uri (a_cfg (accounts w ! j)) \<noteq> []"
    if "j < length (accounts w)" for j
    using that u'(1,6) i8 r f by (cases "j = i") (simp_all add: w(3) put_acc_nth)
  ultimately show "acc_ok w"
    using u'(1) set_erase_at [OF u'(2) k] distinct_erase_at [OF u'(2)] u'(3) ki used
    by (simp add: acc_ok_def w(1,3))
  show "deleted i u (w\<lparr>default_acc := (if default_acc w = int i then 0 else default_acc w)\<rparr>)"
    using used i8 f r by (simp add: deleted_def acc_used_def w put_acc_nth)
qed

lemma acc_del_spec:
  assumes v: "acc_ok v" and run: "run_state (pjsua_acc_del H acc_id) v = (st, w)"
  shows "acc_ok w \<and> (if pjsua_acc_is_valid acc_id v then st = PJ_SUCCESS \<and> deleted (nat acc_id) v w
                      else w = v \<and> st \<in> {PJ_EINVAL, PJ_EINVALIDOP})"
proof (cases "pjsua_acc_is_valid acc_id v")
  case False
  then have "w = v \<and> st \<in> {PJ_EINVAL, PJ_EINVALIDOP}"
    using run by (auto simp: pjsua_acc_del_def pjsua_acc_is_valid_def Let_def split: if_splits)
  then show ?thesis using v False by simp
next
  case True
  define i where "i = nat acc_id"
  have i: "acc_id = int i" "i < length (accounts v)" "a_valid (accounts v ! i)" "i \<in> acc_used v"
    using True by (auto simp: pjsua_acc_is_valid_def i_def acc_used_def)
  define Q where "Q u \<longleftrightarrow> (acc_ok u \<and> others i v u) \<and> i < length (accounts u) \<and> same_user (accounts v ! i) (accounts u ! i)"
    for u :: "'a pjsua_var"
  have Q: "regc_stable i Q"
    using regc_stable_conj [OF regc_stable_conj [OF acc_ok_stable others_stable] same_user_stable]
    by (simp add: Q_def [abs_def])
  define u1 where "u1 = exec (release_timers H i) v"
  define u2 where "u2 = exec (release_regc H i) u1"
  define u3 where "u3 = exec (release_sessions H i) u2"
  have "Q v" using v i by (simp add: Q_def same_user_def)
  then have "Q u1" unfolding u1_def by (rule presD [OF pres_release_timers [OF regc_stable_stable [OF Q]]])
  then have "Q u2" unfolding u2_def by (rule presD [OF pres_release_regc [OF Q]])
  then have q3: "Q u3" unfolding u3_def by (rule presD [OF pres_release_sessions [OF regc_stable_stable [OF Q]]])
  have "no_regc i u2" unfolding u2_def by (rule no_regc_released)
  then have n3: "no_regc i u3" unfolding u3_def by (rule presD [OF pres_release_sessions [OF no_regc_stable]])
  define f :: "pjsua_acc \<Rightarrow> pjsua_acc"
    where "f = (\<lambda>a. a\<lparr>a_valid := False, a_via_host := [], a_via_port := 0, a_via_tp := None, a_ip_change_op := IP_OP_NULL\<rparr>)"
  define x where "x = forget_acc_id i (put_acc i f u3)"
  have i3: "i \<in> acc_used u3" using q3 i by (simp add: Q_def acc_used_def same_user_def)
  have r3: "a_regc (accounts u3 ! i) = None" using n3 i3 by (simp add: no_regc_def acc_used_def)
  note x = free_entry [OF _ i3 r3, of f, folded x_def]
  have ok: "acc_ok x" "deleted i u3 (x\<lparr>default_acc := (if default_acc x = int i then 0 else default_acc x)\<rparr>)"
    using x q3 by (simp_all add: Q_def f_def)
  have r: "st = PJ_SUCCESS" "w = x\<lparr>default_acc := (if default_acc x = int i then 0 else default_acc x)\<rparr>"
    using run i by (auto simp: pjsua_acc_del_def Let_def u1_def u2_def u3_def x_def f_def split: prod.splits)
  have "acc_ok w" unfolding r(2) by (rule acc_ok_cong [OF ok(1)]) (use acc_okD(6) [OF ok(1)] acc_okD(1) [OF ok(1)] in auto)
  moreover have "acc_used u3 = acc_used v" "acc_ids u3 = acc_ids v" "default_acc u3 = default_acc v"
    using q3 i by (auto simp: Q_def acc_used_def others_def same_user_def)
  then have "deleted i v w" using ok(2) q3 unfolding r(2) by (simp add: deleted_def Q_def others_def)
  ultimately show ?thesis using True r(1) by (simp add: i_def)
qed

end
