(* ===== verification/Acc_Props.thy ===== *)
theory Acc_Props
  imports Acc_Table Account_Props
begin

text \<open>
  Properties of pjsua's account table: its invariant over every sequence of operations and callbacks,
  adding and deleting through the shim, and the choice of an account for an incoming call.
\<close>

section \<open>The invariant\<close>

text \<open>Everything that can happen to an account: requests, registration callbacks, timers and transports.\<close>

datatype acc_op =
  Add_Acc acc_config bool | Del_Acc int | Set_Registration int bool | Set_Default int
| Regc_Done nat regc_cbparam | Regc_Tsx nat regc_cbparam bool | Rereg_Timeout nat | Keep_Alive_Timeout nat
| Transport_Lost nat bool

text \<open>\<open>env_ops\<close>: what pjsua calls outside the account code (\<open>hangup\<close>, \<open>on_reg\<close>, \<open>ip_change\<close>).\<close>

fun run_acc_op ::
  "'x hw \<Rightarrow> (int \<Rightarrow> ('x, pj_status) pv_m) \<Rightarrow> (int \<Rightarrow> ('x, unit) pv_m) \<Rightarrow> (nat \<Rightarrow> ('x, unit) pv_m) \<Rightarrow> acc_op \<Rightarrow> ('x, unit) pv_m" where
  "run_acc_op H hangup on_reg ip (Add_Acc cfg d) = do { pjsua_acc_add H (with_defaults cfg) d; ret () }"
| "run_acc_op H hangup on_reg ip (Del_Acc a) = do { pjsua_acc_del H a; ret () }"
| "run_acc_op H hangup on_reg ip (Set_Registration a renew) = do { pjsua_acc_set_registration H a renew; ret () }"
| "run_acc_op H hangup on_reg ip (Set_Default a) = do { pjsua_acc_set_default a; ret () }"
| "run_acc_op H hangup on_reg ip (Regc_Done i p) = do { regc_cb H hangup on_reg i p; ret () }"
| "run_acc_op H hangup on_reg ip (Regc_Tsx i p b) = do { regc_tsx_cb H i p b; ret () }"
| "run_acc_op H hangup on_reg ip (Rereg_Timeout i) = auto_rereg_timer_cb H hangup i"
| "run_acc_op H hangup on_reg ip (Keep_Alive_Timeout i) = keep_alive_timer_cb H i"
| "run_acc_op H hangup on_reg ip (Transport_Lost tp d) = pjsua_acc_on_tp_state_changed H hangup ip tp d"

definition acc_view :: "'x pjsua_var \<Rightarrow> pjsua_acc list \<times> nat list \<times> u32" where
  "acc_view v = (accounts v, acc_ids v, acc_cnt v)"

lemma acc_ok_view: "acc_view w = acc_view v \<Longrightarrow> acc_ok w = acc_ok v"
  by (simp add: acc_view_def acc_ok_def acc_used_def acc_prio_def)

lemma pres_acc_view: "keeps acc_view m \<Longrightarrow> pres acc_ok m"
  using acc_ok_view by (auto simp: pres_def keeps_def)

lemma pres_table_add: "pres acc_ok (pjsua_acc_add H cfg d)"
  unfolding pres_def
proof (intro allI impI)
  fix v :: "'a pjsua_var" assume v: "acc_ok v"
  obtain st k w where r: "run_state (pjsua_acc_add H cfg d) v = ((st, k), w)" by (metis surj_pair)
  from acc_add_spec [OF v r] r show "acc_ok (exec (pjsua_acc_add H cfg d) v)" by (simp add: add_outcome_def)
qed

lemma pres_table_del: "pres acc_ok (pjsua_acc_del H a)"
  unfolding pres_def
proof (intro allI impI)
  fix v :: "'a pjsua_var" assume v: "acc_ok v"
  obtain st w where r: "run_state (pjsua_acc_del H a) v = (st, w)" by (metis surj_pair)
  from acc_del_spec [OF v r] r show "acc_ok (exec (pjsua_acc_del H a) v)" by simp
qed

lemma pres_register_any: "pres acc_ok (pjsua_acc_set_registration H a renew)"
proof (cases "0 \<le> a")
  case True
  then obtain i where "a = int i" using nonneg_int_cases by blast
  then show ?thesis using pres_set_registration [OF acc_ok_stable] by simp
next
  case False
  then show ?thesis by (simp add: pres_def pjsua_acc_set_registration_def)
qed

lemma pres_acc_op:
  assumes "\<And>k. keeps acc_view (hangup k)" "\<And>a. keeps acc_view (on_reg a)" "\<And>i. keeps acc_view (ip i)"
  shows "pres acc_ok (run_acc_op H hangup on_reg ip op)"
proof -
  note env = pres_acc_view [OF assms(1)] pres_acc_view [OF assms(2)] pres_acc_view [OF assms(3)]
  note ok = acc_ok_stable regc_stable_stable [OF acc_ok_stable]
  show ?thesis
  proof (cases op)
    case (Set_Default a)
    have "pres acc_ok (pjsua_acc_set_default a :: ('a, int) pv_m)"
      by (rule pres_acc_view) (simp add: pjsua_acc_set_default_def keeps_def acc_view_def)
    then show ?thesis using Set_Default by (auto intro: pres_intro)
  next
    case (Transport_Lost tp d)
    have "pres acc_ok (pjsua_acc_on_tp_state_changed H hangup ip tp d)"
      by (rule pres_tp_state [OF acc_ok_stable env(1,3)])
    then show ?thesis using Transport_Lost by simp
  next
    case (Regc_Done i p)
    then show ?thesis using pres_regc_cb [OF acc_ok_stable env(1,2)] by (auto intro: pres_intro)
  next
    case (Rereg_Timeout i)
    then show ?thesis using pres_rereg_timer [OF acc_ok_stable env(1)] by simp
  next
    case (Keep_Alive_Timeout i)
    then show ?thesis using pres_keep_alive_timer [OF ok(2)] by simp
  qed (auto intro!: pres_bind pres_ret pres_table_add pres_table_del pres_register_any pres_tsx_cb [OF ok(1)])
qed

text \<open>A table with the first \<open>n\<close> entries in use.\<close>

definition demo_table :: "nat \<Rightarrow> 'x pjsua_var \<Rightarrow> 'x pjsua_var" where
  "demo_table n v = v\<lparr>accounts := map demo_acc [0..<n] @ replicate (4 - n) free_acc, acc_ids := [0..<n], acc_cnt := of_nat n\<rparr>"

lemma demo_acc_fields:
  "a_valid (demo_acc i)" "\<not> a_valid free_acc" "a_regc free_acc = None" "ac_reg_uri (a_cfg (demo_acc i)) \<noteq> []"
  "ac_priority (a_cfg (demo_acc i)) = 0" "a_regc (demo_acc i) = Some i" "a_reg_last_code free_acc = 0"
  by (simp_all add: demo_acc_def free_acc_def demo_cfg_def pjsua_acc_config_default_def)

lemma demo_table_ok:
  assumes "n \<le> 4"
  shows "acc_ok (demo_table n v)" "acc_used (demo_table n v) = {..<n}"
proof -
  let ?t = "map demo_acc [0..<n] @ replicate (4 - n) free_acc"
  have nth: "?t ! i = (if i < n then demo_acc i else free_acc)" if "i < 4" for i
    using that assms by (simp add: nth_append)
  then show used: "acc_used (demo_table n v) = {..<n}"
    using assms by (auto simp: acc_used_def demo_table_def demo_acc_fields split: if_splits)
  have "sorted_wrt (\<lambda>j k. acc_prio (demo_table n v) j \<ge> acc_prio (demo_table n v) k) [0..<n]"
    by (rule sorted_wrt_mono_rel [OF _ sorted_wrt_upt])
      (use nth assms in \<open>auto simp: acc_prio_def demo_table_def demo_acc_fields\<close>)
  moreover have "\<forall>i < 4. a_regc (?t ! i) \<noteq> None \<longrightarrow> a_valid (?t ! i) \<and> ac_reg_uri (a_cfg (?t ! i)) \<noteq> []"
    using nth by (simp add: demo_acc_fields)
  ultimately show "acc_ok (demo_table n v)"
    using used assms by (auto simp: acc_ok_def demo_table_def)
qed

lemma demo_table_id:
  assumes "accounts v = map demo_acc [0..<n] @ replicate (4 - n) free_acc" "acc_ids v = [0..<n]" "acc_cnt v = of_nat n"
  shows "demo_table n v = v"
  unfolding demo_table_def assms(1) [symmetric] unfolding assms(2,3) [symmetric] by simp

lemma demo_var_table: "demo_table 2 demo_var = demo_var"
proof (rule demo_table_id)
  have u: "[0..<2] = [0, 1]" by (simp add: numeral_2_eq_2)
  show "accounts demo_var = map demo_acc [0..<2] @ replicate (4 - 2) free_acc"
    unfolding u by (simp add: demo_var_def numeral_2_eq_2)
  show "acc_ids demo_var = [0..<2]" unfolding u by (simp add: demo_var_def)
  show "acc_cnt demo_var = of_nat 2" by (simp add: demo_var_def)
qed

lemma demo_acc_ok: "acc_ok demo_var" "acc_used demo_var = {0, 1}"
proof -
  have "{..<2} = {0, 1 :: nat}" by auto
  then show "acc_ok demo_var" "acc_used demo_var = {0, 1}"
    using demo_table_ok [of 2 demo_var, unfolded demo_var_table] by simp_all
qed

text \<open>
  C3. Whatever sequence of requests, registration results, timeouts and lost
  transports the account code goes through, the array of account ids lists the accounts in use exactly
  once each, in order of descending priority, its length is the counter, and only accounts in use that
  have a registrar have a client registration.
\<close>

theorem acc_table_invariant:
  assumes "acc_ok v" "\<forall>k. keeps acc_view (hangup k)" "\<forall>a. keeps acc_view (on_reg a)" "\<forall>i. keeps acc_view (ip i)"
  shows "let w = exec (for_each ops (run_acc_op H hangup on_reg ip)) v
    in distinct (acc_ids w) \<and> set (acc_ids w) = {i. i < 4 \<and> a_valid (accounts w ! i)}
     \<and> unat (acc_cnt w) = length (acc_ids w)
     \<and> (\<forall>j k. j < k \<longrightarrow> k < length (acc_ids w) \<longrightarrow>
          ac_priority (a_cfg (accounts w ! (acc_ids w ! j))) \<ge> ac_priority (a_cfg (accounts w ! (acc_ids w ! k))))
     \<and> (\<forall>i < 4. a_regc (accounts w ! i) \<noteq> None \<longrightarrow>
          i \<in> set (acc_ids w) \<and> ac_reg_uri (a_cfg (accounts w ! i)) \<noteq> [])"
proof -
  have "pres acc_ok (for_each ops (run_acc_op H hangup on_reg ip))"
    using assms by (intro pres_intro pres_acc_op) simp_all
  from presD [OF this assms(1)] have w: "acc_ok (exec (for_each ops (run_acc_op H hangup on_reg ip)) v)" .
  note a = acc_okD [OF w]
  have "unat (acc_cnt (exec (for_each ops (run_acc_op H hangup on_reg ip)) v))
      = length (acc_ids (exec (for_each ops (run_acc_op H hangup on_reg ip)) v))"
    using acc_cnt_card [OF w] acc_ids_card [OF w] by simp
  then show ?thesis
    using a sorted_wrt_nth_less [OF a(5)] by (auto simp: Let_def acc_used_def acc_prio_def)
qed

text \<open>One account more, then the first one's registration fails and its retry timer fires.\<close>

definition demo_failure :: regc_cbparam where
  "demo_failure = \<lparr>rp_regc = 0, rp_status = 0, rp_code = 503, rp_expiration = 0,
     rp_rdata = \<lparr>rx_tp = 1, rx_tp_type = 1, rx_via_host = ''192.168.1.2'', rx_via_port = 5060, rx_recvd_param = [],
                 rx_rport_param = 0, rx_src_name = ''192.168.1.1'', rx_require = None, rx_service_route = [],
                 rx_flow_timer = None, rx_req_dst = None\<rparr>\<rparr>"

theorem acc_table_invariant_witness:
  "unat (acc_cnt (exec (for_each [Regc_Done 0 demo_failure, Rereg_Timeout 0, Del_Acc 1, Set_Registration 0 True]
      (run_acc_op demo_hw (\<lambda>_. ret 0) (\<lambda>_. ret ()) (\<lambda>_. ret ()))) demo_var))
   = length (acc_ids (exec (for_each [Regc_Done 0 demo_failure, Rereg_Timeout 0, Del_Acc 1, Set_Registration 0 True]
      (run_acc_op demo_hw (\<lambda>_. ret 0) (\<lambda>_. ret ()) (\<lambda>_. ret ()))) demo_var))"
  using acc_table_invariant [of demo_var "\<lambda>_. ret 0" "\<lambda>_. ret ()" "\<lambda>_. ret ()"
      "[Regc_Done 0 demo_failure, Rereg_Timeout 0, Del_Acc 1, Set_Registration 0 True]" demo_hw]
    demo_acc_ok(1) by (simp only: Let_def keeps_ret simp_thms)

section \<open>Adding and deleting through the shim\<close>

lemma entered_accounts [simp]:
  "accounts (env (entered (pjsua_model H B) s)) = accounts (env s)"
  "acc_ids (env (entered (pjsua_model H B) s)) = acc_ids (env s)"
  "acc_used (env (entered (pjsua_model H B) s)) = acc_used (env s)"
  "acc_ok (env (entered (pjsua_model H B) s)) = acc_ok (env s)"
  "default_acc (env (entered (pjsua_model H B) s)) = default_acc (env s)"
  by (simp_all add: env_entered acc_used_def acc_ok_def acc_prio_def)

lemma acc_config_fields:
  "ac_reg_uri (with_defaults cfg) = ac_reg_uri cfg" "ac_priority (with_defaults cfg) = 0"
  by (simp_all add: with_defaults_def acc_config.defs pjsua_acc_config_default_def)

lemma enum_accs_loop_all:
  "length as \<le> n \<Longrightarrow> enum_accs_loop k as n = map (\<lambda>i. int (k + i)) (filter (\<lambda>i. a_valid (as ! i)) [0..<length as])"
proof (induction k as n rule: enum_accs_loop.induct)
  case (1 k n)
  then show ?case by simp
next
  case (2 k a as n)
  have split: "[0..<length (a # as)] = 0 # map Suc [0..<length as]" 
    using upt_conv_Cons [of 0 "Suc (length as)"] by (simp add: map_Suc_upt del: upt_Suc)
  have "n \<noteq> 0" using "2.prems" by auto
  then show ?case
    using 2 unfolding split by (auto simp: filter_map o_def)
qed

lemma enum_accs_used:
  assumes "acc_ok v" "4 \<le> n"
  shows "\<exists>ids. pjsua_enum_accs n v = Some ids \<and> set ids = int ` acc_used v"
proof -
  have l: "length (accounts v) = 4" by (rule acc_okD(1) [OF assms(1)])
  have "enum_accs_loop 0 (accounts v) n = map int (filter (\<lambda>i. a_valid (accounts v ! i)) [0..<4])"
    using enum_accs_loop_all [of "accounts v" n 0] assms(2) l by simp
  then have "set (enum_accs_loop 0 (accounts v) n) = int ` acc_used v"
    by (auto simp: acc_used_def l)
  then show ?thesis using assms(2) by (simp add: pjsua_enum_accs_def)
qed

lemma shim_acc_add:
  assumes "acc_ok (env s)" and run: "run_state (pd_acc_add (pjsua_model H B) uri reg user pw auth proxy tp stun pub name) s = (k, t)"
  shows "\<exists>cfg st k'. ac_reg_uri cfg = S reg \<and> add_outcome cfg True (env (entered (pjsua_model H B) s)) st k' (env t)
    \<and> k = (if st = PJ_SUCCESS then k' else -1)"
proof -
  let ?P = "pjsua_model H B"
  obtain cfg where cfg: "(k, env t) =
      (let ((st, k), e) = api_acc_add ?P cfg True (env (entered ?P s)) in (if st = PJ_SUCCESS then k else -1, e))"
      "ac_reg_uri cfg = S reg"
    using acc_add_run [of ?P uri reg user pw auth proxy tp stun pub name s] run by auto
  obtain st k' e where a: "run_state (pjsua_acc_add H (with_defaults cfg) True) (env (entered ?P s)) = ((st, k'), e)"
    by (metis surj_pair)
  have "add_outcome (with_defaults cfg) True (env (entered ?P s)) st k' e"
    by (rule acc_add_spec [OF _ a]) (simp add: assms(1))
  then show ?thesis using cfg a by (intro exI [of _ "with_defaults cfg"] exI [of _ st] exI [of _ k']) (simp add: acc_config_fields)
qed

lemma shim_acc_added:
  assumes "acc_ok (env s)" "run_state (pd_acc_add (pjsua_model H B) uri reg user pw auth proxy tp stun pub name) s = (k, t)"
    and "0 \<le> k"
  shows "\<exists>cfg. ac_reg_uri cfg = S reg \<and> added cfg (nat k) (env (entered (pjsua_model H B) s)) (env t)
    \<and> default_acc (env t) = k \<and> acc_ok (env t)"
proof -
  obtain cfg st k' where o: "ac_reg_uri cfg = S reg" "add_outcome cfg True (env (entered (pjsua_model H B) s)) st k' (env t)"
      "k = (if st = PJ_SUCCESS then k' else -1)"
    using shim_acc_add [OF assms(1,2)] by blast
  then have "st = PJ_SUCCESS" using assms(3) by (auto split: if_splits)
  then show ?thesis using o by (auto simp: add_outcome_def)
qed

text \<open>
  C22. Adding an account through the shim either returns the lowest id from 0 to 3 that is
  not in use, and then exactly that account is new, it has the registrar that was asked for, it is the
  default account, it is enumerated, and every other account is as it was; or it returns -1, and then
  the accounts in use, their ids and the default account are as they were.
\<close>

theorem acc_add_lowest:
  assumes "acc_ok (env s)"
    and "run_state (pd_acc_add (pjsua_model H B) uri reg user pw auth proxy tp stun pub name) s = (k, t)"
  shows "acc_ok (env t) \<and>
    (if 0 \<le> k then k < 4 \<and> nat k \<notin> acc_used (env s) \<and> (\<forall>j < nat k. j \<in> acc_used (env s))
       \<and> acc_used (env t) = insert (nat k) (acc_used (env s)) \<and> ac_reg_uri (a_cfg (accounts (env t) ! nat k)) = S reg
       \<and> default_acc (env t) = k \<and> (\<exists>ids. pjsua_enum_accs 4 (env t) = Some ids \<and> k \<in> set ids)
       \<and> (\<forall>j. j \<noteq> nat k \<longrightarrow> accounts (env t) ! j = accounts (env s) ! j)
     else k = -1 \<and> acc_used (env t) = acc_used (env s) \<and> acc_ids (env t) = acc_ids (env s)
       \<and> default_acc (env t) = default_acc (env s)
       \<and> (\<forall>j \<in> acc_used (env s). accounts (env t) ! j = accounts (env s) ! j))"
proof -
  let ?u = "env (entered (pjsua_model H B) s)"
  obtain cfg st k' where o: "ac_reg_uri cfg = S reg" "add_outcome cfg True ?u st k' (env t)"
      "k = (if st = PJ_SUCCESS then k' else -1)"
    using shim_acc_add [OF assms] by blast
  show ?thesis
  proof (cases "0 \<le> k")
    case True
    obtain cfg where i: "ac_reg_uri cfg = S reg" "added cfg (nat k) ?u (env t)" "default_acc (env t) = k" "acc_ok (env t)"
      using shim_acc_added [OF assms True] by blast
    obtain ids where "pjsua_enum_accs 4 (env t) = Some ids" "set ids = int ` acc_used (env t)"
      using enum_accs_used [OF i(4)] by blast
    then have "\<exists>ids. pjsua_enum_accs 4 (env t) = Some ids \<and> k \<in> set ids"
      using i(2) True by (auto simp: added_def image_iff intro!: exI [of _ "nat k"])
    then show ?thesis using i True by (auto simp: added_def)
  next
    case False
    then have "st \<noteq> PJ_SUCCESS" using o by (auto simp: add_outcome_def)
    then show ?thesis using o False by (simp add: add_outcome_def)
  qed
qed

text \<open>In the concrete environment an account without proxies is added whenever there is room.\<close>

lemma demo_initialize:
  assumes "i < length (accounts v)" "ac_id (a_cfg (accounts v ! i)) \<noteq> []" "ac_proxy (a_cfg (accounts v ! i)) = []"
  shows "result (initialize_acc demo_hw i) v = PJ_SUCCESS"
  using assms
  by (simp add: initialize_acc_def demo_hw_def demo_uri_def put_acc_nth set_local_uri_def is_sip_uri_def check_reg_uri_def Let_def)

lemma demo_acc_add:
  assumes v: "acc_ok v" "card (acc_used v) < 4" "tpdata v ! 0 \<noteq> None" and c: "ac_id cfg \<noteq> []" "ac_proxy cfg = []"
  shows "fst (result (pjsua_acc_add demo_hw cfg d) v) = PJ_SUCCESS"
proof -
  define i where "i = index_of (\<lambda>a. \<not> a_valid a) (accounts v)"
  have l: "length (accounts v) = 4" by (rule acc_okD(1) [OF v(1)])
  have "\<exists>j < 4. j \<notin> acc_used v"
  proof (rule ccontr)
    assume "\<not> ?thesis"
    then have "{..<4} \<subseteq> acc_used v" by auto
    from card_mono [OF finite_acc_used this] v(2) show False by simp
  qed
  then have "\<exists>a \<in> set (accounts v). \<not> a_valid a" using l by (force simp: acc_used_def in_set_conv_nth)
  then have i: "i < length (accounts v)" by (simp add: i_def index_of_less_iff)
  define u where "u = put_acc i (\<lambda>a. a\<lparr>a_cfg := (normalize_timeouts cfg)\<lparr>ac_proxy := []\<rparr>\<rparr>) v"
  have "ac_id (normalize_timeouts cfg) = ac_id cfg" by (simp add: normalize_timeouts_def)
  then have "result (initialize_acc demo_hw i) u = PJ_SUCCESS"
    using i c by (intro demo_initialize) (simp_all add: u_def put_acc_nth)
  then obtain w where "run_state (initialize_acc demo_hw i) u = (PJ_SUCCESS, w)" by (metis prod.collapse)
  then show ?thesis
    using i l v(2,3) c acc_cnt_card [OF v(1)]
    by (auto simp: pjsua_acc_add_def Let_def i_def [symmetric] u_def [symmetric] split: prod.splits)
qed

lemma demo_shim_add:
  assumes "acc_ok (env s)" "card (acc_used (env s)) < 4" "tpdata (env s) ! 0 \<noteq> None" "tls_thread_registered s (cur_thread s)"
  shows "result (pd_acc_add demo_pjsua (Some ''sip:bob@example.com'') (Some ''sip:example.com'') user pw
     None None 0 None 0 None) s \<ge> 0"
proof -
  let ?r = "run_state (pd_acc_add demo_pjsua (Some ''sip:bob@example.com'') (Some ''sip:example.com'') user pw
     None None 0 None 0 None) s"
  have e: "env (entered demo_pjsua s) = env s" using assms(4) by (simp add: env_entered)
  obtain cfg where cfg: "(fst ?r, env (snd ?r)) =
      (let ((st, k), f) = api_acc_add demo_pjsua cfg True (env s) in (if st = PJ_SUCCESS then k else -1, f))"
      "ac_id cfg = ''sip:bob@example.com''" "ac_proxy cfg = []"
    using acc_add_run [of demo_pjsua "Some ''sip:bob@example.com''" "Some ''sip:example.com''" user pw None None 0 None 0 None s, unfolded e]
    by (auto simp: Let_def account_id_def S_def)
  obtain st k w where a: "run_state (pjsua_acc_add demo_hw (with_defaults cfg) True) (env s) = ((st, k), w)"
    by (metis surj_pair)
  have "ac_id (with_defaults cfg) = ac_id cfg" "ac_proxy (with_defaults cfg) = ac_proxy cfg"
    by (simp_all add: with_defaults_def acc_config.defs)
  then have "fst (result (pjsua_acc_add demo_hw (with_defaults cfg) True) (env s)) = PJ_SUCCESS"
    using assms cfg by (intro demo_acc_add) simp_all
  then have "st = PJ_SUCCESS" using a by simp
  moreover have "k \<ge> 0" using acc_add_spec [OF assms(1) a] \<open>st = PJ_SUCCESS\<close> by (auto simp: add_outcome_def)
  ultimately show ?thesis using cfg(1) a by simp
qed

abbreviation demo_add_bob :: "(unit pjsua_var, int) shim_m" where
  "demo_add_bob \<equiv> pd_acc_add demo_pjsua (Some ''sip:bob@example.com'') (Some ''sip:example.com'') (Some ''bob'')
     (Some ''secret'') None None 0 None 0 None"

lemma demo_tpdata: "tpdata (demo_table n demo_var) ! 0 \<noteq> None" "tpdata demo_var ! 0 \<noteq> None"
  by (simp_all add: demo_table_def demo_var_def)

lemma demo_registered: "tls_thread_registered demo_shim (cur_thread demo_shim)"
  by (simp add: demo_shim_def split: prod.splits)

lemma third_id: "k \<notin> {0, 1} \<Longrightarrow> \<forall>j < k. j \<in> {0, 1} \<Longrightarrow> k = (2::nat)"
proof (rule ccontr)
  assume k: "k \<notin> {0, 1}" "\<forall>j < k. j \<in> {0, 1}" "k \<noteq> 2"
  then have "2 < k" by auto
  then have "2 \<in> {0, 1 :: nat}" using k(2) by blast
  then show False by simp
qed

theorem acc_add_lowest_witness:
  "result demo_add_bob demo_shim = 2 \<and> acc_used (env (exec demo_add_bob demo_shim)) = {0, 1, 2}"
proof -
  obtain k t where r: "run_state demo_add_bob demo_shim = (k, t)" by (metis surj_pair)
  have k: "0 \<le> k"
    using demo_shim_add [of demo_shim "Some ''bob''" "Some ''secret''"] demo_registered demo_tpdata demo_acc_ok r by simp
  have ok: "acc_ok (env demo_shim)" "acc_used (env demo_shim) = {0, 1}" using demo_acc_ok by simp_all
  from acc_add_lowest [OF ok(1) r] k ok(2)
  have a: "nat k \<notin> {0, 1}" "\<forall>j < nat k. j \<in> {0, 1}" "acc_used (env t) = insert (nat k) {0, 1}" by simp_all
  have "nat k = 2" by (rule third_id [OF a(1,2)])
  then show ?thesis using r k a(3) by auto
qed

section \<open>Settings of a new account\<close>

text \<open>Adding and removing accounts does not touch the settings the shim keeps.\<close>

definition acc_settings :: "'e shim \<Rightarrow> acc_forward list \<times> acc_store list \<times> acc_answer list \<times> int list" where
  "acc_settings s = (g_acc_forward s, g_acc_config s, g_acc_auto_answer s, g_acc_dtmf_method s)"

lemma settings_view: "no_env acc_settings" "no_trace acc_settings" "acc_settings (s\<lparr>tls_thread_registered := r\<rparr>) = acc_settings s"
  by (simp_all add: no_env_def no_trace_def acc_settings_def)

lemma settings_kept:
  "keeps acc_settings (pd_acc_add P uri reg user pw auth proxy tp stun pub name)" "keeps acc_settings (pd_acc_remove P a)"
  unfolding pd_acc_add_def pd_acc_remove_def select_transport_def Let_def by (intro keeps_intro settings_view)+

lemma settings_read:
  assumes "acc_settings t = acc_settings s"
  shows "result (pd_acc_get_forward P a n) t = result (pd_acc_get_forward P a n) s"
    "result (pd_acc_get_lookup_url P a n) t = result (pd_acc_get_lookup_url P a n) s"
    "result (pd_acc_get_auto_answer P a) t = result (pd_acc_get_auto_answer P a) s"
    "result (pd_acc_get_dtmf_method P a) t = result (pd_acc_get_dtmf_method P a) s"
  using assms
  by (simp_all add: acc_settings_def pd_acc_get_forward_def pd_acc_get_lookup_url_def pd_acc_get_auto_answer_def
      pd_acc_get_dtmf_method_def)

lemma shim_removed:
  assumes "acc_ok (env s)" "0 \<le> a" "nat a \<in> acc_used (env s)"
  shows "acc_ok (env (exec (pd_acc_remove (pjsua_model H B) a) s))
    \<and> deleted (nat a) (env (entered (pjsua_model H B) s)) (env (exec (pd_acc_remove (pjsua_model H B) a) s))"
proof -
  let ?e = "env (entered (pjsua_model H B) s)"
  obtain st u where d: "run_state (pjsua_acc_del H a) ?e = (st, u)" by (metis surj_pair)
  have ok: "acc_ok ?e" using assms(1) by simp
  have "nat a \<in> acc_used ?e" using assms(3) by simp
  then have "pjsua_acc_is_valid a ?e" using assms(2) by (auto simp: pjsua_acc_is_valid_def acc_used_def)
  then show ?thesis using acc_del_spec [OF ok d] d by (simp add: pd_acc_remove_def)
qed

text \<open>
  C39. An id that adding an account returns is one every setting of the shim takes; but
  when account \<open>a\<close> is removed, with the ids below it in use, the next account gets its id, and with it the
  forwarding, the lookup URL, auto-answer and DTMF method that were set for the account removed.
\<close>

theorem settings_inherited:
  assumes "acc_ok (env s)" "0 \<le> a" "nat a \<in> acc_used (env s)" "\<forall>j < nat a. j \<in> acc_used (env s)"
    and "run_state (pd_acc_add (pjsua_model H B) uri reg user pw auth proxy tp stun pub name)
           (exec (pd_acc_remove (pjsua_model H B) a) s) = (k, u)" "0 \<le> k"
  shows "k = a \<and> valid_acc k
    \<and> result (pd_acc_get_forward P k n) u = result (pd_acc_get_forward P a n) s
    \<and> result (pd_acc_get_lookup_url P k n) u = result (pd_acc_get_lookup_url P a n) s
    \<and> result (pd_acc_get_auto_answer P k) u = result (pd_acc_get_auto_answer P a) s
    \<and> result (pd_acc_get_dtmf_method P k) u = result (pd_acc_get_dtmf_method P a) s"
proof -
  let ?t = "exec (pd_acc_remove (pjsua_model H B) a) s"
  have t: "acc_ok (env ?t)" "acc_used (env ?t) = acc_used (env s) - {nat a}"
    using shim_removed [OF assms(1-3), of H B] by (simp_all add: deleted_def)
  have k: "nat k < 4" "nat k \<notin> acc_used (env s) - {nat a}" "\<forall>j < nat k. j \<in> acc_used (env s) - {nat a}"
    using shim_acc_added [OF t(1) assms(5,6)] t(2) by (auto simp: added_def)
  have "\<not> nat k < nat a" using k(2) assms(4) [rule_format, of "nat k"] by auto
  moreover have "\<not> nat a < nat k" using k(3) [rule_format, of "nat a"] by blast
  ultimately have "k = a" using assms(2,6) by linarith
  moreover have "acc_settings u = acc_settings s"
    using keepsD [OF settings_kept(1), of "pjsua_model H B" uri reg user pw auth proxy tp stun pub name ?t]
      keepsD [OF settings_kept(2), of "pjsua_model H B" a s] assms(5) by simp
  moreover have "valid_acc k" using k(1) assms(6) by (simp add: valid_acc_def)
  ultimately show ?thesis using settings_read [of u s P] by simp
qed

theorem settings_inherited_witness:
  "let s = exec (pd_acc_set_auto_answer demo_pjsua 0 1 5) demo_shim; t = exec (pd_acc_remove demo_pjsua 0) s in
   result demo_add_bob t = 0 \<and> result (pd_acc_get_auto_answer demo_pjsua 0) (exec demo_add_bob t) = (0, Some (1, 5))"
proof -
  let ?s = "exec (pd_acc_set_auto_answer demo_pjsua 0 1 5) demo_shim"
  let ?t = "exec (pd_acc_remove demo_pjsua 0) ?s"
  obtain k u where r: "run_state demo_add_bob ?t = (k, u)" by (metis surj_pair)
  have s: "env ?s = demo_var" "tls_thread_registered ?s (cur_thread ?s)"
    using demo_registered by (simp_all add: pd_acc_set_auto_answer_def)
  then have used: "acc_ok (env ?s)" "nat 0 \<in> acc_used (env ?s)" using demo_acc_ok by simp_all
  have e: "entered demo_pjsua ?s = ?s" using s(2) by (simp add: entered_def run_ensure_thread del: run_ensure_thread_entered)
  have d: "acc_ok (env ?t)" "deleted 0 demo_var (env ?t)"
    using shim_removed [OF used(1) _ used(2), of demo_hw demo_base] s(1) unfolding e by simp_all
  have "tls_thread_registered ?t (cur_thread ?t)" using s(2) by (simp add: pd_acc_remove_def e)
  then have "0 \<le> k"
    using demo_shim_add [OF d(1), of "Some ''bob''" "Some ''secret''"] d(2) demo_tpdata(2) demo_acc_ok(2) r
    by (simp add: deleted_def)
  moreover have "result (pd_acc_get_auto_answer demo_pjsua 0) ?s = (0, Some (1, 5))"
    by (simp add: e pd_acc_get_auto_answer_def)
      (simp add: pd_acc_set_auto_answer_def valid_acc_def elem_def put_def demo_shim_def pd_reset_recording_state_def
        save_callbacks_def shim_load_def)
  moreover have "0 \<le> k \<Longrightarrow> k = 0 \<and> result (pd_acc_get_auto_answer demo_pjsua k) u
      = result (pd_acc_get_auto_answer demo_pjsua 0) ?s"
    using settings_inherited [OF used(1) order_refl used(2) _ r, of demo_pjsua 1] nat_0 not_less0 by metis
  ultimately show ?thesis using r by (auto simp: Let_def)
qed

lemma erase_insert_at:
  assumes "x \<notin> set xs" "k \<le> length xs"
  shows "erase_at (index_of (\<lambda>y. y = x) (insert_at k x xs)) (insert_at k x xs) = xs"
proof -
  have "index_of (\<lambda>y. y = x) (ys @ x # zs) = length ys" if "x \<notin> set ys" for ys zs
    using that by (induction ys) auto
  moreover have "x \<notin> set (take k xs)" using assms(1) in_set_takeD by metis
  ultimately have "index_of (\<lambda>y. y = x) (insert_at k x xs) = k"
    using assms(2) by (simp add: insert_at_def)
  then show ?thesis using assms(2) by (simp add: insert_at_def erase_at_def)
qed

text \<open>
  C28. Deleting the account that was just added through the shim succeeds and leaves the
  accounts in use, the order of their ids and every other account as they were before; the default
  account is then account 0, whichever it was before.
\<close>

theorem acc_add_del:
  assumes "acc_ok (env s)" "0 \<le> k"
    and "run_state (pd_acc_add (pjsua_model H B) uri reg user pw auth proxy tp stun pub name) s = (k, t)"
  shows "let r = run_state (pd_acc_remove (pjsua_model H B) k) t; u = env (snd r)
    in fst r = PJ_SUCCESS \<and> acc_used u = acc_used (env s) \<and> acc_ids u = acc_ids (env s) \<and> acc_ok u
     \<and> (\<forall>j. j \<noteq> nat k \<longrightarrow> accounts u ! j = accounts (env s) ! j) \<and> default_acc u = 0"
proof -
  obtain cfg where a: "added cfg (nat k) (env (entered (pjsua_model H B) s)) (env t)" "default_acc (env t) = k" "acc_ok (env t)"
    using shim_acc_added [OF assms(1,3,2)] by blast
  let ?e = "env (entered (pjsua_model H B) t)"
  obtain st u where d: "run_state (pjsua_acc_del H k) ?e = (st, u)" by (metis surj_pair)
  have ok: "acc_ok ?e" using a(3) by simp
  have valid: "pjsua_acc_is_valid k ?e"
    using a(1,3) assms(2) by (auto simp: pjsua_acc_is_valid_def added_def acc_used_def)
  have "st = PJ_SUCCESS" "deleted (nat k) ?e u" "acc_ok u" using acc_del_spec [OF ok d] valid by simp_all
  moreover have "acc_ids (env t) = insert_at (index_of (\<lambda>j. acc_prio (env s) j < acc_prio (env t) (nat k)) (acc_ids (env s)))
      (nat k) (acc_ids (env s))"
    using a(1) by (simp add: added_def acc_prio_def)
  moreover have "nat k \<notin> set (acc_ids (env s))" using a(1) acc_okD(3) [OF assms(1)] by (simp add: added_def)
  ultimately show ?thesis
    using a d assms(2) by (auto simp: Let_def pd_acc_remove_def deleted_def added_def erase_insert_at index_of_le)
qed

theorem acc_add_del_witness:
  "acc_ids (env (exec (pd_acc_remove demo_pjsua (result demo_add_bob demo_shim)) (exec demo_add_bob demo_shim))) = [0, 1]"
proof -
  obtain k t where r: "run_state demo_add_bob demo_shim = (k, t)" by (metis surj_pair)
  have k: "0 \<le> k"
    using demo_shim_add [of demo_shim "Some ''bob''" "Some ''secret''"] demo_registered demo_tpdata demo_acc_ok r by simp
  have ok: "acc_ok (env demo_shim)" using demo_acc_ok by simp
  have "acc_ids (env demo_shim) = [0, 1]" by (simp add: demo_var_def)
  then show ?thesis using acc_add_del [OF ok k r] r by (simp add: Let_def)
qed

text \<open>
  C23. After an account is deleted, whatever of it is still pending has no effect on
  pjsua: the answer to its last request, its retry timer and the loss of the transport it used change
  nothing, and no state callback is made for it.
\<close>

theorem deleted_account_quiet:
  assumes "acc_ok v" "pjsua_acc_is_valid (int i) v"
  shows "let w = exec (pjsua_acc_del H (int i)) v
    in run_state (regc_cb H hangup on_reg i p) w = (NoCallback, w)
     \<and> run_state (auto_rereg_timer_cb H hangup i) w = ((), w)
     \<and> run_state (acc_tp_lost H hangup ip tp i) w = ((), w)
     \<and> run_state (pjsua_acc_set_registration H (int i) renew) w = (PJ_EINVALIDOP, w)"
proof -
  obtain st w where r: "run_state (pjsua_acc_del H (int i)) v = (st, w)" by (metis surj_pair)
  have d: "acc_ok w" "deleted i v w" using acc_del_spec [OF assms(1) r] assms(2) by simp_all
  have "i < 4" using assms acc_okD(1) [OF assms(1)] by (simp add: pjsua_acc_is_valid_def)
  then have "i < length (accounts w)" "\<not> a_valid (accounts w ! i)" "a_regc (accounts w ! i) = None"
    using d acc_okD(1) [OF d(1)] by (auto simp: deleted_def acc_used_def)
  then show ?thesis using r
    by (simp add: Let_def regc_cb_def regc_cb_update_def auto_rereg_timer_cb_def acc_tp_lost_def
        pjsua_acc_set_registration_def)
qed

theorem deleted_account_quiet_witness:
  "run_state (auto_rereg_timer_cb demo_hw (\<lambda>_. ret 0) 1) (exec (pjsua_acc_del demo_hw 1) demo_var)
   = ((), exec (pjsua_acc_del demo_hw 1) demo_var)"
proof -
  have "pjsua_acc_is_valid (int 1) demo_var" using demo_acc_ok(2) by (auto simp: pjsua_acc_is_valid_def acc_used_def)
  from deleted_account_quiet [OF demo_acc_ok(1) this, of demo_hw "\<lambda>_. ret 0" "\<lambda>_. ret ()" demo_failure "\<lambda>_. ret ()" 1 True]
  show ?thesis by (simp add: Let_def)
qed

section \<open>The status of an account\<close>

text \<open>
  An account added for a registrar reports at once the last status code that its entry
  was left with by the account deleted before it: with 200 it counts as registered before its own
  registration has been answered, or even sent.
\<close>

theorem stale_status:
  assumes "acc_ok (env s)" "0 \<le> k" "S reg \<noteq> []"
    and "run_state (pd_acc_add (pjsua_model H B) uri reg user pw auth proxy tp stun pub name) s = (k, t)"
  shows "\<exists>info. pjsua_acc_get_info H k (env t) = Some info \<and> ai_is_default info = 1 \<and>
    (let c = a_reg_last_code (accounts (env s) ! nat k)
     in if c = 0 then ai_status info = 100 \<and> ai_status_text info = ''In Progress''
        else ai_status info = c \<and> ai_status_text info = hw_status_text H c)"
proof -
  obtain cfg where a: "added cfg (nat k) (env (entered (pjsua_model H B) s)) (env t)" "default_acc (env t) = k"
      "ac_reg_uri cfg = S reg" "acc_ok (env t)"
    using shim_acc_added [OF assms(1,4,2)] by blast
  have "pjsua_acc_is_valid k (env t)"
    using a(1) assms(2) by (auto simp: pjsua_acc_is_valid_def added_def acc_used_def)
  then show ?thesis
    using a assms(3) by (simp add: pjsua_acc_get_info_def Let_def added_def)
qed

text \<open>The third entry, free, was left by an account with the answer 200.\<close>

definition reused_shim :: "unit pjsua_var shim" where
  "reused_shim = demo_shim\<lparr>env := put_acc 2 (\<lambda>a. a\<lparr>a_reg_last_code := 200\<rparr>) demo_var\<rparr>"

theorem stale_status_witness:
  "map_option ai_status (pjsua_acc_get_info demo_hw (result demo_add_bob reused_shim) (env (exec demo_add_bob reused_shim)))
   = Some 200"
proof -
  have l: "2 < length (accounts demo_var)" using acc_okD(1) [OF demo_acc_ok(1)] by simp
  have e: "env reused_shim = put_acc 2 (\<lambda>a. a\<lparr>a_reg_last_code := 200\<rparr>) demo_var" by (simp add: reused_shim_def)
  have ok: "acc_ok (env reused_shim)" unfolding e
    by (rule acc_ok_put [OF demo_acc_ok(1)]) (use acc_okD(6) [OF demo_acc_ok(1), of 2] in simp)
  have used: "acc_used (env reused_shim) = {0, 1}"
    unfolding demo_acc_ok(2) [symmetric] e using l by (auto simp: acc_used_def put_acc_nth)
  obtain k t where r: "run_state demo_add_bob reused_shim = (k, t)" by (metis surj_pair)
  have k: "0 \<le> k"
    using demo_shim_add [OF ok, of "Some ''bob''" "Some ''secret''"] used demo_tpdata demo_registered r
    by (simp add: e reused_shim_def)
  obtain cfg where "added cfg (nat k) (env (entered demo_pjsua reused_shim)) (env t)"
    using shim_acc_added [OF ok r k] by blast
  then have "nat k \<notin> {0, 1}" "\<forall>j < nat k. j \<in> {0, 1}" by (simp_all add: added_def used)
  then have "nat k = 2" by (rule third_id)
  then have "a_reg_last_code (accounts (env reused_shim) ! nat k) = 200" using l by (simp add: e put_acc_nth)
  moreover obtain info where "pjsua_acc_get_info demo_hw k (env t) = Some info"
      "let c = a_reg_last_code (accounts (env reused_shim) ! nat k)
       in if c = 0 then ai_status info = 100 \<and> ai_status_text info = ''In Progress''
          else ai_status info = c \<and> ai_status_text info = hw_status_text demo_hw c"
    using stale_status [OF ok k _ r] by (auto simp: S_def)
  ultimately show ?thesis using r by (simp add: Let_def)
qed

section \<open>Choosing an account for an incoming message\<close>

lemma best_acc_spec:
  assumes "\<forall>i \<in> set ids. a_valid (acc i)" "distinct ids"
  shows "(\<exists>i \<in> set ids. m < score (acc i)) \<Longrightarrow>
      \<exists>xs i ys. ids = xs @ i # ys \<and> best_acc acc score ids m b = int i \<and> m < score (acc i)
        \<and> (\<forall>j \<in> set xs. score (acc j) < score (acc i)) \<and> (\<forall>j \<in> set ys. score (acc j) \<le> score (acc i))"
    and "\<not> (\<exists>i \<in> set ids. m < score (acc i)) \<Longrightarrow> best_acc acc score ids m b = b"
  using assms
proof (induction ids arbitrary: m b)
  case Nil
  { case 1 then show ?case by simp }
  { case 2 then show ?case by simp }
next
  case (Cons a ids)
  { case 1
    show ?case
    proof (cases "m < score (acc a)")
      case True
      then have step: "best_acc acc score (a # ids) m b = best_acc acc score ids (score (acc a)) (int a)" using 1 by simp
      show ?thesis
      proof (cases "\<exists>i \<in> set ids. score (acc a) < score (acc i)")
        case bigger: True
        then obtain xs i ys where x: "ids = xs @ i # ys" "best_acc acc score ids (score (acc a)) (int a) = int i"
            "score (acc a) < score (acc i)" "\<forall>j \<in> set xs. score (acc j) < score (acc i)"
            "\<forall>j \<in> set ys. score (acc j) \<le> score (acc i)"
          using Cons.IH(1) [of "score (acc a)" "int a"] 1 by auto
        then show ?thesis using step True
          by (intro exI [of _ "a # xs"] exI [of _ i] exI [of _ ys]) auto
      next
        case False
        then have "best_acc acc score ids (score (acc a)) (int a) = int a" using Cons.IH(2) [of "score (acc a)" "int a"] 1 by auto
        then show ?thesis using step True False
          by (intro exI [of _ "[]"] exI [of _ a] exI [of _ ids]) (auto simp: not_less)
      qed
    next
      case False
      then have step: "best_acc acc score (a # ids) m b = best_acc acc score ids m b" by simp
      have "\<exists>i \<in> set ids. m < score (acc i)" using 1(1) False by auto
      then obtain xs i ys where x: "ids = xs @ i # ys" "best_acc acc score ids m b = int i"
          "m < score (acc i)" "\<forall>j \<in> set xs. score (acc j) < score (acc i)" "\<forall>j \<in> set ys. score (acc j) \<le> score (acc i)"
        using Cons.IH(1) [of m b] 1 by auto
      then show ?thesis using step False
        by (intro exI [of _ "a # xs"] exI [of _ i] exI [of _ ys]) auto
    qed }
  { case 2
    then show ?case using Cons.IH(2) [of m b] by auto }
qed

text \<open>
  C13. The account for an incoming message is the one of greatest score, and among those of
  equal score the first by priority: 8 for the transport, 4 for the domain, 2 for the user, 1 for the user
  of the request URI. The default account is taken when no account scores or there is no SIP URI to
  match, and -1 only when there is no account at all.
\<close>

theorem incoming_best:
  assumes "acc_ok v"
  shows "let r = pjsua_acc_find_for_incoming None m v; score = (\<lambda>uri i. acc_score m uri (accounts v ! i))
    in if acc_used v = {} then r = PJSUA_INVALID_ID
       else case matched_uri m of
              None \<Rightarrow> r = default_acc v
            | Some uri \<Rightarrow>
                if \<exists>i \<in> acc_used v. 0 < score uri i
                then \<exists>xs i ys. acc_ids v = xs @ i # ys \<and> r = int i
                       \<and> (\<forall>j \<in> set xs. score uri j < score uri i) \<and> (\<forall>j \<in> set ys. score uri j \<le> score uri i)
                else r = default_acc v"
proof -
  note ok = acc_okD [OF assms]
  have cnt: "acc_cnt v = 0 \<longleftrightarrow> acc_used v = {}"
    using acc_cnt_card [OF assms] by (metis card_0_eq finite_acc_used unat_eq_zero)
  have valid: "\<forall>i \<in> set (acc_ids v). a_valid (accounts v ! i)" using ok(3) by (simp add: acc_used_def)
  show ?thesis
  proof (cases "matched_uri m")
    case None
    then show ?thesis using cnt by (auto simp: pjsua_acc_find_for_incoming_def Let_def)
  next
    case (Some uri)
    note b = best_acc_spec [where acc = "\<lambda>i. accounts v ! i" and score = "acc_score m uri" and m = 0
        and b = PJSUA_INVALID_ID, OF valid ok(2)]
    show ?thesis
    proof (cases "\<exists>i \<in> acc_used v. 0 < acc_score m uri (accounts v ! i)")
      case True
      then obtain xs i ys where x: "acc_ids v = xs @ i # ys"
          "best_acc (\<lambda>i. accounts v ! i) (acc_score m uri) (acc_ids v) 0 PJSUA_INVALID_ID = int i"
          "\<forall>j \<in> set xs. acc_score m uri (accounts v ! j) < acc_score m uri (accounts v ! i)"
          "\<forall>j \<in> set ys. acc_score m uri (accounts v ! j) \<le> acc_score m uri (accounts v ! i)"
        using b(1) ok(3) by auto
      have "i \<in> acc_used v" using x(1) ok(3) by auto
      then have "pjsua_acc_is_valid (int i) v" by (simp add: pjsua_acc_is_valid_def acc_used_def)
      then have "pjsua_acc_find_for_incoming None m v = int i"
        using Some x(2) cnt True by (auto simp: pjsua_acc_find_for_incoming_def Let_def)
      then show ?thesis using True Some x by (auto simp: Let_def)
    next
      case False
      then have "best_acc (\<lambda>i. accounts v ! i) (acc_score m uri) (acc_ids v) 0 PJSUA_INVALID_ID = PJSUA_INVALID_ID"
        using b(2) ok(3) by simp
      then show ?thesis using False Some cnt by (auto simp: pjsua_acc_find_for_incoming_def Let_def)
    qed
  qed
qed

definition demo_invite :: incoming_msg where
  "demo_invite = \<lparr>im_to = demo_uri ''sip:alice@example.com'', im_request_uri = demo_uri ''sip:alice@example.com'',
     im_is_request = True, im_tp_type = 1\<rparr>"

theorem incoming_best_witness: "pjsua_acc_find_for_incoming None demo_invite demo_var = 0"
proof -
  let ?score = "\<lambda>i. acc_score demo_invite (demo_uri ''sip:alice@example.com'') (accounts demo_var ! i)"
  have s: "?score 0 = 15" "?score 1 = 15"
    by (simp_all add: acc_score_def demo_invite_def demo_uri_def demo_var_def demo_acc_def free_acc_def is_sip_uri_def
        same_nocase_def)
  have m: "matched_uri demo_invite = Some (demo_uri ''sip:alice@example.com'')"
    by (simp add: matched_uri_def demo_invite_def demo_uri_def is_sip_uri_def)
  have "\<exists>i \<in> acc_used demo_var. 0 < ?score i" using s by (simp add: demo_acc_ok(2))
  then obtain xs i ys where x: "acc_ids demo_var = xs @ i # ys" "pjsua_acc_find_for_incoming None demo_invite demo_var = int i"
      "\<forall>j \<in> set xs. ?score j < ?score i"
    using incoming_best [OF demo_acc_ok(1), of demo_invite] by (auto simp: Let_def m demo_acc_ok(2))
  have "acc_ids demo_var = [0, 1]" by (simp add: demo_var_def)
  then have "xs = [] \<and> i = 0 \<or> xs = [0] \<and> i = 1" using x(1) by (auto simp: append_eq_Cons_conv)
  then show ?thesis using x(2,3) s by auto
qed

end
