(* ===== verification/Reg_Props.thy ===== *)
theory Reg_Props
  imports Acc_Props
begin

text \<open>
  Properties of registration: what the application is told, the retry after a failure, the delays of the
  timers, and the Service-Route headers of a response.
\<close>

section \<open>Delays\<close>

lemma normalize_nonneg:
  assumes "0 \<le> tv_sec t * 1000 + tv_msec t"
  shows "let d = pj_time_val_normalize t in 0 \<le> tv_sec d \<and> 0 \<le> tv_msec d \<and> tv_msec d < 1000
    \<and> tv_sec d * 1000 + tv_msec d = tv_sec t * 1000 + tv_msec t"
  using normalize_spec [of t] assms unfolding Let_def by linarith

lemma ka_delay_range: "0 < n \<Longrightarrow> 4 * int n - 4 \<le> 5 * tv_sec (ka_delay n rnd) \<and> tv_sec (ka_delay n rnd) < int n"
proof -
  assume n: "0 < n"
  define lb where "lb = n * 4 div 5"
  have lb: "lb < n" "4 * n \<le> 5 * lb + 4" using n unfolding lb_def by linarith+
  then have "rnd mod (n - lb) < n - lb" by simp
  then have "rnd mod (n - lb) + lb < n" using lb(1) by linarith
  then have "int (rnd mod (n - lb) + lb) < int n" by (simp only: of_nat_less_iff)
  moreover have "4 * int n - 4 \<le> 5 * int lb" using lb(2) by linarith
  ultimately show ?thesis by (simp add: ka_delay_def lb_def [symmetric] Let_def)
qed

text \<open>
  The delay before a retry is a normal time value, not negative. Without a random interval
  it is exactly the configured interval; with one of \<open>r\<close> seconds it lies within \<open>r\<close> seconds of an
  interval that is at least \<open>r\<close>, and anywhere below \<open>r\<close> seconds otherwise. So by default the first retry
  comes within ten seconds, not at once, and the later ones between 290 and 310 seconds apart. A
  keep-alive comes after at least four fifths of its interval and before the whole of it.
\<close>

theorem retry_delay:
  "let d = rereg_delay a rnd; ms = tv_sec d * 1000 + tv_msec d; c = a_cfg a;
       r = int (ac_reg_retry_random_interval c);
       sec = int (if a_rereg_attempt_cnt a = 0 then ac_reg_first_retry_interval c else ac_reg_retry_interval c)
   in 0 \<le> tv_sec d \<and> 0 \<le> tv_msec d \<and> tv_msec d < 1000
    \<and> (r = 0 \<longrightarrow> ms = sec * 1000)
    \<and> (0 < r \<and> r \<le> sec \<longrightarrow> (sec - r) * 1000 \<le> ms \<and> ms < (sec + r) * 1000)
    \<and> (sec < r \<longrightarrow> ms < r * 1000)
    \<and> (0 < n \<longrightarrow> (let k = tv_sec (ka_delay n rnd) in 4 * int n - 4 \<le> 5 * k \<and> k < int n))"
proof -
  define r where "r = int (ac_reg_retry_random_interval (a_cfg a))"
  define sec where "sec = int (if a_rereg_attempt_cnt a = 0 then ac_reg_first_retry_interval (a_cfg a)
      else ac_reg_retry_interval (a_cfg a))"
  define t where "t = (if r = 0 then \<lparr>tv_sec = sec, tv_msec = 0\<rparr>
       else if sec \<ge> r then \<lparr>tv_sec = sec, tv_msec = - (r * 1000) + int rnd mod (r * 1000 * 2)\<rparr>
       else \<lparr>tv_sec = 0, tv_msec = int rnd mod (r * 1000)\<rparr>)"
  have d: "rereg_delay a rnd = pj_time_val_normalize t"
    by (simp add: rereg_delay_def t_def r_def sec_def Let_def)
  have r0: "0 \<le> r" "0 \<le> sec" by (simp_all add: r_def sec_def)
  define x where "x = int rnd mod (r * 1000 * 2)"
  define y where "y = int rnd mod (r * 1000)"
  consider "r = 0" "tv_sec t = sec" "tv_msec t = 0"
    | "0 < r" "r \<le> sec" "tv_sec t = sec" "tv_msec t = x - r * 1000" "0 \<le> x" "x < r * 1000 * 2"
    | "0 < r" "sec < r" "tv_sec t = 0" "tv_msec t = y" "0 \<le> y" "y < r * 1000"
    using r0 by (cases "r = 0"; cases "r \<le> sec") (simp_all add: t_def x_def y_def)
  then have ms: "0 \<le> tv_sec t * 1000 + tv_msec t \<and> (r = 0 \<longrightarrow> tv_sec t * 1000 + tv_msec t = sec * 1000)
    \<and> (0 < r \<and> r \<le> sec \<longrightarrow> (sec - r) * 1000 \<le> tv_sec t * 1000 + tv_msec t
         \<and> tv_sec t * 1000 + tv_msec t < (sec + r) * 1000)
    \<and> (sec < r \<longrightarrow> tv_sec t * 1000 + tv_msec t < r * 1000)"
    by cases (use r0 in \<open>simp_all add: algebra_simps\<close>)
  note n = normalize_nonneg [OF conjunct1 [OF ms], unfolded Let_def]
  show ?thesis
    unfolding Let_def d r_def [symmetric] sec_def [symmetric] using n ms ka_delay_range by auto
qed

theorem retry_delay_witness:
  "let d = rereg_delay (demo_acc 0) 1234567 in tv_sec d * 1000 + tv_msec d < 10000 \<and> tv_sec (ka_delay 15 1234567) < 15"
  using retry_delay [of "demo_acc 0" 1234567 15]
  by (simp add: Let_def demo_acc_def demo_cfg_def pjsua_acc_config_default_def free_acc_def)

section \<open>Service routes\<close>

text \<open>
  C35. Collecting Service-Route headers of SIP URIs ends well when there are at most
  eight in all. With more it is refused, unless some leading headers hold exactly eight: then the next
  URI is written behind the array of eight.
\<close>

lemma collect_uris_all:
  assumes "\<forall>u \<in> set us. is_sip_uri u" "length acc \<le> 8"
  shows "collect_uris acc us =
    (if us = [] then RouteOk acc
     else if length acc = 8 then RouteOverflow
     else if length acc + length us \<le> 8 then RouteOk (acc @ us) else RouteRefused)"
  using assms by (induction acc us rule: collect_uris.induct) auto

theorem service_route_bounds:
  assumes "\<forall>v \<in> set vals. \<exists>h hs. hw_parse_route H v = Some (h, hs) \<and> (\<forall>u \<in> set (h # hs). is_sip_uri u)"
  shows "let uris = (\<lambda>v. case hw_parse_route H v of None \<Rightarrow> [] | Some (h, hs) \<Rightarrow> h # hs);
             total = concat (map uris vals)
    in collect_headers H [] vals =
      (if length total \<le> 8 then RouteOk total
       else if \<exists>k < length vals. length (concat (map uris (take k vals))) = 8 then RouteOverflow
       else RouteRefused)"
proof -
  define uris where "uris v = (case hw_parse_route H v of None \<Rightarrow> [] | Some (h, hs) \<Rightarrow> h # hs)" for v
  have "collect_headers H acc vals =
      (if length acc + length (concat (map uris vals)) \<le> 8 then RouteOk (acc @ concat (map uris vals))
       else if \<exists>k < length vals. length acc + length (concat (map uris (take k vals))) = 8 then RouteOverflow
       else RouteRefused)" if "length acc \<le> 8" for acc
    using assms that
  proof (induction vals arbitrary: acc)
    case Nil
    then show ?case by simp
  next
    case (Cons v vs)
    obtain h hs where p: "hw_parse_route H v = Some (h, hs)" "\<forall>u \<in> set (h # hs). is_sip_uri u"
      using Cons.prems(1) by auto
    have u: "uris v = h # hs" by (simp add: uris_def p(1))
    have ex: "(\<exists>k < length (v # vs). length acc + length (concat (map uris (take k (v # vs)))) = 8) \<longleftrightarrow>
        length acc = 8 \<or> (\<exists>k < length vs. length (acc @ h # hs) + length (concat (map uris (take k vs))) = 8)"
      unfolding length_Cons Ex_less_Suc2 by (simp add: u add.assoc)
    note c = collect_uris_all [OF p(2) Cons.prems(2)]
    show ?case
    proof (cases "length acc + length (h # hs) \<le> 8")
      case True
      then have "collect_headers H acc (v # vs) = collect_headers H (acc @ h # hs) vs" using c by (simp add: p(1))
      also have "\<dots> = (if length (acc @ h # hs) + length (concat (map uris vs)) \<le> 8
           then RouteOk ((acc @ h # hs) @ concat (map uris vs))
           else if \<exists>k < length vs. length (acc @ h # hs) + length (concat (map uris (take k vs))) = 8 then RouteOverflow
           else RouteRefused)"
        using Cons.IH [of "acc @ h # hs"] Cons.prems(1) True by simp
      finally show ?thesis unfolding ex using True by (simp add: u)
    next
      case False
      then have "collect_headers H acc (v # vs) = (if length acc = 8 then RouteOverflow else RouteRefused)"
        using c by (simp add: p(1))
      then show ?thesis unfolding ex using False by (auto simp: u)
    qed
  qed
  from this [of "[]"] show ?thesis by (simp add: Let_def uris_def [abs_def])
qed

text \<open>One header of eight URIs and one more.\<close>

definition eight_routes_hw :: "unit hw" where
  "eight_routes_hw = demo_hw\<lparr>hw_parse_route := (\<lambda>s. Some (demo_uri s, if s = ''eight'' then replicate 7 (demo_uri s) else []))\<rparr>"

theorem service_route_bounds_witness:
  "collect_headers eight_routes_hw [] [''eight'', ''one''] = RouteOverflow"
  using service_route_bounds [of "[''eight'', ''one'']" eight_routes_hw]
  by (simp add: eight_routes_hw_def demo_uri_def Let_def Ex_less_Suc2 numeral_2_eq_2 is_sip_uri_def)

section \<open>What the application is told\<close>

lemma pres_keeps_accounts:
  assumes "keeps accounts m" "\<And>v w. accounts w = accounts v \<Longrightarrow> I w = I v"
  shows "pres I m"
  using assms by (metis keepsD pres_def)

lemma codes_schedule:
  assumes "\<And>k. keeps accounts (hangup k)"
  shows "keeps reg_codes (schedule_reregistration H hangup i)"
proof -
  have h: "keeps reg_codes (hangup k)" for k using assms by (simp add: keeps_def reg_codes_def)
  show ?thesis
    unfolding schedule_reregistration_def drop_calls_def cancel_rereg_timer_def
    by (intro keeps_intro codes_ext codes_upd_acc h) simp_all
qed

text \<open>The state in which the application is called.\<close>

lemma regc_cb_reported:
  assumes v: "i < length (accounts v)" "a_regc (accounts v ! i) = Some (rp_regc p)"
    and h: "\<And>k. keeps accounts (hangup k)"
    and run: "run_state (regc_cb_update H hangup i p) v = (CallOnRegState, w)"
  obtains u where "run_state (regc_outcome H i p) v = (None, u)"
    "w = (let x = put_acc i (\<lambda>a. a\<lparr>a_reg_last_err := rp_status p, a_reg_last_code := rp_code p, a_contact_rewritten := False\<rparr>) u;
              a = accounts x ! i
          in if ac_reg_retry_interval (a_cfg a) \<noteq> 0 \<and> a_ip_change_op a \<noteq> IP_OP_UPDATE_CONTACT \<and> temporary_failure (rp_code p)
             then exec (schedule_reregistration H hangup i) x else x)"
    "i < length (accounts w)" "same_user (accounts v ! i) (accounts w ! i)" "a_reg_last_code (accounts w ! i) = rp_code p"
proof -
  obtain e u where o: "run_state (regc_outcome H i p) v = (e, u)" by (metis surj_pair)
  have e: "e = None"
  proof (rule ccontr)
    assume "e \<noteq> None"
    then obtain r where er: "e = Some r" by blast
    then have "r = CallOnRegState" using run v(2) o by (simp add: regc_cb_update_def)
    then show False using o er
      by (auto simp: regc_outcome_def regc_registered_def split: if_splits prod.splits)
  qed
  define x where "x = put_acc i (\<lambda>a. a\<lparr>a_reg_last_err := rp_status p, a_reg_last_code := rp_code p, a_contact_rewritten := False\<rparr>) u"
  have w: "w = (if ac_reg_retry_interval (a_cfg (accounts x ! i)) \<noteq> 0 \<and> a_ip_change_op (accounts x ! i) \<noteq> IP_OP_UPDATE_CONTACT
             \<and> temporary_failure (rp_code p) then exec (schedule_reregistration H hangup i) x else x)"
    using run v(2) o e by (auto simp: regc_cb_update_def x_def only_if_def split: prod.splits if_splits)
  let ?I = "\<lambda>w. i < length (accounts w) \<and> same_user (accounts v ! i) (accounts w ! i)"
  have "pres ?I (regc_cb_update H hangup i p)"
    by (intro pres_regc_cb_update same_user_stable pres_keeps_accounts [OF h]) simp
  from presD [OF this, of v] have iw: "i < length (accounts w)" "same_user (accounts v ! i) (accounts w ! i)"
    using v(1) run by (simp_all add: same_user_def)
  have "pres ?I (regc_outcome H i p)" by (rule pres_regc_outcome [OF same_user_stable])
  from presD [OF this, of v] have iu: "i < length (accounts u)" using v(1) o by (simp add: same_user_def)
  have "reg_codes w = reg_codes x" using keepsD [OF codes_schedule [OF h]] by (simp add: w)
  then have "a_reg_last_code (accounts w ! i) = a_reg_last_code (accounts x ! i)"
    using iw(1) iu unfolding reg_codes_def x_def by (metis nth_map put_acc_simps(1) length_map)
  also have "\<dots> = rp_code p" using iu by (simp add: x_def put_acc_nth)
  finally show ?thesis using that o e w iw by (simp add: x_def Let_def)
qed

text \<open>A failed or ended registration has no session left.\<close>

lemma outcome_no_regc:
  assumes "rp_status p = PJ_SUCCESS" "rp_code p < 0 \<or> rp_code p \<ge> 300 \<or> in_class (rp_code p) 200 \<and> rp_expiration p < 1"
  shows "no_regc i (exec (regc_outcome H i p) v)"
proof -
  have d: "no_regc i (exec (do { destroy_regc H i True; update_keep_alive H i None; ret None }) u)" for u
  proof -
    obtain st w where w: "run_state (destroy_regc H i True) u = (st, w)" by (metis surj_pair)
    have "no_regc i w" using no_regc_destroyed [of i H u] w by simp
    from presD [OF pres_update_keep_alive [OF no_regc_stable] this, of H None] show ?thesis
      using w by (cases "run_state (update_keep_alive H i None) w") simp
  qed
  show ?thesis
  proof (cases "rp_code p < 0 \<or> rp_code p \<ge> 300")
    case True
    then show ?thesis using d [of v] assms(1) by (simp add: regc_outcome_def)
  next
    case False
    then show ?thesis
      using d [of "put_acc i (\<lambda>a. a\<lparr>a_rereg_active := False, a_rereg_attempt_cnt := 0\<rparr>) v"] assms
      by (simp add: regc_outcome_def)
  qed
qed

lemma no_regc_expires:
  "no_regc i v \<Longrightarrow> i < length (accounts v) \<Longrightarrow> pjsua_acc_get_info H (int i) v = Some info \<Longrightarrow> ai_expires info = -1"
  by (auto simp: pjsua_acc_get_info_def no_regc_def Let_def split: if_splits)

lemma reported_no_regc:
  assumes "i < length (accounts v)" "a_regc (accounts v ! i) = Some (rp_regc p)" "\<And>k. keeps accounts (hangup k)"
    and "run_state (regc_cb_update H hangup i p) v = (CallOnRegState, w)"
    and "rp_status p = PJ_SUCCESS" "rp_code p < 0 \<or> rp_code p \<ge> 300 \<or> in_class (rp_code p) 200 \<and> rp_expiration p < 1"
  shows "no_regc i w"
proof -
  obtain u where u: "run_state (regc_outcome H i p) v = (None, u)"
    "w = (let x = put_acc i (\<lambda>a. a\<lparr>a_reg_last_err := rp_status p, a_reg_last_code := rp_code p, a_contact_rewritten := False\<rparr>) u;
              a = accounts x ! i
          in if ac_reg_retry_interval (a_cfg a) \<noteq> 0 \<and> a_ip_change_op a \<noteq> IP_OP_UPDATE_CONTACT \<and> temporary_failure (rp_code p)
             then exec (schedule_reregistration H hangup i) x else x)"
    using regc_cb_reported [OF assms(1-4)] by metis
  have "no_regc i u" using outcome_no_regc [OF assms(5,6), of i H v] u(1) by simp
  then have x: "no_regc i (put_acc i (\<lambda>a. a\<lparr>a_reg_last_err := e, a_reg_last_code := c, a_contact_rewritten := b\<rparr>) u)" for e c b
    by (simp add: no_regc_def put_acc_nth)
  have "pres (no_regc i) (schedule_reregistration H hangup i)"
    by (intro pres_schedule no_regc_stable pres_keeps_accounts [OF assms(3)]) (simp add: no_regc_def)
  from presD [OF this x] x show ?thesis by (simp add: u(2) Let_def)
qed

text \<open>A registration that goes on keeps its session, unless the Contact is changed by unregistering.\<close>

definition sessions :: "'x pjsua_var \<Rightarrow> (nat option \<times> pjsua_acc_config) list" where
  "sessions v = map (\<lambda>a. (a_regc a, a_cfg a)) (accounts v)"

lemma sessions_upd_acc:
  assumes "\<And>a. a_regc (f a) = a_regc a \<and> a_cfg (f a) = a_cfg a"
  shows "keeps sessions (upd_acc i f)"
proof (rule keepsI)
  fix v :: "'a pjsua_var"
  show "sessions (exec (upd_acc i f) v) = sessions v"
    by (cases "i < length (accounts v)")
      (simp_all add: put_acc_out sessions_def put_acc_def list_eq_iff_nth_eq nth_list_update assms)
qed

lemma sessions_nth:
  assumes "sessions u = sessions v" "i < length (accounts v)"
  shows "length (accounts u) = length (accounts v)" "a_regc (accounts u ! i) = a_regc (accounts v ! i)"
    "a_cfg (accounts u ! i) = a_cfg (accounts v ! i)"
proof -
  show l: "length (accounts u) = length (accounts v)" using arg_cong [OF assms(1), of length] by (simp add: sessions_def)
  have "sessions u ! i = sessions v ! i" using assms(1) by simp
  then show "a_regc (accounts u ! i) = a_regc (accounts v ! i)" "a_cfg (accounts u ! i) = a_cfg (accounts v ! i)"
    using assms(2) l by (simp_all add: sessions_def)
qed

lemma sessions_ext:
  "keeps sessions (on_ext f)" "keeps sessions (upd_ext g)" "keeps sessions (get_acc i)" "keeps sessions (regc_set H r op)"
  by (simp_all add: keeps_def sessions_def regc_set_def split: option.split)

lemma sessions_kept:
  "keeps sessions (save_via_addr H i rx)" "keeps sessions (update_keep_alive H i start)"
  "keeps sessions (update_service_route H i rx)"
proof -
  show "keeps sessions (save_via_addr H i rx)" unfolding save_via_addr_def Let_def
    by (intro keeps_intro sessions_ext sessions_upd_acc) simp_all
  show "keeps sessions (update_keep_alive H i start)" unfolding update_keep_alive_def stop_keep_alive_def
    by (intro keeps_intro sessions_ext sessions_upd_acc) simp_all
  have "keeps sessions (case r of RouteOk uris \<Rightarrow> do {
          outbound \<leftarrow> gets outbound_proxy;
          only_if (uris \<noteq> []) (upd_acc i (\<lambda>a.
            a\<lparr>a_route_set := take (length outbound + length (ac_proxy (a_cfg a))) (a_route_set a) @ uris\<rparr>));
          ret True
        } | RouteRefused \<Rightarrow> ret True | RouteOverflow \<Rightarrow> ret False)" for r
    by (cases r; simp only: service_route.case) (intro keeps_intro sessions_upd_acc; simp)+
  then show "keeps sessions (update_service_route H i rx)" unfolding update_service_route_def by blast
qed

lemma nat_unchanged:
  assumes "m \<noteq> 1" "run_state (acc_check_nat_addr H i m rx) v = (False, w)"
  shows "sessions w = sessions v"
proof -
  obtain u where u: "run_state (save_via_addr H i rx) v = ((), u)" by (metis old.unit.exhaust surj_pair)
  then have "sessions u = sessions v" using keepsD [OF sessions_kept(1), of H i rx v] by simp
  moreover have "w = u" using assms u by (auto simp: acc_check_nat_addr_def Let_def split: if_splits prod.splits)
  ultimately show ?thesis by simp
qed

lemma registered_sessions:
  assumes "ac_contact_rewrite_method (a_cfg (accounts v ! i)) AND 3 \<noteq> 1" "i < length (accounts v)"
    "run_state (regc_registered H i rx) v = (None, w)"
  shows "sessions w = sessions v"
proof -
  define u where "u = put_acc i (update_rfc5626_status rx) v"
  have up: "keeps sessions (upd_acc i (update_rfc5626_status rx))"
    by (rule sessions_upd_acc) (simp add: update_rfc5626_status_def Let_def)
  have su: "sessions u = sessions v" using keepsD [OF up, of v] by (simp add: u_def)
  have cfg: "a_cfg (accounts u ! i) = a_cfg (accounts v ! i)" by (rule sessions_nth(3) [OF su assms(2)])
  define more where "more = do {
      ok \<leftarrow> update_service_route H i rx;
      if \<not> ok then ret (Some MemoryError)
      else do {
        update_keep_alive H i (Some rx);
        publishing \<leftarrow> gets (\<lambda>v. hw_publishing H (int i) (ext v));
        only_if (ac_publish_enabled (a_cfg (accounts u ! i)) \<and> \<not> publishing) (upd_ext (hw_publish H (int i)));
        only_if (ac_mwi_enabled (a_cfg (accounts u ! i))) (upd_ext (hw_start_mwi H (int i) False));
        ret None
      } }"
  define check where "check = (if a_contact_rewritten (accounts u ! i) then ret False
      else acc_check_nat_addr H i (ac_contact_rewrite_method (a_cfg (accounts u ! i)) AND 3) rx)"
  obtain b x where nat: "run_state check u = (b, x)" by (metis surj_pair)
  have "run_state (regc_registered H i rx) v
      = run_state (do { b \<leftarrow> check; if b then do { upd_acc i (\<lambda>a. a\<lparr>a_contact_rewritten := True\<rparr>); ret (Some NoCallback) } else more }) u"
    unfolding regc_registered_def check_def more_def by (simp add: u_def [symmetric])
  then have b: "b = False" and more: "run_state more x = (None, w)"
    using assms(3) nat by (cases b; simp)+
  have "sessions x = sessions u"
    using nat nat_unchanged [of "ac_contact_rewrite_method (a_cfg (accounts u ! i)) AND 3" H i rx u x] assms(1) b
    by (cases "a_contact_rewritten (accounts u ! i)") (simp_all add: cfg check_def)
  moreover have "keeps sessions more" unfolding more_def by (intro keeps_intro sessions_kept sessions_ext)
  ultimately show ?thesis using keepsD [of sessions more x] more su by simp
qed

lemma reported_session:
  assumes "i < length (accounts v)" "a_regc (accounts v ! i) = Some (rp_regc p)" "\<And>k. keeps accounts (hangup k)"
    "run_state (regc_cb_update H hangup i p) v = (CallOnRegState, w)"
    "rp_status p = PJ_SUCCESS" "in_class (rp_code p) 200" "rp_expiration p \<ge> 1"
    "ac_contact_rewrite_method (a_cfg (accounts v ! i)) AND 3 \<noteq> 1"
  shows "a_regc (accounts w ! i) = Some (rp_regc p)"
proof -
  obtain u where o: "run_state (regc_outcome H i p) v = (None, u)"
    and w: "w = (let x = put_acc i (\<lambda>a. a\<lparr>a_reg_last_err := rp_status p, a_reg_last_code := rp_code p, a_contact_rewritten := False\<rparr>) u;
              a = accounts x ! i
          in if ac_reg_retry_interval (a_cfg a) \<noteq> 0 \<and> a_ip_change_op a \<noteq> IP_OP_UPDATE_CONTACT \<and> temporary_failure (rp_code p)
             then exec (schedule_reregistration H hangup i) x else x)"
    using regc_cb_reported [OF assms(1-4)] by metis
  have code: "200 \<le> rp_code p \<and> rp_code p < 300" using assms(6) by (auto simp: in_class_def)
  then have "\<not> temporary_failure (rp_code p)" by (auto simp: temporary_failure_def in_class_def)
  then have w: "w = put_acc i (\<lambda>a. a\<lparr>a_reg_last_err := rp_status p, a_reg_last_code := rp_code p, a_contact_rewritten := False\<rparr>) u"
    using w by simp
  let ?y = "put_acc i (\<lambda>a. a\<lparr>a_rereg_active := False, a_rereg_attempt_cnt := 0\<rparr>) v"
  have "run_state (regc_registered H i (rp_rdata p)) ?y = (None, u)"
    using o assms(5-7) code by (simp add: regc_outcome_def)
  from registered_sessions [OF _ _ this] have "sessions u = sessions ?y" using assms(1,8) by (simp add: put_acc_nth)
  note u = sessions_nth [OF this, of i]
  show ?thesis using u assms(1,2) by (simp add: w put_acc_nth)
qed

text \<open>
  C18. When the callback for the result of a registration gets as far as telling the
  application, the shim sends Rust exactly one registration event for that account, with the status code
  of the answer and its phrase cut to 127 bytes. The expiry it gives is what the account's client registration
  says, -1 if it has none: after a failure and at the end of a registration it has none; after a successful one it is
  the one that was answered, so the expiry is the time to its next refresh (unless a changed Contact is registered by
  unregistering the old one first). Telling the application changes nothing in pjsua.
\<close>

theorem reg_result_reported:
  assumes "acc_ok (env s)" "i < 4" "a_regc (accounts (env s) ! i) = Some (rp_regc p)" "rp_code p \<noteq> 0"
    and "\<forall>k. keeps accounts (hangup k)" "g_on_reg s"
    and "run_state (regc_cb_update H hangup i p) (env s) = (CallOnRegState, w)"
  shows "let t = exec (on_reg_state (pjsua_model H B) (int i)) (s\<lparr>env := w\<rparr>);
      expires = (case a_regc (accounts w ! i) of None \<Rightarrow> -1 | Some r \<Rightarrow> sint (hw_regc_next_reg H r (ext w))) in
    env t = w
    \<and> (\<exists>log. trace t = trace s @ log @ [OnRegState (int i) expires (rp_code p) (take 127 (hw_status_text H (rp_code p)))]
         \<and> list_all is_log log)
    \<and> (rp_status p = PJ_SUCCESS \<and> (rp_code p \<ge> 300 \<or> in_class (rp_code p) 200 \<and> rp_expiration p < 1) \<longrightarrow> expires = -1)
    \<and> (rp_status p = PJ_SUCCESS \<and> in_class (rp_code p) 200 \<and> rp_expiration p \<ge> 1
         \<and> ac_contact_rewrite_method (a_cfg (accounts (env s) ! i)) AND 3 \<noteq> 1
       \<longrightarrow> expires = sint (hw_regc_next_reg H (rp_regc p) (ext w)))"
proof -
  have i: "i < length (accounts (env s))" using assms(2) acc_okD(1) [OF assms(1)] by simp
  have reg: "a_valid (accounts (env s) ! i)" "ac_reg_uri (a_cfg (accounts (env s) ! i)) \<noteq> []"
    using acc_okD(6) [OF assms(1,2)] assms(3) by simp_all
  have h: "keeps accounts (hangup k)" for k using assms(5) by simp
  have w: "i < length (accounts w)" "same_user (accounts (env s) ! i) (accounts w ! i)" "a_reg_last_code (accounts w ! i) = rp_code p"
    using regc_cb_reported [OF i assms(3) h assms(7)] by metis+
  let ?expires = "case a_regc (accounts w ! i) of None \<Rightarrow> -1 | Some r \<Rightarrow> sint (hw_regc_next_reg H r (ext w))"
  obtain info where info: "pjsua_acc_get_info H (int i) w = Some info" "ai_status info = rp_code p"
      "ai_status_text info = hw_status_text H (rp_code p)" "ai_expires info = ?expires"
    using w reg assms(4) by (auto simp: pjsua_acc_get_info_def pjsua_acc_is_valid_def same_user_def Let_def)
  have failed: "rp_status p = PJ_SUCCESS \<and> (rp_code p \<ge> 300 \<or> in_class (rp_code p) 200 \<and> rp_expiration p < 1) \<longrightarrow> ?expires = -1"
    using no_regc_expires [OF _ w(1) info(1)] reported_no_regc [OF i assms(3) h assms(7)] info(4) by auto
  have kept: "rp_status p = PJ_SUCCESS \<and> in_class (rp_code p) 200 \<and> rp_expiration p \<ge> 1
      \<and> ac_contact_rewrite_method (a_cfg (accounts (env s) ! i)) AND 3 \<noteq> 1
      \<longrightarrow> ?expires = sint (hw_regc_next_reg H (rp_regc p) (ext w))"
    using reported_session [OF i assms(3) h assms(7)] by simp
  have "env t = w \<and> (\<exists>log. trace t = trace s @ log @ [OnRegState (int i) ?expires (rp_code p) (take 127 (hw_status_text H (rp_code p)))]
      \<and> list_all is_log log)" if "t = exec (on_reg_state (pjsua_model H B) (int i)) (s\<lparr>env := w\<rparr>)" for t
    unfolding info(4) [symmetric]
    using info(1-3) assms(6) that by (cases "g_on_log s") (auto simp: on_reg_state_def Let_def c_trunc_def is_log_def intro: exI [of _ "[]"])
  then show ?thesis unfolding Let_def using failed kept by blast
qed

section \<open>Retrying\<close>

text \<open>What the steps of a failure keep of an account.\<close>

definition reg_setup :: "'x pjsua_var \<Rightarrow> (bool \<times> pjsua_acc_config \<times> ip_change_op) list" where
  "reg_setup v = map (\<lambda>a. (a_valid a, a_cfg a, a_ip_change_op a)) (accounts v)"

lemma setup_upd_acc:
  assumes "\<And>a. a_valid (f a) = a_valid a \<and> a_cfg (f a) = a_cfg a \<and> a_ip_change_op (f a) = a_ip_change_op a"
  shows "keeps reg_setup (upd_acc i f)"
proof (rule keepsI)
  fix v :: "'a pjsua_var"
  show "reg_setup (exec (upd_acc i f) v) = reg_setup v"
    by (cases "i < length (accounts v)")
      (simp_all add: put_acc_out reg_setup_def put_acc_def list_eq_iff_nth_eq nth_list_update assms)
qed

lemma reg_setup_nth:
  assumes "reg_setup u = reg_setup v" "i < length (accounts v)"
  shows "length (accounts u) = length (accounts v) \<and> a_valid (accounts u ! i) = a_valid (accounts v ! i)
    \<and> a_cfg (accounts u ! i) = a_cfg (accounts v ! i) \<and> a_ip_change_op (accounts u ! i) = a_ip_change_op (accounts v ! i)"
proof -
  have l: "length (accounts u) = length (accounts v)" using arg_cong [OF assms(1), of length] by (simp add: reg_setup_def)
  have "reg_setup u ! i = reg_setup v ! i" using assms(1) by simp
  then show ?thesis using assms(2) l by (simp add: reg_setup_def)
qed

lemma setup_ext: "keeps reg_setup (on_ext f)" "keeps reg_setup (upd_ext g)" "keeps reg_setup (get_acc i)"
  by (simp_all add: keeps_def reg_setup_def)

lemma setup_failure: "keeps reg_setup (do { destroy_regc H i True; update_keep_alive H i None; ret (None :: reg_outcome option) })"
  unfolding destroy_regc_def update_keep_alive_def stop_keep_alive_def
  by (simp add: if_distrib, intro keeps_intro setup_ext setup_upd_acc) simp_all

text \<open>Timers that can always be started.\<close>

definition timers_start :: "'x hw \<Rightarrow> bool" where
  "timers_start H \<longleftrightarrow> (\<forall>t d x. fst (hw_schedule_timer H t d x) = PJ_SUCCESS)"

definition retry_armed :: "nat \<Rightarrow> 'x pjsua_var \<Rightarrow> bool" where
  "retry_armed i v \<longleftrightarrow> i < length (accounts v) \<and>
     (let a = accounts v ! i in a_valid a \<and> a_rereg_active a \<and> a_rereg_timer a \<and> ac_reg_retry_interval (a_cfg a) \<noteq> 0)"

lemma drop_calls_accounts:
  assumes "\<And>k. keeps accounts (hangup k)"
  shows "keeps accounts (drop_calls hangup i)"
  unfolding drop_calls_def by (intro keeps_intro assms)

lemma schedule_arms:
  assumes i: "i < length (accounts v)" "a_valid (accounts v ! i)" "ac_reg_retry_interval (a_cfg (accounts v ! i)) \<noteq> 0"
    and H: "timers_start H" and h: "\<And>k. keeps accounts (hangup k)"
  shows "retry_armed i (exec (schedule_reregistration H hangup i) v)"
proof -
  let ?a = "accounts v ! i"
  obtain u where u: "run_state (only_if (ac_drop_calls_on_reg_fail (a_cfg ?a) \<and> a_rereg_attempt_cnt ?a \<ge> 1) (drop_calls hangup i)) v
      = ((), u)" by (metis old.unit.exhaust surj_pair)
  have "keeps accounts (only_if (ac_drop_calls_on_reg_fail (a_cfg ?a) \<and> a_rereg_attempt_cnt ?a \<ge> 1) (drop_calls hangup i))"
    by (intro keeps_intro drop_calls_accounts h)
  from keepsD [OF this, of v] u have au: "accounts u = accounts v" by simp
  obtain x where x: "run_state (cancel_rereg_timer H i) u = ((), x)" by (metis old.unit.exhaust surj_pair)
  have ax: "length (accounts x) = length (accounts v)" "a_valid (accounts x ! i)" "a_cfg (accounts x ! i) = a_cfg ?a"
    using x i au by (auto simp: cancel_rereg_timer_def put_acc_nth split: if_splits)
  define y where "y = put_acc i (\<lambda>a. a\<lparr>a_rereg_active := True\<rparr>) x"
  obtain rnd z where z: "run_state (if ac_reg_retry_random_interval (a_cfg (accounts y ! i)) = 0 then ret 0 else on_ext (hw_rand H)) y
      = (rnd, z)" by (metis surj_pair)
  have az: "accounts z = accounts y" using z by (auto split: if_splits)
  have s: "fst (hw_schedule_timer H t d e) = PJ_SUCCESS" for t d e using H by (simp add: timers_start_def)
  have "exec (schedule_reregistration H hangup i) v
      = exec (on_ext (hw_schedule_timer H (ReregTimer i) (rereg_delay (accounts y ! i) rnd))) (put_acc i (\<lambda>a. a\<lparr>a_rereg_timer := True\<rparr>) z)"
    using i u x z s by (simp add: schedule_reregistration_def y_def [symmetric])
  then show ?thesis
    using i ax az by (simp add: retry_armed_def y_def put_acc_nth Let_def)
qed

text \<open>The callback for such a failure always gets as far as telling the application.\<close>

lemma failure_run:
  assumes "i < length (accounts v)" "a_valid (accounts v ! i)" "a_regc (accounts v ! i) = Some (rp_regc p)"
    and "rp_status p = PJ_SUCCESS" "temporary_failure (rp_code p)"
    and "ac_reg_retry_interval (a_cfg (accounts v ! i)) \<noteq> 0" "a_ip_change_op (accounts v ! i) \<noteq> IP_OP_UPDATE_CONTACT"
    and "timers_start H" "\<forall>k. keeps accounts (hangup k)"
  shows "\<exists>w. run_state (regc_cb_update H hangup i p) v = (CallOnRegState, w) \<and> retry_armed i w"
proof -
  note i = assms(1)
  have h: "keeps accounts (hangup k)" for k using assms(9) by simp
  have code: "rp_code p \<ge> 300" using assms(5) by (auto simp: temporary_failure_def in_class_def)
  let ?m = "do { destroy_regc H i True; update_keep_alive H i None; ret (None :: reg_outcome option) }"
  obtain st u0 where u0: "run_state (destroy_regc H i True) v = (st, u0)" by (metis surj_pair)
  obtain u where u1: "run_state (update_keep_alive H i None) u0 = ((), u)" by (metis old.unit.exhaust surj_pair)
  have u: "run_state ?m v = (None, u)" using u0 u1 by simp
  have o: "run_state (regc_outcome H i p) v = (None, u)" using u assms(4) code by (simp add: regc_outcome_def)
  have "reg_setup u = reg_setup v" using keepsD [OF setup_failure, of H i v] u by simp
  from reg_setup_nth [OF this i] have su: "length (accounts u) = length (accounts v)"
      "a_valid (accounts u ! i) = a_valid (accounts v ! i)" "a_cfg (accounts u ! i) = a_cfg (accounts v ! i)"
      "a_ip_change_op (accounts u ! i) = a_ip_change_op (accounts v ! i)"
    by simp_all
  define x where "x = put_acc i (\<lambda>a. a\<lparr>a_reg_last_err := rp_status p, a_reg_last_code := rp_code p, a_contact_rewritten := False\<rparr>) u"
  have x: "i < length (accounts x)" "a_valid (accounts x ! i)" "a_cfg (accounts x ! i) = a_cfg (accounts v ! i)"
      "a_ip_change_op (accounts x ! i) = a_ip_change_op (accounts v ! i)"
    using i su assms(2) by (simp_all add: x_def put_acc_nth)
  define w where "w = exec (schedule_reregistration H hangup i) x"
  have run: "run_state (regc_cb_update H hangup i p) v = (CallOnRegState, w)"
    using assms(3,5,6,7) o x
    by (cases "run_state (schedule_reregistration H hangup i) x") (simp add: regc_cb_update_def x_def [symmetric] w_def)
  moreover have "retry_armed i w" unfolding w_def by (rule schedule_arms) (use x assms h in simp_all)
  ultimately show ?thesis by blast
qed

text \<open>
  C5. A registration that fails for a reason that may pass (408, 480, 500, 502, 503, 504
  or 6xx) always ends with the application told, no client registration left, and the retry timer of the
  account running, if retries are configured and timers can be started.
\<close>

theorem failure_retried:
  assumes "acc_ok v" "i < 4" "a_regc (accounts v ! i) = Some (rp_regc p)"
    and "rp_status p = PJ_SUCCESS" "temporary_failure (rp_code p)"
    and "ac_reg_retry_interval (a_cfg (accounts v ! i)) \<noteq> 0" "a_ip_change_op (accounts v ! i) \<noteq> IP_OP_UPDATE_CONTACT"
    and "timers_start H" "\<forall>k. keeps accounts (hangup k)"
  shows "\<exists>w. run_state (regc_cb_update H hangup i p) v = (CallOnRegState, w) \<and> retry_armed i w
    \<and> a_regc (accounts w ! i) = None \<and> a_reg_last_code (accounts w ! i) = rp_code p"
proof -
  have i: "i < length (accounts v)" using assms(2) acc_okD(1) [OF assms(1)] by simp
  have valid: "a_valid (accounts v ! i)" using acc_okD(6) [OF assms(1,2)] assms(3) by simp
  have h: "keeps accounts (hangup k)" for k using assms(9) by simp
  have code: "rp_code p \<ge> 300" using assms(5) by (auto simp: temporary_failure_def in_class_def)
  obtain w where run: "run_state (regc_cb_update H hangup i p) v = (CallOnRegState, w)" and r: "retry_armed i w"
    using failure_run [OF i valid assms(3-9)] by blast
  have "no_regc i w" using reported_no_regc [OF i assms(3) h run assms(4)] code by simp
  moreover have "a_reg_last_code (accounts w ! i) = rp_code p" using regc_cb_reported [OF i assms(3) h run] by metis
  ultimately show ?thesis using run r by (auto simp: retry_armed_def no_regc_def)
qed

text \<open>The first account of \<open>demo_var\<close>, refused with 503.\<close>

lemma demo_failing:
  "0 < length (accounts demo_var)" "a_valid (accounts demo_var ! 0)" "a_regc (accounts demo_var ! 0) = Some (rp_regc demo_failure)"
  "rp_status demo_failure = PJ_SUCCESS" "temporary_failure (rp_code demo_failure)"
  "ac_reg_retry_interval (a_cfg (accounts demo_var ! 0)) \<noteq> 0" "a_ip_change_op (accounts demo_var ! 0) \<noteq> IP_OP_UPDATE_CONTACT"
  "timers_start demo_hw" "\<forall>k. keeps accounts ((\<lambda>_. ret 0 :: (unit, pj_status) pv_m) k)"
  by (simp_all add: demo_var_def demo_acc_def demo_cfg_def pjsua_acc_config_default_def free_acc_def demo_failure_def
      temporary_failure_def timers_start_def demo_hw_def keeps_def)

theorem failure_retried_witness:
  "\<exists>w. run_state (regc_cb_update demo_hw (\<lambda>_. ret 0) 0 demo_failure) demo_var = (CallOnRegState, w) \<and> retry_armed 0 w
    \<and> a_regc (accounts w ! 0) = None \<and> a_reg_last_code (accounts w ! 0) = rp_code demo_failure"
  by (rule failure_retried [OF demo_acc_ok(1) _ demo_failing(3-9)]) simp

theorem reg_result_reported_witness:
  "\<exists>w log. trace (exec (on_reg_state demo_pjsua 0) (demo_shim\<lparr>env := w\<rparr>)) = log @ [OnRegState 0 (-1) 503 ''Failed'']"
proof -
  obtain w where w: "run_state (regc_cb_update demo_hw (\<lambda>_. ret 0) 0 demo_failure) demo_var = (CallOnRegState, w)"
    using failure_run [OF demo_failing] by blast
  have "acc_ok (env demo_shim)" "a_regc (accounts (env demo_shim) ! 0) = Some (rp_regc demo_failure)"
    "run_state (regc_cb_update demo_hw (\<lambda>_. ret 0) 0 demo_failure) (env demo_shim) = (CallOnRegState, w)"
    using demo_acc_ok(1) demo_failing(3) w by simp_all
  note told = reg_result_reported [OF this(1) _ this(2) _ demo_failing(9) demo_shim_fields(9) this(3), of demo_base]
  let ?E = "case a_regc (accounts w ! 0) of None \<Rightarrow> -1 | Some r \<Rightarrow> sint (hw_regc_next_reg demo_hw r (ext w))"
  have "\<exists>log. trace (exec (on_reg_state demo_pjsua (int 0)) (demo_shim\<lparr>env := w\<rparr>)) = trace demo_shim @ log
      @ [OnRegState (int 0) ?E (rp_code demo_failure) (take 127 (hw_status_text demo_hw (rp_code demo_failure)))]"
    "?E = -1"
    using told demo_failing(4) by (auto simp: Let_def demo_failure_def)
  then show ?thesis by (auto simp: demo_failure_def demo_hw_def demo_shim_fields)
qed

lemma retries_stable:
  "regc_stable i (\<lambda>v. i < length (accounts v) \<and> a_valid (accounts v ! i) \<and> ac_reg_retry_interval (a_cfg (accounts v ! i)) \<noteq> 0)"
  by (auto simp: regc_stable_def stable_def gentle_def put_acc_nth)

text \<open>
  C27. When the retry timer of an account fires, either a REGISTER has been accepted for
  sending at the end, or the timer runs again: the account does not stop trying by itself.
\<close>

theorem retry_goes_on:
  assumes "i < length (accounts v)" "a_valid (accounts v ! i)" "a_rereg_active (accounts v ! i)"
    and "ac_reg_retry_interval (a_cfg (accounts v ! i)) \<noteq> 0" "timers_start H" "\<forall>k. keeps accounts (hangup k)"
  shows "let w = exec (auto_rereg_timer_cb H hangup i) v in
    retry_armed i w \<or> (\<exists>u. run_state (pjsua_acc_set_registration H (int i) True) u = (PJ_SUCCESS, w))"
proof -
  let ?R = "\<lambda>v. i < length (accounts v) \<and> a_valid (accounts v ! i) \<and> ac_reg_retry_interval (a_cfg (accounts v ! i)) \<noteq> 0"
  note s = regc_stable_stable [OF retries_stable]
  have arm: "retry_armed i (exec (schedule_reregistration H hangup i) x)" if "?R x" for x
    using that assms(5,6) by (intro schedule_arms) auto
  define m where "m = (if a_rfc5626_status (accounts v ! i) \<noteq> OUTBOUND_ACTIVE \<and> \<not> a_contact_rewritten (accounts v ! i)
    then refresh_contact H i else ret True)"
  let ?x = "put_acc i (\<lambda>a. a\<lparr>a_rereg_attempt_cnt := a_rereg_attempt_cnt a + 1\<rparr>) v"
  obtain ok y where y: "run_state m ?x = (ok, y)" by (cases "run_state m ?x") (rule that)
  obtain st z where z: "run_state (pjsua_acc_set_registration H (int i) True) y = (st, z)" by (metis surj_pair)
  have run: "exec (auto_rereg_timer_cb H hangup i) v =
      (if \<not> ok then exec (schedule_reregistration H hangup i) y
       else if st \<noteq> PJ_SUCCESS then exec (schedule_reregistration H hangup i) z else z)"
    using assms(2-4) y z by (simp add: auto_rereg_timer_cb_def m_def [symmetric])
  have Rx: "?R ?x" using assms(1,2,4) by (simp add: put_acc_nth)
  have "pres ?R m" unfolding m_def by (intro pres_intro pres_refresh_contact s)
  from presD [OF this, of ?x] Rx y have Ry: "?R y" by simp
  from presD [OF pres_set_registration [OF retries_stable] Ry, of H True] z have Rz: "?R z" by simp
  show ?thesis using arm [OF Ry] arm [OF Rz] z unfolding run Let_def by (cases ok; cases "st = PJ_SUCCESS") auto
qed

theorem retry_goes_on_witness:
  "let v = put_acc 0 (\<lambda>a. a\<lparr>a_rereg_active := True\<rparr>) demo_var; w = exec (auto_rereg_timer_cb demo_hw (\<lambda>_. ret 0) 0) v in
    retry_armed 0 w \<or> (\<exists>u. run_state (pjsua_acc_set_registration demo_hw (int 0) True) u = (PJ_SUCCESS, w))"
proof -
  let ?v = "put_acc 0 (\<lambda>a. a\<lparr>a_rereg_active := True\<rparr>) demo_var"
  have v: "0 < length (accounts ?v)" "a_valid (accounts ?v ! 0)" "a_rereg_active (accounts ?v ! 0)"
      "ac_reg_retry_interval (a_cfg (accounts ?v ! 0)) \<noteq> 0"
    using demo_failing(1,2,6) by (simp_all add: put_acc_nth)
  from retry_goes_on [OF v demo_failing(8,9)] show ?thesis by (simp only: Let_def)
qed

end
