(* ===== verification/Pjsua_Sig.thy ===== *)
theory Pjsua_Sig
  imports Pjsua_Snd Pjsua_Calls Pjsua_Reg
begin

text \<open>
  The life of a call in pjsua (pjsua_call.c): its slot in the call table, what INVITE sessions report
  to pjsua, and hanging up. Below are the dialogs and INVITE sessions of pjsip and the media channels of
  pjsua, which are a parameter.
\<close>

section \<open>Sessions and media channels\<close>

text \<open>
  The event of a change of state: of a transaction, with its status code, or another. A session reports
  its changes of state with its cause code, and the end of a negotiation.
\<close>

datatype tsx_event = TsxState int | OtherEvent

datatype inv_notice = StateChanged inv_state tsx_event int | MediaUpdate pj_status

datatype inv_msg = MsgInvite | MsgResponse int | MsgReinvite | MsgUpdate

text \<open>
  How \<^verbatim>\<open>pjsua_media_channel_init\<close> ends, with a status and a SIP error code: in an error before or after
  it stores the callback, with transports still being created, or with all of them created.
\<close>

datatype med_outcome = MedEarly pj_status int | MedLate pj_status int | MedPending | MedDone pj_status int

text \<open>
  The first argument of most functions is the call. \<open>sp_dialog_id\<close> is the call id of its dialog with the remote and
  the local tag, \<open>sp_remote_uri\<close> prints the remote URI, if it fits. \<open>sp_send\<close> and \<open>sp_answer\<close> give what the session reports
  before they return, in order. \<open>sp_end\<close> is \<^verbatim>\<open>pjsip_inv_end_session\<close> (is there a message to send?), \<open>sp_send_end\<close>
  sends that message; all that the session can report meanwhile is that it is disconnected.
  \<open>sp_verify\<close> checks a request against an answer and gives the code of the response
  it creates on an error. \<open>sp_terminate\<close> gives the event and the cause of the final change of state.
\<close>

record 'x sip =
  sp_transport_param :: "sip_uri \<Rightarrow> string"
  sp_create_uac :: "nat \<Rightarrow> int \<Rightarrow> string \<Rightarrow> string \<Rightarrow> 'x \<Rightarrow> pj_status \<times> 'x"
  sp_inv_uac :: "nat \<Rightarrow> 'x \<Rightarrow> pj_status \<times> 'x"
  sp_uas_contact :: "int \<Rightarrow> 'x \<Rightarrow> pj_status \<times> string"
  sp_create_uas :: "nat \<Rightarrow> string \<Rightarrow> 'x \<Rightarrow> pj_status \<times> 'x"
  sp_inv_uas :: "nat \<Rightarrow> 'x \<Rightarrow> pj_status \<times> 'x"
  sp_timer_init :: "nat \<Rightarrow> 'x \<Rightarrow> pj_status \<times> 'x"
  sp_invite :: "nat \<Rightarrow> 'x \<Rightarrow> pj_status \<times> 'x"
  sp_initial_answer :: "nat \<Rightarrow> 'x \<Rightarrow> (pj_status \<times> int option) \<times> 'x"
  sp_respond :: "int \<Rightarrow> 'x \<Rightarrow> 'x"
  sp_send :: "nat \<Rightarrow> inv_msg \<Rightarrow> 'x \<Rightarrow> (pj_status \<times> inv_notice list) \<times> 'x"
  sp_answer :: "nat \<Rightarrow> int \<Rightarrow> 'x \<Rightarrow> (pj_status \<times> inv_notice list) \<times> 'x"
  sp_end :: "nat \<Rightarrow> int \<Rightarrow> 'x \<Rightarrow> (pj_status \<times> bool) \<times> 'x"
  sp_send_end :: "nat \<Rightarrow> 'x \<Rightarrow> (pj_status \<times> (tsx_event \<times> int) option) \<times> 'x"
  sp_terminate :: "nat \<Rightarrow> int \<Rightarrow> 'x \<Rightarrow> (tsx_event \<times> int) \<times> 'x"
  sp_reinvite :: "nat \<Rightarrow> sdp_session option \<Rightarrow> 'x \<Rightarrow> pj_status \<times> 'x"
  sp_update :: "nat \<Rightarrow> sdp_session option \<Rightarrow> 'x \<Rightarrow> pj_status \<times> 'x"
  sp_has_offer :: "nat \<Rightarrow> 'x \<Rightarrow> bool"
  sp_temp_sdp :: "nat \<Rightarrow> 'x \<Rightarrow> pj_status \<times> 'x"
  sp_verify :: "nat \<Rightarrow> 'x \<Rightarrow> (pj_status \<times> int) \<times> 'x"
  sp_set_local_sdp :: "nat \<Rightarrow> sdp_session \<Rightarrow> 'x \<Rightarrow> pj_status \<times> 'x"
  sp_can_answer :: "nat \<Rightarrow> 'x \<Rightarrow> bool"
  sp_last_answer :: "nat \<Rightarrow> 'x \<Rightarrow> bool"
  sp_neg_idle :: "nat \<Rightarrow> 'x \<Rightarrow> bool"
  sp_has_pool :: "nat \<Rightarrow> 'x \<Rightarrow> bool"
  sp_update_contact :: "nat \<Rightarrow> 'x \<Rightarrow> 'x"
  sp_update_via :: "nat \<Rightarrow> 'x \<Rightarrow> 'x"
  sp_xfer_create :: "nat \<Rightarrow> 'x \<Rightarrow> pj_status \<times> 'x"
  sp_xfer_initiate :: "nat \<Rightarrow> string \<Rightarrow> 'x \<Rightarrow> pj_status \<times> 'x"
  sp_xfer_send :: "nat \<Rightarrow> 'x \<Rightarrow> pj_status \<times> 'x"
  sp_xfer_notify :: "nat \<Rightarrow> bool \<Rightarrow> int \<Rightarrow> 'x \<Rightarrow> 'x"
  sp_remote_uri :: "nat \<Rightarrow> 'x \<Rightarrow> string option"
  sp_remote_info :: "nat \<Rightarrow> 'x \<Rightarrow> string"
  sp_dialog_id :: "nat \<Rightarrow> 'x \<Rightarrow> string \<times> string \<times> string"
  sp_escape_id :: "string \<Rightarrow> string option"
  sp_dial_dtmf :: "nat \<Rightarrow> string \<Rightarrow> 'x \<Rightarrow> pj_status \<times> 'x"
  sp_info :: "nat \<Rightarrow> string \<Rightarrow> 'x \<Rightarrow> pj_status \<times> 'x"
  sp_med_init :: "nat \<Rightarrow> bool \<Rightarrow> ('x, med_outcome) pv_m"
  sp_med_deinit :: "nat \<Rightarrow> ('x, unit) pv_m"
  sp_med_sdp :: "nat \<Rightarrow> ('x, (pj_status \<times> int) \<times> sdp_session) pv_m"
  sp_med_update :: "nat \<Rightarrow> ('x, pj_status) pv_m"
  sp_med_revert :: "nat \<Rightarrow> ('x, unit) pv_m"

section \<open>The call table\<close>

definition get_call :: "nat \<Rightarrow> ('x, pjsua_call) pv_m" where
  "get_call i = gets (\<lambda>v. calls v ! i)"

definition upd_call :: "nat \<Rightarrow> (pjsua_call \<Rightarrow> pjsua_call) \<Rightarrow> ('x, unit) pv_m" where
  "upd_call i f = modify (\<lambda>v. v\<lparr>calls := (calls v)[i := f (calls v ! i)]\<rparr>)"

definition tell_app :: "app_event \<Rightarrow> ('x, unit) pv_m" where
  "tell_app e = modify (\<lambda>v. v\<lparr>app_log := app_log v @ [e]\<rparr>)"

definition reset_call :: "nat \<Rightarrow> ('x, unit) pv_m" where
  "reset_call i = upd_call i (\<lambda>_. blank_call)"

definition call_free :: "pjsua_call \<Rightarrow> bool" where
  "call_free c \<longleftrightarrow> call_inv c = None \<and> \<not> call_async_dlg c"

text \<open>One of the two search loops: the first free slot of \<open>n\<close> slots from \<open>i\<close>.\<close>

fun first_free :: "pjsua_call list \<Rightarrow> nat \<Rightarrow> nat \<Rightarrow> nat option" where
  "first_free cs i 0 = None"
| "first_free cs i (Suc n) = (if call_free (cs ! i) then Some i else first_free cs (Suc i) n)"

definition alloc_call_id :: "('x, int) pv_m" where
  "alloc_call_id = do {
     modify (\<lambda>v. if next_call_id v \<ge> int (length (calls v)) \<or> next_call_id v < 0 then v\<lparr>next_call_id := 0\<rparr> else v);
     cid \<leftarrow> gets (\<lambda>v. let next = nat (next_call_id v)
                       in case first_free (calls v) next (length (calls v) - next) of
                            Some i \<Rightarrow> Some i
                          | None \<Rightarrow> first_free (calls v) 0 next);
     case cid of
       None \<Rightarrow> ret PJSUA_INVALID_ID
     | Some i \<Rightarrow> do { modify (\<lambda>v. v\<lparr>next_call_id := next_call_id v + 1\<rparr>); ret (int i) }
   }"

text \<open>\<^verbatim>\<open>acquire_call\<close>: whether there is a dialog to lock; the locks themselves are always had.\<close>

definition acquire_call :: "nat \<Rightarrow> ('x, pj_status) pv_m" where
  "acquire_call i = do {
     c \<leftarrow> get_call i;
     ret (if call_free c then PJSIP_ESESSIONTERMINATED else PJ_SUCCESS)
   }"

definition get_secure_level :: "'x sip \<Rightarrow> pjsua_acc \<Rightarrow> string \<Rightarrow> int" where
  "get_secure_level U a dst_uri =
     (if stristr dst_uri ''sips:'' then 2
      else case a_route_set a of
             r # _ \<Rightarrow> if same_nocase (sp_transport_param U r) ''tls'' then 1 else 0
           | [] \<Rightarrow> if stristr dst_uri '';transport=tls'' then 1 else 0)"

section \<open>Media channels\<close>

definition media_channel_init :: "'x sip \<Rightarrow> nat \<Rightarrow> bool \<Rightarrow> med_cb option \<Rightarrow> ('x, pj_status \<times> int) pv_m" where
  "media_channel_init U i uas cb = do {
     r \<leftarrow> sp_med_init U i uas;
     case r of
       MedEarly st err \<Rightarrow> ret (st, err)
     | MedLate st err \<Rightarrow> do { only_if (cb \<noteq> None) (upd_call i (\<lambda>c. c\<lparr>med_ch_cb := cb\<rparr>)); ret (st, err) }
     | MedPending \<Rightarrow> do { only_if (cb \<noteq> None) (upd_call i (\<lambda>c. c\<lparr>med_ch_cb := cb\<rparr>)); ret (PJ_EPENDING, 0) }
     | MedDone st err \<Rightarrow> do { upd_call i (\<lambda>c. c\<lparr>med_ch_cb := None\<rparr>); ret (st, err) }
   }"

definition apply_call_setting :: "'x sip \<Rightarrow> nat \<Rightarrow> call_setting option \<Rightarrow> ('x, pj_status) pv_m" where
  "apply_call_setting U i opt = do {
     upd_call i (\<lambda>c. c\<lparr>call_opt := (case opt of None \<Rightarrow> pjsua_call_cleanup_flag (call_opt c) | Some s \<Rightarrow> s)\<rparr>);
     c \<leftarrow> get_call i;
     only_if (has_flag (opt_flag (call_opt c)) CALL_FLAG_REINIT_MEDIA) (sp_med_deinit U i);
     c \<leftarrow> get_call i;
     if call_inv c \<noteq> None \<and>
        (call_inv c = Some INV_CONNECTING \<and> med_cnt c = 0 \<or> call_inv c = Some INV_CONFIRMED
         \<or> has_flag (opt_flag (call_opt c)) CALL_FLAG_REINIT_MEDIA)
     then do { (st, _) \<leftarrow> media_channel_init U i False None; ret st }
     else ret PJ_SUCCESS
   }"

section \<open>Reports of a session\<close>

definition call_timer :: "'x hw \<Rightarrow> pj_timer \<Rightarrow> nat \<Rightarrow> ('x, unit) pv_m" where
  "call_timer H t ms = do {
     _ \<leftarrow> on_ext (hw_schedule_timer H t (pj_time_val_normalize \<lparr>tv_sec = 0, tv_msec = int ms\<rparr>));
     ret ()
   }"

definition stop_reinv_timer :: "'x hw \<Rightarrow> nat \<Rightarrow> ('x, unit) pv_m" where
  "stop_reinv_timer H i = do {
     c \<leftarrow> get_call i;
     only_if (reinv_timer c) (do {
       upd_ext (hw_cancel_timer H (ReinviteTimer i));
       upd_call i (\<lambda>c. c\<lparr>reinv_timer := False\<rparr>)
     })
   }"

definition pjsua_call_schedule_reinvite_check :: "'x hw \<Rightarrow> nat \<Rightarrow> nat \<Rightarrow> ('x, unit) pv_m" where
  "pjsua_call_schedule_reinvite_check H i delay_ms = do {
     c \<leftarrow> get_call i;
     only_if (reinv_timer c) (upd_ext (hw_cancel_timer H (ReinviteTimer i)));
     upd_call i (\<lambda>c. c\<lparr>reinv_timer := True\<rparr>);
     call_timer H (ReinviteTimer i) delay_ms
   }"

text \<open>
  The end of \<^verbatim>\<open>pjsua_call_on_state_changed\<close>: the NOTIFY of a call that a transfer made, the media, the
  application, and the slot.
\<close>

definition notify_transferer :: "'x sip \<Rightarrow> nat \<Rightarrow> inv_state \<Rightarrow> tsx_event \<Rightarrow> ('x, unit) pv_m" where
  "notify_transferer U i st ev = do {
     c \<leftarrow> get_call i;
     case ev of
       OtherEvent \<Rightarrow> ret ()
     | TsxState code \<Rightarrow>
         only_if (xfer_sub c \<and> (st = INV_EARLY \<or> st = INV_CONNECTING \<or> st = INV_DISCONNECTED))
           (upd_ext (sp_xfer_notify U i (st \<noteq> INV_EARLY) code))
   }"

definition free_call :: "nat \<Rightarrow> ('x, unit) pv_m" where
  "free_call i = do {
     modify (\<lambda>v. v\<lparr>call_cnt := call_cnt v - 1\<rparr>);
     reset_call i;
     pjsua_check_snd_dev_idle
   }"

definition tell_state :: "nat \<Rightarrow> ('x, unit) pv_m" where
  "tell_state i = do {
     c \<leftarrow> get_call i;
     only_if (\<not> hanging_up c) (tell_app (AppCallState (int i) (call_info_state c)))
   }"

definition finish_state_change :: "'x sip \<Rightarrow> nat \<Rightarrow> inv_state \<Rightarrow> tsx_event \<Rightarrow> ('x, unit) pv_m" where
  "finish_state_change U i st ev = do {
     notify_transferer U i st ev;
     c \<leftarrow> get_call i;
     only_if (st = INV_DISCONNECTED \<and> \<not> hanging_up c) (sp_med_deinit U i);
     tell_state i;
     only_if (st = INV_DISCONNECTED) (free_call i)
   }"

definition on_disconnected :: "'x hw \<Rightarrow> 'x sip \<Rightarrow> nat \<Rightarrow> tsx_event \<Rightarrow> ('x, unit) pv_m" where
  "on_disconnected H U i ev = do {
     c \<leftarrow> get_call i;
     only_if (call_attached c) (do {
       upd_call i (\<lambda>c. c\<lparr>last_code :=
         (case ev of TsxState code \<Rightarrow> if code > last_code c then code else 487 | OtherEvent \<Rightarrow> 487)\<rparr>);
       stop_reinv_timer H i;
       finish_state_change U i INV_DISCONNECTED ev
     })
   }"

text \<open>A session that the call has let go of (\<^verbatim>\<open>call->inv\<close> is NULL) is destroyed and reports nothing.\<close>

definition in_session :: "nat \<Rightarrow> ('x, unit) pv_m \<Rightarrow> ('x, unit) pv_m" where
  "in_session i m = do { c \<leftarrow> get_call i; only_if (call_inv c \<noteq> None) m }"

definition session_disconnected :: "'x hw \<Rightarrow> 'x sip \<Rightarrow> nat \<Rightarrow> bool \<Rightarrow> tsx_event \<times> int \<Rightarrow> ('x, unit) pv_m" where
  "session_disconnected H U i notify d = in_session i (do {
     upd_call i (\<lambda>c. c\<lparr>call_inv := Some INV_DISCONNECTED, call_inv_cause := snd d\<rparr>);
     only_if notify (on_disconnected H U i (fst d))
   })"

text \<open>\<^verbatim>\<open>pjsip_inv_terminate\<close>, which reports only if \<open>notify\<close>.\<close>

definition inv_terminate :: "'x hw \<Rightarrow> 'x sip \<Rightarrow> nat \<Rightarrow> int \<Rightarrow> bool \<Rightarrow> ('x, unit) pv_m" where
  "inv_terminate H U i code notify = do {
     d \<leftarrow> on_ext (sp_terminate U i code);
     c \<leftarrow> get_call i;
     only_if (call_inv c \<noteq> Some INV_DISCONNECTED) (session_disconnected H U i notify d)
   }"

section \<open>Ending a session\<close>

definition hangup_status :: "int \<Rightarrow> pjsua_call \<Rightarrow> int" where
  "hangup_status code c =
     (if code \<noteq> 0 then code
      else if call_inv c = Some INV_CONFIRMED then 200
      else if call_inv c \<noteq> None \<and> call_role_uas c then 603
      else 487)"

abbreviation CALL_HANGUP_RETRY_INTERVAL :: nat where "CALL_HANGUP_RETRY_INTERVAL \<equiv> 5000"
abbreviation CALL_HANGUP_MAX_RETRY :: u32 where "CALL_HANGUP_MAX_RETRY \<equiv> 4"

definition send_end :: "'x hw \<Rightarrow> 'x sip \<Rightarrow> nat \<Rightarrow> int \<Rightarrow> ('x, pj_status) pv_m" where
  "send_end H U i code = do {
     (st, msg) \<leftarrow> on_ext (sp_end U i code);
     if st \<noteq> PJ_SUCCESS \<or> \<not> msg then ret st
     else do {
       (st, d) \<leftarrow> on_ext (sp_send_end U i);
       (case d of None \<Rightarrow> ret () | Some d \<Rightarrow> session_disconnected H U i True d);
       ret st
     }
   }"

text \<open>What follows a failed attempt: another one after five seconds, four times, or the end of the session.\<close>

definition retry_end :: "'x hw \<Rightarrow> 'x sip \<Rightarrow> nat \<Rightarrow> int \<Rightarrow> ('x, unit) pv_m" where
  "retry_end H U i code = do {
     c \<leftarrow> get_call i;
     if hangup_retry c \<ge> CALL_HANGUP_MAX_RETRY then inv_terminate H U i (hangup_code c) True
     else do {
       only_if (hangup_retry c = 0) (upd_call i (\<lambda>c. c\<lparr>hangup_code := code\<rparr>));
       upd_call i (\<lambda>c. c\<lparr>hangup_timer := True\<rparr>);
       call_timer H (HangupTimer i) CALL_HANGUP_RETRY_INTERVAL;
       upd_call i (\<lambda>c. c\<lparr>hangup_retry := hangup_retry c + 1\<rparr>)
     }
   }"

text \<open>The callers make sure that there is a session.\<close>

definition call_inv_end_session :: "'x hw \<Rightarrow> 'x sip \<Rightarrow> nat \<Rightarrow> int \<Rightarrow> ('x, unit) pv_m" where
  "call_inv_end_session H U i code0 = do {
     c \<leftarrow> get_call i;
     let code = hangup_status code0 c;
     only_if (hangup_timer c) (do {
       upd_ext (hw_cancel_timer H (HangupTimer i));
       upd_call i (\<lambda>c. c\<lparr>hangup_timer := False\<rparr>)
     });
     st \<leftarrow> send_end H U i code;
     c \<leftarrow> get_call i;
     only_if (st \<noteq> PJ_SUCCESS \<and> call_inv c \<noteq> None) (retry_end H U i code)
   }"

text \<open>
  \<^verbatim>\<open>hangup_timer_cb\<close>. The result is \<open>None\<close> where it uses the NULL session of a call that has only a
  dialog.
\<close>

definition hangup_timer_cb :: "'x hw \<Rightarrow> 'x sip \<Rightarrow> nat \<Rightarrow> ('x, unit option) pv_m" where
  "hangup_timer_cb H U i = do {
     st \<leftarrow> acquire_call i;
     if st \<noteq> PJ_SUCCESS then ret (Some ())
     else do {
       upd_call i (\<lambda>c. c\<lparr>hangup_timer := False\<rparr>);
       c \<leftarrow> get_call i;
       if call_inv c = None then ret None
       else do { call_inv_end_session H U i (hangup_code c); ret (Some ()) }
     }
   }"

section \<open>Hanging up\<close>

definition pjsua_call_hangup :: "'x hw \<Rightarrow> 'x sip \<Rightarrow> int \<Rightarrow> int \<Rightarrow> ('x, pj_status) pv_m" where
  "pjsua_call_hangup H U call_id code0 = do {
     valid \<leftarrow> gets (valid_call_id call_id);
     if \<not> valid then ret PJ_EINVAL
     else do {
       let i = nat call_id;
       st \<leftarrow> acquire_call i;
       c \<leftarrow> get_call i;
       if st \<noteq> PJ_SUCCESS then ret st
       else if hanging_up c then ret st
       else do {
         let code = hangup_status code0 c;
         upd_call i (\<lambda>c. c\<lparr>last_code := code\<rparr>);
         stop_reinv_timer H i;
         let delay_hangup = (med_ch_cb c \<noteq> None \<and> call_inv c = None \<or> call_inv c = Some INV_NULL);
         (if delay_hangup
          then upd_call i (\<lambda>c. if call_inv c \<noteq> None \<and> call_role_uas c
                               then c\<lparr>inc_hangup := True, hanging_up := True\<rparr>
                               else c\<lparr>out_hangup := True, hanging_up := True\<rparr>)
          else do {
            sp_med_deinit U i;
            upd_call i (\<lambda>c. c\<lparr>hanging_up := True\<rparr>);
            pjsua_check_snd_dev_idle
          });
         c \<leftarrow> get_call i;
         tell_app (AppCallState (int i) (call_info_state c));
         c \<leftarrow> get_call i;
         only_if (call_inv c \<noteq> None \<and> \<not> delay_hangup) (call_inv_end_session H U i code);
         ret st
       }
     }
   }"

definition pjsua_call_hangup_all :: "'x hw \<Rightarrow> 'x sip \<Rightarrow> ('x, unit) pv_m" where
  "pjsua_call_hangup_all H U = do {
     n \<leftarrow> gets (\<lambda>v. length (calls v));
     for_each [0..<n] (\<lambda>i. do {
       c \<leftarrow> get_call i;
       only_if (call_inv c \<noteq> None) (do { _ \<leftarrow> pjsua_call_hangup H U (int i) 0; ret () })
     })
   }"

definition process_pending_call_hangup :: "'x hw \<Rightarrow> 'x sip \<Rightarrow> nat \<Rightarrow> ('x, pj_status) pv_m" where
  "process_pending_call_hangup H U i = do {
     st \<leftarrow> acquire_call i;
     if st \<noteq> PJ_SUCCESS then ret st
     else do {
       sp_med_deinit U i;
       pjsua_check_snd_dev_idle;
       c \<leftarrow> get_call i;
       only_if (call_inv c \<noteq> None) (call_inv_end_session H U i (last_code c));
       ret st
     }
   }"

section \<open>Changes of state and negotiations\<close>

definition pjsua_call_on_state_changed ::
  "'x hw \<Rightarrow> 'x sip \<Rightarrow> nat \<Rightarrow> inv_state \<Rightarrow> tsx_event \<Rightarrow> ('x, unit) pv_m" where
  "pjsua_call_on_state_changed H U i st ev = do {
     c \<leftarrow> get_call i;
     if \<not> call_attached c then ret ()
     else if st = INV_DISCONNECTED then on_disconnected H U i ev
     else if st = INV_CONFIRMED \<and> hanging_up c then call_inv_end_session H U i 200
     else do {
       (if st = INV_CONFIRMED then
          only_if (reinv_pending c) (do {
            upd_call i (\<lambda>c. c\<lparr>reinv_pending := False\<rparr>);
            pjsua_call_schedule_reinvite_check H i 0
          })
        else upd_call i (\<lambda>c. c\<lparr>last_code := (case ev of TsxState code \<Rightarrow> code | OtherEvent \<Rightarrow> last_code c)\<rparr>));
       finish_state_change U i st ev
     }
   }"

definition call_disconnect :: "'x hw \<Rightarrow> 'x sip \<Rightarrow> nat \<Rightarrow> int \<Rightarrow> ('x, unit) pv_m" where
  "call_disconnect H U i code = do { _ \<leftarrow> send_end H U i code; ret () }"

definition tell_media_state :: "nat \<Rightarrow> ('x, unit) pv_m" where
  "tell_media_state i = do { c \<leftarrow> get_call i; only_if (\<not> hanging_up c) (tell_app (AppCallMediaState (int i))) }"

definition pjsua_call_on_media_update :: "'x hw \<Rightarrow> 'x sip \<Rightarrow> nat \<Rightarrow> pj_status \<Rightarrow> ('x, unit) pv_m" where
  "pjsua_call_on_media_update H U i status = do {
     c \<leftarrow> get_call i;
     if hanging_up c then ret ()
     else if status \<noteq> PJ_SUCCESS then do {
       sp_med_revert U i;
       c \<leftarrow> get_call i;
       only_if (call_inv c \<noteq> Some INV_NULL \<and> call_inv c \<noteq> Some INV_EARLY \<and> call_inv c \<noteq> Some INV_CONFIRMED
                \<or> call_inv c = Some INV_EARLY \<and> med_cnt c = 0)
         (call_disconnect H U i 415)
     }
     else do {
       upd_call i (\<lambda>c. c\<lparr>med_update_success := True\<rparr>);
       st \<leftarrow> sp_med_update U i;
       c \<leftarrow> get_call i;
       if st \<noteq> PJ_SUCCESS \<and> \<not> (st = PJMEDIA_SDPNEG_ENOMEDIA \<and> call_inv c = Some INV_CONFIRMED)
       then call_disconnect H U i 488
       else do {
         pjsua_call_schedule_reinvite_check H i 0;
         tell_media_state i
       }
     }
   }"

definition deliver :: "'x hw \<Rightarrow> 'x sip \<Rightarrow> nat \<Rightarrow> inv_notice \<Rightarrow> ('x, unit) pv_m" where
  "deliver H U i n = in_session i
     (case n of
        StateChanged st ev cause \<Rightarrow> do {
          upd_call i (\<lambda>c. c\<lparr>call_inv := Some st, call_inv_cause := cause\<rparr>);
          pjsua_call_on_state_changed H U i st ev
        }
      | MediaUpdate status \<Rightarrow> pjsua_call_on_media_update H U i status)"

definition inv_send_msg :: "'x hw \<Rightarrow> 'x sip \<Rightarrow> nat \<Rightarrow> inv_msg \<Rightarrow> ('x, pj_status) pv_m" where
  "inv_send_msg H U i m = do {
     (st, ns) \<leftarrow> on_ext (sp_send U i m);
     for_each ns (deliver H U i);
     ret st
   }"

definition inv_answer :: "'x hw \<Rightarrow> 'x sip \<Rightarrow> nat \<Rightarrow> int \<Rightarrow> ('x, pj_status) pv_m" where
  "inv_answer H U i code = do {
     (st, ns) \<leftarrow> on_ext (sp_answer U i code);
     for_each ns (deliver H U i);
     ret st
   }"

end
