(* ===== verification/Pjsua_Dial.thy ===== *)
theory Pjsua_Dial
  imports Pjsua_Sig Pjsua_Acc
begin

text \<open>
  Setting up calls (pjsua_call.c): outgoing calls, incoming calls and their rejection, answers, and
  the queue of answers that wait for the media.
\<close>

section \<open>Outgoing calls\<close>

text \<open>
  \<^verbatim>\<open>on_error\<close> of \<^verbatim>\<open>on_make_call_med_tp_complete\<close>: \<open>session\<close> is whether the local variable \<^verbatim>\<open>inv\<close> is set,
  \<open>cb_called\<close> whether the application knows already. The argument \<open>info\<close> of the callbacks below is the status
  and the SIP error code of an asynchronous media set-up.
\<close>

definition make_call_failed :: "'x hw \<Rightarrow> 'x sip \<Rightarrow> nat \<Rightarrow> bool \<Rightarrow> bool \<Rightarrow> ('x, unit) pv_m" where
  "make_call_failed H U i session cb_called = do {
     only_if (\<not> session \<and> \<not> cb_called) (tell_state i);
     upd_call i (\<lambda>c. c\<lparr>call_async_dlg := False\<rparr>);
     only_if session (do { inv_terminate H U i 200 False; upd_call i (\<lambda>c. c\<lparr>call_inv := None\<rparr>) });
     sp_med_deinit U i;
     reset_call i;
     pjsua_check_snd_dev_idle
   }"

definition send_initial_invite :: "'x hw \<Rightarrow> 'x sip \<Rightarrow> nat \<Rightarrow> ('x, pj_status) pv_m" where
  "send_initial_invite H U i = do {
     upd_call i (\<lambda>c. c\<lparr>call_inv := Some INV_NULL, call_inv_cause := 0, call_role_uas := False, call_attached := True\<rparr>);
     st \<leftarrow> on_ext (sp_invite U i);
     if st \<noteq> PJ_SUCCESS then do { make_call_failed H U i True False; ret st }
     else do {
       modify (\<lambda>v. v\<lparr>call_cnt := call_cnt v + 1\<rparr>);
       st \<leftarrow> inv_send_msg H U i MsgInvite;
       if st \<noteq> PJ_SUCCESS then do {
         upd_call i (\<lambda>c. c\<lparr>call_inv := None\<rparr>);
         make_call_failed H U i False True;
         ret st
       } else do {
         upd_call i (\<lambda>c. c\<lparr>med_ch_cb := None\<rparr>);
         ret PJ_SUCCESS
       }
     }
   }"

definition on_make_call_med_tp_complete ::
  "'x hw \<Rightarrow> 'x sip \<Rightarrow> nat \<Rightarrow> (pj_status \<times> int) option \<Rightarrow> ('x, pj_status) pv_m" where
  "on_make_call_med_tp_complete H U i info = do {
     let status = (case info of None \<Rightarrow> PJ_SUCCESS | Some (st, _) \<Rightarrow> st);
     c \<leftarrow> get_call i;
     if status \<noteq> PJ_SUCCESS then do {
       upd_call i (\<lambda>c. c\<lparr>last_code := 480\<rparr>);
       make_call_failed H U i False False;
       ret status
     }
     else if med_ch_deinit c \<or> out_hangup c then do { make_call_failed H U i False False; ret status }
     else do {
       st \<leftarrow> (if has_flag (opt_flag (call_opt c)) CALL_FLAG_NO_SDP_OFFER then ret PJ_SUCCESS
             else do { ((st, _), _) \<leftarrow> sp_med_sdp U i; ret st });
       if st \<noteq> PJ_SUCCESS then do { make_call_failed H U i False False; ret st }
       else do {
         st \<leftarrow> on_ext (sp_inv_uac U i);
         if st \<noteq> PJ_SUCCESS then do { make_call_failed H U i False False; ret st }
         else do {
           st \<leftarrow> on_ext (sp_timer_init U i);
           if st \<noteq> PJ_SUCCESS then do { make_call_failed H U i True False; ret st }
           else send_initial_invite H U i
         }
       }
     }
   }"

text \<open>The error exit of \<^verbatim>\<open>pjsua_call_make_call\<close> once the call has a slot.\<close>

definition make_call_error :: "'x sip \<Rightarrow> nat \<Rightarrow> pj_status \<Rightarrow> ('x, pj_status \<times> int) pv_m" where
  "make_call_error U i st = do {
     upd_call i (\<lambda>c. c\<lparr>call_async_dlg := False\<rparr>);
     sp_med_deinit U i;
     reset_call i;
     pjsua_check_snd_dev_idle;
     ret (st, PJSUA_INVALID_ID)
   }"

text \<open>From the new slot to the dialog: a status.\<close>

definition open_snd_for_call :: "'x hw \<Rightarrow> nat \<Rightarrow> ('x, pj_status) pv_m" where
  "open_snd_for_call H i = do {
     c \<leftarrow> get_call i;
     v \<leftarrow> gets (\<lambda>v. v);
     if \<not> snd_port v \<and> \<not> null_snd v \<and> \<not> no_snd v \<and> opt_aud_cnt (call_opt c) > 0
     then pjsua_set_snd_dev H (cap_dev v) (play_dev v) else ret PJ_SUCCESS
   }"

definition create_call_dialog :: "'x hw \<Rightarrow> 'x sip \<Rightarrow> nat \<Rightarrow> int \<Rightarrow> string \<Rightarrow> ('x, pj_status) pv_m" where
  "create_call_dialog H U i acc_id dest_uri = do {
     a \<leftarrow> get_acc (nat acc_id);
     if hw_parse_uri H dest_uri = None then ret PJSIP_EINVALIDREQURI
     else do {
       (st, contact) \<leftarrow> (if a_contact a \<noteq> [] then ret (PJ_SUCCESS, a_contact a)
                         else gets (\<lambda>v. hw_uac_contact H acc_id dest_uri (ext v)));
       if st \<noteq> PJ_SUCCESS then ret st
       else do {
         st \<leftarrow> on_ext (sp_create_uac U i acc_id contact dest_uri);
         if st \<noteq> PJ_SUCCESS then ret st
         else do {
           upd_call i (\<lambda>c. c\<lparr>secure_level := get_secure_level U a dest_uri, call_async_dlg := True\<rparr>);
           ret PJ_SUCCESS
         }
       }
     }
   }"

definition prepare_call ::
  "'x hw \<Rightarrow> 'x sip \<Rightarrow> nat \<Rightarrow> int \<Rightarrow> string \<Rightarrow> call_setting option \<Rightarrow> ('x, pj_status) pv_m" where
  "prepare_call H U i acc_id dest_uri opt = do {
     reset_call i;
     a \<leftarrow> get_acc (nat acc_id);
     upd_call i (\<lambda>c. c\<lparr>call_acc_id := acc_id, call_hold_type := ac_call_hold_type (a_cfg a)\<rparr>);
     st \<leftarrow> apply_call_setting U i opt;
     if st \<noteq> PJ_SUCCESS then ret st
     else do {
       st \<leftarrow> open_snd_for_call H i;
       if st \<noteq> PJ_SUCCESS then ret st else create_call_dialog H U i acc_id dest_uri
     }
   }"

text \<open>The part of \<^verbatim>\<open>pjsua_call_make_call\<close> once the call has a slot, which is the id it returns.\<close>

definition place_call ::
  "'x hw \<Rightarrow> 'x sip \<Rightarrow> nat \<Rightarrow> int \<Rightarrow> string \<Rightarrow> call_setting option \<Rightarrow> ('x, pj_status \<times> int) pv_m" where
  "place_call H U i acc_id dest_uri opt = do {
     st \<leftarrow> prepare_call H U i acc_id dest_uri opt;
     if st \<noteq> PJ_SUCCESS then make_call_error U i st
     else do {
       c \<leftarrow> get_call i;
       (st, _) \<leftarrow> (if has_flag (opt_flag (call_opt c)) CALL_FLAG_NO_SDP_OFFER then ret (PJ_SUCCESS, 0)
                   else media_channel_init U i False (Some MakeCallCb));
       if st = PJ_SUCCESS then do {
         st \<leftarrow> on_make_call_med_tp_complete H U i None;
         if st \<noteq> PJ_SUCCESS then make_call_error U i st else ret (PJ_SUCCESS, int i)
       }
       else if st \<noteq> PJ_EPENDING then make_call_error U i st
       else ret (PJ_SUCCESS, int i)
     }
   }"

definition pjsua_call_make_call ::
  "'x hw \<Rightarrow> 'x sip \<Rightarrow> int \<Rightarrow> string \<Rightarrow> call_setting option \<Rightarrow> ('x, pj_status \<times> int) pv_m" where
  "pjsua_call_make_call H U acc_id dest_uri opt =
     (if \<not> (0 \<le> acc_id \<and> acc_id < int PJSUA_MAX_ACC) then ret (PJ_EINVAL, PJSUA_INVALID_ID)
      else do {
        a \<leftarrow> get_acc (nat acc_id);
        if \<not> a_valid a then do { pjsua_check_snd_dev_idle; ret (PJ_EINVALIDOP, PJSUA_INVALID_ID) }
        else do {
          call_id \<leftarrow> alloc_call_id;
          if call_id = PJSUA_INVALID_ID then do { pjsua_check_snd_dev_idle; ret (PJ_ETOOMANY, PJSUA_INVALID_ID) }
          else place_call H U (nat call_id) acc_id dest_uri opt
        }
      })"

section \<open>Answers\<close>

text \<open>
  A function can return a status, use a NULL session or a call outside the table, or run out of the fuel that bounds the nesting of
  answers and the loop over the waiting ones.
\<close>

datatype call_result = Returned pj_status | BadAccess | NoFuel

type_synonym 'x answer_fn = "nat \<Rightarrow> call_setting option \<Rightarrow> int \<Rightarrow> ('x, call_result) pv_m"

definition sip_code_of :: "pj_status \<Rightarrow> int" where
  "sip_code_of st = (if 170100 \<le> st \<and> st < 170800 then st - 170000 else 599)"

text \<open>The loop over the answers: the next one is looked up before the answer is given.\<close>

fun pending_loop :: "'x sip \<Rightarrow> 'x answer_fn \<Rightarrow> nat \<Rightarrow> nat \<Rightarrow> ('x, bool) pv_m" where
  "pending_loop U answer 0 i = ret False"
| "pending_loop U answer (Suc n) i = do {
     c \<leftarrow> get_call i;
     case inc_answers c of
       [] \<Rightarrow> ret True
     | (opt, code) # rest \<Rightarrow> do {
         _ \<leftarrow> answer i opt code;
         c \<leftarrow> get_call i;
         pool \<leftarrow> gets (\<lambda>v. sp_has_pool U i (ext v));
         if call_inv c = None \<or> \<not> pool then ret True
         else do {
           upd_call i (\<lambda>c. c\<lparr>inc_answers := tl (inc_answers c)\<rparr>);
           if rest = [] then ret True else pending_loop U answer n i
         }
       }
   }"

definition process_pending_call_answer :: "'x sip \<Rightarrow> 'x answer_fn \<Rightarrow> nat \<Rightarrow> nat \<Rightarrow> ('x, bool) pv_m" where
  "process_pending_call_answer U answer n i = do {
     c \<leftarrow> get_call i;
     last_answer \<leftarrow> gets (\<lambda>v. sp_last_answer U i (ext v));
     if call_inv c \<noteq> None \<and> \<not> last_answer then ret True else pending_loop U answer n i
   }"

text \<open>Ending the session when its media could not be created, which is left to the caller in state NULL.\<close>

definition end_without_media :: "'x hw \<Rightarrow> 'x sip \<Rightarrow> nat \<Rightarrow> int \<Rightarrow> ('x, unit) pv_m" where
  "end_without_media H U i code = do {
     c \<leftarrow> get_call i;
     only_if (call_inv c \<noteq> None \<and> call_inv c \<noteq> Some INV_NULL) (call_disconnect H U i code)
   }"

definition on_answer_call_med_tp_complete ::
  "'x hw \<Rightarrow> 'x sip \<Rightarrow> 'x answer_fn \<Rightarrow> nat \<Rightarrow> nat \<Rightarrow> (pj_status \<times> int) option \<Rightarrow> ('x, call_result) pv_m" where
  "on_answer_call_med_tp_complete H U answer n i info = do {
     let (status, err) = (case info of None \<Rightarrow> (PJ_SUCCESS, 0) | Some r \<Rightarrow> r);
     c \<leftarrow> get_call i;
     if status = PJ_SUCCESS \<and> med_ch_deinit c then do {
       sp_med_deinit U i;
       upd_call i (\<lambda>c. c\<lparr>med_ch_cb := None\<rparr>);
       ret (Returned PJ_SUCCESS)
     } else do {
       (st, err) \<leftarrow> (if status \<noteq> PJ_SUCCESS then ret (status, err)
          else do {
            ((st, err), sdp) \<leftarrow> sp_med_sdp U i;
            if st \<noteq> PJ_SUCCESS then ret (st, err)
            else do { st \<leftarrow> on_ext (sp_set_local_sdp U i sdp); ret (st, if st \<noteq> PJ_SUCCESS then 488 else err) }
          });
       only_if (st \<noteq> PJ_SUCCESS) (do {
         end_without_media H U i (if err = 0 then sip_code_of st else err);
         sp_med_deinit U i
       });
       upd_call i (\<lambda>c. c\<lparr>med_ch_cb := None\<rparr>);
       if st \<noteq> PJ_SUCCESS then ret (Returned st)
       else do {
         ok \<leftarrow> process_pending_call_answer U answer n i;
         ret (if ok then Returned st else NoFuel)
       }
     }
   }"

text \<open>The last part of \<^verbatim>\<open>pjsua_call_answer2\<close>: queue the answer, or create and send the response.\<close>

definition give_answer :: "'x hw \<Rightarrow> 'x sip \<Rightarrow> nat \<Rightarrow> call_setting option \<Rightarrow> int \<Rightarrow> pj_status \<Rightarrow> ('x, call_result) pv_m" where
  "give_answer H U i opt code status = do {
     c \<leftarrow> get_call i;
     last_answer \<leftarrow> gets (\<lambda>v. sp_last_answer U i (ext v));
     if med_ch_cb c = None \<and> call_inv c = None then ret BadAccess
     else if med_ch_cb c \<noteq> None \<or> \<not> last_answer then do {
       upd_call i (\<lambda>c. c\<lparr>inc_answers := inc_answers c @ [(opt, code)]\<rparr>);
       ret (Returned status)
     }
     else do {
       st \<leftarrow> inv_answer H U i code;
       c \<leftarrow> get_call i;
       if st \<noteq> PJ_SUCCESS \<or> call_inv c = None then ret (Returned st)
       else do { st \<leftarrow> inv_send_msg H U i (MsgResponse code); ret (Returned st) }
     }
   }"

definition answer_body ::
  "'x hw \<Rightarrow> 'x sip \<Rightarrow> 'x answer_fn \<Rightarrow> nat \<Rightarrow> 'x answer_fn" where
  "answer_body H U answer n i opt code = do {
     st \<leftarrow> acquire_call i;
     c \<leftarrow> get_call i;
     can \<leftarrow> gets (\<lambda>v. sp_can_answer U i (ext v));
     if st \<noteq> PJ_SUCCESS then ret (Returned st)
     else if call_inv c = None then ret BadAccess
     else if \<not> can then ret (Returned PJ_EINVALIDOP)
     else do {
       only_if (opt \<noteq> None \<and> code < 300 \<and> \<not> opt_inited c) (do {
         upd_call i (\<lambda>c. c\<lparr>opt_inited := True\<rparr>);
         _ \<leftarrow> apply_call_setting U i opt;
         ret ()
       });
       c \<leftarrow> get_call i;
       idle \<leftarrow> gets (\<lambda>v. sp_neg_idle U i (ext v));
       if med_ch_cb c = None \<and> (opt_inited c \<or> code = 183 \<or> code div 100 = 2) \<and> idle then do {
         upd_call i (\<lambda>c. c\<lparr>opt_inited := True\<rparr>);
         (st, _) \<leftarrow> media_channel_init U i False (Some AnswerCallCb);
         if st = PJ_SUCCESS then do {
           r \<leftarrow> on_answer_call_med_tp_complete H U answer n i None;
           if r \<noteq> Returned PJ_SUCCESS then ret r else give_answer H U i opt code PJ_SUCCESS
         }
         else if st \<noteq> PJ_EPENDING then ret (Returned st)
         else give_answer H U i opt code st
       } else give_answer H U i opt code PJ_SUCCESS
     }
   }"

primrec answer_fuel :: "nat \<Rightarrow> 'x hw \<Rightarrow> 'x sip \<Rightarrow> 'x answer_fn" where
  "answer_fuel 0 = (\<lambda>H U i opt code. ret NoFuel)"
| "answer_fuel (Suc n) = (\<lambda>H U. answer_body H U (answer_fuel n H U) n)"

definition pjsua_call_answer2 ::
  "nat \<Rightarrow> 'x hw \<Rightarrow> 'x sip \<Rightarrow> int \<Rightarrow> call_setting option \<Rightarrow> int \<Rightarrow> ('x, call_result) pv_m" where
  "pjsua_call_answer2 n H U call_id opt code = do {
     valid \<leftarrow> gets (valid_call_id call_id);
     if \<not> valid then ret (Returned PJ_EINVAL) else answer_fuel n H U (nat call_id) opt code
   }"

definition pjsua_call_answer :: "nat \<Rightarrow> 'x hw \<Rightarrow> 'x sip \<Rightarrow> int \<Rightarrow> int \<Rightarrow> ('x, call_result) pv_m" where
  "pjsua_call_answer n H U call_id code = pjsua_call_answer2 n H U call_id None code"

end
