(* ===== verification/Pjsua_Incoming.thy ===== *)
theory Pjsua_Incoming
  imports Pjsua_Dial
begin

text \<open>
  Incoming calls (pjsua_call.c, \<^verbatim>\<open>pjsua_call_on_incoming\<close>): the screening of an INVITE request, the new
  session, its media, the first response, and the application.
\<close>

section \<open>Requests\<close>

text \<open>
  What the code reads of a request: its method, whether it belongs to a dialog or transaction, the
  verdict on its Replaces header (a status and the code of the response, if one was created) and the call
  it replaces, the URIs, the security of the transport, and the body: the description found, the error of
  its parser and whether there is an SDP part at all. \<open>ri_verify\<close> is the verdict on its extensions.
\<close>

record sdp_body =
  sb_sdp :: "sdp_session option"
  sb_err :: pj_status
  sb_found :: bool

record rx_invite =
  ri_is_invite :: bool
  ri_in_dialog :: bool
  ri_replaces :: "pj_status \<times> int option"
  ri_replaced :: "nat option"
  ri_msg :: incoming_msg
  ri_tp_secure :: bool
  ri_body :: "sdp_body option"
  ri_verify :: "int \<Rightarrow> pj_status \<times> int option"

definition ri_offer :: "rx_invite \<Rightarrow> sdp_session option" where
  "ri_offer r = (case ri_body r of None \<Rightarrow> None | Some b \<Rightarrow> sb_sdp b)"

section \<open>Media of an incoming call\<close>

text \<open>The result: a status, the SIP error code, and the code of the response, if one was created.\<close>

definition verify_request :: "'x sip \<Rightarrow> nat \<Rightarrow> bool \<Rightarrow> ('x, pj_status \<times> int \<times> int option) pv_m" where
  "verify_request U i use_tmp_sdp = do {
     offer \<leftarrow> gets (\<lambda>v. sp_has_offer U i (ext v));
     if use_tmp_sdp \<and> \<not> offer then ret (PJ_SUCCESS, 0, None)
     else do {
       (st, err) \<leftarrow>
         (if use_tmp_sdp then do { st \<leftarrow> on_ext (sp_temp_sdp U i); ret (st, if st \<noteq> PJ_SUCCESS then 500 else 0) }
          else do {
            ((st, err), sdp) \<leftarrow> sp_med_sdp U i;
            if st \<noteq> PJ_SUCCESS then ret (st, err)
            else do { st \<leftarrow> on_ext (sp_set_local_sdp U i sdp); ret (st, if st \<noteq> PJ_SUCCESS then 488 else 0) }
          });
       if st \<noteq> PJ_SUCCESS then ret (st, if err \<noteq> 0 then err else sip_code_of st, None)
       else do {
         (st, code) \<leftarrow> on_ext (sp_verify U i);
         if st \<noteq> PJ_SUCCESS then ret (st, if code \<noteq> 0 then code else sip_code_of st, Some code)
         else ret (PJ_SUCCESS, 0, None)
       }
     }
   }"

text \<open>The call \<open>r\<close> is replaced by the call \<open>i\<close>. Errors are only logged.\<close>

definition replacement_code :: "pjsua_call \<Rightarrow> int option" where
  "replacement_code rc =
     (if call_inv rc \<noteq> Some INV_CONNECTING \<and> call_inv rc \<noteq> Some INV_CONFIRMED \<and> call_inv rc \<noteq> Some INV_DISCONNECTED
         \<and> call_role_uas rc
      then (if last_code rc > 100 \<and> last_code rc < 200 then Some (last_code rc) else None)
      else Some 200)"

definition process_incoming_call_replace :: "'x hw \<Rightarrow> 'x sip \<Rightarrow> nat \<Rightarrow> nat \<Rightarrow> ('x, unit) pv_m" where
  "process_incoming_call_replace H U i r = do {
     rc \<leftarrow> get_call r;
     (case replacement_code rc of
        None \<Rightarrow> ret ()
      | Some code \<Rightarrow> do {
          st \<leftarrow> inv_answer H U i code;
          c \<leftarrow> get_call i;
          only_if (st = PJ_SUCCESS \<and> call_inv c \<noteq> None)
            (do { _ \<leftarrow> inv_send_msg H U i (MsgResponse code); ret () })
        });
     call_disconnect H U r 410
   }"

text \<open>A response that rejects the call: the one created, or a new one that ends the session.\<close>

definition reject_session :: "'x hw \<Rightarrow> 'x sip \<Rightarrow> nat \<Rightarrow> int \<Rightarrow> int option \<Rightarrow> ('x, unit) pv_m" where
  "reject_session H U i err response = do {
     c \<leftarrow> get_call i;
     only_if (call_inv c \<noteq> None \<and> call_inv c \<noteq> Some INV_NULL)
       (case response of
          None \<Rightarrow> call_disconnect H U i err
        | Some code \<Rightarrow> do { _ \<leftarrow> inv_send_msg H U i (MsgResponse code); ret () })
   }"

text \<open>The result: the status, the SIP error code and the code of the response; \<open>None\<close> when fuel ran out.\<close>

definition on_incoming_call_med_tp_complete2 ::
  "nat \<Rightarrow> 'x hw \<Rightarrow> 'x sip \<Rightarrow> nat \<Rightarrow> (pj_status \<times> int) option \<Rightarrow> ('x, (pj_status \<times> int \<times> int option) option) pv_m" where
  "on_incoming_call_med_tp_complete2 n H U i info = do {
     let (status, err) = (case info of None \<Rightarrow> (PJ_SUCCESS, 0) | Some r \<Rightarrow> r);
     c \<leftarrow> get_call i;
     if status = PJ_SUCCESS \<and> med_ch_deinit c then do {
       sp_med_deinit U i;
       upd_call i (\<lambda>c. c\<lparr>med_ch_cb := None\<rparr>);
       ret (Some (PJ_SUCCESS, 0, None))
     } else do {
       (st, err, response) \<leftarrow> (if status \<noteq> PJ_SUCCESS then ret (status, err, None) else verify_request U i False);
       let err = (if st \<noteq> PJ_SUCCESS \<and> err = 0 then sip_code_of st else err);
       only_if (st \<noteq> PJ_SUCCESS) (do { reject_session H U i err response; sp_med_deinit U i });
       upd_call i (\<lambda>c. c\<lparr>med_ch_cb := None\<rparr>);
       if st \<noteq> PJ_SUCCESS then ret (Some (st, err, response))
       else do {
         c \<leftarrow> get_call i;
         case replaced_dlg c of
           Some r \<Rightarrow> do { process_incoming_call_replace H U i r; ret (Some (st, err, response)) }
         | None \<Rightarrow> do {
             ok \<leftarrow> process_pending_call_answer U (answer_fuel n H U) n i;
             ret (if ok then Some (st, err, response) else None)
           }
       }
     }
   }"

section \<open>The request\<close>

text \<open>The response code for an unacceptable body, if it is one.\<close>

definition body_error :: "rx_invite \<Rightarrow> int option" where
  "body_error r =
     (case ri_body r of
        None \<Rightarrow> None
      | Some b \<Rightarrow>
          if sb_err b \<noteq> PJ_SUCCESS \<or> sb_sdp b = None then Some (if sb_found b then 400 else 415)
          else case sb_sdp b of Some sdp \<Rightarrow> if s_media sdp = [] then Some 400 else None | None \<Rightarrow> None)"

definition incoming_account :: "rx_invite \<Rightarrow> 'x pjsua_var \<Rightarrow> int" where
  "incoming_account r v =
     (case ri_replaced r of
        Some k \<Rightarrow> call_acc_id (calls v ! k)
      | None \<Rightarrow> pjsua_acc_find_for_incoming None (ri_msg r) v)"

definition code_or :: "int \<Rightarrow> int option \<Rightarrow> int" where
  "code_or d r = (case r of Some code \<Rightarrow> code | None \<Rightarrow> d)"

definition request_error :: "rx_invite \<Rightarrow> int \<Rightarrow> int option" where
  "request_error r acc_id =
     (case body_error r of
        Some code \<Rightarrow> Some code
      | None \<Rightarrow> if fst (ri_verify r acc_id) \<noteq> PJ_SUCCESS then Some (code_or 500 (snd (ri_verify r acc_id))) else None)"

definition invite_secure_level :: "rx_invite \<Rightarrow> int" where
  "invite_secure_level r =
     (if su_scheme (im_request_uri (ri_msg r)) = SCHEME_SIPS then 2 else if ri_tp_secure r then 1 else 0)"

text \<open>
  The dialog and the session: \<open>Some code\<close> if the request was rejected with that code.
\<close>

definition create_session :: "'x sip \<Rightarrow> nat \<Rightarrow> int \<Rightarrow> ('x, int option) pv_m" where
  "create_session U i acc_id = do {
     a \<leftarrow> get_acc (nat acc_id);
     (st, contact) \<leftarrow> (if a_contact a \<noteq> [] then ret (PJ_SUCCESS, a_contact a)
                       else gets (\<lambda>v. sp_uas_contact U acc_id (ext v)));
     if st \<noteq> PJ_SUCCESS then ret (Some 500)
     else do {
       st \<leftarrow> on_ext (sp_create_uas U i contact);
       if st \<noteq> PJ_SUCCESS then ret (Some 500)
       else do {
         st \<leftarrow> on_ext (sp_inv_uas U i);
         if st \<noteq> PJ_SUCCESS then ret (Some 500)
         else do {
           upd_call i (\<lambda>c. c\<lparr>call_inv := Some INV_NULL, call_inv_cause := 0, call_role_uas := True,
                             call_async_dlg := True, inc_answers := []\<rparr>);
           ret None
         }
       }
     }
   }"

text \<open>Giving up a new session: it is terminated without a report, and the call lets go of it.\<close>

definition drop_session :: "'x hw \<Rightarrow> 'x sip \<Rightarrow> nat \<Rightarrow> int \<Rightarrow> bool \<Rightarrow> ('x, unit) pv_m" where
  "drop_session H U i code deinit = do {
     inv_terminate H U i code False;
     only_if deinit (sp_med_deinit U i);
     upd_call i (\<lambda>c. c\<lparr>call_inv := None, call_async_dlg := False\<rparr>)
   }"

text \<open>
  The media of the new call: \<open>Inl\<close> the code it was rejected with. \<open>Inr False\<close> stands for exhausted fuel.
\<close>

definition init_incoming_media :: "nat \<Rightarrow> 'x hw \<Rightarrow> 'x sip \<Rightarrow> nat \<Rightarrow> ('x, int + bool) pv_m" where
  "init_incoming_media n H U i = do {
     (st, err, response) \<leftarrow> verify_request U i True;
     if st \<noteq> PJ_SUCCESS then do {
       let code = (case response of Some c \<Rightarrow> c | None \<Rightarrow> err);
       upd_ext (sp_respond U code);
       drop_session H U i err False;
       ret (Inl code)
     } else do {
       (st, err) \<leftarrow> media_channel_init U i True (Some IncomingCallCb);
       if st = PJ_EPENDING then ret (Inr True)
       else if st = PJ_SUCCESS then do {
         r \<leftarrow> on_incoming_call_med_tp_complete2 n H U i None;
         case r of
           None \<Rightarrow> ret (Inr False)
         | Some (st, err, response) \<Rightarrow>
             if st = PJ_SUCCESS then ret (Inr True)
             else do {
               let code = (case response of Some c \<Rightarrow> c | None \<Rightarrow> err);
               upd_ext (sp_respond U code);
               drop_session H U i err False;
               ret (Inl code)
             }
       } else do {
         upd_ext (sp_respond U err);
         drop_session H U i err False;
         ret (Inl err)
       }
     }
   }"

text \<open>Session timers and the first response: the code it was rejected with, 0 when sending 100 failed.\<close>

definition first_response :: "'x hw \<Rightarrow> 'x sip \<Rightarrow> nat \<Rightarrow> ('x, int option) pv_m" where
  "first_response H U i = do {
     st \<leftarrow> on_ext (sp_timer_init U i);
     if st \<noteq> PJ_SUCCESS then do {
       upd_ext (sp_respond U 500);
       drop_session H U i 500 True;
       ret (Some 500)
     } else do {
       (st, response) \<leftarrow> on_ext (sp_initial_answer U i);
       if st \<noteq> PJ_SUCCESS then do {
         let code = (case response of None \<Rightarrow> 500 | Some c \<Rightarrow> c);
         (case response of None \<Rightarrow> upd_ext (sp_respond U 500)
                         | Some c \<Rightarrow> do { _ \<leftarrow> inv_send_msg H U i (MsgResponse c); ret () });
         drop_session H U i code True;
         ret (Some code)
       } else do {
         st \<leftarrow> inv_send_msg H U i (MsgResponse 100);
         if st \<noteq> PJ_SUCCESS then do {
           sp_med_deinit U i;
           upd_call i (\<lambda>c. c\<lparr>call_inv := None, call_async_dlg := False\<rparr>);
           ret (Some 0)
         } else ret None
       }
     }
   }"

text \<open>
  What follows once the call is attached to its session. \<open>app\<close> is what the application does in its
  callback \<^verbatim>\<open>on_incoming_call\<close>, with the account and the call. The result is \<open>False\<close> when fuel ran out.
\<close>

definition announce_call ::
  "nat \<Rightarrow> 'x hw \<Rightarrow> 'x sip \<Rightarrow> (int \<Rightarrow> int \<Rightarrow> ('x, unit) pv_m) \<Rightarrow> rx_invite \<Rightarrow> int \<Rightarrow> nat \<Rightarrow> ('x, bool) pv_m" where
  "announce_call n H U app r acc_id i = do {
     upd_call i (\<lambda>c. c\<lparr>call_attached := True\<rparr>);
     modify (\<lambda>v. v\<lparr>call_cnt := call_cnt v + 1\<rparr>);
     c \<leftarrow> get_call i;
     case ri_replaced r of
       Some k \<Rightarrow> do {
         (if med_ch_cb c = None then process_incoming_call_replace H U i k
          else upd_call i (\<lambda>c. c\<lparr>replaced_dlg := Some k\<rparr>));
         ret True
       }
     | None \<Rightarrow> do {
         tell_app (AppIncomingCall acc_id (int i));
         app acc_id (int i);
         c \<leftarrow> get_call i;
         if inc_hangup c then do { _ \<leftarrow> process_pending_call_hangup H U i; ret True }
         else if med_ch_cb c = None \<and> call_inv c \<noteq> None
         then process_pending_call_answer U (answer_fuel n H U) n i
         else ret True
       }
   }"

definition incoming_data_freed :: "nat \<Rightarrow> ('x, unit) pv_m" where
  "incoming_data_freed i = upd_call i (\<lambda>c. c\<lparr>incoming_data := False\<rparr>)"

definition reject_request :: "'x sip \<Rightarrow> int \<Rightarrow> ('x, int + bool) pv_m" where
  "reject_request U code = do { upd_ext (sp_respond U code); ret (Inl code) }"

text \<open>
  The new call in the slot \<open>i\<close>, once its account is known, and before. The result is the code it was
  rejected with, if it was, or whether the fuel sufficed.
\<close>

definition accept_for_account ::
  "nat \<Rightarrow> 'x hw \<Rightarrow> 'x sip \<Rightarrow> (int \<Rightarrow> int \<Rightarrow> ('x, unit) pv_m) \<Rightarrow> rx_invite \<Rightarrow> int \<Rightarrow> nat \<Rightarrow> ('x, int + bool) pv_m" where
  "accept_for_account n H U app r acc_id i = do {
     rejected \<leftarrow> create_session U i acc_id;
     case rejected of
       Some code \<Rightarrow> reject_request U code
     | None \<Rightarrow> do {
         media \<leftarrow> (if ri_offer r \<noteq> None \<or> ri_replaced r \<noteq> None then init_incoming_media n H U i
                  else ret (Inr True));
         if media \<noteq> Inr True then ret media
         else do {
           rejected \<leftarrow> first_response H U i;
           case rejected of
             Some code \<Rightarrow> ret (Inl code)
           | None \<Rightarrow> do { ok \<leftarrow> announce_call n H U app r acc_id i; ret (Inr ok) }
         }
       }
   }"

definition accept_invite ::
  "nat \<Rightarrow> 'x hw \<Rightarrow> 'x sip \<Rightarrow> (int \<Rightarrow> int \<Rightarrow> ('x, unit) pv_m) \<Rightarrow> rx_invite \<Rightarrow> nat \<Rightarrow> ('x, int + bool) pv_m" where
  "accept_invite n H U app r i = do {
     reset_call i;
     if fst (ri_replaces r) \<noteq> PJ_SUCCESS then reject_request U (code_or 500 (snd (ri_replaces r)))
     else do {
       acc_id \<leftarrow> gets (incoming_account r);
       upd_call i (\<lambda>c. c\<lparr>incoming_data := (ri_replaced r = None), call_acc_id := acc_id\<rparr>);
       if ri_replaced r = None \<and> acc_id = PJSUA_INVALID_ID then reject_request U 480
       else do {
         a \<leftarrow> get_acc (nat acc_id);
         upd_call i (\<lambda>c. c\<lparr>call_hold_type := ac_call_hold_type (a_cfg a), secure_level := invite_secure_level r\<rparr>);
         case request_error r acc_id of
           Some code \<Rightarrow> reject_request U code
         | None \<Rightarrow> accept_for_account n H U app r acc_id i
       }
     }
   }"

text \<open>Whether the request was handled here.\<close>

definition pjsua_call_on_incoming ::
  "nat \<Rightarrow> 'x hw \<Rightarrow> 'x sip \<Rightarrow> (int \<Rightarrow> int \<Rightarrow> ('x, unit) pv_m) \<Rightarrow> rx_invite \<Rightarrow> ('x, bool) pv_m" where
  "pjsua_call_on_incoming n H U app r =
     (if \<not> ri_is_invite r \<or> ri_in_dialog r then ret False
      else do {
        quit \<leftarrow> gets thread_quit_flag;
        if quit then do { upd_ext (sp_respond U 480); ret True }
        else do {
          call_id \<leftarrow> alloc_call_id;
          if call_id = PJSUA_INVALID_ID then do { upd_ext (sp_respond U 486); ret True }
          else do {
            _ \<leftarrow> accept_invite n H U app r (nat call_id);
            incoming_data_freed (nat call_id);
            ret True
          }
        }
      })"

end
