(* ===== verification/Pjsua_Midcall.thy ===== *)
theory Pjsua_Midcall
  imports Pjsua_Incoming
begin

unbundle bit_operations_syntax

text \<open>
  Operations on calls that are up (pjsua_call.c): hold and its session description, re-INVITE and UPDATE,
  transfers, DTMF, and the end of an asynchronous media set-up (pjsua_media.c). No message data is passed,
  as in the shim.
\<close>

section \<open>The description of a call on hold\<close>

abbreviation DIR_ENCODING :: nat where "DIR_ENCODING \<equiv> 1"

definition without_direction :: "string list \<Rightarrow> string list" where
  "without_direction attrs =
     removeAll ''inactive'' (removeAll ''recvonly'' (removeAll ''sendonly'' (removeAll ''sendrecv'' attrs)))"

definition hold_direction :: "hold_type \<Rightarrow> bool \<Rightarrow> nat \<Rightarrow> string" where
  "hold_direction t as_answerer dir =
     (case t of
        HOLD_RFC2543 \<Rightarrow> ''inactive''
      | HOLD_RFC3264 \<Rightarrow> if as_answerer \<or> dir AND DIR_ENCODING \<noteq> 0 then ''sendonly'' else ''inactive'')"

text \<open>
  One media line, with the connection of the session, which is changed where the line has none of
  its own; \<open>None\<close> when there is none at all, whose address the code writes to.
\<close>

definition hold_conn :: "hold_type \<Rightarrow> string option \<Rightarrow> string option \<Rightarrow> (string option \<times> string option) option" where
  "hold_conn t media session =
     (case t of
        HOLD_RFC3264 \<Rightarrow> Some (media, session)
      | HOLD_RFC2543 \<Rightarrow>
          if media \<noteq> None then Some (Some ''0.0.0.0'', session)
          else if session \<noteq> None then Some (None, Some ''0.0.0.0'')
          else None)"

fun hold_media :: "hold_type \<Rightarrow> bool \<Rightarrow> nat list \<Rightarrow> string option \<Rightarrow> sdp_media list \<Rightarrow> (string option \<times> sdp_media list) option" where
  "hold_media t as_answerer dirs session [] = Some (session, [])"
| "hold_media t as_answerer dirs session (m # ms) =
     (case hold_conn t (m_conn m) session of
        None \<Rightarrow> None
      | Some (conn, session) \<Rightarrow>
          case hold_media t as_answerer (tl dirs) session ms of
            None \<Rightarrow> None
          | Some (session, ms) \<Rightarrow>
              Some (session, \<lparr>m_conn = conn,
                m_attrs = without_direction (m_attrs m) @ [hold_direction t as_answerer (hd dirs)]\<rparr> # ms))"

definition modify_sdp_of_call_hold :: "pjsua_call \<Rightarrow> bool \<Rightarrow> sdp_session \<Rightarrow> sdp_session option" where
  "modify_sdp_of_call_hold c as_answerer sdp =
     (case hold_media (call_hold_type c) as_answerer (media_dirs c) (s_conn sdp) (s_media sdp) of
        None \<Rightarrow> None
      | Some (conn, ms) \<Rightarrow> Some \<lparr>s_conn = conn, s_media = ms\<rparr>)"

text \<open>The status and the description; \<open>None\<close> for a write through NULL.\<close>

definition create_sdp_of_call_hold :: "'x sip \<Rightarrow> nat \<Rightarrow> ('x, (pj_status \<times> sdp_session) option) pv_m" where
  "create_sdp_of_call_hold U i = do {
     ((st, _), sdp) \<leftarrow> sp_med_sdp U i;
     if st \<noteq> PJ_SUCCESS then ret (Some (st, sdp))
     else do {
       c \<leftarrow> get_call i;
       ret (case modify_sdp_of_call_hold c False sdp of None \<Rightarrow> None | Some held \<Rightarrow> Some (PJ_SUCCESS, held))
     }
   }"

section \<open>Hold, re-INVITE and UPDATE\<close>

definition update_dialog :: "'x sip \<Rightarrow> nat \<Rightarrow> u32 \<Rightarrow> ('x, unit) pv_m" where
  "update_dialog U i flags = do {
     c \<leftarrow> get_call i;
     valid \<leftarrow> gets (pjsua_acc_is_valid (call_acc_id c));
     only_if (has_flag flags CALL_FLAG_UPDATE_CONTACT \<and> valid) (upd_ext (sp_update_contact U i));
     only_if (has_flag flags CALL_FLAG_UPDATE_VIA \<and> valid) (upd_ext (sp_update_via U i))
   }"

definition send_hold :: "'x hw \<Rightarrow> 'x sip \<Rightarrow> nat \<Rightarrow> u32 \<Rightarrow> ('x, call_result) pv_m" where
  "send_hold H U i options = do {
     r \<leftarrow> create_sdp_of_call_hold U i;
     case r of
       None \<Rightarrow> ret BadAccess
     | Some (st, sdp) \<Rightarrow>
         if st \<noteq> PJ_SUCCESS then ret (Returned st)
         else do {
           update_dialog U i options;
           st \<leftarrow> on_ext (sp_reinvite U i (Some sdp));
           if st \<noteq> PJ_SUCCESS then ret (Returned st)
           else do {
             upd_call i (\<lambda>c. c\<lparr>hold_msg := True\<rparr>);
             st \<leftarrow> inv_send_msg H U i MsgReinvite;
             if st \<noteq> PJ_SUCCESS then do {
               upd_call i (\<lambda>c. c\<lparr>hold_msg := False\<rparr>);
               ret (Returned st)
             } else do {
               upd_call i (\<lambda>c. c\<lparr>local_hold := True,
                 call_opt := (call_opt c)\<lparr>opt_flag := opt_flag (call_opt c) AND NOT CALL_FLAG_UNHOLD\<rparr>\<rparr>);
               ret (Returned PJ_SUCCESS)
             }
           }
         }
   }"

definition pjsua_call_set_hold2 :: "'x hw \<Rightarrow> 'x sip \<Rightarrow> int \<Rightarrow> u32 \<Rightarrow> ('x, call_result) pv_m" where
  "pjsua_call_set_hold2 H U call_id options = do {
     valid \<leftarrow> gets (valid_call_id call_id);
     if \<not> valid then ret (Returned PJ_EINVAL)
     else do {
       let i = nat call_id;
       st \<leftarrow> acquire_call i;
       c \<leftarrow> get_call i;
       if st \<noteq> PJ_SUCCESS then ret (Returned st)
       else if call_inv c = None then ret BadAccess
       else if call_inv c \<noteq> Some INV_CONFIRMED then ret (Returned PJSIP_ESESSIONSTATE)
       else do {
         st \<leftarrow> (if med_prov_cnt c = 0 then apply_call_setting U i (Some (call_opt c)) else ret PJ_SUCCESS);
         if st \<noteq> PJ_SUCCESS then ret (Returned st) else send_hold H U i options
       }
     }
   }"

definition pjsua_call_set_hold :: "'x hw \<Rightarrow> 'x sip \<Rightarrow> int \<Rightarrow> ('x, call_result) pv_m" where
  "pjsua_call_set_hold H U call_id = pjsua_call_set_hold2 H U call_id 0"

text \<open>
  The part that re-INVITE and UPDATE share: the offer, and the request that \<open>create\<close> makes and that is
  sent as \<open>msg\<close>.
\<close>

definition create_offer :: "'x sip \<Rightarrow> nat \<Rightarrow> ('x, (pj_status \<times> sdp_session option) option) pv_m" where
  "create_offer U i = do {
     c \<leftarrow> get_call i;
     if local_hold c \<and> \<not> has_flag (opt_flag (call_opt c)) CALL_FLAG_UNHOLD then do {
       r \<leftarrow> create_sdp_of_call_hold U i;
       ret (case r of None \<Rightarrow> None | Some (st, sdp) \<Rightarrow> Some (st, Some sdp))
     }
     else if \<not> has_flag (opt_flag (call_opt c)) CALL_FLAG_NO_SDP_OFFER then do {
       ((st, _), sdp) \<leftarrow> sp_med_sdp U i;
       ret (Some (st, Some sdp))
     }
     else ret (Some (PJ_SUCCESS, None))
   }"

definition send_offer ::
  "'x hw \<Rightarrow> 'x sip \<Rightarrow> nat \<Rightarrow> (sdp_session option \<Rightarrow> 'x \<Rightarrow> pj_status \<times> 'x) \<Rightarrow> inv_msg \<Rightarrow> ('x, call_result) pv_m" where
  "send_offer H U i create msg = do {
     r \<leftarrow> create_offer U i;
     case r of
       None \<Rightarrow> ret BadAccess
     | Some (st, sdp) \<Rightarrow>
         if st \<noteq> PJ_SUCCESS then ret (Returned st)
         else do {
           c \<leftarrow> get_call i;
           update_dialog U i (opt_flag (call_opt c));
           st \<leftarrow> on_ext (create sdp);
           if st \<noteq> PJ_SUCCESS then ret (Returned st)
           else do {
             upd_call i (\<lambda>c. c\<lparr>med_update_success := False\<rparr>);
             st \<leftarrow> inv_send_msg H U i msg;
             c \<leftarrow> get_call i;
             only_if (st = PJ_SUCCESS \<and> has_flag (opt_flag (call_opt c)) CALL_FLAG_UNHOLD
                      \<and> \<not> has_flag (opt_flag (call_opt c)) CALL_FLAG_NO_SDP_OFFER)
               (upd_call i (\<lambda>c. c\<lparr>local_hold := False\<rparr>));
             ret (Returned st)
           }
         }
   }"

definition pjsua_call_media_is_changing :: "pjsua_call \<Rightarrow> bool" where
  "pjsua_call_media_is_changing c \<longleftrightarrow> med_prov_cnt c > med_cnt c"

definition pjsua_call_reinvite2 :: "'x hw \<Rightarrow> 'x sip \<Rightarrow> int \<Rightarrow> call_setting option \<Rightarrow> ('x, call_result) pv_m" where
  "pjsua_call_reinvite2 H U call_id opt = do {
     valid \<leftarrow> gets (valid_call_id call_id);
     if \<not> valid then ret (Returned PJ_EINVAL)
     else do {
       let i = nat call_id;
       st \<leftarrow> acquire_call i;
       c \<leftarrow> get_call i;
       if st \<noteq> PJ_SUCCESS then ret (Returned st)
       else if pjsua_call_media_is_changing c then ret (Returned PJ_EINVALIDOP)
       else if call_inv c = None then ret BadAccess
       else if call_inv c \<noteq> Some INV_CONFIRMED then ret (Returned PJSIP_ESESSIONSTATE)
       else do {
         st \<leftarrow> apply_call_setting U i opt;
         if st \<noteq> PJ_SUCCESS then ret (Returned st) else send_offer H U i (sp_reinvite U i) MsgReinvite
       }
     }
   }"

text \<open>
  An UPDATE without an offer and without changes of the dialog reaches \<^verbatim>\<open>pjsip_inv_update\<close>, which refuses a
  NULL session.
\<close>

definition session_unused :: "pjsua_call \<Rightarrow> bool \<Rightarrow> bool" where
  "session_unused c acc_valid \<longleftrightarrow>
     (let flags = opt_flag (call_opt c)
      in (\<not> local_hold c \<or> has_flag flags CALL_FLAG_UNHOLD) \<and> has_flag flags CALL_FLAG_NO_SDP_OFFER
         \<and> \<not> (acc_valid \<and> (has_flag flags CALL_FLAG_UPDATE_CONTACT \<or> has_flag flags CALL_FLAG_UPDATE_VIA)))"

definition pjsua_call_update2 :: "'x hw \<Rightarrow> 'x sip \<Rightarrow> int \<Rightarrow> call_setting option \<Rightarrow> ('x, call_result) pv_m" where
  "pjsua_call_update2 H U call_id opt = do {
     valid \<leftarrow> gets (valid_call_id call_id);
     if \<not> valid then ret (Returned PJ_EINVAL)
     else do {
       let i = nat call_id;
       st \<leftarrow> acquire_call i;
       c \<leftarrow> get_call i;
       let no_offer = (case opt of None \<Rightarrow> False | Some s \<Rightarrow> has_flag (opt_flag s) CALL_FLAG_NO_SDP_OFFER);
       if st \<noteq> PJ_SUCCESS then ret (Returned st)
       else if pjsua_call_media_is_changing c \<and> \<not> no_offer then ret (Returned PJ_EINVALIDOP)
       else do {
         st \<leftarrow> apply_call_setting U i opt;
         c \<leftarrow> get_call i;
         acc_valid \<leftarrow> gets (pjsua_acc_is_valid (call_acc_id c));
         if st \<noteq> PJ_SUCCESS then ret (Returned st)
         else if call_inv c = None then ret (if session_unused c acc_valid then Returned PJ_EINVAL else BadAccess)
         else send_offer H U i (sp_update U i) MsgUpdate
       }
     }
   }"

text \<open>
  \<^verbatim>\<open>pjsua_call_reinvite\<close> and \<^verbatim>\<open>pjsua_call_update\<close> lock the call before its id is checked.
\<close>

definition with_options ::
  "(int \<Rightarrow> call_setting option \<Rightarrow> ('x, call_result) pv_m) \<Rightarrow> int \<Rightarrow> u32 \<Rightarrow> ('x, call_result) pv_m" where
  "with_options request call_id options = do {
     valid \<leftarrow> gets (valid_call_id call_id);
     if \<not> valid then ret BadAccess
     else do {
       let i = nat call_id;
       st \<leftarrow> acquire_call i;
       if st \<noteq> PJ_SUCCESS then ret (Returned st)
       else do {
         upd_call i (\<lambda>c. c\<lparr>call_opt := (call_opt c)\<lparr>opt_flag := options\<rparr>\<rparr>);
         c \<leftarrow> get_call i;
         request call_id (Some (call_opt c))
       }
     }
   }"

definition pjsua_call_reinvite :: "'x hw \<Rightarrow> 'x sip \<Rightarrow> int \<Rightarrow> u32 \<Rightarrow> ('x, call_result) pv_m" where
  "pjsua_call_reinvite H U = with_options (pjsua_call_reinvite2 H U)"

definition pjsua_call_update :: "'x hw \<Rightarrow> 'x sip \<Rightarrow> int \<Rightarrow> u32 \<Rightarrow> ('x, call_result) pv_m" where
  "pjsua_call_update H U = with_options (pjsua_call_update2 H U)"

section \<open>Transfers\<close>

definition pjsua_call_xfer :: "'x sip \<Rightarrow> int \<Rightarrow> string \<Rightarrow> ('x, call_result) pv_m" where
  "pjsua_call_xfer U call_id dest = do {
     valid \<leftarrow> gets (valid_call_id call_id);
     if \<not> valid then ret (Returned PJ_EINVAL)
     else do {
       let i = nat call_id;
       st \<leftarrow> acquire_call i;
       c \<leftarrow> get_call i;
       if st \<noteq> PJ_SUCCESS then ret (Returned st)
       else if call_inv c = None then ret BadAccess
       else do {
         st \<leftarrow> on_ext (sp_xfer_create U i);
         if st \<noteq> PJ_SUCCESS then ret (Returned st)
         else do {
           st \<leftarrow> on_ext (sp_xfer_initiate U i dest);
           if st \<noteq> PJ_SUCCESS then ret (Returned st)
           else do { st \<leftarrow> on_ext (sp_xfer_send U i); ret (Returned st) }
         }
       }
     }
   }"

text \<open>
  The destination of an attended transfer, in a buffer of 512 bytes: the remote URI of the call to be
  replaced and its dialog. \<open>Inl\<close> is an error.
\<close>

abbreviation PJSIP_MAX_URL_SIZE :: nat where "PJSIP_MAX_URL_SIZE \<equiv> 256"
abbreviation XFER_BUF_SIZE :: nat where "XFER_BUF_SIZE \<equiv> 512"

definition replaces_part :: "bool \<Rightarrow> string \<Rightarrow> string \<Rightarrow> string \<Rightarrow> string" where
  "replaces_part no_require call_id remote_tag local_tag =
     ''?'' @ (if no_require then '''' else ''Require=replaces&'') @ ''Replaces='' @ call_id
     @ ''%3Bto-tag%3D'' @ remote_tag @ ''%3Bfrom-tag%3D'' @ local_tag @ ''>''"

definition replaces_dest ::
  "'x sip \<Rightarrow> string \<Rightarrow> string option \<Rightarrow> string \<times> string \<times> string \<Rightarrow> bool \<Rightarrow> pj_status + string" where
  "replaces_dest U info uri dialog no_require =
     (case dialog of (call_id, remote_tag, local_tag) \<Rightarrow>
        if \<not> (length info + length call_id + length remote_tag + length local_tag + 32 < XFER_BUF_SIZE)
        then Inl PJSIP_EURITOOLONG
        else case uri of
          None \<Rightarrow> Inl PJSIP_EURITOOLONG
        | Some u \<Rightarrow>
            case sp_escape_id U call_id of
              None \<Rightarrow> Inl PJSIP_EURITOOLONG
            | Some esc \<Rightarrow>
                let room = XFER_BUF_SIZE - (1 + length u);
                    part = replaces_part no_require esc remote_tag local_tag
                in if length part \<le> room then Inr (''<'' @ u @ snprintf_str room part) else Inl PJSIP_EURITOOLONG)"

definition pjsua_call_xfer_replaces :: "'x sip \<Rightarrow> int \<Rightarrow> int \<Rightarrow> bool \<Rightarrow> ('x, call_result) pv_m" where
  "pjsua_call_xfer_replaces U call_id dest_call_id no_require = do {
     valid \<leftarrow> gets (\<lambda>v. valid_call_id call_id v \<and> valid_call_id dest_call_id v);
     if \<not> valid then ret (Returned PJ_EINVAL)
     else do {
       let d = nat dest_call_id;
       st \<leftarrow> acquire_call d;
       if st \<noteq> PJ_SUCCESS then ret (Returned st)
       else do {
         dest \<leftarrow> gets (\<lambda>v. replaces_dest U (sp_remote_info U d (ext v)) (sp_remote_uri U d (ext v))
                                (sp_dialog_id U d (ext v)) no_require);
         case dest of
           Inl st \<Rightarrow> ret (Returned st)
         | Inr uri \<Rightarrow> pjsua_call_xfer U call_id uri
       }
     }
   }"

section \<open>DTMF\<close>

text \<open>One INFO request per digit; the status is the last one.\<close>

fun info_digits :: "'x sip \<Rightarrow> nat \<Rightarrow> int \<Rightarrow> string \<Rightarrow> pj_status \<Rightarrow> ('x, pj_status) pv_m" where
  "info_digits U i duration [] status = ret status"
| "info_digits U i duration (d # ds) status = do {
     st \<leftarrow> on_ext (sp_info U i (c_trunc 80 (''Signal='' @ [d] @ [CHR 0x0D, CHR 0x0A] @ ''Duration='' @ dec duration)));
     info_digits U i duration ds st
   }"

definition pjsua_call_send_dtmf :: "'x sip \<Rightarrow> int \<Rightarrow> dtmf_kind \<Rightarrow> string \<Rightarrow> int \<Rightarrow> ('x, pj_status) pv_m" where
  "pjsua_call_send_dtmf U call_id kind digits duration = do {
     valid \<leftarrow> gets (valid_call_id call_id);
     if \<not> valid then ret PJ_EINVAL
     else case kind of
       DTMF_RFC2833 \<Rightarrow> on_ext (sp_dial_dtmf U (nat call_id) digits)
     | DTMF_SIP_INFO \<Rightarrow> info_digits U (nat call_id) duration digits PJ_EINVAL
   }"

section \<open>Asynchronous media set-up\<close>

text \<open>
  The last transport of a call reports: the end of \<^verbatim>\<open>media_channel_init_cb\<close>, which calls the callback.
\<close>

definition media_channel_done :: "nat \<Rightarrow> 'x hw \<Rightarrow> 'x sip \<Rightarrow> nat \<Rightarrow> pj_status \<times> int \<Rightarrow> ('x, unit) pv_m" where
  "media_channel_done n H U i info = do {
     c \<leftarrow> get_call i;
     case med_ch_cb c of
       None \<Rightarrow> ret ()
     | Some MakeCallCb \<Rightarrow> do { _ \<leftarrow> on_make_call_med_tp_complete H U i (Some info); ret () }
     | Some IncomingCallCb \<Rightarrow> do { _ \<leftarrow> on_incoming_call_med_tp_complete2 n H U i (Some info); ret () }
     | Some AnswerCallCb \<Rightarrow> do {
         _ \<leftarrow> on_answer_call_med_tp_complete H U (answer_fuel n H U) n i (Some info);
         ret ()
       }
   }"

end
