(* ===== verification/Sig_Laws.thy ===== *)
theory Sig_Laws
  imports Pjsua_Midcall Acc_Laws
begin

text \<open>
  Laws of the call code: what media channels must leave alone (\<open>quiet\<close>), and the consistency of
  the call table with the sessions and the number of calls, which every operation preserves.
\<close>

section \<open>Primitives\<close>

definition put_call :: "nat \<Rightarrow> (pjsua_call \<Rightarrow> pjsua_call) \<Rightarrow> 'x pjsua_var \<Rightarrow> 'x pjsua_var" where
  "put_call i f v = v\<lparr>calls := (calls v)[i := f (calls v ! i)]\<rparr>"

lemma run_get_call [simp, run_simps]: "run_state (get_call i) v = (calls v ! i, v)"
  by (simp add: get_call_def)

lemma run_upd_call [simp, run_simps]: "run_state (upd_call i f) v = ((), put_call i f v)"
  by (simp add: upd_call_def put_call_def)

lemma run_tell_app [simp, run_simps]: "run_state (tell_app e) v = ((), v\<lparr>app_log := app_log v @ [e]\<rparr>)"
  by (simp add: tell_app_def)

lemma run_reset_call [simp, run_simps]: "run_state (reset_call i) v = ((), put_call i (\<lambda>_. blank_call) v)"
  by (simp add: reset_call_def)

lemma run_acquire_call [simp, run_simps]:
  "run_state (acquire_call i) v = (if call_free (calls v ! i) then PJSIP_ESESSIONTERMINATED else PJ_SUCCESS, v)"
  by (simp add: acquire_call_def)

lemma put_call_fields [simp]:
  "call_cnt (put_call i f v) = call_cnt v" "next_call_id (put_call i f v) = next_call_id v"
  "app_log (put_call i f v) = app_log v" "length (calls (put_call i f v)) = length (calls v)"
  "ext (put_call i f v) = ext v" "accounts (put_call i f v) = accounts v"
  by (simp_all add: put_call_def)

lemma calls_put_call: "calls (put_call i f v) = (calls v)[i := f (calls v ! i)]"
  by (simp add: put_call_def)

lemma put_call_nth: "j < length (calls v) \<Longrightarrow> calls (put_call i f v) ! j = (if i = j then f (calls v ! i) else calls v ! j)"
  by (simp add: put_call_def nth_list_update)

lemma put_call_same [simp]: "i < length (calls v) \<Longrightarrow> calls (put_call i f v) ! i = f (calls v ! i)"
  by (simp add: put_call_def)

section \<open>Media\<close>

text \<open>A call without the fields of its media, and what media functions keep.\<close>

definition sig_of :: "pjsua_call \<Rightarrow> pjsua_call" where
  "sig_of c = c\<lparr>audio_idx := 0, call_media := [], media_dirs := [], med_cnt := 0, med_prov_cnt := 0, med_ch_deinit := False\<rparr>"

lemma sig_of_fields:
  assumes "sig_of c = sig_of d"
  shows "call_inv c = call_inv d" "call_attached c = call_attached d" "call_async_dlg c = call_async_dlg d"
    "hanging_up c = hanging_up d" "last_code c = last_code d" "call_role_uas c = call_role_uas d"
    "call_opt c = call_opt d" "med_ch_cb c = med_ch_cb d"
    "inc_answers c = inc_answers d" "hangup_retry c = hangup_retry d" "hangup_code c = hangup_code d"
    "hangup_timer c = hangup_timer d" "local_hold c = local_hold d" "reinv_timer c = reinv_timer d"
    "replaced_dlg c = replaced_dlg d" "call_hold_type c = call_hold_type d" "out_hangup c = out_hangup d"
    "opt_inited c = opt_inited d" "inc_hangup c = inc_hangup d"
proof -
  have f: "f (sig_of c) = f (sig_of d)" for f :: "pjsua_call \<Rightarrow> 'v" using assms by simp
  show "call_inv c = call_inv d" using f [of call_inv] by (simp add: sig_of_def)
  show "call_attached c = call_attached d" using f [of call_attached] by (simp add: sig_of_def)
  show "call_async_dlg c = call_async_dlg d" using f [of call_async_dlg] by (simp add: sig_of_def)
  show "hanging_up c = hanging_up d" using f [of hanging_up] by (simp add: sig_of_def)
  show "last_code c = last_code d" using f [of last_code] by (simp add: sig_of_def)
  show "call_role_uas c = call_role_uas d" using f [of call_role_uas] by (simp add: sig_of_def)
  show "call_opt c = call_opt d" using f [of call_opt] by (simp add: sig_of_def)
  show "med_ch_cb c = med_ch_cb d" using f [of med_ch_cb] by (simp add: sig_of_def)
  show "inc_answers c = inc_answers d" using f [of inc_answers] by (simp add: sig_of_def)
  show "hangup_retry c = hangup_retry d" using f [of hangup_retry] by (simp add: sig_of_def)
  show "hangup_code c = hangup_code d" using f [of hangup_code] by (simp add: sig_of_def)
  show "hangup_timer c = hangup_timer d" using f [of hangup_timer] by (simp add: sig_of_def)
  show "local_hold c = local_hold d" using f [of local_hold] by (simp add: sig_of_def)
  show "reinv_timer c = reinv_timer d" using f [of reinv_timer] by (simp add: sig_of_def)
  show "replaced_dlg c = replaced_dlg d" using f [of replaced_dlg] by (simp add: sig_of_def)
  show "call_hold_type c = call_hold_type d" using f [of call_hold_type] by (simp add: sig_of_def)
  show "out_hangup c = out_hangup d" using f [of out_hangup] by (simp add: sig_of_def)
  show "opt_inited c = opt_inited d" using f [of opt_inited] by (simp add: sig_of_def)
  show "inc_hangup c = inc_hangup d" using f [of inc_hangup] by (simp add: sig_of_def)
qed

lemma sig_of_info_state:
  assumes "sig_of c = sig_of d"
  shows "call_info_state c = call_info_state d"
  unfolding call_info_state_def sig_of_fields(1,3-6) [OF assms] by (rule refl)

definition sig_view :: "'x pjsua_var \<Rightarrow> pjsua_call list \<times> u32 \<times> int \<times> app_event list" where
  "sig_view v = (map sig_of (calls v), call_cnt v, next_call_id v, app_log v)"

definition quiet :: "('x, 'a) pv_m \<Rightarrow> bool" where
  "quiet m \<longleftrightarrow> keeps sig_view m"

definition media_quiet :: "'x sip \<Rightarrow> bool" where
  "media_quiet U \<longleftrightarrow> (\<forall>i uas. quiet (sp_med_init U i uas)) \<and> (\<forall>i. quiet (sp_med_deinit U i))
     \<and> (\<forall>i. quiet (sp_med_sdp U i)) \<and> (\<forall>i. quiet (sp_med_update U i)) \<and> (\<forall>i. quiet (sp_med_revert U i))"

lemma media_quietD:
  assumes "media_quiet U"
  shows "quiet (sp_med_init U i uas)" "quiet (sp_med_deinit U i)" "quiet (sp_med_sdp U i)" "quiet (sp_med_update U i)"
    "quiet (sp_med_revert U i)"
  using assms by (simp_all add: media_quiet_def)

lemma sig_viewD:
  assumes "sig_view w = sig_view v"
  shows "length (calls w) = length (calls v)" "call_cnt w = call_cnt v" "next_call_id w = next_call_id v"
    "app_log w = app_log v" "i < length (calls v) \<Longrightarrow> sig_of (calls w ! i) = sig_of (calls v ! i)"
proof -
  have "map sig_of (calls w) = map sig_of (calls v)" and rest: "call_cnt w = call_cnt v" "next_call_id w = next_call_id v"
    "app_log w = app_log v"
    using assms by (simp_all add: sig_view_def)
  then show "length (calls w) = length (calls v)" "call_cnt w = call_cnt v" "next_call_id w = next_call_id v"
    "app_log w = app_log v"
    by (simp_all add: map_equality_iff)
  show "sig_of (calls w ! i) = sig_of (calls v ! i)" if "i < length (calls v)"
    using \<open>map sig_of (calls w) = map sig_of (calls v)\<close> that by (metis length_map nth_map)
qed

lemma quiet_neutral: "neutral m \<Longrightarrow> quiet m"
  unfolding quiet_def keeps_def neutral_def same_def tables_def sig_view_def by simp

lemma quiet_ext: "quiet (on_ext f)" "quiet (upd_ext g)"
  by (simp_all add: quiet_def keeps_def sig_view_def)

lemma quiet_bind: "quiet m \<Longrightarrow> (\<And>x. quiet (n x)) \<Longrightarrow> quiet (State_Monad.bind m n)"
  unfolding quiet_def by (rule keeps_bind)

lemma pres_quiet:
  assumes "quiet m" "\<And>v w. sig_view w = sig_view v \<Longrightarrow> I v \<Longrightarrow> I w"
  shows "pres I m"
  using assms by (auto simp: quiet_def keeps_def pres_def)

section \<open>The call table\<close>

definition attached_calls :: "'x pjsua_var \<Rightarrow> nat set" where
  "attached_calls v = {j. j < length (calls v) \<and> call_attached (calls v ! j)}"

definition slot_sound :: "nat \<Rightarrow> pjsua_call \<Rightarrow> bool" where
  "slot_sound n c \<longleftrightarrow> (call_attached c \<longrightarrow> call_inv c \<noteq> None) \<and> (\<forall>r. replaced_dlg c = Some r \<longrightarrow> r < n)"

definition settled :: "pjsua_call \<Rightarrow> bool" where
  "settled c \<longleftrightarrow> (call_inv c \<noteq> None \<longrightarrow> call_attached c) \<and> (med_ch_cb c = Some MakeCallCb \<longrightarrow> \<not> call_attached c)"

text \<open>
  The table is sound: attached calls have a session, a replaced call is in the table, and the number of
  calls counts the attached ones. Between operations all sessions are attached too, but not the calls whose
  media an outgoing call waits for; \<open>X\<close> are the slots whose call is being set up.
\<close>

definition sound :: "nat set \<Rightarrow> 'x pjsua_var \<Rightarrow> bool" where
  "sound X v \<longleftrightarrow> length (calls v) < 2 ^ 31 \<and> (\<forall>j < length (calls v). slot_sound (length (calls v)) (calls v ! j))
     \<and> call_cnt v = of_nat (card (attached_calls v))
     \<and> (\<forall>j < length (calls v). j \<notin> X \<longrightarrow> settled (calls v ! j))"

definition call_table_ok :: "'x pjsua_var \<Rightarrow> bool" where
  "call_table_ok v \<longleftrightarrow> sound {} v"

lemma finite_attached [simp]: "finite (attached_calls v)"
  by (simp add: attached_calls_def)

lemma card_attached_le: "card (attached_calls v) \<le> length (calls v)"
proof -
  have "attached_calls v \<subseteq> {..<length (calls v)}" by (auto simp: attached_calls_def)
  then have "card (attached_calls v) \<le> card {..<length (calls v)}" by (intro card_mono) simp
  then show ?thesis by simp
qed

lemma sound_view:
  assumes "sig_view w = sig_view v" "sound X v"
  shows "sound X w"
proof -
  note view = sig_viewD [OF assms(1)]
  have eq: "slot_sound n (calls w ! j) = slot_sound n (calls v ! j)" "settled (calls w ! j) = settled (calls v ! j)"
    "call_attached (calls w ! j) = call_attached (calls v ! j)" if "j < length (calls v)" for j n
    using sig_of_fields(1,2,8,15) [OF view(5) [OF that]] by (simp_all add: slot_sound_def settled_def)
  have "attached_calls w = attached_calls v" unfolding attached_calls_def view(1) using eq(3) by blast
  then show ?thesis using assms(2) eq(1,2) unfolding sound_def view(1,2) by metis
qed

lemma pres_sound_quiet: "quiet m \<Longrightarrow> pres (sound X) m"
  by (rule pres_quiet) (auto intro: sound_view)

lemma sound_fields [simp]:
  "sound X (v\<lparr>app_log := l\<rparr>) = sound X v" "sound X (v\<lparr>ext := e\<rparr>) = sound X v" "sound X (v\<lparr>next_call_id := k\<rparr>) = sound X v"
  by (simp_all add: sound_def attached_calls_def)

lemma attached_put_call:
  "attached_calls (put_call i f v) =
     (if i < length (calls v) \<and> call_attached (f (calls v ! i)) then insert i (attached_calls v)
      else attached_calls v - {i})"
  by (auto simp: attached_calls_def put_call_nth split: if_splits)

text \<open>Changes of a call that keep its session and its attachment, and never undo a hang-up.\<close>

definition mild :: "(pjsua_call \<Rightarrow> pjsua_call) \<Rightarrow> bool" where
  "mild f \<longleftrightarrow> (\<forall>c. call_attached (f c) = call_attached c \<and> call_inv (f c) = call_inv c
                 \<and> replaced_dlg (f c) = replaced_dlg c
                 \<and> (hanging_up c \<longrightarrow> hanging_up (f c)) \<and> (call_async_dlg (f c) \<longrightarrow> call_async_dlg c)
                 \<and> (med_ch_cb (f c) = Some MakeCallCb \<longrightarrow> med_ch_cb c = Some MakeCallCb))"

lemma sound_put_call:
  assumes "sound X v"
    and "call_attached (f (calls v ! i)) = call_attached (calls v ! i)"
    and "slot_sound (length (calls v)) (f (calls v ! i))" "i \<notin> X \<Longrightarrow> settled (f (calls v ! i))"
  shows "sound X (put_call i f v)"
proof -
  have "attached_calls (put_call i f v) = attached_calls v"
    using assms(2) by (auto simp: attached_calls_def put_call_nth split: if_splits)
  then show ?thesis using assms by (auto simp: sound_def put_call_nth)
qed

lemma sound_mild:
  assumes "sound X v" "mild f"
  shows "sound X (put_call i f v)"
proof (cases "i < length (calls v)")
  case True
  then show ?thesis using assms
    by (intro sound_put_call) (auto simp: sound_def mild_def slot_sound_def settled_def)
next
  case False
  then have "put_call i f v = v" by (simp add: put_call_def list_update_beyond)
  then show ?thesis using assms(1) by simp
qed

lemma pres_mild: "mild f \<Longrightarrow> pres (sound X) (upd_call i f)"
  by (auto simp: pres_def intro: sound_mild)

end
