(* ===== verification/Sig_Table.thy ===== *)
theory Sig_Table
  imports Sig_Laws
begin

text \<open>
  What it takes for a property to survive the reports of a session and everything pjsua does with a
  call: the locale \<open>call_property\<close> says which changes of one call the property must survive, and its lemmas
  run through the operations once. The soundness of the call table is such a property, and so is that
  a call stays detached.
\<close>

section \<open>Properties of a call\<close>

lemma pres_get_call [pres_intro]: "pres I (get_call i)"
  by (simp add: pres_def)

lemma pres_acquire_call [pres_intro]: "pres I (acquire_call i)"
  by (simp add: pres_def)

lemma pres_tsx_event [pres_intro]:
  "(\<And>code. pres I (f code)) \<Longrightarrow> pres I g \<Longrightarrow> pres I (case ev of TsxState code \<Rightarrow> f code | OtherEvent \<Rightarrow> g)"
  by (cases ev) auto

lemma pres_prod_fun [pres_intro]: "(\<And>a b. pres I (f a b z)) \<Longrightarrow> pres I ((case y of (a, b) \<Rightarrow> f a b) z)"
  by (cases y) auto

lemma pres_med_outcome [pres_intro]:
  "(\<And>st err. pres I (f1 st err)) \<Longrightarrow> (\<And>st err. pres I (f2 st err)) \<Longrightarrow> pres I f3 \<Longrightarrow> (\<And>st err. pres I (f4 st err)) \<Longrightarrow>
   pres I (case r of MedEarly st err \<Rightarrow> f1 st err | MedLate st err \<Rightarrow> f2 st err | MedPending \<Rightarrow> f3 | MedDone st err \<Rightarrow> f4 st err)"
  by (cases r) auto

lemmas quiet_laws = quiet_ext quiet_neutral [OF neutral_check_snd_dev_idle] media_quietD

lemma mild_fields [simp]:
  "x1 \<noteq> Some MakeCallCb \<Longrightarrow> mild (\<lambda>c. c\<lparr>med_ch_cb := x1\<rparr>)" "mild (\<lambda>c. c\<lparr>call_opt := f2 c\<rparr>)" "mild (\<lambda>c. c\<lparr>reinv_timer := x3\<rparr>)"
  "mild (\<lambda>c. c\<lparr>last_code := f4 c\<rparr>)" "mild (\<lambda>c. c\<lparr>hangup_timer := x5\<rparr>)" "mild (\<lambda>c. c\<lparr>hangup_code := x6\<rparr>)"
  "mild (\<lambda>c. c\<lparr>hangup_retry := f7 c\<rparr>)" "mild (\<lambda>c. c\<lparr>hanging_up := True\<rparr>)" "mild (\<lambda>c. c\<lparr>reinv_pending := x9\<rparr>)"
  "mild (\<lambda>c. c\<lparr>med_update_success := x10\<rparr>)" "mild (\<lambda>c. c\<lparr>opt_inited := x11\<rparr>)" "mild (\<lambda>c. c\<lparr>inc_answers := f12 c\<rparr>)"
  "mild (\<lambda>c. c\<lparr>hold_msg := x13\<rparr>)" "mild (\<lambda>c. c\<lparr>local_hold := x14\<rparr>)"
  "mild (\<lambda>c. c\<lparr>incoming_data := x16\<rparr>)" "mild (\<lambda>c. c\<lparr>local_hold := x14, call_opt := f2 c\<rparr>)"
  "mild (\<lambda>c. c\<lparr>call_acc_id := x17, call_hold_type := x18\<rparr>)" "mild (\<lambda>c. c\<lparr>incoming_data := x16, call_acc_id := x17\<rparr>)"
  "mild (\<lambda>c. c\<lparr>call_hold_type := x18, secure_level := x19\<rparr>)"
  "mild (\<lambda>c. if call_inv c \<noteq> None \<and> call_role_uas c then c\<lparr>inc_hangup := x20, hanging_up := True\<rparr>
             else c\<lparr>out_hangup := x21, hanging_up := True\<rparr>)"
  by (simp_all add: mild_def)

text \<open>The call an event tells the application of.\<close>

fun about_call :: "app_event \<Rightarrow> int" where
  "about_call (AppIncomingCall acc call) = call"
| "about_call (AppCallState call st) = call"
| "about_call (AppCallMediaState call) = call"

text \<open>Only a new incoming call is announced; reports of a session never do that.\<close>

fun announces :: "app_event \<Rightarrow> bool" where
  "announces (AppIncomingCall acc call) = True"
| "announces (AppCallState call st) = False"
| "announces (AppCallMediaState call) = False"

text \<open>The call has a session, which may be attached: what reports of the session start from.\<close>

definition in_call :: "('x pjsua_var \<Rightarrow> bool) \<Rightarrow> nat \<Rightarrow> 'x pjsua_var \<Rightarrow> bool" where
  "in_call I i v \<longleftrightarrow> I v \<and> call_inv (calls v ! i) \<noteq> None"

definition still_attached :: "('x pjsua_var \<Rightarrow> bool) \<Rightarrow> nat \<Rightarrow> 'x pjsua_var \<Rightarrow> bool" where
  "still_attached I i v \<longleftrightarrow> in_call I i v \<and> call_attached (calls v ! i)"

lemma other_callbacks:
  "None \<noteq> Some MakeCallCb" "Some AnswerCallCb \<noteq> Some MakeCallCb" "Some IncomingCallCb \<noteq> Some MakeCallCb"
  by simp_all

locale call_reports =
  fixes I :: "'x pjsua_var \<Rightarrow> bool" and i :: nat
  assumes view: "sig_view w = sig_view v \<Longrightarrow> I v \<Longrightarrow> I w"
    and in_table: "I v \<Longrightarrow> i < length (calls v)"
    and mildly: "mild f \<Longrightarrow> I v \<Longrightarrow> I (put_call i f v)"
    and reported: "about_call e = int i \<Longrightarrow> \<not> announces e \<Longrightarrow> \<not> hanging_up (calls v ! i) \<Longrightarrow> call_inv (calls v ! i) \<noteq> None
      \<Longrightarrow> I v \<Longrightarrow> I (v\<lparr>app_log := app_log v @ [e]\<rparr>)"
    and moved: "call_inv (calls v ! i) \<noteq> None \<Longrightarrow> I v \<Longrightarrow>
                I (put_call i (\<lambda>c. c\<lparr>call_inv := Some st, call_inv_cause := k\<rparr>) v)"
    and freed: "call_attached (calls v ! i) \<Longrightarrow> I v \<Longrightarrow>
                I (put_call i (\<lambda>_. blank_call) (v\<lparr>call_cnt := call_cnt v - 1\<rparr>))"
begin

lemma pres_calm: "quiet m \<Longrightarrow> pres I m"
  by (rule pres_quiet) (auto intro: view)

lemma pres_mildly: "mild f \<Longrightarrow> pres I (upd_call i f)"
  by (simp add: pres_def mildly)

lemmas basic = quiet_laws [THEN pres_calm] pres_mildly mild_fields other_callbacks

lemma pres_timers:
  "pres I (call_timer H t ms)" "pres I (stop_reinv_timer H i)" "pres I (pjsua_call_schedule_reinvite_check H i ms)"
  "pres I (notify_transferer U i st ev)"
  unfolding call_timer_def stop_reinv_timer_def pjsua_call_schedule_reinvite_check_def notify_transferer_def
  by (intro pres_intro basic)+

lemma in_call_kept:
  "quiet m \<Longrightarrow> pres (in_call I i) m" "mild f \<Longrightarrow> pres (in_call I i) (upd_call i f)"
  "pres (in_call I i) (tell_state i)" "pres (in_call I i) (tell_media_state i)"
proof -
  show "quiet m \<Longrightarrow> pres (in_call I i) m"
  proof (rule pres_quiet)
    fix v w :: "'x pjsua_var"
    assume eq: "sig_view w = sig_view v" and v: "in_call I i v"
    then have "sig_of (calls w ! i) = sig_of (calls v ! i)" using sig_viewD(5) [OF eq] in_table by (simp add: in_call_def)
    from sig_of_fields(1) [OF this] show "in_call I i w" using v view [OF eq] by (simp add: in_call_def)
  qed
  show "pres (in_call I i) (upd_call i f)" if "mild f"
    using in_table that by (auto simp: pres_def in_call_def mildly) (simp add: mild_def)
qed (auto simp: pres_def in_call_def tell_state_def tell_media_state_def reported)

lemma attached_kept:
  "quiet m \<Longrightarrow> pres (still_attached I i) m" "mild f \<Longrightarrow> pres (still_attached I i) (upd_call i f)"
  "pres (still_attached I i) (tell_state i)"
proof -
  show "quiet m \<Longrightarrow> pres (still_attached I i) m"
  proof (rule pres_quiet)
    fix v w :: "'x pjsua_var"
    assume eq: "sig_view w = sig_view v" and v: "still_attached I i v"
    then have "sig_of (calls w ! i) = sig_of (calls v ! i)"
      using sig_viewD(5) [OF eq] in_table by (simp add: still_attached_def in_call_def)
    from sig_of_fields(1,2) [OF this] show "still_attached I i w"
      using v view [OF eq] by (simp add: still_attached_def in_call_def)
  qed
  show "pres (still_attached I i) (upd_call i f)" if "mild f"
    using in_table that by (auto simp: pres_def still_attached_def in_call_def mildly) (simp_all add: mild_def)
qed (auto simp: pres_def still_attached_def in_call_def tell_state_def reported)

lemmas call_basic = quiet_laws [THEN in_call_kept(1)] in_call_kept(2-) mild_fields
lemmas att_basic = quiet_laws [THEN attached_kept(1)] attached_kept(2,3) mild_fields

lemma att_reports: "pres (still_attached I i) (stop_reinv_timer H i)" "pres (still_attached I i) (notify_transferer U i st ev)"
  unfolding stop_reinv_timer_def notify_transferer_def by (intro pres_intro att_basic)+

lemma call_reports': "pres (in_call I i) (notify_transferer U i st ev)" "pres (in_call I i) (pjsua_call_schedule_reinvite_check H i ms)"
  unfolding call_timer_def pjsua_call_schedule_reinvite_check_def notify_transferer_def
  by (intro pres_intro call_basic)+

lemma out_of_call: "pres I m \<Longrightarrow> leads (in_call I i) m (\<lambda>_. I)"
  by (simp add: leads_def pres_def in_call_def)

lemma free_call: "still_attached I i v \<Longrightarrow> I (exec (free_call i) v)"
  using presD [OF pres_calm [OF quiet_laws(3)] freed] by (simp add: free_call_def still_attached_def in_call_def)

lemma on_disconnected:
  assumes "media_quiet U"
  shows "leads (in_call I i) (on_disconnected H U i ev) (\<lambda>_. I)"
  unfolding leads_def
proof (intro allI impI)
  fix v :: "'x pjsua_var"
  assume v: "in_call I i v"
  define prep where "prep = do {
       upd_call i (\<lambda>c. c\<lparr>last_code :=
         (case ev of TsxState code \<Rightarrow> if code > last_code c then code else 487 | OtherEvent \<Rightarrow> 487)\<rparr>);
       stop_reinv_timer H i;
       notify_transferer U i INV_DISCONNECTED ev;
       c \<leftarrow> get_call i;
       only_if (\<not> hanging_up c) (sp_med_deinit U i);
       tell_state i :: ('x, unit) pv_m }"
  have "pres (still_attached I i) prep" unfolding prep_def by (intro pres_intro att_basic att_reports assms)
  then have "I (exec (free_call i) (exec prep v))" if "call_attached (calls v ! i)"
    using that v by (intro free_call) (auto simp: pres_def still_attached_def)
  moreover have "exec (on_disconnected H U i ev) v
      = (if call_attached (calls v ! i) then exec (free_call i) (exec prep v) else v)"
    unfolding on_disconnected_def prep_def finish_state_change_def by (simp add: split_beta only_if_def)
  ultimately show "I (exec (on_disconnected H U i ev) v)" using v by (simp add: in_call_def)
qed

lemma in_session_moved:
  assumes "leads (in_call I i) m (\<lambda>_. I)"
  shows "pres I (in_session i (do { upd_call i (\<lambda>c. c\<lparr>call_inv := Some st, call_inv_cause := k\<rparr>); m }))"
  unfolding pres_def
proof (intro allI impI)
  fix v :: "'x pjsua_var"
  assume v: "I v"
  let ?w = "put_call i (\<lambda>c. c\<lparr>call_inv := Some st, call_inv_cause := k\<rparr>) v"
  have "in_call I i ?w" if "call_inv (calls v ! i) \<noteq> None"
    using moved [OF that v] in_table [OF v] by (simp add: in_call_def)
  then show "I (exec (in_session i (do { upd_call i (\<lambda>c. c\<lparr>call_inv := Some st, call_inv_cause := k\<rparr>); m })) v)"
    using leadsD [OF assms, of ?w] v by (simp add: in_session_def)
qed

lemma in_session_plain:
  assumes "leads (in_call I i) m (\<lambda>_. I)"
  shows "pres I (in_session i m)"
  using leadsD [OF assms] by (simp add: pres_def in_session_def in_call_def)

lemma session_disconnected: "media_quiet U \<Longrightarrow> pres I (session_disconnected H U i notify d)"
  unfolding session_disconnected_def
  by (intro in_session_moved leads_only_if on_disconnected) (auto simp: in_call_def)

lemma inv_terminate: "media_quiet U \<Longrightarrow> pres I (inv_terminate H U i code notify)"
  unfolding inv_terminate_def by (intro pres_intro basic session_disconnected)

lemma send_end: "media_quiet U \<Longrightarrow> pres I (send_end H U i code)"
  unfolding send_end_def by (intro pres_intro basic session_disconnected)

lemma end_session: "media_quiet U \<Longrightarrow> pres I (call_inv_end_session H U i code)"
  unfolding call_inv_end_session_def retry_end_def Let_def by (intro pres_intro basic send_end inv_terminate pres_timers)

lemma hangup_timer_cb: "media_quiet U \<Longrightarrow> pres I (hangup_timer_cb H U i)"
  unfolding hangup_timer_cb_def by (intro pres_intro basic end_session)

lemma media_init: "media_quiet U \<Longrightarrow> cb \<noteq> Some MakeCallCb \<Longrightarrow> pres I (media_channel_init U i uas cb)"
  unfolding media_channel_init_def by (intro pres_intro basic) simp_all

lemma apply_setting: "media_quiet U \<Longrightarrow> pres I (apply_call_setting U i opt)"
  unfolding apply_call_setting_def by (intro pres_intro basic media_init)

lemma pending_hangup: "media_quiet U \<Longrightarrow> pres I (process_pending_call_hangup H U i)"
  unfolding process_pending_call_hangup_def by (intro pres_intro basic end_session)

lemma on_state_changed:
  assumes "media_quiet U"
  shows "leads (in_call I i) (pjsua_call_on_state_changed H U i st ev) (\<lambda>_. I)"
proof -
  have finish: "leads (in_call I i) (finish_state_change U i st ev) (\<lambda>_. I)" if "st \<noteq> INV_DISCONNECTED"
    unfolding finish_state_change_def
    by (intro leads_then leads_only_if call_reports' call_basic pres_intro assms) (simp_all add: that in_call_def)
  have pre: "pres (in_call I i) (if st = INV_CONFIRMED then
          only_if b (do {
            upd_call i (\<lambda>c. c\<lparr>reinv_pending := False\<rparr>);
            pjsua_call_schedule_reinvite_check H i 0
          })
        else upd_call i (\<lambda>c. c\<lparr>last_code := g c\<rparr>))" for b g
    by (intro pres_intro call_basic call_reports')
  show ?thesis unfolding pjsua_call_on_state_changed_def
    by (intro leads_then [OF pres_get_call] leads_if leads_then [OF pre] finish on_disconnected out_of_call pres_ret
        end_session assms)
qed

lemma call_disconnect: "media_quiet U \<Longrightarrow> pres I (call_disconnect H U i code)"
  unfolding call_disconnect_def by (intro pres_intro send_end)

lemma on_media_update:
  assumes "media_quiet U"
  shows "leads (in_call I i) (pjsua_call_on_media_update H U i st) (\<lambda>_. I)"
proof -
  have disconnect: "leads (in_call I i) (only_if b (call_disconnect H U i code)) (\<lambda>_. I)" for b code
    by (intro out_of_call pres_intro call_disconnect assms)
  have told: "leads (in_call I i) (tell_media_state i) (\<lambda>_. I)"
    by (rule leads_post [OF leads_pres [OF in_call_kept(4)]]) (simp add: in_call_def)
  show ?thesis unfolding pjsua_call_on_media_update_def
    by (intro leads_then leads_if disconnect told out_of_call [OF call_disconnect] out_of_call [OF pres_ret] pres_get_call
        call_basic call_reports' assms)
qed

lemma deliver:
  assumes "media_quiet U"
  shows "pres I (deliver H U i nt)"
proof (cases nt)
  case (StateChanged st ev cause)
  show ?thesis unfolding deliver_def StateChanged inv_notice.case by (intro in_session_moved on_state_changed assms)
next
  case (MediaUpdate st)
  show ?thesis unfolding deliver_def MediaUpdate inv_notice.case by (intro in_session_plain on_media_update assms)
qed

lemma sends:
  assumes "media_quiet U"
  shows "pres I (inv_send_msg H U i m)" "pres I (inv_answer H U i code)"
  unfolding inv_send_msg_def inv_answer_def by (intro pres_intro basic deliver assms)+

text \<open>Answers.\<close>

lemma pending_loop:
  assumes "\<And>opt code. pres I (answer i opt code)"
  shows "pres I (pending_loop U answer n i)"
proof (induction n)
  case (Suc n)
  have "pres I (case inc_answers c of
       [] \<Rightarrow> ret True
     | (opt, code) # rest \<Rightarrow> do {
         _ \<leftarrow> answer i opt code;
         c \<leftarrow> get_call i;
         pool \<leftarrow> gets (\<lambda>v. sp_has_pool U i (ext v));
         if call_inv c = None \<or> \<not> pool then ret True
         else do {
           upd_call i (\<lambda>c. c\<lparr>inc_answers := tl (inc_answers c)\<rparr>);
           if rest = [] then ret True else pending_loop U answer n i
         }
       })" for c
    by (cases "inc_answers c"; simp only: list.case) (intro pres_intro basic assms Suc.IH)+
  then show ?case unfolding pending_loop.simps by (intro pres_bind pres_get_call)
qed (simp add: pres_ret)

lemma pending_answers:
  assumes "\<And>opt code. pres I (answer i opt code)"
  shows "pres I (process_pending_call_answer U answer n i)"
  unfolding process_pending_call_answer_def by (intro pres_intro pending_loop assms)

lemma answer_media:
  assumes "media_quiet U" "\<And>opt code. pres I (answer i opt code)"
  shows "pres I (on_answer_call_med_tp_complete H U answer n i info)"
  unfolding on_answer_call_med_tp_complete_def end_without_media_def Let_def
  by (intro pres_intro basic pending_answers call_disconnect assms)

lemma give_answer: "media_quiet U \<Longrightarrow> pres I (give_answer H U i opt code st)"
  unfolding give_answer_def by (intro pres_intro basic sends)

lemma answer_fuel:
  assumes "media_quiet U"
  shows "pres I (answer_fuel n H U i opt code)"
proof (induction n arbitrary: opt code)
  case (Suc n)
  show ?case unfolding answer_fuel.simps answer_body_def
    by (intro pres_intro basic apply_setting media_init answer_media give_answer assms Suc.IH)
qed (simp add: pres_ret)

lemma answer: "media_quiet U \<Longrightarrow> nat k = i \<Longrightarrow> pres I (pjsua_call_answer2 n H U k opt code)"
  unfolding pjsua_call_answer2_def by (simp only:) (intro pres_intro answer_fuel)

text \<open>Hold, re-INVITE and UPDATE.\<close>

lemma hold_sdp: "media_quiet U \<Longrightarrow> pres I (create_sdp_of_call_hold U i)"
  unfolding create_sdp_of_call_hold_def by (intro pres_intro basic)

lemma update_dialog: "pres I (update_dialog U i flags)"
  unfolding update_dialog_def by (intro pres_intro basic)

lemma set_hold:
  assumes "media_quiet U" "nat k = i"
  shows "pres I (pjsua_call_set_hold2 H U k options)"
proof -
  have hold: "pres I (send_hold H U i options)"
    unfolding send_hold_def by (intro pres_intro basic hold_sdp update_dialog sends assms)
  show ?thesis unfolding pjsua_call_set_hold2_def Let_def assms(2)
    by (intro pres_intro apply_setting hold assms(1))
qed

lemma send_offer: "media_quiet U \<Longrightarrow> pres I (send_offer H U i create msg)"
  unfolding send_offer_def create_offer_def by (intro pres_intro basic hold_sdp update_dialog sends)

lemma requests:
  assumes "media_quiet U" "nat k = i"
  shows "pres I (pjsua_call_reinvite2 H U k opt)" "pres I (pjsua_call_update2 H U k opt)"
  unfolding pjsua_call_reinvite2_def pjsua_call_update2_def Let_def assms(2)
  by (intro pres_intro apply_setting assms(1) send_offer assms(1))+

lemma with_options:
  assumes "nat k = i" "\<And>opt. pres I (request k opt)"
  shows "pres I (with_options request k options)"
proof -
  have "pres I (upd_call (nat k) (\<lambda>c. c\<lparr>call_opt := (call_opt c)\<lparr>opt_flag := options\<rparr>\<rparr>))"
    unfolding assms(1) by (intro basic)
  then show ?thesis unfolding with_options_def Let_def by (intro pres_intro assms(2))
qed

end

text \<open>A hang-up tells the application after it has marked the call.\<close>

locale call_property = call_reports I i for I :: "'x pjsua_var \<Rightarrow> bool" and i :: nat +
  assumes told: "about_call e = int i \<Longrightarrow> \<not> announces e \<Longrightarrow> I v \<Longrightarrow> I (v\<lparr>app_log := app_log v @ [e]\<rparr>)"
begin

lemma pres_told: "pres I (tell_app (AppCallState (int i) st))" "pres I (tell_state i)" "pres I (tell_media_state i)"
  by (simp_all add: pres_def told tell_state_def tell_media_state_def)

lemma hangup: "media_quiet U \<Longrightarrow> nat k = i \<Longrightarrow> pres I (pjsua_call_hangup H U k code)"
  unfolding pjsua_call_hangup_def Let_def by (simp only:) 
    (intro pres_intro pres_told basic end_session pres_timers)

end

section \<open>The call table is such a property\<close>

definition tab :: "nat \<Rightarrow> nat set \<Rightarrow> 'x pjsua_var \<Rightarrow> bool" where
  "tab n X v \<longleftrightarrow> sound X v \<and> length (calls v) = n"

definition detached :: "nat \<Rightarrow> 'x pjsua_var \<Rightarrow> bool" where
  "detached i v \<longleftrightarrow> i < length (calls v) \<and> \<not> call_attached (calls v ! i)"

lemma blank_fields [simp]:
  "call_inv blank_call = None" "\<not> call_attached blank_call" "\<not> call_async_dlg blank_call" "\<not> hanging_up blank_call"
  "med_ch_cb blank_call = None" "inc_answers blank_call = []" "replaced_dlg blank_call = None"
  "\<not> inc_hangup blank_call" "\<not> out_hangup blank_call"
  by (simp_all add: blank_call_def)

lemma blank_slot [simp]: "slot_sound n blank_call" "settled blank_call" "call_free blank_call"
  by (simp_all add: slot_sound_def settled_def call_free_def)

lemma tab_view: "sig_view w = sig_view v \<Longrightarrow> tab n X v \<Longrightarrow> tab n X w"
  using sound_view sig_viewD(1) by (metis tab_def)

lemma sound_freed:
  assumes "sound X v" "i < length (calls v)" "call_attached (calls v ! i)"
  shows "sound X (put_call i (\<lambda>_. blank_call) (v\<lparr>call_cnt := call_cnt v - 1\<rparr>))" (is "sound X ?w")
proof -
  have i: "i \<in> attached_calls v" using assms by (simp add: attached_calls_def)
  have "attached_calls ?w = attached_calls v - {i}"
    by (auto simp: attached_calls_def put_call_nth split: if_splits)
  moreover have "card (attached_calls v) = Suc (card (attached_calls v - {i}))"
    using i by (metis card.remove finite_attached)
  ultimately have "call_cnt ?w = of_nat (card (attached_calls ?w))" using assms(1) by (simp add: sound_def)
  then show ?thesis using assms(1) by (auto simp: sound_def put_call_nth)
qed

interpretation table: call_property "\<lambda>v. tab n X v \<and> i < n" i for n X i
proof unfold_locales
  fix v w :: "'a pjsua_var"
  assume "sig_view w = sig_view v" "tab n X v \<and> i < n"
  then show "tab n X w \<and> i < n" using tab_view by blast
next
  fix v :: "'a pjsua_var" and f
  assume "mild f" "tab n X v \<and> i < n"
  then show "tab n X (put_call i f v) \<and> i < n" by (simp add: tab_def sound_mild)
next
  fix v :: "'a pjsua_var" and st k
  assume inv: "call_inv (calls v ! i) \<noteq> None" and v: "tab n X v \<and> i < n"
  let ?f = "\<lambda>c. c\<lparr>call_inv := Some st, call_inv_cause := k\<rparr>"
  have "slot_sound n (calls v ! i)" "i \<notin> X \<longrightarrow> settled (calls v ! i)" using v by (auto simp: tab_def sound_def)
  then have "slot_sound n (?f (calls v ! i))" "i \<notin> X \<Longrightarrow> settled (?f (calls v ! i))"
    using inv by (auto simp: slot_sound_def settled_def)
  then have "sound X (put_call i ?f v)" using v by (intro sound_put_call) (simp_all add: tab_def)
  then show "tab n X (put_call i ?f v) \<and> i < n" using v by (simp add: tab_def)
next
  fix v :: "'a pjsua_var"
  assume "call_attached (calls v ! i)" "tab n X v \<and> i < n"
  then show "tab n X (put_call i (\<lambda>_. blank_call) (v\<lparr>call_cnt := call_cnt v - 1\<rparr>)) \<and> i < n"
    using sound_freed by (auto simp: tab_def)
qed (auto simp: tab_def)

text \<open>
  Two stages of the set-up of the call \<open>j\<close>: without a session, and with a session that is not attached.
\<close>

definition unused :: "nat \<Rightarrow> nat \<Rightarrow> 'x pjsua_var \<Rightarrow> bool" where
  "unused n j v \<longleftrightarrow> tab n {} v \<and> detached j v"

definition waiting :: "pjsua_call \<Rightarrow> bool" where
  "waiting c \<longleftrightarrow> \<not> call_attached c \<and> call_inv c \<noteq> None \<and> med_ch_cb c \<noteq> Some MakeCallCb"

definition fresh :: "nat \<Rightarrow> nat \<Rightarrow> 'x pjsua_var \<Rightarrow> bool" where
  "fresh n j v \<longleftrightarrow> tab n {j} v \<and> j < n \<and> waiting (calls v ! j)"

interpretation away: call_property "\<lambda>v. unused n j v \<and> i < n" i for n j i
proof unfold_locales
  fix v w :: "'a pjsua_var"
  assume eq: "sig_view w = sig_view v" and v: "unused n j v \<and> i < n"
  have "call_attached (calls w ! j) = call_attached (calls v ! j)"
    using v by (intro sig_of_fields(2) sig_viewD(5) [OF eq]) (simp add: unused_def detached_def)
  then show "unused n j w \<and> i < n" using v tab_view [OF eq] sig_viewD(1) [OF eq] by (simp add: unused_def detached_def)
next
  fix v :: "'a pjsua_var" and f
  assume f: "mild f" and v: "unused n j v \<and> i < n"
  then have "tab n {} (put_call i f v)" by (simp add: unused_def table.mildly)
  then show "unused n j (put_call i f v) \<and> i < n"
    using v f by (auto simp: unused_def detached_def tab_def put_call_nth mild_def)
next
  fix v :: "'a pjsua_var" and st k
  assume inv: "call_inv (calls v ! i) \<noteq> None" and v: "unused n j v \<and> i < n"
  then have "tab n {} (put_call i (\<lambda>c. c\<lparr>call_inv := Some st, call_inv_cause := k\<rparr>) v)"
    by (simp add: unused_def table.moved)
  then show "unused n j (put_call i (\<lambda>c. c\<lparr>call_inv := Some st, call_inv_cause := k\<rparr>) v) \<and> i < n"
    using v by (auto simp: unused_def detached_def tab_def put_call_nth)
next
  fix v :: "'a pjsua_var"
  assume at: "call_attached (calls v ! i)" and v: "unused n j v \<and> i < n"
  then have "tab n {} (put_call i (\<lambda>_. blank_call) (v\<lparr>call_cnt := call_cnt v - 1\<rparr>))"
    by (simp add: unused_def table.freed)
  then show "unused n j (put_call i (\<lambda>_. blank_call) (v\<lparr>call_cnt := call_cnt v - 1\<rparr>)) \<and> i < n"
    using v by (auto simp: unused_def detached_def tab_def put_call_nth)
qed (auto simp: unused_def tab_def detached_def)

interpretation fresh: call_property "\<lambda>v. fresh n j v \<and> i < n" i for n j i
proof unfold_locales
  fix v w :: "'a pjsua_var"
  assume eq: "sig_view w = sig_view v" and v: "fresh n j v \<and> i < n"
  have "sig_of (calls w ! j) = sig_of (calls v ! j)"
    using v by (intro sig_viewD(5) [OF eq]) (simp add: fresh_def tab_def)
  note sig = sig_of_fields(1,2,8) [OF this]
  then show "fresh n j w \<and> i < n" using v tab_view [OF eq] by (simp add: fresh_def waiting_def)
next
  fix v :: "'a pjsua_var" and f
  assume f: "mild f" and v: "fresh n j v \<and> i < n"
  then have "tab n {j} (put_call i f v)" by (simp add: fresh_def table.mildly)
  then show "fresh n j (put_call i f v) \<and> i < n"
    using v f by (auto simp: fresh_def waiting_def tab_def put_call_nth mild_def)
next
  fix v :: "'a pjsua_var" and st k
  assume inv: "call_inv (calls v ! i) \<noteq> None" and v: "fresh n j v \<and> i < n"
  then have "tab n {j} (put_call i (\<lambda>c. c\<lparr>call_inv := Some st, call_inv_cause := k\<rparr>) v)"
    by (simp add: fresh_def table.moved)
  then show "fresh n j (put_call i (\<lambda>c. c\<lparr>call_inv := Some st, call_inv_cause := k\<rparr>) v) \<and> i < n"
    using v by (auto simp: fresh_def waiting_def tab_def put_call_nth)
next
  fix v :: "'a pjsua_var"
  assume at: "call_attached (calls v ! i)" and v: "fresh n j v \<and> i < n"
  then have "tab n {j} (put_call i (\<lambda>_. blank_call) (v\<lparr>call_cnt := call_cnt v - 1\<rparr>))" "i \<noteq> j"
    by (auto simp: fresh_def table.freed waiting_def)
  then show "fresh n j (put_call i (\<lambda>_. blank_call) (v\<lparr>call_cnt := call_cnt v - 1\<rparr>)) \<and> i < n"
    using v by (auto simp: fresh_def waiting_def tab_def put_call_nth)
qed (auto simp: fresh_def tab_def)

end
