(* ===== verification/Sig_Setup.thy ===== *)
theory Sig_Setup
  imports Sig_Table
begin

text \<open>
  Setting up calls keeps the call table sound: from the free slot to the attached session of an outgoing or an
  incoming call, with every way to fail in between.
\<close>

section \<open>A call in preparation\<close>

lemma leads_upd: "(\<And>v. P v \<Longrightarrow> Q (put_call i f v)) \<Longrightarrow> leads P (upd_call i f) (\<lambda>_. Q)"
  by (simp add: leads_def)

text \<open>
  Three more stages of the call \<open>i\<close>: an attached session that the number of calls does not count yet, the
  call while its session sends the first INVITE, and the end, a sound table with a free slot.
\<close>

definition uncounted :: "nat \<Rightarrow> nat \<Rightarrow> 'x pjsua_var \<Rightarrow> bool" where
  "uncounted n i v \<longleftrightarrow> length (calls v) = n \<and> n < 2 ^ 31 \<and> i < n
     \<and> (\<forall>j < n. j \<noteq> i \<longrightarrow> slot_sound n (calls v ! j) \<and> settled (calls v ! j))
     \<and> call_cnt v = of_nat (card (attached_calls v - {i}))"

definition dialling :: "nat \<Rightarrow> nat \<Rightarrow> 'x pjsua_var \<Rightarrow> bool" where
  "dialling n i v \<longleftrightarrow> tab n {i} v \<and> i < n \<and> (call_inv (calls v ! i) \<noteq> None \<longrightarrow> call_attached (calls v ! i))"

lemma unused_slot:
  assumes "unused n i v"
  shows "tab n {} v" "detached i v" "i < n" "call_inv (calls v ! i) = None"
  using assms by (auto simp: unused_def detached_def tab_def sound_def settled_def)

lemma unused_put:
  assumes "unused n i v" "\<not> call_attached (f (calls v ! i))" "call_inv (f (calls v ! i)) = None"
    "replaced_dlg (f (calls v ! i)) = replaced_dlg (calls v ! i) \<or> replaced_dlg (f (calls v ! i)) = None"
  shows "unused n i (put_call i f v)"
proof -
  have at: "\<not> call_attached (calls v ! i)" and sl: "slot_sound n (calls v ! i)"
    using unused_slot [OF assms(1)] by (auto simp: detached_def tab_def sound_def)
  have "tab n {} (put_call i f v)" unfolding tab_def
    using unused_slot [OF assms(1)] assms at sl
    by (auto simp: tab_def slot_sound_def settled_def intro!: sound_put_call)
  then show ?thesis using unused_slot [OF assms(1)] assms(2) by (simp add: unused_def detached_def tab_def)
qed

lemma unused_reset: "unused n i v \<Longrightarrow> unused n i (put_call i (\<lambda>_. blank_call) v)"
  by (rule unused_put) simp_all

lemma unused_uncounted:
  assumes "unused n i v"
  shows "uncounted n i v"
proof -
  have "attached_calls v - {i} = attached_calls v" using assms by (auto simp: unused_def detached_def attached_calls_def)
  then show ?thesis using assms by (auto simp: uncounted_def unused_def detached_def tab_def sound_def)
qed

lemma fresh_uncounted:
  assumes "fresh n i v"
  shows "uncounted n i v"
proof -
  have "attached_calls v - {i} = attached_calls v" using assms by (auto simp: fresh_def waiting_def attached_calls_def)
  then show ?thesis using assms by (auto simp: uncounted_def fresh_def tab_def sound_def)
qed

lemma uncounted_put: "uncounted n i v \<Longrightarrow> uncounted n i (put_call i f v)"
  by (auto simp: uncounted_def put_call_nth attached_put_call)

lemma uncounted_view:
  assumes "sig_view w = sig_view v" "uncounted n i v"
  shows "uncounted n i w"
proof -
  note view = sig_viewD [OF assms(1)]
  have eq: "slot_sound n (calls w ! j) = slot_sound n (calls v ! j)" "settled (calls w ! j) = settled (calls v ! j)"
    "call_attached (calls w ! j) = call_attached (calls v ! j)" if "j < length (calls v)" for j
    using sig_of_fields(1,2,8,15) [OF view(5) [OF that]] by (simp_all add: slot_sound_def settled_def)
  have "attached_calls w = attached_calls v" unfolding attached_calls_def view(1) using eq(3) by blast
  then show ?thesis using assms(2) eq(1,2) unfolding uncounted_def view(1,2) by metis
qed

lemma uncounted_freed:
  assumes "uncounted n i v"
  shows "unused n i (put_call i (\<lambda>_. blank_call) v)"
proof -
  have "attached_calls (put_call i (\<lambda>_. blank_call) v) = attached_calls v - {i}" by (simp add: attached_put_call)
  then show ?thesis using assms
    by (auto simp: uncounted_def unused_def tab_def sound_def detached_def put_call_nth)
qed

lemma uncounted_counted:
  assumes "uncounted n i v" "call_attached (calls v ! i)" "call_inv (calls v ! i) \<noteq> None"
    "slot_sound n (calls v ! i)"
  shows "tab n {i} (v\<lparr>call_cnt := call_cnt v + 1\<rparr>)"
proof -
  have "i \<in> attached_calls v" using assms by (simp add: uncounted_def attached_calls_def)
  then have "card (attached_calls v) = Suc (card (attached_calls v - {i}))" by (metis card.remove finite_attached)
  moreover have "attached_calls (v\<lparr>call_cnt := call_cnt v + 1\<rparr>) = attached_calls v" by (simp add: attached_calls_def)
  ultimately show ?thesis using assms by (auto simp: uncounted_def tab_def sound_def)
qed

lemma dialling_done:
  assumes "dialling n i v" "med_ch_cb (calls v ! i) \<noteq> Some MakeCallCb"
  shows "tab n {} v"
  using assms by (auto simp: dialling_def tab_def sound_def settled_def)

interpretation dialling: call_property "\<lambda>v. dialling n j v \<and> i < n" i for n j i
proof unfold_locales
  fix v w :: "'a pjsua_var"
  assume eq: "sig_view w = sig_view v" and v: "dialling n j v \<and> i < n"
  have "sig_of (calls w ! j) = sig_of (calls v ! j)"
    using v by (intro sig_viewD(5) [OF eq]) (simp add: dialling_def tab_def)
  note sig = sig_of_fields(1,2) [OF this]
  then show "dialling n j w \<and> i < n" using v tab_view [OF eq] by (simp add: dialling_def)
next
  fix v :: "'a pjsua_var" and f
  assume f: "mild f" and v: "dialling n j v \<and> i < n"
  then have "tab n {j} (put_call i f v)" by (simp add: dialling_def table.mildly)
  then show "dialling n j (put_call i f v) \<and> i < n"
    using v f by (auto simp: dialling_def tab_def put_call_nth mild_def)
next
  fix v :: "'a pjsua_var" and st k
  assume inv: "call_inv (calls v ! i) \<noteq> None" and v: "dialling n j v \<and> i < n"
  then have "tab n {j} (put_call i (\<lambda>c. c\<lparr>call_inv := Some st, call_inv_cause := k\<rparr>) v)"
    by (simp add: dialling_def table.moved)
  then show "dialling n j (put_call i (\<lambda>c. c\<lparr>call_inv := Some st, call_inv_cause := k\<rparr>) v) \<and> i < n"
    using v inv by (auto simp: dialling_def tab_def put_call_nth)
next
  fix v :: "'a pjsua_var"
  assume at: "call_attached (calls v ! i)" and v: "dialling n j v \<and> i < n"
  then have "tab n {j} (put_call i (\<lambda>_. blank_call) (v\<lparr>call_cnt := call_cnt v - 1\<rparr>))"
    by (simp add: dialling_def table.freed)
  then show "dialling n j (put_call i (\<lambda>_. blank_call) (v\<lparr>call_cnt := call_cnt v - 1\<rparr>)) \<and> i < n"
    using v by (auto simp: dialling_def tab_def put_call_nth)
qed (auto simp: dialling_def tab_def)

text \<open>The three stages as properties of the call itself.\<close>

interpretation idle: call_property "unused n i" i for n i
proof -
  have "(\<lambda>v :: 'a pjsua_var. unused n i v \<and> i < n) = unused n i" using unused_slot(3) by blast
  moreover have "call_property (\<lambda>v :: 'a pjsua_var. unused n i v \<and> i < n) i" by (rule away.call_property_axioms)
  ultimately show "call_property (unused n i :: 'a pjsua_var \<Rightarrow> bool) i" by simp
qed

interpretation offered: call_property "fresh n i" i for n i
proof -
  have "(\<lambda>v :: 'a pjsua_var. fresh n i v \<and> i < n) = fresh n i" by (auto simp: fresh_def)
  moreover have "call_property (\<lambda>v :: 'a pjsua_var. fresh n i v \<and> i < n) i" by (rule fresh.call_property_axioms)
  ultimately show "call_property (fresh n i :: 'a pjsua_var \<Rightarrow> bool) i" by simp
qed

interpretation calling: call_property "dialling n i" i for n i
proof -
  have "(\<lambda>v :: 'a pjsua_var. dialling n i v \<and> i < n) = dialling n i" by (auto simp: dialling_def)
  moreover have "call_property (\<lambda>v :: 'a pjsua_var. dialling n i v \<and> i < n) i" by (rule dialling.call_property_axioms)
  ultimately show "call_property (dialling n i :: 'a pjsua_var \<Rightarrow> bool) i" by simp
qed

section \<open>Failures\<close>

lemma pres_uncounted:
  "quiet m \<Longrightarrow> pres (uncounted n i) m" "pres (uncounted n i) (upd_call i f)" "pres (uncounted n i) (tell_state i)"
proof -
  show "quiet m \<Longrightarrow> pres (uncounted n i) m" by (rule pres_quiet) (auto intro: uncounted_view)
  show "pres (uncounted n i) (upd_call i f)" by (simp add: pres_def uncounted_put)
  show "pres (uncounted n i) (tell_state i)" by (simp add: pres_def tell_state_def uncounted_def attached_calls_def)
qed

lemmas uncounted_basic = quiet_laws [THEN pres_uncounted(1)] pres_uncounted(2,3)

lemma uncounted_terminate: "media_quiet U \<Longrightarrow> pres (uncounted n i) (inv_terminate H U i code False)"
  unfolding inv_terminate_def session_disconnected_def in_session_def
  by (intro pres_intro uncounted_basic) simp_all

lemma reset_uncounted: "leads (uncounted n i) (reset_call i) (\<lambda>_. unused n i)"
  by (simp add: leads_def uncounted_freed)

lemma uncounted_over:
  "media_quiet U \<Longrightarrow> leads (uncounted n i) (do { sp_med_deinit U i; reset_call i; pjsua_check_snd_dev_idle }) (\<lambda>_. unused n i)"
  by (intro leads_then leads_bind [OF reset_uncounted] leads_pres uncounted_basic idle.basic)

lemma make_call_failed_slot:
  assumes "media_quiet U"
  shows "leads (uncounted n i) (make_call_failed H U i session cb) (\<lambda>_. unused n i)"
  unfolding make_call_failed_def
  by (intro leads_then [OF pres_get_call] leads_then [OF pres_only_if] leads_then [OF pres_uncounted(2)]
      uncounted_over [OF assms] pres_intro uncounted_basic uncounted_terminate assms)

section \<open>Outgoing calls\<close>

text \<open>
  What \<^verbatim>\<open>pjsua_call.c\<close> relies on: when the first INVITE cannot be sent, the session has been
  disconnected, and has reported that. (``Upon failure to send first request, the invite session would have
  been cleared.'')
\<close>

definition reports_end :: "inv_notice list \<Rightarrow> bool" where
  "reports_end ns \<longleftrightarrow> (\<exists>nt \<in> set ns. case nt of StateChanged st _ _ \<Rightarrow> st = INV_DISCONNECTED | MediaUpdate _ \<Rightarrow> False)"

definition invite_failure_reported :: "'x sip \<Rightarrow> bool" where
  "invite_failure_reported U \<longleftrightarrow>
     (\<forall>i x. fst (fst (sp_send U i MsgInvite x)) \<noteq> PJ_SUCCESS \<longrightarrow> reports_end (snd (fst (sp_send U i MsgInvite x))))"

definition no_session :: "nat \<Rightarrow> 'x pjsua_var \<Rightarrow> bool" where
  "no_session i v \<longleftrightarrow> i < length (calls v) \<and> call_inv (calls v ! i) = None"

lemma no_session_view: "sig_view w = sig_view v \<Longrightarrow> no_session i v \<Longrightarrow> no_session i w"
  using sig_viewD(1,5) sig_of_fields(1) unfolding no_session_def by metis

lemma run_in_session [simp]: "no_session i v \<Longrightarrow> run_state (in_session i m) v = ((), v)"
  by (simp add: in_session_def no_session_def)

lemma deliver_nothing [simp]: "no_session i v \<Longrightarrow> exec (deliver H U i nt) v = v"
  by (simp add: deliver_def)

text \<open>The slot of a call that is over.\<close>

definition vacated :: "nat \<Rightarrow> 'x pjsua_var \<Rightarrow> bool" where
  "vacated i v \<longleftrightarrow> i < length (calls v) \<and> call_free (calls v ! i)"

lemma vacated_view: "sig_view w = sig_view v \<Longrightarrow> vacated i v \<Longrightarrow> vacated i w"
  using sig_viewD(1,5) sig_of_fields(1,3) unfolding vacated_def call_free_def by metis

lemma vacated_gone: "vacated i v \<Longrightarrow> no_session i v"
  by (simp add: vacated_def no_session_def call_free_def)

lemma free_call_gone: "i < length (calls v) \<Longrightarrow> vacated i (exec (free_call i) v)"
proof -
  assume i: "i < length (calls v)"
  have "pres (vacated i) pjsua_check_snd_dev_idle" by (rule pres_quiet [OF quiet_laws(3)]) (rule vacated_view)
  moreover have "vacated i (put_call i (\<lambda>_. blank_call) (v\<lparr>call_cnt := call_cnt v - 1\<rparr>))"
    using i by (simp add: vacated_def put_call_nth)
  ultimately have "vacated i (exec pjsua_check_snd_dev_idle (put_call i (\<lambda>_. blank_call) (v\<lparr>call_cnt := call_cnt v - 1\<rparr>)))"
    by (rule presD)
  then show ?thesis by (simp add: free_call_def)
qed

lemma disconnected_gone:
  assumes "media_quiet U" "dialling n i v" "call_attached (calls v ! i)"
  shows "vacated i (exec (on_disconnected H U i ev) v)"
proof -
  have len: "leads (dialling n i) (free_call i) (\<lambda>_. vacated i)"
    unfolding leads_def using free_call_gone by (auto simp: dialling_def tab_def)
  have "leads (dialling n i) (finish_state_change U i INV_DISCONNECTED ev) (\<lambda>_. vacated i)"
    unfolding finish_state_change_def
    by (intro leads_then leads_only_if len pres_intro calling.pres_timers calling.pres_told calling.basic assms) simp
  then have "leads (dialling n i) (do {
      upd_call i (\<lambda>c. c\<lparr>last_code := g c\<rparr>); stop_reinv_timer H i; finish_state_change U i INV_DISCONNECTED ev })
      (\<lambda>_. vacated i)" for g
    by (intro leads_then calling.basic calling.pres_timers)
  from leadsD [OF this assms(2)] show ?thesis using assms(3) by (simp add: on_disconnected_def)
qed

lemma deliver_end:
  assumes "media_quiet U" "dialling n i v"
  shows "no_session i (exec (deliver H U i (StateChanged INV_DISCONNECTED ev cause)) v)"
proof (cases "call_inv (calls v ! i) = None")
  case True
  then have "no_session i v" using assms(2) by (auto simp: no_session_def dialling_def tab_def)
  then show ?thesis by simp
next
  case False
  let ?w = "put_call i (\<lambda>c. c\<lparr>call_inv := Some INV_DISCONNECTED, call_inv_cause := cause\<rparr>) v"
  have i: "i < length (calls v)" and at: "call_attached (calls v ! i)"
    using False assms(2) by (auto simp: dialling_def tab_def)
  have w: "dialling n i ?w" using calling.moved [OF False assms(2)] .
  have "no_session i (exec (on_disconnected H U i ev) ?w)"
    by (rule vacated_gone [OF disconnected_gone [OF assms(1) w]]) (simp add: i at)
  then show ?thesis using False i at by (simp add: deliver_def in_session_def pjsua_call_on_state_changed_def)
qed

lemma no_session_deliveries: "no_session i v \<Longrightarrow> no_session i (exec (for_each ns (deliver H U i)) v)"
  by (induction ns arbitrary: v) (simp_all add: split_beta)

lemma deliveries_end:
  assumes "media_quiet U" "reports_end ns" "dialling n i v"
  shows "no_session i (exec (for_each ns (deliver H U i)) v)"
  using assms(2,3)
proof (induction ns arbitrary: v)
  case (Cons nt ns)
  show ?case
  proof (cases "reports_end ns")
    case True
    have "dialling n i (exec (deliver H U i nt) v)" by (rule presD [OF calling.deliver [OF assms(1)] Cons.prems(2)])
    then show ?thesis using Cons.IH [OF True] by (simp add: split_beta)
  next
    case False
    then obtain ev cause where "nt = StateChanged INV_DISCONNECTED ev cause"
      using Cons.prems(1) by (cases nt) (auto simp: reports_end_def)
    then show ?thesis using no_session_deliveries [OF deliver_end [OF assms(1) Cons.prems(2)]] by (simp add: split_beta)
  qed
qed (simp add: reports_end_def)

text \<open>An attached call, not counted yet.\<close>

definition ringing :: "nat \<Rightarrow> nat \<Rightarrow> 'x pjsua_var \<Rightarrow> bool" where
  "ringing n i v \<longleftrightarrow> uncounted n i v \<and> call_attached (calls v ! i) \<and> call_inv (calls v ! i) \<noteq> None
     \<and> slot_sound n (calls v ! i)"

definition set_up :: "nat \<Rightarrow> nat \<Rightarrow> pj_status \<Rightarrow> 'x pjsua_var \<Rightarrow> bool" where
  "set_up n i st v \<longleftrightarrow> tab n {} v \<and> i < n \<and> (st \<noteq> PJ_SUCCESS \<longrightarrow> detached i v)"

lemma set_up_unused: "unused n i v \<Longrightarrow> set_up n i st v"
  using unused_slot by (auto simp: set_up_def)

lemma ringing_ext [simp]: "ringing n i (v\<lparr>ext := e\<rparr>) = ringing n i v"
  by (simp add: ringing_def uncounted_def attached_calls_def)

lemma count_call: "leads (ringing n i) (modify (\<lambda>v. v\<lparr>call_cnt := call_cnt v + 1\<rparr>)) (\<lambda>_. dialling n i)"
  unfolding leads_def
proof (intro allI impI)
  fix v :: "'a pjsua_var"
  assume v: "ringing n i v"
  then have "tab n {i} (v\<lparr>call_cnt := call_cnt v + 1\<rparr>)" by (intro uncounted_counted) (simp_all add: ringing_def)
  then show "dialling n i (exec (modify (\<lambda>v. v\<lparr>call_cnt := call_cnt v + 1\<rparr>)) v)"
    using v by (simp add: dialling_def ringing_def uncounted_def)
qed

lemma no_session_unused:
  assumes "dialling n i v" "no_session i v"
  shows "unused n i (put_call i (\<lambda>c. c\<lparr>call_inv := None\<rparr>) v)"
proof -
  have i: "i < length (calls v)" "call_inv (calls v ! i) = None" "slot_sound n (calls v ! i)" "tab n {i} v"
    using assms by (auto simp: dialling_def no_session_def tab_def sound_def)
  have "tab n {} v" using i by (auto simp: tab_def sound_def settled_def slot_sound_def)
  then have "unused n i v" using i by (auto simp: unused_def detached_def slot_sound_def)
  then show ?thesis using i by (intro unused_put) (auto simp: slot_sound_def)
qed

lemma send_invite:
  assumes "media_quiet U" "invite_failure_reported U"
  shows "leads (dialling n i) (inv_send_msg H U i MsgInvite)
           (\<lambda>st v. dialling n i v \<and> (st \<noteq> PJ_SUCCESS \<longrightarrow> no_session i v))"
  unfolding leads_def
proof (intro allI impI conjI)
  fix v :: "'a pjsua_var"
  assume v: "dialling n i v"
  show "dialling n i (exec (inv_send_msg H U i MsgInvite) v)" by (rule presD [OF calling.sends(1) [OF assms(1)] v])
  assume fail: "result (inv_send_msg H U i MsgInvite) v \<noteq> PJ_SUCCESS"
  obtain st ns x where sent: "sp_send U i MsgInvite (ext v) = ((st, ns), x)" by (metis surj_pair)
  then have "st \<noteq> PJ_SUCCESS" using fail by (simp add: inv_send_msg_def split_beta)
  then have "reports_end ns" using sent assms(2) unfolding invite_failure_reported_def by (metis fst_conv snd_conv)
  moreover have "dialling n i (v\<lparr>ext := x\<rparr>)" using v by (simp add: dialling_def tab_def)
  ultimately show "no_session i (exec (inv_send_msg H U i MsgInvite) v)"
    using deliveries_end [OF assms(1)] sent by (simp add: inv_send_msg_def split_beta)
qed

lemma failed_slot:
  assumes "media_quiet U"
  shows "leads (uncounted n i) (do { make_call_failed H U i session cb; ret st }) (set_up n i)"
  by (rule leads_bind [OF make_call_failed_slot [OF assms] leads_ret]) (rule set_up_unused)

lemma start_ringing:
  assumes "unused n i v" "f (calls v ! i) = (calls v ! i)\<lparr>call_inv := Some st, call_inv_cause := k, call_role_uas := b, call_attached := True\<rparr>"
  shows "ringing n i (put_call i f v)"
proof -
  have i: "i < length (calls v)" and "slot_sound n (calls v ! i)"
    using unused_slot [OF assms(1)] by (auto simp: tab_def sound_def)
  then have "slot_sound n (f (calls v ! i))" unfolding assms(2) by (simp add: slot_sound_def)
  then show ?thesis using uncounted_put [OF unused_uncounted [OF assms(1)]] i by (simp add: ringing_def assms(2))
qed

lemma invite_sent:
  assumes "media_quiet U"
  shows "leads (\<lambda>v. dialling n i v \<and> (st \<noteq> PJ_SUCCESS \<longrightarrow> no_session i v))
     (if st \<noteq> PJ_SUCCESS then do {
        upd_call i (\<lambda>c. c\<lparr>call_inv := None\<rparr>);
        make_call_failed H U i False True;
        ret st
      } else do { upd_call i (\<lambda>c. c\<lparr>med_ch_cb := None\<rparr>); ret PJ_SUCCESS }) (set_up n i)"
proof (rule leads_if)
  assume "st \<noteq> PJ_SUCCESS"
  then show "leads (\<lambda>v. dialling n i v \<and> (st \<noteq> PJ_SUCCESS \<longrightarrow> no_session i v))
      (do { upd_call i (\<lambda>c. c\<lparr>call_inv := None\<rparr>); make_call_failed H U i False True; ret st }) (set_up n i)"
    by (intro leads_bind [OF leads_upd failed_slot [OF assms]]) (simp add: no_session_unused unused_uncounted)
next
  have "set_up n i PJ_SUCCESS (put_call i (\<lambda>c. c\<lparr>med_ch_cb := None\<rparr>) v)" if "dialling n i v"
    for v :: "'b pjsua_var"
  proof -
    have "dialling n i (put_call i (\<lambda>c. c\<lparr>med_ch_cb := None\<rparr>) v)" "i < length (calls v)"
      using that by (simp_all add: calling.mildly dialling_def [of n i v] tab_def)
    moreover from this have "tab n {} (put_call i (\<lambda>c. c\<lparr>med_ch_cb := None\<rparr>) v)"
      by (intro dialling_done [where i = i]) (assumption, simp)
    ultimately show ?thesis by (simp add: set_up_def dialling_def)
  qed
  then show "leads (\<lambda>v. dialling n i v \<and> (st \<noteq> PJ_SUCCESS \<longrightarrow> no_session i v))
      (do { upd_call i (\<lambda>c. c\<lparr>med_ch_cb := None\<rparr>); ret PJ_SUCCESS }) (set_up n i)"
    by (auto simp: leads_def)
qed

lemma initial_invite:
  assumes "media_quiet U" "invite_failure_reported U"
  shows "leads (unused n i) (send_initial_invite H U i) (set_up n i)"
proof -
  have fail: "leads (ringing n i) (do { make_call_failed H U i True False; ret st }) (set_up n i)" for st
    by (rule leads_pre [OF failed_slot [OF assms(1)]]) (simp add: ringing_def)
  have ext: "pres (ringing n i) (on_ext f)" for f :: "'a \<Rightarrow> 'b \<times> 'a" by (simp add: pres_def)
  have start: "leads (unused n i) (upd_call i (\<lambda>c. c\<lparr>call_inv := Some st, call_inv_cause := k, call_role_uas := b,
      call_attached := True\<rparr>)) (\<lambda>_. ringing n i)" for st k b
    by (rule leads_upd) (rule start_ringing, assumption, rule refl)
  show ?thesis unfolding send_initial_invite_def
    by (intro leads_bind [OF start] leads_then [OF ext] leads_if fail leads_bind [OF count_call] leads_bind [OF send_invite [OF assms]]
        invite_sent [OF assms(1)])
qed

lemma pres_unused_put:
  assumes "\<And>c. call_attached (f c) = call_attached c" "\<And>c. call_inv (f c) = call_inv c" "\<And>c. replaced_dlg (f c) = replaced_dlg c"
  shows "pres (unused n i) (upd_call i f)"
proof -
  have "unused n i (put_call i f v)" if "unused n i v" for v :: "'a pjsua_var"
    using unused_slot [OF that] by (intro unused_put that) (simp_all add: detached_def assms)
  then show ?thesis by (auto simp: pres_def)
qed

lemma pres_unused_callback: "pres (unused n i) (upd_call i (\<lambda>c. c\<lparr>med_ch_cb := cb\<rparr>))"
  by (rule pres_unused_put) simp_all

lemma make_media_init: "media_quiet U \<Longrightarrow> pres (unused n i) (media_channel_init U i uas cb)"
  unfolding media_channel_init_def by (intro pres_intro pres_unused_callback idle.basic)

lemma unused_failed:
  "media_quiet U \<Longrightarrow> leads (unused n i) (do { make_call_failed H U i session cb; ret st }) (set_up n i)"
  by (rule leads_pre [OF failed_slot unused_uncounted])

lemma media_ready:
  assumes "media_quiet U" "invite_failure_reported U"
  shows "leads (unused n i) (on_make_call_med_tp_complete H U i info) (set_up n i)"
  unfolding on_make_call_med_tp_complete_def Let_def
  by (intro leads_then leads_if unused_failed initial_invite
      assms pres_intro idle.basic)

section \<open>Allocation\<close>

lemma first_free_spec:
  "case first_free cs i n of
     None \<Rightarrow> \<forall>k. i \<le> k \<and> k < i + n \<longrightarrow> \<not> call_free (cs ! k)
   | Some j \<Rightarrow> i \<le> j \<and> j < i + n \<and> call_free (cs ! j) \<and> (\<forall>k. i \<le> k \<and> k < j \<longrightarrow> \<not> call_free (cs ! k))"
proof (induction n arbitrary: i)
  case (Suc n)
  show ?case
  proof (cases "call_free (cs ! i)")
    case False
    have "(\<forall>k. i \<le> k \<and> k < m \<longrightarrow> \<not> call_free (cs ! k)) = (\<forall>k. Suc i \<le> k \<and> k < m \<longrightarrow> \<not> call_free (cs ! k))" for m
      using False by (metis Suc_leI Suc_leD order_le_less)
    then show ?thesis using Suc.IH [of "Suc i"] False by (auto split: option.splits)
  qed auto
qed auto

lemma first_free_Some:
  assumes "first_free cs i n = Some j"
  shows "i \<le> j" "j < i + n" "call_free (cs ! j)" "\<And>k. i \<le> k \<Longrightarrow> k < j \<Longrightarrow> \<not> call_free (cs ! k)"
  using first_free_spec [where cs = cs and i = i and n = n] assms by simp_all

lemma first_free_None: "first_free cs i n = None \<Longrightarrow> i \<le> k \<Longrightarrow> k < i + n \<Longrightarrow> \<not> call_free (cs ! k)"
  using first_free_spec [where cs = cs and i = i and n = n] by simp

text \<open>The slot at which the search starts, and the state in which it leaves the table.\<close>

definition search_start :: "'x pjsua_var \<Rightarrow> nat" where
  "search_start v = (if next_call_id v \<ge> int (length (calls v)) \<or> next_call_id v < 0 then 0 else nat (next_call_id v))"

definition found_slot :: "'x pjsua_var \<Rightarrow> nat option" where
  "found_slot v = (case first_free (calls v) (search_start v) (length (calls v) - search_start v) of
                     Some i \<Rightarrow> Some i
                   | None \<Rightarrow> first_free (calls v) 0 (search_start v))"

lemma alloc_run:
  "run_state alloc_call_id v =
     (case found_slot v of
        None \<Rightarrow> (PJSUA_INVALID_ID, v\<lparr>next_call_id := int (search_start v)\<rparr>)
      | Some i \<Rightarrow> (int i, v\<lparr>next_call_id := int (search_start v) + 1\<rparr>))"
  by (auto simp: alloc_call_id_def found_slot_def search_start_def Let_def split: option.splits)

lemma found_slot_free:
  assumes "found_slot v = Some i"
  shows "i < length (calls v)" "call_free (calls v ! i)"
  using assms unfolding found_slot_def search_start_def
  by (auto split: option.splits if_splits dest: first_free_Some(2,3))

lemma found_slot_None: "found_slot v = None \<Longrightarrow> k < length (calls v) \<Longrightarrow> \<not> call_free (calls v ! k)"
  unfolding found_slot_def using first_free_None [where cs = "calls v" and i = 0] first_free_None [where cs = "calls v" and i = "search_start v"]
  by (cases "k < search_start v") (auto split: option.splits)

lemma free_slot_unused:
  assumes "tab n {} v" "i < n" "call_free (calls v ! i)"
  shows "unused n i v"
  using assms by (auto simp: unused_def detached_def tab_def sound_def slot_sound_def call_free_def)

lemma alloc_slot:
  "leads (tab n {}) alloc_call_id (\<lambda>id v. tab n {} v \<and> (id \<noteq> PJSUA_INVALID_ID \<longrightarrow> unused n (nat id) v))"
  unfolding leads_def
proof (intro allI impI)
  fix v :: "'a pjsua_var"
  assume v: "tab n {} v"
  show "tab n {} (exec alloc_call_id v) \<and> (result alloc_call_id v \<noteq> PJSUA_INVALID_ID \<longrightarrow>
      unused n (nat (result alloc_call_id v)) (exec alloc_call_id v))"
  proof (cases "found_slot v")
    case (Some i)
    have "unused n i v" by (rule free_slot_unused [OF v]) (use found_slot_free [OF Some] v in \<open>simp_all add: tab_def\<close>)
    then show ?thesis using Some v by (simp add: alloc_run unused_def detached_def tab_def)
  qed (use v in \<open>simp add: alloc_run tab_def\<close>)
qed

section \<open>The outgoing call\<close>

lemma prepare_slot: "media_quiet U \<Longrightarrow> pres (unused n i) (prepare_call H U i acc uri opt)"
proof -
  assume U: "media_quiet U"
  have reset: "pres (unused n i) (reset_call i)" for i by (simp add: pres_def unused_reset)
  have dialog: "pres (unused n i) (upd_call i (\<lambda>c. c\<lparr>secure_level := l, call_async_dlg := True\<rparr>))" for l
    by (rule pres_unused_put) simp_all
  show ?thesis unfolding prepare_call_def open_snd_for_call_def create_call_dialog_def
    by (intro pres_intro reset dialog idle.basic idle.apply_setting U idle.pres_calm quiet_neutral neutral_set_snd_dev)
qed

lemma make_error_slot: "media_quiet U \<Longrightarrow> pres (unused n i) (make_call_error U i st)"
proof -
  assume U: "media_quiet U"
  have async: "mild (\<lambda>c. c\<lparr>call_async_dlg := False\<rparr>)" by (simp add: mild_def)
  have reset: "pres (unused n i) (reset_call i)" by (simp add: pres_def unused_reset)
  show ?thesis unfolding make_call_error_def by (intro pres_intro idle.basic async U reset)
qed

lemma unused_tab: "leads (unused n i) m (\<lambda>_. unused n i) \<Longrightarrow> leads (unused n i) m (\<lambda>_. tab n {})"
  by (erule leads_post) (rule unused_slot(1))

lemma make_call_table:
  assumes "media_quiet U" "invite_failure_reported U"
  shows "pres (tab n {}) (pjsua_call_make_call H U acc uri opt)"
proof -
  have err: "leads (unused n i) (make_call_error U i st) (\<lambda>_. tab n {})" for i st
    by (rule unused_tab [OF leads_pres [OF make_error_slot [OF assms(1)]]])
  have placed: "leads (unused n i) (ret x) (\<lambda>_. tab n {})" for i and x :: "pj_status \<times> int"
    by (rule leads_ret) (rule unused_slot(1))
  have ready: "leads (unused n i)
     (do { st \<leftarrow> on_make_call_med_tp_complete H U i None;
           if st \<noteq> PJ_SUCCESS then make_call_error U i st else ret (PJ_SUCCESS, int i) }) (\<lambda>_. tab n {})" for i
    by (intro leads_bind [OF media_ready [OF assms]] leads_if leads_pre [OF err] leads_ret)
      (auto simp: set_up_def unused_def)
  have slot: "leads (unused n i) (place_call H U i acc uri opt) (\<lambda>_. tab n {})" for i
    unfolding place_call_def
    by (intro leads_then [OF prepare_slot] leads_then [OF pres_get_call] leads_then [OF pres_if] leads_prod leads_if
        err ready placed make_media_init pres_ret assms(1))
  have quiet: "quiet m \<Longrightarrow> leads (tab n {}) m (\<lambda>_. tab n {})" for m :: "('c, 'b) pv_m"
    by (intro leads_pres pres_quiet) (auto intro: tab_view)
  have unplaced: "leads (tab n {}) (do { pjsua_check_snd_dev_idle; ret x }) (\<lambda>_. tab n {})" for x :: "pj_status \<times> int"
    by (intro leads_bind [OF quiet] leads_ret quiet_laws)
  have "leads (tab n {}) (pjsua_call_make_call H U acc uri opt) (\<lambda>_. tab n {})"
    unfolding pjsua_call_make_call_def Let_def
    by (intro leads_if leads_ret leads_then [OF pres_get_acc] leads_bind [OF alloc_slot] leads_pre [OF slot]
        leads_pre [OF unplaced] unplaced) simp_all
  then show ?thesis by (simp add: pres_def leads_def)
qed

end
