(* ===== verification/Sig_Incoming.thy ===== *)
theory Sig_Incoming
  imports Sig_Setup
begin

text \<open>
  Incoming calls, and the operations that touch more than one call, keep the call table sound.
\<close>

section \<open>Properties of the whole table\<close>

locale table_reports =
  fixes J :: "'x pjsua_var \<Rightarrow> bool" and n :: nat
  assumes reports: "i < n \<Longrightarrow> call_reports J i"
    and replaced: "J v \<Longrightarrow> i < n \<Longrightarrow> replaced_dlg (calls v ! i) = Some r \<Longrightarrow> r < n"
    and size: "J v \<Longrightarrow> length (calls v) = n"
begin

lemma replace_call:
  assumes "media_quiet U" "i < n" "r < n"
  shows "pres J (process_incoming_call_replace H U i r)"
  unfolding process_incoming_call_replace_def
  by (intro pres_intro call_reports.sends [OF reports] call_reports.call_disconnect [OF reports] assms)

lemma incoming_media:
  assumes "media_quiet U" "i < n"
  shows "pres J (on_incoming_call_med_tp_complete2 m H U i info)"
proof -
  have repl: "pres J (do { c \<leftarrow> get_call i;
       case replaced_dlg c of
         Some r \<Rightarrow> do { process_incoming_call_replace H U i r; ret (Some (st, err, response)) }
       | None \<Rightarrow> do { ok \<leftarrow> process_pending_call_answer U (answer_fuel m H U) m i; ret (if ok then Some (st, err, response) else None) }
     })" for st err and response :: "int option"
    by (rule pres_bind_result [where Q = "\<lambda>c. \<forall>r. replaced_dlg c = Some r \<longrightarrow> r < n", OF pres_get_call])
      (use replaced assms in \<open>auto intro!: pres_option pres_bind pres_ret replace_call
         call_reports.pending_answers [OF reports] call_reports.answer_fuel [OF reports]\<close>)
  note media = call_reports.basic [OF reports [OF assms(2)]]
  show ?thesis
    unfolding on_incoming_call_med_tp_complete2_def verify_request_def reject_session_def Let_def
    by (intro pres_intro media repl call_reports.sends [OF reports] call_reports.call_disconnect [OF reports] assms)
qed

lemma pres_for_each_in: "(\<And>x. x \<in> set xs \<Longrightarrow> pres J (f x)) \<Longrightarrow> pres J (for_each xs f)"
  by (induction xs) (auto intro: pres_intro)

lemma media_reported:
  assumes "media_quiet U" "i < n"
    and make: "leads (\<lambda>v. J v \<and> med_ch_cb (calls v ! i) = Some MakeCallCb)
      (do { _ \<leftarrow> on_make_call_med_tp_complete H U i (Some info); ret () }) (\<lambda>_. J)"
  shows "pres J (media_channel_done m H U i info)"
proof -
  note one = reports [OF assms(2)]
  have incoming: "pres J (do { _ \<leftarrow> on_incoming_call_med_tp_complete2 m H U i (Some info); ret () })"
    by (intro pres_intro incoming_media assms)
  have answer: "pres J (do { _ \<leftarrow> on_answer_call_med_tp_complete H U (answer_fuel m H U) m i (Some info); ret () })"
    by (intro pres_intro call_reports.answer_media [OF one] call_reports.answer_fuel [OF one] assms)
  show ?thesis
    using leadsD [OF make] presD [OF incoming] presD [OF answer]
    by (auto simp: media_channel_done_def pres_def split: option.split med_cb.split)
qed

end

locale table_property = table_reports J n for J :: "'x pjsua_var \<Rightarrow> bool" and n :: nat +
  assumes each: "i < n \<Longrightarrow> call_property J i"

lemma table_propertyI:
  assumes "\<And>i. i < n \<Longrightarrow> call_property J i"
    "\<And>v i r. J v \<Longrightarrow> i < n \<Longrightarrow> replaced_dlg (calls v ! i) = Some r \<Longrightarrow> r < n" "\<And>v. J v \<Longrightarrow> length (calls v) = n"
  shows "table_property J n"
  by (intro table_property.intro table_reports.intro table_property_axioms.intro)
    (blast intro: call_property.axioms(1) assms)+

section \<open>The stages of a new call\<close>

interpretation whole: table_property "tab n X" n for n X
proof (rule table_propertyI)
  show "call_property (tab n X :: 'a pjsua_var \<Rightarrow> bool) i" if "i < n" for i
    using table.call_property_axioms [of n X i] that by simp
qed (auto simp: tab_def sound_def slot_sound_def)

interpretation vacant: table_property "unused n j" n for n j
proof (rule table_propertyI)
  show "call_property (unused n j :: 'a pjsua_var \<Rightarrow> bool) i" if "i < n" for i
    using away.call_property_axioms [of n j i] that by simp
qed (auto simp: unused_def tab_def sound_def slot_sound_def)

interpretation created: table_property "fresh n j" n for n j
proof (rule table_propertyI)
  show "call_property (fresh n j :: 'a pjsua_var \<Rightarrow> bool) i" if "i < n" for i
    using fresh.call_property_axioms [of n j i] that by simp
qed (auto simp: fresh_def tab_def sound_def slot_sound_def)

section \<open>The session of an incoming call\<close>

text \<open>
  A free slot, a free slot whose last media set-up was not that of an outgoing call, and a new session without queued
  answers.
\<close>

definition empty_slot :: "nat \<Rightarrow> nat \<Rightarrow> 'x pjsua_var \<Rightarrow> bool" where
  "empty_slot n i v \<longleftrightarrow> unused n i v \<and> call_free (calls v ! i)"

definition clean :: "nat \<Rightarrow> nat \<Rightarrow> 'x pjsua_var \<Rightarrow> bool" where
  "clean n i v \<longleftrightarrow> empty_slot n i v \<and> med_ch_cb (calls v ! i) \<noteq> Some MakeCallCb"

lemma empty_unused: "empty_slot n i v \<Longrightarrow> unused n i v" "clean n i v \<Longrightarrow> unused n i v" "clean n i v \<Longrightarrow> empty_slot n i v"
  by (simp_all add: empty_slot_def clean_def)

lemma empty_table: "empty_slot n i v \<Longrightarrow> tab n {} v"
  by (rule unused_slot(1) [OF empty_unused(1)])

lemma empty_ext [simp]: "empty_slot n i (v\<lparr>ext := x\<rparr>) = empty_slot n i v"
  by (simp add: empty_slot_def unused_def detached_def tab_def)

definition no_answers :: "nat \<Rightarrow> 'x pjsua_var \<Rightarrow> bool" where
  "no_answers i v \<longleftrightarrow> i < length (calls v) \<and> inc_answers (calls v ! i) = []"

lemma pres_clean: "quiet m \<Longrightarrow> pres (clean n i) m"
proof (rule pres_quiet)
  fix v w :: "'a pjsua_var"
  assume eq: "sig_view w = sig_view v" and v: "clean n i v"
  then have "sig_of (calls w ! i) = sig_of (calls v ! i)"
    by (intro sig_viewD(5) [OF eq]) (simp add: clean_def empty_slot_def unused_def detached_def)
  from sig_of_fields(1,3,8) [OF this] show "clean n i w"
    using v idle.view [OF eq] by (simp add: clean_def empty_slot_def call_free_def)
qed

lemma pres_clean_mild: "mild f \<Longrightarrow> pres (clean n i) (upd_call i f)"
  unfolding pres_def run_upd_call snd_conv
proof (intro allI impI)
  fix v :: "'a pjsua_var"
  assume "mild f" "clean n i v"
  then show "clean n i (put_call i f v)"
    using idle.mildly [of f n i v] idle.in_table [of n i v]
    by (auto simp: clean_def empty_slot_def call_free_def mild_def)
qed

lemmas clean_basic = quiet_laws [THEN pres_clean] pres_clean_mild mild_fields

lemma reset_clean: "leads (unused n i) (reset_call i) (\<lambda>_. clean n i)"
  by (simp add: leads_def clean_def empty_slot_def unused_reset idle.in_table)

lemma sound_mono: "sound X v \<Longrightarrow> X \<subseteq> Y \<Longrightarrow> sound Y v"
  by (auto simp: sound_def)

lemma new_session:
  assumes "clean n i v"
    "f (calls v ! i) = (calls v ! i)\<lparr>call_inv := Some st, call_inv_cause := k, call_role_uas := b, call_async_dlg := a,
       inc_answers := []\<rparr>"
  shows "fresh n i (put_call i f v) \<and> no_answers i (put_call i f v)"
proof -
  have v: "unused n i v" "med_ch_cb (calls v ! i) \<noteq> Some MakeCallCb" using assms(1) by (simp_all add: clean_def empty_slot_def)
  have i: "i < length (calls v)" "\<not> call_attached (calls v ! i)" "slot_sound n (calls v ! i)" "sound {i} v" "length (calls v) = n"
    using unused_slot [OF v(1)] sound_mono [of "{}" v "{i}"] by (auto simp: detached_def tab_def sound_def)
  have "sound {i} (put_call i f v)"
    by (rule sound_put_call) (use i in \<open>simp_all add: assms(2) slot_sound_def\<close>)
  then show ?thesis using i v(2) by (simp add: fresh_def tab_def waiting_def no_answers_def assms(2))
qed

lemma create_session_slot:
  "leads (clean n i) (create_session U i acc)
     (\<lambda>r v. if r = None then fresh n i v \<and> no_answers i v else empty_slot n i v)"
proof -
  have session: "leads (clean n i) (upd_call i (\<lambda>c. c\<lparr>call_inv := Some st, call_inv_cause := k, call_role_uas := b,
      call_async_dlg := a, inc_answers := []\<rparr>)) (\<lambda>_ v. fresh n i v \<and> no_answers i v)" for st k b a
    by (rule leads_upd) (rule new_session, assumption, rule refl)
  show ?thesis unfolding create_session_def
    by (intro leads_then [OF pres_get_acc] leads_then leads_prod leads_if leads_bind [OF session] leads_ret
        clean_basic pres_if pres_ret pres_gets) (simp_all add: clean_def)
qed

lemma fresh_dropped:
  assumes "fresh n i v"
  shows "empty_slot n i (put_call i (\<lambda>c. c\<lparr>call_inv := None, call_async_dlg := False\<rparr>) v)" (is "empty_slot n i ?w")
proof -
  have i: "i < length (calls v)" "\<not> call_attached (calls v ! i)" "slot_sound n (calls v ! i)" "sound {i} v" "length (calls v) = n"
    using assms by (auto simp: fresh_def tab_def sound_def waiting_def)
  have "sound {i} ?w" by (rule sound_put_call) (use i in \<open>simp_all add: slot_sound_def\<close>)
  then have "sound {} ?w" using i by (auto simp: sound_def settled_def)
  then show ?thesis using i by (simp add: empty_slot_def unused_def detached_def tab_def call_free_def)
qed

lemma drop_slot:
  assumes "media_quiet U"
  shows "leads (fresh n i) (drop_session H U i code deinit) (\<lambda>_. empty_slot n i)"
  unfolding drop_session_def
  by (intro leads_then leads_upd fresh_dropped pres_only_if offered.inv_terminate offered.basic assms)

lemma drop_result:
  assumes "media_quiet U" "Q x"
  shows "leads (fresh n i) (do { drop_session H U i code deinit; ret x }) (\<lambda>r v. Q r \<and> empty_slot n i v)"
  by (rule leads_bind [OF drop_slot [OF assms(1)]], rule leads_ret) (simp add: assms(2))

section \<open>The media of an incoming call\<close>

lemma pres_no_answers:
  "quiet m \<Longrightarrow> pres (no_answers i) m" "pres (no_answers i) (upd_call i (\<lambda>c. c\<lparr>med_ch_cb := cb\<rparr>))"
proof -
  show "quiet m \<Longrightarrow> pres (no_answers i) m"
  proof (rule pres_quiet)
    fix v w :: "'a pjsua_var"
    assume eq: "sig_view w = sig_view v" and v: "no_answers i v"
    then have "sig_of (calls w ! i) = sig_of (calls v ! i)" by (intro sig_viewD(5) [OF eq]) (simp add: no_answers_def)
    from sig_of_fields(9) [OF this] show "no_answers i w" using v sig_viewD(1) [OF eq] by (simp add: no_answers_def)
  qed
  show "pres (no_answers i) (upd_call i (\<lambda>c. c\<lparr>med_ch_cb := cb\<rparr>))" by (simp add: pres_def no_answers_def)
qed

lemmas no_answers_basic = quiet_laws [THEN pres_no_answers(1)] pres_no_answers(2)

lemma keeps_prod_fun [keeps_intro]: "(\<And>a b. keeps f (g a b z)) \<Longrightarrow> keeps f ((case y of (a, b) \<Rightarrow> g a b) z)"
  by (cases y) simp

lemma quiet_verify: "media_quiet U \<Longrightarrow> quiet (verify_request U i tmp)"
  unfolding verify_request_def quiet_def
  by (intro keeps_intro quiet_ext [unfolded quiet_def] media_quietD [unfolded quiet_def])

lemma nothing_to_answer:
  "leads (no_answers i) (process_pending_call_answer U answer (Suc m) i) (\<lambda>ok _. ok)"
  by (simp add: leads_def process_pending_call_answer_def no_answers_def)

lemma incoming_answered:
  assumes "media_quiet U"
  shows "leads (no_answers i) (on_incoming_call_med_tp_complete2 (Suc m) H U i info) (\<lambda>r _. r \<noteq> None)"
proof -
  have some: "leads P (ret (Some x)) (\<lambda>r _. r \<noteq> None)" for P :: "'a pjsua_var \<Rightarrow> bool" and x :: 'b
    by (rule leads_ret) simp
  have last: "leads (no_answers i) (do { ok \<leftarrow> process_pending_call_answer U (answer_fuel (Suc m) H U) (Suc m) i;
      ret (if ok then Some x else None) }) (\<lambda>r _. r \<noteq> None)" for x :: 'b
    by (intro leads_bind [OF nothing_to_answer] leads_ret) simp
  have req: "pres (no_answers i) (verify_request U i False)"
    by (intro pres_no_answers quiet_verify assms)
  have tail: "leads (no_answers i) (do {
      only_if (st \<noteq> PJ_SUCCESS) (do { reject_session H U i err response; sp_med_deinit U i });
      upd_call i (\<lambda>c. c\<lparr>med_ch_cb := None\<rparr>);
      if st \<noteq> PJ_SUCCESS then ret (Some (st, err, response))
      else do {
        c \<leftarrow> get_call i;
        case replaced_dlg c of
          Some r \<Rightarrow> do { process_incoming_call_replace H U i r; ret (Some (st, err, response)) }
        | None \<Rightarrow> do {
            ok \<leftarrow> process_pending_call_answer U (answer_fuel (Suc m) H U) (Suc m) i;
            ret (if ok then Some (st, err, response) else None) }
      }}) (\<lambda>r _. r \<noteq> None)" for st err response
  proof (cases "st = PJ_SUCCESS")
    case True
    then show ?thesis unfolding only_if_def
      by (simp only: simp_thms if_True if_False)
        (intro leads_then [OF pres_ret] leads_then [OF pres_no_answers(2)] leads_then [OF pres_get_call]
          leads_option last leads_skip some)
  next
    case False
    then show ?thesis by (simp only: not_False_eq_True if_True) (intro leads_skip some)
  qed
  show ?thesis unfolding on_incoming_call_med_tp_complete2_def Let_def
    by (intro leads_prod leads_then [OF pres_get_call] leads_if leads_skip some leads_then [OF pres_if] pres_ret req tail)
qed

section \<open>From the session to the application\<close>

definition media_done :: "nat \<Rightarrow> nat \<Rightarrow> int + bool \<Rightarrow> 'x pjsua_var \<Rightarrow> bool" where
  "media_done n i r v \<longleftrightarrow> (if r = Inr True then fresh n i v else r \<noteq> Inr False \<and> empty_slot n i v)"

lemma media_rejected:
  assumes "media_quiet U"
  shows "leads (fresh n i) (do { upd_ext g; drop_session H U i code False; ret (Inl x) }) (media_done n i)"
  by (intro leads_then [OF offered.basic(2)] leads_bind [OF drop_slot [OF assms]] leads_ret) (simp add: media_done_def)

lemma init_media_slot:
  assumes "media_quiet U"
  shows "leads (\<lambda>v. fresh n i v \<and> no_answers i v) (init_incoming_media (Suc m) H U i) (media_done n i)"
proof -
  have verify: "pres (\<lambda>v. fresh n i v \<and> no_answers i v) (verify_request U i True)"
    by (intro pres_conj offered.pres_calm pres_no_answers quiet_verify assms)
  have init: "pres (\<lambda>v. fresh n i v \<and> no_answers i v) (media_channel_init U i True (Some IncomingCallCb))"
    by (intro pres_conj offered.media_init assms other_callbacks)
      (unfold media_channel_init_def, intro pres_intro no_answers_basic assms)
  have accept: "leads (\<lambda>v. fresh n i v \<and> no_answers i v) (on_incoming_call_med_tp_complete2 (Suc m) H U i None)
      (\<lambda>r v. fresh n i v \<and> r \<noteq> None)"
  proof (rule leads_conj)
    have "pres (\<lambda>v. fresh n i v) (on_incoming_call_med_tp_complete2 (Suc m) H U i None)" if "i < n"
      by (rule created.incoming_media [OF assms that])
    then show "leads (\<lambda>v. fresh n i v \<and> no_answers i v) (on_incoming_call_med_tp_complete2 (Suc m) H U i None)
        (\<lambda>r v. fresh n i v)" by (auto simp: leads_def pres_def fresh_def)
    show "leads (\<lambda>v. fresh n i v \<and> no_answers i v) (on_incoming_call_med_tp_complete2 (Suc m) H U i None)
        (\<lambda>r v. r \<noteq> None)" by (rule leads_pre [OF incoming_answered [OF assms]]) simp
  qed
  have rejected: "leads (\<lambda>v. fresh n i v \<and> no_answers i v)
      (do { upd_ext g; drop_session H U i code False; ret (Inl x) }) (media_done n i)" for g code x
    by (rule leads_pre [OF media_rejected [OF assms]]) simp
  have good: "leads (\<lambda>v. fresh n i v \<and> P v) (ret (Inr True)) (media_done n i)" for P
    by (rule leads_ret) (simp add: media_done_def)
  have outcome: "leads (\<lambda>v. fresh n i v \<and> r \<noteq> None)
      (case r of
         None \<Rightarrow> ret (Inr False)
       | Some (st, err, response) \<Rightarrow>
           if st = PJ_SUCCESS then ret (Inr True)
           else do {
             let code = (case response of Some c \<Rightarrow> c | None \<Rightarrow> err);
             upd_ext (sp_respond U code);
             drop_session H U i err False;
             ret (Inl code)
           }) (media_done n i)" for r
    unfolding Let_def
    by (intro leads_option leads_prod leads_if good leads_pre [OF media_rejected [OF assms]]) (auto simp: leads_def)
  show ?thesis unfolding init_incoming_media_def
    by (intro leads_then [OF verify] leads_then [OF init] leads_prod leads_if good leads_bind [OF accept] outcome)
      (unfold Let_def, (rule rejected)+)
qed

definition answered :: "nat \<Rightarrow> nat \<Rightarrow> int option \<Rightarrow> 'x pjsua_var \<Rightarrow> bool" where
  "answered n i r v \<longleftrightarrow> (if r = None then fresh n i v else empty_slot n i v)"

lemma first_response_slot:
  assumes "media_quiet U"
  shows "leads (fresh n i) (first_response H U i) (answered n i)"
proof -
  have dropped: "leads (fresh n i) (do { drop_session H U i code deinit; ret (Some x) }) (answered n i)" for code deinit x
    by (intro leads_bind [OF drop_slot [OF assms]] leads_ret) (simp add: answered_def)
  have lost: "leads (fresh n i) (do { upd_call i (\<lambda>c. c\<lparr>call_inv := None, call_async_dlg := False\<rparr>); ret (Some x) })
      (answered n i)" for x
    by (rule leads_bind [OF leads_upd], rule fresh_dropped, assumption, rule leads_ret) (simp add: answered_def)
  have good: "leads (fresh n i) (ret None) (answered n i)" by (rule leads_ret) (simp add: answered_def)
  show ?thesis unfolding first_response_def Let_def
    by (intro leads_then leads_prod leads_if dropped lost good pres_option pres_ret pres_bind offered.basic offered.sends
        assms)
qed

lemma fresh_ringing:
  assumes "fresh n i v"
  shows "ringing n i (put_call i (\<lambda>c. c\<lparr>call_attached := True\<rparr>) v)"
    "med_ch_cb (calls (put_call i (\<lambda>c. c\<lparr>call_attached := True\<rparr>) v) ! i) \<noteq> Some MakeCallCb"
proof -
  have i: "i < length (calls v)" "slot_sound n (calls v ! i)" "waiting (calls v ! i)"
    using assms by (auto simp: fresh_def tab_def sound_def)
  then show "ringing n i (put_call i (\<lambda>c. c\<lparr>call_attached := True\<rparr>) v)"
    using uncounted_put [OF fresh_uncounted [OF assms]] by (simp add: ringing_def waiting_def slot_sound_def)
  show "med_ch_cb (calls (put_call i (\<lambda>c. c\<lparr>call_attached := True\<rparr>) v) ! i) \<noteq> Some MakeCallCb"
    using i by (simp add: waiting_def)
qed

lemma attach_call:
  "leads (fresh n i) (upd_call i (\<lambda>c. c\<lparr>call_attached := True\<rparr>))
     (\<lambda>_ v. ringing n i v \<and> med_ch_cb (calls v ! i) \<noteq> Some MakeCallCb)"
  using fresh_ringing by (intro leads_upd) blast

lemma count_incoming:
  "leads (\<lambda>v. ringing n i v \<and> med_ch_cb (calls v ! i) \<noteq> Some MakeCallCb) (modify (\<lambda>v. v\<lparr>call_cnt := call_cnt v + 1\<rparr>))
     (\<lambda>_. tab n {})"
  unfolding leads_def
proof (intro allI impI)
  fix v :: "'a pjsua_var"
  assume v: "ringing n i v \<and> med_ch_cb (calls v ! i) \<noteq> Some MakeCallCb"
  have "dialling n i (v\<lparr>call_cnt := call_cnt v + 1\<rparr>)" using leadsD [OF count_call] v by fastforce
  from dialling_done [OF this] v show "tab n {} (exec (modify (\<lambda>v. v\<lparr>call_cnt := call_cnt v + 1\<rparr>)) v)" by simp
qed

lemma replaced_table:
  assumes "k < n"
  shows "pres (tab n X) (upd_call i (\<lambda>c. c\<lparr>replaced_dlg := Some k\<rparr>))"
  unfolding pres_def run_upd_call snd_conv
proof (intro allI impI)
  fix v :: "'a pjsua_var"
  assume v: "tab n X v"
  show "tab n X (put_call i (\<lambda>c. c\<lparr>replaced_dlg := Some k\<rparr>) v)"
  proof (cases "i < n")
    case True
    then have "slot_sound n (calls v ! i)" "i \<notin> X \<longrightarrow> settled (calls v ! i)" using v by (auto simp: tab_def sound_def)
    then show ?thesis using v assms True unfolding tab_def
      by (intro conjI sound_put_call) (simp_all add: slot_sound_def settled_def)
  qed (use v in \<open>simp add: put_call_def list_update_beyond tab_def\<close>)
qed

text \<open>What the application does in its callback keeps the table.\<close>

definition app_sound :: "nat \<Rightarrow> (int \<Rightarrow> int \<Rightarrow> ('x, unit) pv_m) \<Rightarrow> bool" where
  "app_sound n app \<longleftrightarrow> (\<forall>acc call. pres (tab n {}) (app acc call))"

lemma announce_slot:
  assumes "media_quiet U" "app_sound n app" "\<And>k. ri_replaced r = Some k \<Longrightarrow> k < n" "i < n"
  shows "leads (fresh n i) (announce_call m H U app r acc i) (\<lambda>_. tab n {})"
proof -
  note one = whole.reports [OF assms(4)]
  have replaces: "pres (tab n {}) (if b then process_incoming_call_replace H U i k
      else upd_call i (\<lambda>c. c\<lparr>replaced_dlg := Some k\<rparr>))" if "ri_replaced r = Some k" for b k
    by (intro pres_if whole.replace_call replaced_table assms that)
  have told: "pres (tab n {}) (tell_app e)" for e by (simp add: pres_def tab_def)
  have app: "pres (tab n {}) (app acc c)" for c using assms(2) by (simp add: app_sound_def)
  have rest: "pres (tab n {}) (do {
       c \<leftarrow> get_call i;
       case ri_replaced r of
         Some k \<Rightarrow> do {
           (if med_ch_cb c = None then process_incoming_call_replace H U i k
            else upd_call i (\<lambda>c. c\<lparr>replaced_dlg := Some k\<rparr>));
           ret True
         }
       | None \<Rightarrow> do {
           tell_app (AppIncomingCall acc (int i));
           app acc (int i);
           c \<leftarrow> get_call i;
           if inc_hangup c then do { _ \<leftarrow> process_pending_call_hangup H U i; ret True }
           else if med_ch_cb c = None \<and> call_inv c \<noteq> None
           then process_pending_call_answer U (answer_fuel m H U) m i
           else ret True
         }
     })"
    by (intro pres_bind pres_get_call pres_option pres_ret replaces told app pres_if call_reports.pending_hangup [OF one]
        call_reports.pending_answers [OF one] call_reports.answer_fuel [OF one] assms(1))
  show ?thesis unfolding announce_call_def
    by (intro leads_bind [OF attach_call] leads_bind [OF count_incoming] leads_pres [OF rest])
qed

section \<open>The request\<close>

lemma unused_table: "leads (empty_slot n i) (ret x) (\<lambda>_. tab n {})"
  by (rule leads_ret) (rule empty_table)

lemma pres_empty_ext: "pres (empty_slot n i) (upd_ext f)"
  by (simp add: pres_def)

lemma rejected_table: "leads (clean n i) (reject_request U code) (\<lambda>_. tab n {})"
  unfolding reject_request_def
  by (intro leads_then clean_basic leads_ret) (auto dest: empty_unused(2) unused_slot(1))

lemma account_slot:
  assumes "media_quiet U" "app_sound n app" "\<And>k. ri_replaced r = Some k \<Longrightarrow> k < n" "i < n"
  shows "leads (clean n i) (accept_for_account (Suc m) H U app r acc i) (\<lambda>_. tab n {})"
proof -
  have reject: "leads (empty_slot n i) (reject_request U code) (\<lambda>_. tab n {})" for code
    unfolding reject_request_def by (intro leads_then pres_empty_ext unused_table)
  have answer: "leads (answered n i rejected) (case rejected of
      Some code \<Rightarrow> ret (Inl code)
    | None \<Rightarrow> do { ok \<leftarrow> announce_call (Suc m) H U app r acc i; ret (Inr ok) }) (\<lambda>_. tab n {})" for rejected
    by (intro leads_option leads_bind [OF leads_pre [OF announce_slot [OF assms]]] leads_pre [OF unused_table [of n i]]
        leads_ret) (simp_all add: answered_def)
  have media: "leads (media_done n i media) (if media \<noteq> Inr True then ret media
      else do {
        rejected \<leftarrow> first_response H U i;
        case rejected of
          Some code \<Rightarrow> ret (Inl code)
        | None \<Rightarrow> do { ok \<leftarrow> announce_call (Suc m) H U app r acc i; ret (Inr ok) }
      }) (\<lambda>_. tab n {})" for media
    by (intro leads_if leads_bind [OF leads_pre [OF first_response_slot [OF assms(1)]] answer]
        leads_pre [OF unused_table [of n i]]) (auto simp: media_done_def)
  have no_media: "leads (\<lambda>v. fresh n i v \<and> no_answers i v) (ret (Inr True)) (media_done n i)"
    by (rule leads_ret) (simp add: media_done_def)
  have init: "leads (\<lambda>v. fresh n i v \<and> no_answers i v)
      (if b then init_incoming_media (Suc m) H U i else ret (Inr True)) (media_done n i)" for b
    by (intro leads_if init_media_slot [OF assms(1)] no_media)
  show ?thesis unfolding accept_for_account_def
    by (intro leads_bind [OF create_session_slot] leads_option leads_pre [OF reject]
        leads_bind [OF leads_pre [OF init] media]) simp_all
qed

lemma invite_slot:
  assumes "media_quiet U" "app_sound n app" "\<And>k. ri_replaced r = Some k \<Longrightarrow> k < n" "i < n"
  shows "leads (unused n i) (accept_invite (Suc m) H U app r i) (\<lambda>_. tab n {})"
  unfolding accept_invite_def
  by (intro leads_bind [OF reset_clean] leads_if leads_then leads_option leads_gets rejected_table account_slot assms
      pres_get_acc clean_basic pres_gets)

lemma incoming_table:
  assumes "media_quiet U" "app_sound n app" "\<And>k. ri_replaced r = Some k \<Longrightarrow> k < n"
  shows "pres (tab n {}) (pjsua_call_on_incoming (Suc m) H U app r)"
proof -
  have respond: "pres (tab n {}) (upd_ext f)" for f by (simp add: pres_def tab_def)
  have data: "pres (tab n {}) (incoming_data_freed i)" for i
    unfolding incoming_data_freed_def by (simp add: pres_def tab_def sound_mild)
  have slot: "leads (\<lambda>v. tab n {} v \<and> (id \<noteq> PJSUA_INVALID_ID \<longrightarrow> unused n (nat id) v))
      (if id = PJSUA_INVALID_ID then do { upd_ext (sp_respond U 486); ret True }
       else do {
         _ \<leftarrow> accept_invite (Suc m) H U app r (nat id);
         incoming_data_freed (nat id);
         ret True
       }) (\<lambda>_. tab n {})" for id
  proof (rule leads_if)
    show "leads (\<lambda>v. tab n {} v \<and> (id \<noteq> PJSUA_INVALID_ID \<longrightarrow> unused n (nat id) v))
      (do { upd_ext (sp_respond U 486); ret True }) (\<lambda>_. tab n {})"
      by (rule leads_pre [OF leads_pres [OF pres_bind [OF respond pres_ret]]]) simp
    assume id: "id \<noteq> PJSUA_INVALID_ID"
    have "leads (unused n (nat id)) (accept_invite (Suc m) H U app r (nat id)) (\<lambda>_. tab n {})"
      unfolding leads_def using leadsD [OF invite_slot [OF assms unused_slot(3)]] by blast
    then have accept: "leads (\<lambda>v. tab n {} v \<and> (id \<noteq> PJSUA_INVALID_ID \<longrightarrow> unused n (nat id) v))
      (accept_invite (Suc m) H U app r (nat id)) (\<lambda>_. tab n {})" by (rule leads_pre) (simp add: id)
    show "leads (\<lambda>v. tab n {} v \<and> (id \<noteq> PJSUA_INVALID_ID \<longrightarrow> unused n (nat id) v))
      (do { _ \<leftarrow> accept_invite (Suc m) H U app r (nat id); incoming_data_freed (nat id); ret True }) (\<lambda>_. tab n {})"
      by (intro leads_bind [OF accept] leads_pres pres_bind data pres_ret)
  qed
  have "leads (tab n {}) (pjsua_call_on_incoming (Suc m) H U app r) (\<lambda>_. tab n {})"
    unfolding pjsua_call_on_incoming_def
    by (intro leads_if leads_gets leads_bind [OF alloc_slot slot] leads_then [OF respond] leads_ret)
  then show ?thesis by (simp add: leads_def pres_def)
qed

section \<open>Asynchronous media\<close>

lemma media_made_table:
  assumes "media_quiet U" "invite_failure_reported U" "i < n"
  shows "leads (\<lambda>v. tab n {} v \<and> med_ch_cb (calls v ! i) = Some MakeCallCb)
    (do { _ \<leftarrow> on_make_call_med_tp_complete H U i (Some info); ret () }) (\<lambda>_. tab n {})"
  by (intro leads_bind [OF leads_pre [OF media_ready [OF assms(1,2)]]] leads_ret)
    (use assms(3) in \<open>auto simp: set_up_def unused_def detached_def tab_def sound_def settled_def\<close>)

end
