(* ===== verification/Sig_System.thy ===== *)
theory Sig_System
  imports Sig_Incoming
begin

text \<open>
  All operations on calls, reports of sessions and timeouts as steps; the states they can lead to from the
  start, and the soundness of the call table in all of them.
\<close>

section \<open>Any call id\<close>

lemma outside:
  assumes "\<not> valid_call_id k v"
  shows "run_state (pjsua_call_hangup H U k code) v = (PJ_EINVAL, v)"
    "run_state (pjsua_call_answer2 m H U k opt code) v = (Returned PJ_EINVAL, v)"
    "run_state (pjsua_call_set_hold2 H U k options) v = (Returned PJ_EINVAL, v)"
    "run_state (pjsua_call_reinvite2 H U k opt) v = (Returned PJ_EINVAL, v)"
    "run_state (pjsua_call_update2 H U k opt) v = (Returned PJ_EINVAL, v)"
    "run_state (with_options request k options) v = (BadAccess, v)"
    "run_state (pjsua_call_xfer U k dest) v = (Returned PJ_EINVAL, v)"
    "run_state (pjsua_call_send_dtmf U k kind digits d) v = (PJ_EINVAL, v)"
  using assms
  by (simp_all add: pjsua_call_hangup_def pjsua_call_answer2_def pjsua_call_set_hold2_def pjsua_call_reinvite2_def
      pjsua_call_update2_def with_options_def pjsua_call_xfer_def pjsua_call_send_dtmf_def)

lemma xfer_quiet: "quiet (pjsua_call_xfer U k dest)" "quiet (pjsua_call_xfer_replaces U k d b)"
proof -
  have acq: "quiet (acquire_call i)" "quiet (get_call i)" for i by (simp_all add: quiet_def keeps_def)
  show xfer: "quiet (pjsua_call_xfer U k dest)" for dest unfolding pjsua_call_xfer_def quiet_def Let_def
    by (intro keeps_intro acq [unfolded quiet_def] quiet_ext [unfolded quiet_def])
  have "quiet (case x of Inl st \<Rightarrow> ret (Returned st) | Inr uri \<Rightarrow> pjsua_call_xfer U k uri)" for x
    using xfer by (cases x) (auto simp: quiet_def keeps_def)
  then show "quiet (pjsua_call_xfer_replaces U k d b)" unfolding pjsua_call_xfer_replaces_def quiet_def Let_def
    by (intro keeps_intro acq [unfolded quiet_def])
qed

lemma dtmf_quiet: "quiet (pjsua_call_send_dtmf U k kind digits d)"
proof -
  have "quiet (info_digits U i d ds st)" for i ds st
    by (induction ds arbitrary: st) (auto simp: quiet_def intro!: keeps_intro quiet_ext [unfolded quiet_def])
  then show ?thesis unfolding pjsua_call_send_dtmf_def
    by (cases kind) (auto simp: quiet_def intro!: keeps_intro quiet_ext [unfolded quiet_def])
qed

context table_reports
begin

lemma pres_valid:
  assumes "\<And>v. \<not> valid_call_id k v \<Longrightarrow> exec m v = v" "nat k < n \<Longrightarrow> pres J m"
  shows "pres J m"
proof -
  have "J (exec m v)" if v: "J v" for v
  proof (cases "valid_call_id k v")
    case True
    then have "nat k < n" using size [OF v] by (auto simp: valid_call_id_def)
    then show ?thesis using presD [OF assms(2) v] by simp
  qed (use v assms(1) in simp)
  then show ?thesis by (simp add: pres_def)
qed

lemma operations:
  assumes "media_quiet U"
  shows "pres J (pjsua_call_answer2 m H U k opt code)" "pres J (pjsua_call_set_hold2 H U k options)"
    "pres J (pjsua_call_reinvite H U k options)" "pres J (pjsua_call_reinvite2 H U k opt)"
    "pres J (pjsua_call_update H U k options)" "pres J (pjsua_call_update2 H U k opt)"
proof -
  note reports = reports [of "nat k"]
  show "pres J (pjsua_call_answer2 m H U k opt code)"
    by (rule pres_valid [of k]) (simp_all add: outside call_reports.answer [OF reports] assms)
  show "pres J (pjsua_call_set_hold2 H U k options)"
    by (rule pres_valid [of k]) (simp_all add: outside call_reports.set_hold [OF reports] assms)
  show re: "pres J (pjsua_call_reinvite2 H U k opt)" for opt
    by (rule pres_valid [of k]) (simp_all add: outside call_reports.requests [OF reports] assms)
  show up: "pres J (pjsua_call_update2 H U k opt)" for opt
    by (rule pres_valid [of k]) (simp_all add: outside call_reports.requests [OF reports] assms)
  show "pres J (pjsua_call_reinvite H U k options)" unfolding pjsua_call_reinvite_def
    by (rule pres_valid [of k]) (simp_all add: outside call_reports.with_options [OF reports] re)
  show "pres J (pjsua_call_update H U k options)" unfolding pjsua_call_update_def
    by (rule pres_valid [of k]) (simp_all add: outside call_reports.with_options [OF reports] up)
qed

end

section \<open>Steps\<close>

text \<open>
  What can happen to the calls there are: a request of the application, a report of a session, the end of an
  asynchronous media set-up, the timer of a hang-up that is running, or anything that leaves the call table
  alone. \<open>m\<close> is the fuel for queued answers.
\<close>

inductive call_step :: "nat \<Rightarrow> 'x hw \<Rightarrow> 'x sip \<Rightarrow> 'x pjsua_var \<Rightarrow> 'x pjsua_var \<Rightarrow> bool" for m H U where
  step_answer: "call_step m H U v (exec (pjsua_call_answer2 (Suc m) H U k opt code) v)"
| step_hangup: "call_step m H U v (exec (pjsua_call_hangup H U k code) v)"
| step_hangup_all: "call_step m H U v (exec (pjsua_call_hangup_all H U) v)"
| step_hold: "call_step m H U v (exec (pjsua_call_set_hold2 H U k options) v)"
| step_reinvite: "call_step m H U v (exec (pjsua_call_reinvite H U k options) v)"
| step_reinvite2: "call_step m H U v (exec (pjsua_call_reinvite2 H U k opt) v)"
| step_update: "call_step m H U v (exec (pjsua_call_update H U k options) v)"
| step_update2: "call_step m H U v (exec (pjsua_call_update2 H U k opt) v)"
| step_xfer: "call_step m H U v (exec (pjsua_call_xfer U k dest) v)"
| step_xfer_replaces: "call_step m H U v (exec (pjsua_call_xfer_replaces U k d no_require) v)"
| step_dtmf: "call_step m H U v (exec (pjsua_call_send_dtmf U k kind digits duration) v)"
| step_report: "i < length (calls v) \<Longrightarrow> call_step m H U v (exec (deliver H U i notice) v)"
| step_media_done: "i < length (calls v) \<Longrightarrow> call_step m H U v (exec (media_channel_done (Suc m) H U i info) v)"
| step_hangup_timer: "i < length (calls v) \<Longrightarrow> hangup_timer (calls v ! i) \<Longrightarrow>
    call_step m H U v (exec (hangup_timer_cb H U i) v)"
| step_other: "sig_view w = sig_view v \<Longrightarrow> call_step m H U v w"

inductive_cases call_stepE: "call_step m H U v w"

text \<open>
  And a new call: one the application makes, or one that comes in. \<open>app\<close> is what the application does in its
  callback for incoming calls.
\<close>

inductive sig_step ::
  "nat \<Rightarrow> 'x hw \<Rightarrow> 'x sip \<Rightarrow> (int \<Rightarrow> int \<Rightarrow> ('x, unit) pv_m) \<Rightarrow> 'x pjsua_var \<Rightarrow> 'x pjsua_var \<Rightarrow> bool"
  for m H U app where
  step_call: "call_step m H U v w \<Longrightarrow> sig_step m H U app v w"
| step_make_call: "sig_step m H U app v (exec (pjsua_call_make_call H U acc uri opt) v)"
| step_incoming: "(\<forall>j. ri_replaced r = Some j \<longrightarrow> j < length (calls v)) \<Longrightarrow>
    sig_step m H U app v (exec (pjsua_call_on_incoming (Suc m) H U app r) v)"

inductive sig_reachable ::
  "nat \<Rightarrow> nat \<Rightarrow> 'x hw \<Rightarrow> 'x sip \<Rightarrow> (int \<Rightarrow> int \<Rightarrow> ('x, unit) pv_m) \<Rightarrow> 'x pjsua_var \<Rightarrow> bool"
  for n m H U app where
  sig_start: "calls v = replicate n blank_call \<Longrightarrow> call_cnt v = 0 \<Longrightarrow> sig_reachable n m H U app v"
| sig_next: "sig_reachable n m H U app v \<Longrightarrow> sig_step m H U app v w \<Longrightarrow> sig_reachable n m H U app w"

inductive_cases sig_stepE: "sig_step m H U app v w"

section \<open>What every step keeps\<close>

context table_reports
begin

text \<open>One step, when hanging up keeps the property and so does the end of the media set-up of a call that is made.\<close>

lemma step_kept:
  assumes U: "media_quiet U" and step: "call_step m H U v w" and v: "J v"
    and view: "\<And>v w. sig_view w = sig_view v \<Longrightarrow> J v \<Longrightarrow> J w"
    and hangup: "\<And>k code. pres J (pjsua_call_hangup H U k code)"
    and made: "\<And>i info. i < n \<Longrightarrow> leads (\<lambda>v. J v \<and> med_ch_cb (calls v ! i) = Some MakeCallCb)
      (do { _ \<leftarrow> on_make_call_med_tp_complete H U i (Some info); ret () }) (\<lambda>_. J)"
  shows "J w"
proof -
  have len: "length (calls v) = n" by (rule size [OF v])
  have still: "J (exec c v)" if "quiet c" for c :: "('x, 'c) pv_m"
  proof -
    have "pres J c" by (rule pres_quiet [OF that]) (rule view)
    then show ?thesis using v by (rule presD)
  qed
  have all: "pres J (pjsua_call_hangup_all H U)"
    unfolding pjsua_call_hangup_all_def
    by (rule pres_bind [OF pres_gets]) (auto intro!: pres_for_each_in pres_bind pres_get_call pres_only_if pres_ret hangup)
  note ops = operations [OF U, THEN presD, OF v]
  show ?thesis using step
  proof cases
    case (step_report i notice)
    then show ?thesis using presD [OF call_reports.deliver [OF reports U] v] len by simp
  next
    case (step_media_done i info)
    then show ?thesis using presD [OF media_reported [OF U _ made] v] len by simp
  next
    case (step_hangup_timer i)
    then show ?thesis using presD [OF call_reports.hangup_timer_cb [OF reports U] v] len by simp
  next
    case step_other
    then show ?thesis by (rule view) (rule v)
  qed (use ops presD [OF hangup v] presD [OF all v] still [OF xfer_quiet(1)] still [OF xfer_quiet(2)] still [OF dtmf_quiet]
      in simp_all)
qed

end

context table_property
begin

lemma hangup: "media_quiet U \<Longrightarrow> pres J (pjsua_call_hangup H U k code)"
  by (rule pres_valid [of k]) (simp_all add: outside call_property.hangup [OF each])

end

lemma sig_step_table:
  assumes "media_quiet U" "invite_failure_reported U" "app_sound n app" "sig_step m H U app v w" "tab n {} v"
  shows "tab n {} w"
  using assms(4)
proof cases
  case step_call
  show ?thesis
    by (rule whole.step_kept [OF assms(1) step_call assms(5) tab_view whole.hangup [OF assms(1)] media_made_table [OF assms(1,2)]])
next
  case step_make_call
  then show ?thesis using presD [OF make_call_table [OF assms(1,2)] assms(5)] by simp
next
  case (step_incoming r)
  moreover have "length (calls v) = n" using assms(5) by (simp add: tab_def)
  ultimately show ?thesis using presD [OF incoming_table [OF assms(1,3)] assms(5)] by simp
qed

lemma start_table:
  assumes "calls v = replicate n blank_call" "call_cnt v = 0" "n < 2 ^ 31"
  shows "tab n {} v"
proof -
  have "attached_calls v = {}" by (auto simp: attached_calls_def assms(1))
  then show ?thesis using assms by (simp add: tab_def sound_def)
qed

lemma sig_reachable_table:
  assumes "media_quiet U" "invite_failure_reported U" "app_sound n app" "n < 2 ^ 31"
  shows "sig_reachable n m H U app v \<Longrightarrow> tab n {} v"
  by (induction rule: sig_reachable.induct) (auto intro: start_table sig_step_table assms)

section \<open>What the table says\<close>

lemma enum_calls_filter:
  "length cs \<le> room \<Longrightarrow>
   enum_calls_loop k cs room = map int (filter (\<lambda>i. call_inv (cs ! (i - k)) \<noteq> None) [k..<k + length cs])"
proof (induction k cs room rule: enum_calls_loop.induct)
  case (2 i c cs room)
  have up: "[i..<i + length (c # cs)] = i # [Suc i..<Suc i + length cs]" by (subst upt_rec) simp
  have "filter (\<lambda>j. call_inv ((c # cs) ! (j - i)) \<noteq> None) [Suc i..<Suc i + length cs]
      = filter (\<lambda>j. call_inv (cs ! (j - Suc i)) \<noteq> None) [Suc i..<Suc i + length cs]"
    by (intro filter_cong refl) (auto simp: nth_Cons' Suc_diff_Suc)
  then show ?case using 2 up by auto
qed simp

end
