(* ===== verification/Sig_Demo.thy ===== *)
theory Sig_Demo
  imports Sig_System Demo
begin

text \<open>
  A concrete SIP stack, on which the properties of calls with hypotheses are shown to apply: everything
  succeeds at once, sessions report nothing but the first INVITE and their end.
\<close>

definition demo_sdp :: sdp_session where
  "demo_sdp = \<lparr>s_conn = Some ''192.168.1.2'', s_media = [\<lparr>m_conn = None, m_attrs = [''rtpmap'', ''sendrecv'']\<rparr>]\<rparr>"

definition demo_sip :: "unit sip" where
  "demo_sip = \<lparr>
     sp_transport_param = (\<lambda>_. []), sp_create_uac = (\<lambda>_ _ _ _ x. (0, x)), sp_inv_uac = (\<lambda>_ x. (0, x)),
     sp_uas_contact = (\<lambda>_ _. (0, ''<sip:alice@192.168.1.2:5060>'')), sp_create_uas = (\<lambda>_ _ x. (0, x)),
     sp_inv_uas = (\<lambda>_ x. (0, x)), sp_timer_init = (\<lambda>_ x. (0, x)), sp_invite = (\<lambda>_ x. (0, x)),
     sp_initial_answer = (\<lambda>_ x. ((0, Some 100), x)), sp_respond = (\<lambda>_ x. x),
     sp_send = (\<lambda>_ m x. ((0, if m = MsgInvite then [StateChanged INV_CALLING OtherEvent 0] else []), x)),
     sp_answer = (\<lambda>_ _ x. ((0, []), x)), sp_end = (\<lambda>_ _ x. ((0, True), x)),
     sp_send_end = (\<lambda>_ x. ((0, Some (TsxState 200, 200)), x)), sp_terminate = (\<lambda>_ code x. ((OtherEvent, code), x)),
     sp_reinvite = (\<lambda>_ _ x. (0, x)), sp_update = (\<lambda>_ _ x. (0, x)), sp_has_offer = (\<lambda>_ _. True),
     sp_temp_sdp = (\<lambda>_ x. (0, x)), sp_verify = (\<lambda>_ x. ((0, 0), x)), sp_set_local_sdp = (\<lambda>_ _ x. (0, x)),
     sp_can_answer = (\<lambda>_ _. True), sp_last_answer = (\<lambda>_ _. True), sp_neg_idle = (\<lambda>_ _. True), sp_has_pool = (\<lambda>_ _. True),
     sp_update_contact = (\<lambda>_ x. x), sp_update_via = (\<lambda>_ x. x), sp_xfer_create = (\<lambda>_ x. (0, x)),
     sp_xfer_initiate = (\<lambda>_ _ x. (0, x)), sp_xfer_send = (\<lambda>_ x. (0, x)), sp_xfer_notify = (\<lambda>_ _ _ x. x),
     sp_remote_uri = (\<lambda>_ _. Some ''sip:bob@example.com''), sp_remote_info = (\<lambda>_ _. ''<sip:bob@example.com>''),
     sp_dialog_id = (\<lambda>_ _. (''abc'', ''1'', ''2'')), sp_escape_id = Some, sp_dial_dtmf = (\<lambda>_ _ x. (0, x)),
     sp_info = (\<lambda>_ _ x. (0, x)), sp_med_init = (\<lambda>_ _. ret (MedDone 0 0)), sp_med_deinit = (\<lambda>_. ret ()),
     sp_med_sdp = (\<lambda>_. ret ((0, 0), demo_sdp)), sp_med_update = (\<lambda>_. ret 0), sp_med_revert = (\<lambda>_. ret ())\<rparr>"

text \<open>pjsua after start-up, with its eight call slots, and an INVITE request.\<close>

definition demo_idle :: "unit pjsua_var" where
  "demo_idle = demo_var\<lparr>calls := replicate 8 blank_call, call_cnt := 0, next_call_id := 0\<rparr>"

definition demo_rx :: rx_invite where
  "demo_rx = \<lparr>ri_is_invite = True, ri_in_dialog = False, ri_replaces = (0, None), ri_replaced = None,
     ri_msg = \<lparr>im_to = demo_uri ''sip:alice@example.com'', im_request_uri = demo_uri ''sip:alice@192.168.1.2'',
       im_is_request = True, im_tp_type = 0\<rparr>,
     ri_tp_secure = False, ri_body = Some \<lparr>sb_sdp = Some demo_sdp, sb_err = 0, sb_found = True\<rparr>,
     ri_verify = (\<lambda>_. (0, None))\<rparr>"

text \<open>An application that refuses every call.\<close>

definition demo_app :: "int \<Rightarrow> int \<Rightarrow> (unit, unit) pv_m" where
  "demo_app acc call = do { _ \<leftarrow> pjsua_call_hangup demo_hw demo_sip call 486; ret () }"

lemma demo_calls:
  "calls demo_var = [demo_call 1, demo_call 2, blank_call, blank_call, blank_call, blank_call, blank_call, blank_call]"
  "next_call_id demo_var = 2" "call_cnt demo_var = 2"
  by (simp_all add: demo_var_def replicate_6_8)

lemma demo_slots: "search_start demo_var = 2" "found_slot demo_var = Some 2"
proof -
  show start: "search_start demo_var = 2" by (simp add: search_start_def demo_calls)
  have "first_free (calls demo_var) 2 (Suc 5) = Some 2" unfolding first_free.simps(2) by (simp add: demo_calls)
  then show "found_slot demo_var = Some 2" by (simp add: found_slot_def start) (simp add: demo_calls)
qed

lemma demo_sip_quiet: "media_quiet demo_sip"
  by (simp add: media_quiet_def demo_sip_def quiet_def keeps_def)

lemma demo_sip_reports: "invite_failure_reported demo_sip"
  by (simp add: invite_failure_reported_def demo_sip_def)

lemma demo_app_sound: "app_sound n demo_app"
  unfolding app_sound_def demo_app_def by (intro allI pres_bind pres_ret whole.hangup demo_sip_quiet)

text \<open>A call made, and a call refused by the application.\<close>

definition demo_called :: "unit pjsua_var" where
  "demo_called = exec (pjsua_call_make_call demo_hw demo_sip 0 ''sip:bob@example.com'' None) demo_idle"

definition demo_refused :: "unit pjsua_var" where
  "demo_refused = exec (pjsua_call_on_incoming (Suc 8) demo_hw demo_sip demo_app demo_rx) demo_called"

lemma demo_reachable:
  "sig_reachable 8 8 demo_hw demo_sip demo_app demo_idle" "sig_reachable 8 8 demo_hw demo_sip demo_app demo_called"
  "sig_reachable 8 8 demo_hw demo_sip demo_app demo_refused"
proof -
  show idle: "sig_reachable 8 8 demo_hw demo_sip demo_app demo_idle" by (rule sig_start) (simp_all add: demo_idle_def)
  show called: "sig_reachable 8 8 demo_hw demo_sip demo_app demo_called"
    unfolding demo_called_def by (rule sig_next [OF idle step_make_call])
  have "\<forall>j. ri_replaced demo_rx = Some j \<longrightarrow> j < length (calls demo_called)" by (simp add: demo_rx_def)
  from sig_next [OF called step_incoming [OF this]]
  show "sig_reachable 8 8 demo_hw demo_sip demo_app demo_refused" unfolding demo_refused_def .
qed

section \<open>Evaluation\<close>

lemma demo_sip_fields:
  "sp_transport_param demo_sip = (\<lambda>_. [])"
  "sp_create_uac demo_sip = (\<lambda>_ _ _ _ x. (0, x))"
  "sp_inv_uac demo_sip = (\<lambda>_ x. (0, x))"
  "sp_uas_contact demo_sip = (\<lambda>_ _. (0, ''<sip:alice@192.168.1.2:5060>''))"
  "sp_create_uas demo_sip = (\<lambda>_ _ x. (0, x))"
  "sp_inv_uas demo_sip = (\<lambda>_ x. (0, x))"
  "sp_timer_init demo_sip = (\<lambda>_ x. (0, x))"
  "sp_invite demo_sip = (\<lambda>_ x. (0, x))"
  "sp_initial_answer demo_sip = (\<lambda>_ x. ((0, Some 100), x))"
  "sp_respond demo_sip = (\<lambda>_ x. x)"
  "sp_send demo_sip = (\<lambda>_ m x. ((0, if m = MsgInvite then [StateChanged INV_CALLING OtherEvent 0] else []), x))"
  "sp_answer demo_sip = (\<lambda>_ _ x. ((0, []), x))"
  "sp_end demo_sip = (\<lambda>_ _ x. ((0, True), x))"
  "sp_send_end demo_sip = (\<lambda>_ x. ((0, Some (TsxState 200, 200)), x))"
  "sp_terminate demo_sip = (\<lambda>_ code x. ((OtherEvent, code), x))"
  "sp_reinvite demo_sip = (\<lambda>_ _ x. (0, x))"
  "sp_update demo_sip = (\<lambda>_ _ x. (0, x))"
  "sp_has_offer demo_sip = (\<lambda>_ _. True)"
  "sp_temp_sdp demo_sip = (\<lambda>_ x. (0, x))"
  "sp_verify demo_sip = (\<lambda>_ x. ((0, 0), x))"
  "sp_set_local_sdp demo_sip = (\<lambda>_ _ x. (0, x))"
  "sp_can_answer demo_sip = (\<lambda>_ _. True)"
  "sp_last_answer demo_sip = (\<lambda>_ _. True)"
  "sp_neg_idle demo_sip = (\<lambda>_ _. True)"
  "sp_has_pool demo_sip = (\<lambda>_ _. True)"
  "sp_update_contact demo_sip = (\<lambda>_ x. x)"
  "sp_update_via demo_sip = (\<lambda>_ x. x)"
  "sp_xfer_create demo_sip = (\<lambda>_ x. (0, x))"
  "sp_xfer_initiate demo_sip = (\<lambda>_ _ x. (0, x))"
  "sp_xfer_send demo_sip = (\<lambda>_ x. (0, x))"
  "sp_xfer_notify demo_sip = (\<lambda>_ _ _ x. x)"
  "sp_remote_uri demo_sip = (\<lambda>_ _. Some ''sip:bob@example.com'')"
  "sp_remote_info demo_sip = (\<lambda>_ _. ''<sip:bob@example.com>'')"
  "sp_dialog_id demo_sip = (\<lambda>_ _. (''abc'', ''1'', ''2''))"
  "sp_escape_id demo_sip = Some"
  "sp_dial_dtmf demo_sip = (\<lambda>_ _ x. (0, x))"
  "sp_info demo_sip = (\<lambda>_ _ x. (0, x))"
  "sp_med_init demo_sip = (\<lambda>_ _. ret (MedDone 0 0))"
  "sp_med_deinit demo_sip = (\<lambda>_. ret ())"
  "sp_med_sdp demo_sip = (\<lambda>_. ret ((0, 0), demo_sdp))"
  "sp_med_update demo_sip = (\<lambda>_. ret 0)"
  "sp_med_revert demo_sip = (\<lambda>_. ret ())"
  by (simp_all add: demo_sip_def)

lemma demo_idle_fields:
  "calls demo_idle = [blank_call, blank_call, blank_call, blank_call, blank_call, blank_call, blank_call, blank_call]"
  "next_call_id demo_idle = 0" "call_cnt demo_idle = 0" "app_log demo_idle = []"
  "accounts demo_idle = [demo_acc 0, demo_acc 1, free_acc, free_acc]" "snd_port demo_idle" "ext demo_idle = ()"
  "\<not> thread_quit_flag demo_idle" "acc_cnt demo_idle = 2" "acc_ids demo_idle = [0, 1]" "default_acc demo_idle = 1"
  by (simp_all add: demo_idle_def demo_var_def replicate_6_8)

lemma demo_idle_slots: "search_start demo_idle = 0" "found_slot demo_idle = Some 0"
proof -
  show start: "search_start demo_idle = 0" by (simp add: search_start_def demo_idle_fields)
  have "first_free (calls demo_idle) 0 (Suc 7) = Some 0" unfolding first_free.simps(2) by (simp add: demo_idle_fields)
  then show "found_slot demo_idle = Some 0" by (simp add: found_slot_def start) (simp add: demo_idle_fields)
qed

lemmas make_call_eval = pjsua_call_make_call_def place_call_def prepare_call_def open_snd_for_call_def create_call_dialog_def
  on_make_call_med_tp_complete_def send_initial_invite_def apply_call_setting_def media_channel_init_def inv_send_msg_def
  deliver_def in_session_def pjsua_call_on_state_changed_def finish_state_change_def notify_transferer_def tell_state_def

lemma demo_uac:
  "hw_parse_uri demo_hw u = (if u = [] then None else Some (demo_uri u))" "a_contact (demo_acc i) \<noteq> []" "a_valid (demo_acc i)"
  by (simp_all add: demo_hw_def demo_acc_def)

lemma put_call_snd_port: "snd_port (put_call i f v) = snd_port v"
  by (simp add: put_call_def)

lemmas blank_eval = blank_call_def pjsua_call_setting_default_def pjsua_call_cleanup_flag_def has_flag_def

lemma demo_called_run:
  "run_state (pjsua_call_make_call demo_hw demo_sip 0 ''sip:bob@example.com'' None) demo_idle = ((0, 0), demo_called)"
proof -
  have "result (pjsua_call_make_call demo_hw demo_sip 0 ''sip:bob@example.com'' None) demo_idle = (0, 0)"
    by (simp add: make_call_eval alloc_run demo_idle_slots demo_idle_fields demo_sip_fields demo_uac put_call_snd_port blank_eval)
  then show ?thesis unfolding demo_called_def by (metis prod.collapse)
qed

lemma demo_idle_table: "call_table_ok demo_idle"
  using start_table [of demo_idle 8] by (simp add: call_table_ok_def tab_def demo_idle_def)

end
