(* ===== verification/Sig_Apart.thy ===== *)
theory Sig_Apart
  imports Sig_System
begin

text \<open>
  What an operation on one call leaves alone: the signalling state of all other calls.
\<close>

definition apart :: "nat \<Rightarrow> pjsua_call list \<Rightarrow> 'x pjsua_var \<Rightarrow> bool" where
  "apart i cs v \<longleftrightarrow> i < length (calls v) \<and> length (calls v) = length cs
     \<and> (\<forall>j < length cs. j \<noteq> i \<longrightarrow> sig_of (calls v ! j) = sig_of (cs ! j))"

lemma apart_put: "apart i cs v \<Longrightarrow> apart i cs (put_call i f v)"
  by (simp add: apart_def put_call_nth)

lemma apart_fields [simp]:
  "apart i cs (v\<lparr>call_cnt := c\<rparr>) = apart i cs v" "apart i cs (v\<lparr>ext := e\<rparr>) = apart i cs v"
  "apart i cs (v\<lparr>app_log := l\<rparr>) = apart i cs v" "apart i cs (v\<lparr>next_call_id := k\<rparr>) = apart i cs v"
  by (simp_all add: apart_def)

lemma apart_self: "i < length (calls v) \<Longrightarrow> apart i (calls v) v"
  by (simp add: apart_def)

interpretation apart: call_property "apart i cs" i for i cs
proof
  fix v w :: "'a pjsua_var"
  assume eq: "sig_view w = sig_view v" and v: "apart i cs v"
  then show "apart i cs w" using sig_viewD(1,5) [OF eq] by (simp add: apart_def)
qed (auto simp: apart_put, simp add: apart_def)

lemma pres_apart_put: "pres (apart i cs) (upd_call i f)" "pres (apart i cs) (reset_call i)"
  by (simp_all add: pres_def apart_put)

lemma pres_apart_count: "pres (apart i cs) (modify (\<lambda>v. v\<lparr>call_cnt := call_cnt v + 1\<rparr>))"
  by (simp add: pres_def)

lemma apart_media_init: "media_quiet U \<Longrightarrow> pres (apart i cs) (media_channel_init U i uas cb)"
  unfolding media_channel_init_def by (intro pres_intro pres_apart_put apart.basic)

lemma apart_make_call_failed: "media_quiet U \<Longrightarrow> pres (apart i cs) (make_call_failed H U i session cb)"
  unfolding make_call_failed_def by (intro pres_intro pres_apart_put apart.pres_told apart.basic apart.inv_terminate)

lemma apart_media_ready: "media_quiet U \<Longrightarrow> pres (apart i cs) (on_make_call_med_tp_complete H U i info)"
  unfolding on_make_call_med_tp_complete_def send_initial_invite_def Let_def
  by (intro pres_intro pres_apart_put pres_apart_count apart.basic apart.sends apart_make_call_failed)

lemma apart_prepare: "media_quiet U \<Longrightarrow> pres (apart i cs) (prepare_call H U i acc uri opt)"
  unfolding prepare_call_def open_snd_for_call_def create_call_dialog_def
  by (intro pres_intro pres_apart_put apart.basic apart.apply_setting apart.pres_calm quiet_neutral neutral_set_snd_dev)

text \<open>An outgoing call: on an error its slot is blank again.\<close>

definition placed :: "nat \<Rightarrow> pjsua_call list \<Rightarrow> pj_status \<times> int \<Rightarrow> 'x pjsua_var \<Rightarrow> bool" where
  "placed i cs r v \<longleftrightarrow> apart i cs v \<and> (if fst r = PJ_SUCCESS then snd r = int i
     else snd r = PJSUA_INVALID_ID \<and> sig_of (calls v ! i) = sig_of blank_call)"

lemma blank_idle: "leads (\<lambda>v. apart i cs v \<and> sig_of (calls v ! i) = sig_of blank_call) pjsua_check_snd_dev_idle
    (\<lambda>_ v. apart i cs v \<and> sig_of (calls v ! i) = sig_of blank_call)"
proof (rule leads_pres, rule pres_quiet [OF quiet_laws(3)])
  fix v w :: "'a pjsua_var"
  assume eq: "sig_view w = sig_view v" and v: "apart i cs v \<and> sig_of (calls v ! i) = sig_of blank_call"
  have "i < length (calls v)" using v by (simp add: apart_def)
  then show "apart i cs w \<and> sig_of (calls w ! i) = sig_of blank_call"
    using v apart.view [OF eq] sig_viewD(5) [OF eq] by simp
qed

lemma make_error_placed:
  assumes "media_quiet U" "st \<noteq> PJ_SUCCESS"
  shows "leads (apart i cs) (make_call_error U i st) (placed i cs)"
proof -
  have reset: "leads (apart i cs) (reset_call i) (\<lambda>_ v. apart i cs v \<and> sig_of (calls v ! i) = sig_of blank_call)"
    unfolding leads_def using apart_put apart.in_table by fastforce
  show ?thesis unfolding make_call_error_def
    by (intro leads_then [OF pres_apart_put(1)] leads_then [OF apart.basic(5)] leads_bind [OF reset] leads_bind [OF blank_idle]
        leads_ret assms(1)) (use assms(2) in \<open>simp add: placed_def\<close>)
qed

lemma place_call_placed:
  assumes "media_quiet U"
  shows "leads (apart i cs) (place_call H U i acc uri opt) (placed i cs)"
proof -
  have done': "leads (apart i cs) (ret (PJ_SUCCESS, int i)) (placed i cs)" by (rule leads_ret) (simp add: placed_def)
  show ?thesis unfolding place_call_def
    by (intro leads_then [OF apart_prepare] leads_then [OF pres_get_call] leads_then [OF pres_if]
        leads_then [OF apart_media_ready] leads_prod leads_if make_error_placed done' pres_ret apart_media_init assms)
qed

lemma idle_view: "sig_view (exec pjsua_check_snd_dev_idle v) = sig_view v"
  using quiet_laws(3) unfolding quiet_def keeps_def by blast

lemma make_call_cases:
  assumes "media_quiet U" "run_state (pjsua_call_make_call H U acc uri opt) v = (r, w)"
  obtains (refused) x where "sig_view w = sig_view (v\<lparr>next_call_id := x\<rparr>)" "fst r \<noteq> PJ_SUCCESS" "snd r = PJSUA_INVALID_ID"
    | (slot) i where "i < length (calls v)" "call_free (calls v ! i)" "placed i (calls v) r w"
        "run_state (place_call H U i acc uri opt) (v\<lparr>next_call_id := int (search_start v) + 1\<rparr>) = (r, w)"
proof -
  consider "\<not> (0 \<le> acc \<and> acc < int PJSUA_MAX_ACC \<and> a_valid (accounts v ! nat acc))"
    | "0 \<le> acc \<and> acc < int PJSUA_MAX_ACC \<and> a_valid (accounts v ! nat acc)" "found_slot v = None"
    | i where "0 \<le> acc \<and> acc < int PJSUA_MAX_ACC \<and> a_valid (accounts v ! nat acc)" "found_slot v = Some i"
    by fastforce
  then show ?thesis
  proof cases
    case 1
    then have "w = v \<or> w = exec pjsua_check_snd_dev_idle v" "fst r \<noteq> PJ_SUCCESS \<and> snd r = PJSUA_INVALID_ID"
      using assms(2) by (auto simp: pjsua_call_make_call_def split: if_splits prod.splits)
    moreover have "v = v\<lparr>next_call_id := next_call_id v\<rparr>" by simp
    ultimately show ?thesis using refused idle_view by metis
  next
    case 2
    then have "w = exec pjsua_check_snd_dev_idle (v\<lparr>next_call_id := int (search_start v)\<rparr>)"
      "fst r \<noteq> PJ_SUCCESS \<and> snd r = PJSUA_INVALID_ID"
      using assms(2) by (auto simp: pjsua_call_make_call_def alloc_run split: prod.splits)
    then show ?thesis using refused idle_view by metis
  next
    case (3 i)
    let ?v = "v\<lparr>next_call_id := int (search_start v) + 1\<rparr>"
    have i: "i < length (calls v)" "call_free (calls v ! i)" using found_slot_free [OF 3(2)] by simp_all
    have run: "run_state (place_call H U i acc uri opt) ?v = (r, w)"
      using assms(2) 3 by (simp add: pjsua_call_make_call_def alloc_run)
    have "apart i (calls v) ?v" using i by (simp add: apart_def)
    from leadsD [OF place_call_placed [OF assms(1)] this, of H acc uri opt] have "placed i (calls v) r w"
      unfolding run by simp
    then show ?thesis using slot i run by blast
  qed
qed

text \<open>Tables with the same calls, as far as signalling goes.\<close>

definition same_calls :: "'x pjsua_var \<Rightarrow> 'x pjsua_var \<Rightarrow> bool" where
  "same_calls v w \<longleftrightarrow> length (calls w) = length (calls v) \<and> attached_calls w = attached_calls v
     \<and> (\<forall>j < length (calls v). sig_of (calls w ! j) = sig_of (calls v ! j)
          \<or> call_free (calls v ! j) \<and> call_free (calls w ! j))"

lemma same_calls_view:
  assumes "sig_view w = sig_view (v\<lparr>next_call_id := x\<rparr>)"
  shows "same_calls v w"
proof -
  note view = sig_viewD [OF assms]
  have "call_attached (calls w ! j) = call_attached (calls v ! j)" if "j < length (calls v)" for j
    using sig_of_fields(2) [OF view(5)] that by simp
  then show ?thesis using view by (auto simp: same_calls_def attached_calls_def)
qed

lemma same_calls_apart:
  assumes "sound {} v" "apart i (calls v) w" "call_free (calls v ! i)" "call_free (calls w ! i)" "\<not> call_attached (calls w ! i)"
  shows "same_calls v w"
proof -
  have i: "i < length (calls v)" using assms(2) by (auto simp: apart_def)
  then have "\<not> call_attached (calls v ! i)" using assms(1,3) by (auto simp: sound_def slot_sound_def call_free_def)
  then have "call_attached (calls w ! j) = call_attached (calls v ! j)" if "j < length (calls v)" for j
    using assms(2,5) that sig_of_fields(2) [of "calls w ! j" "calls v ! j"] by (cases "j = i") (auto simp: apart_def)
  then have "attached_calls w = attached_calls v" using assms(2) by (auto simp: attached_calls_def apart_def)
  then show ?thesis using assms(2-4) by (auto simp: same_calls_def apart_def)
qed

lemma same_calls_count: "same_calls v w \<Longrightarrow> sound X v \<Longrightarrow> sound Y w \<Longrightarrow> call_cnt w = call_cnt v"
  by (simp add: same_calls_def sound_def)

end
