(* ===== verification/Sig_Outgoing.thy ===== *)
theory Sig_Outgoing
  imports Sig_Apart
begin

text \<open>
  What an attempt to make a call leaves behind: the number of calls on success and on failure, and, on a stack that
  behaves as usual, a slot that is in use.
\<close>

section \<open>The number of calls\<close>

definition other_calls :: "nat \<Rightarrow> pjsua_call list \<Rightarrow> u32" where
  "other_calls i cs = of_nat (card {j. j < length cs \<and> j \<noteq> i \<and> call_attached (cs ! j)})"

lemma apart_attached:
  assumes "apart i cs v"
  shows "attached_calls v - {i} = {j. j < length cs \<and> j \<noteq> i \<and> call_attached (cs ! j)}"
proof -
  have "call_attached (calls v ! j) = call_attached (cs ! j)" if "j < length cs" "j \<noteq> i" for j
    using assms that by (intro sig_of_fields(2)) (simp add: apart_def)
  then show ?thesis using assms by (auto simp: apart_def attached_calls_def)
qed

lemma apart_count:
  assumes "tab n X v" "apart i cs v"
  shows "call_cnt v = other_calls i cs + (if call_attached (calls v ! i) then 1 else 0)"
proof (cases "call_attached (calls v ! i)")
  case True
  then have "i \<in> attached_calls v" using assms(2) by (simp add: attached_calls_def apart_def)
  then have "card (attached_calls v) = Suc (card (attached_calls v - {i}))" by (metis card.remove finite_attached)
  then show ?thesis using True assms(1) apart_attached [OF assms(2)] by (simp add: tab_def sound_def other_calls_def)
next
  case False
  then have "attached_calls v - {i} = attached_calls v" by (auto simp: attached_calls_def)
  then show ?thesis using False assms(1) apart_attached [OF assms(2)] by (simp add: tab_def sound_def other_calls_def)
qed

text \<open>The other calls are as they were, and this call counts or does not.\<close>

definition tallied :: "nat \<Rightarrow> pjsua_call list \<Rightarrow> 'x pjsua_var \<Rightarrow> bool" where
  "tallied i cs v \<longleftrightarrow> apart i cs v \<and> (call_cnt v = other_calls i cs \<or> call_cnt v = other_calls i cs + 1)"

lemma tab_tallied: "tab n X v \<Longrightarrow> apart i cs v \<Longrightarrow> tallied i cs v"
  using apart_count [of n X v i cs] by (auto simp: tallied_def split: if_splits)

lemma pres_tallied:
  "quiet m \<Longrightarrow> pres (tallied i cs) m" "pres (tallied i cs) (upd_call i f)" "pres (tallied i cs) (reset_call i)"
  "pres (tallied i cs) (tell_state i)"
proof -
  show "quiet m \<Longrightarrow> pres (tallied i cs) m"
  proof (rule pres_quiet)
    fix v w :: "'a pjsua_var"
    assume eq: "sig_view w = sig_view v" and v: "tallied i cs v"
    show "tallied i cs w" using v apart.view [OF eq] sig_viewD(2) [OF eq] by (simp add: tallied_def)
  qed
  show "pres (tallied i cs) (upd_call i f)" "pres (tallied i cs) (reset_call i)"
    by (simp_all add: pres_def tallied_def apart_put)
  show "pres (tallied i cs) (tell_state i)" by (simp add: pres_def tell_state_def tallied_def)
qed

lemmas tallied_basic = quiet_laws [THEN pres_tallied(1)] pres_tallied(2-4)

lemma tallied_failed: "media_quiet U \<Longrightarrow> pres (tallied i cs) (make_call_failed H U i session told)"
  unfolding make_call_failed_def inv_terminate_def session_disconnected_def in_session_def
  by (intro pres_intro tallied_basic) simp_all

lemma tallied_error: "media_quiet U \<Longrightarrow> pres (tallied i cs) (make_call_error U i st)"
  unfolding make_call_error_def by (intro pres_intro tallied_basic)

section \<open>Making the call\<close>

text \<open>The slot is free, and the other calls are as they were; and the outcome.\<close>

definition spare :: "nat \<Rightarrow> nat \<Rightarrow> pjsua_call list \<Rightarrow> 'x pjsua_var \<Rightarrow> bool" where
  "spare n i cs v \<longleftrightarrow> unused n i v \<and> apart i cs v"

definition outcome :: "nat \<Rightarrow> nat \<Rightarrow> pjsua_call list \<Rightarrow> pj_status \<Rightarrow> 'x pjsua_var \<Rightarrow> bool" where
  "outcome n i cs st v \<longleftrightarrow> (if st = PJ_SUCCESS then tab n {} v \<and> apart i cs v else tallied i cs v)"

lemma spare_outcome: "spare n i cs v \<Longrightarrow> outcome n i cs st v"
  using unused_slot(1) [of n i v] tab_tallied [of n "{}" v i cs] by (simp add: spare_def outcome_def)

lemma spare_tallied: "spare n i cs v \<Longrightarrow> tallied i cs v"
  using unused_slot(1) [of n i v] tab_tallied [of n "{}" v i cs] by (simp add: spare_def)

lemma pres_spare: "pres (unused n i) m \<Longrightarrow> pres (apart i cs) m \<Longrightarrow> pres (spare n i cs) m"
  by (simp add: pres_def spare_def)

lemma failed_outcome:
  assumes "media_quiet U" "\<And>v. P v \<Longrightarrow> uncounted n i v \<and> apart i cs v"
  shows "leads P (do { make_call_failed H U i session told; ret st }) (\<lambda>r. outcome n i cs r)"
proof (rule leads_bind)
  show "leads P (make_call_failed H U i session told) (\<lambda>_. spare n i cs)"
    using leadsD [OF make_call_failed_slot [OF assms(1)]] presD [OF apart_make_call_failed [OF assms(1)]] assms(2)
    unfolding leads_def spare_def by blast
  show "leads (spare n i cs) (ret st) (\<lambda>r. outcome n i cs r)" by (rule leads_ret) (rule spare_outcome)
qed

lemma sent_outcome:
  "leads (\<lambda>v. dialling n i v \<and> apart i cs v) (do { upd_call i (\<lambda>c. c\<lparr>med_ch_cb := None\<rparr>); ret PJ_SUCCESS })
     (\<lambda>st. outcome n i cs st)"
proof (rule leads_bind [OF leads_upd leads_ret])
  fix v :: "'a pjsua_var"
  assume v: "dialling n i v \<and> apart i cs v"
  let ?v = "put_call i (\<lambda>c. c\<lparr>med_ch_cb := None\<rparr>) v"
  have "dialling n i ?v" "med_ch_cb (calls ?v ! i) \<noteq> Some MakeCallCb"
    using v calling.in_table [of n i v] by (simp_all add: calling.mildly)
  then have "tab n {} ?v" by (rule dialling_done)
  then show "outcome n i cs PJ_SUCCESS ?v" using v by (simp add: outcome_def apart_put)
qed

lemma invite_outcome:
  assumes "media_quiet U"
  shows "leads (spare n i cs) (send_initial_invite H U i) (\<lambda>st. outcome n i cs st)"
proof -
  let ?ring = "\<lambda>v. ringing n i v \<and> apart i cs v" and ?dial = "\<lambda>v. dialling n i v \<and> apart i cs v"
  have ring: "leads (spare n i cs) (upd_call i (\<lambda>c. c\<lparr>call_inv := Some st, call_inv_cause := k, call_role_uas := b,
      call_attached := True\<rparr>)) (\<lambda>_ v. ringing n i v \<and> apart i cs v)" for st k b
    by (rule leads_upd) (auto simp: spare_def apart_put intro: start_ringing)
  have ext: "pres ?ring (on_ext f)" for f :: "'a \<Rightarrow> 'b \<times> 'a" by (simp add: pres_def)
  have count: "leads ?ring (modify (\<lambda>v. v\<lparr>call_cnt := call_cnt v + 1\<rparr>)) (\<lambda>_. ?dial)"
    using leadsD [OF count_call, of n i] by (fastforce simp: leads_def)
  have send: "pres ?dial (inv_send_msg H U i MsgInvite)"
    by (intro pres_conj calling.sends apart.sends assms)
  have fail: "leads ?ring (do { make_call_failed H U i True False; ret st }) (\<lambda>st. outcome n i cs st)" for st
    by (rule failed_outcome [OF assms]) (simp add: ringing_def)
  have unsent: "leads ?dial (do { upd_call i (\<lambda>c. c\<lparr>call_inv := None\<rparr>); make_call_failed H U i False True; ret st })
      (\<lambda>st. outcome n i cs st)" if "st \<noteq> PJ_SUCCESS" for st
  proof (rule leads_pre [where R = "tallied i cs"])
    show "leads (tallied i cs) (do { upd_call i (\<lambda>c. c\<lparr>call_inv := None\<rparr>); make_call_failed H U i False True; ret st })
        (\<lambda>st. outcome n i cs st)"
      by (intro leads_then tallied_basic tallied_failed leads_ret assms) (simp add: outcome_def that)
  qed (auto simp: dialling_def intro: tab_tallied)
  show ?thesis unfolding send_initial_invite_def
    by (intro leads_bind [OF ring] leads_then [OF ext] leads_if fail leads_bind [OF count] leads_then [OF send] unsent sent_outcome)
qed

lemma spare_failed:
  "media_quiet U \<Longrightarrow> leads (spare n i cs) (do { make_call_failed H U i session told; ret st }) (\<lambda>r. outcome n i cs r)"
  by (rule failed_outcome) (simp_all add: spare_def unused_uncounted)

lemma spare_quiet: "quiet m \<Longrightarrow> pres (spare n i cs) m"
  by (intro pres_spare idle.pres_calm apart.pres_calm)

lemmas spare_basic = quiet_laws [THEN spare_quiet]

lemma spare_put: "mild f \<Longrightarrow> pres (spare n i cs) (upd_call i f)"
  by (intro pres_spare idle.pres_mildly apart.pres_mildly)

lemma media_outcome:
  assumes "media_quiet U"
  shows "leads (spare n i cs) (on_make_call_med_tp_complete H U i info) (\<lambda>st. outcome n i cs st)"
  unfolding on_make_call_med_tp_complete_def Let_def
  by (intro leads_then leads_if invite_outcome spare_failed assms pres_intro spare_basic spare_put mild_fields)

lemma place_outcome:
  assumes "media_quiet U"
  shows "leads (spare n i cs) (place_call H U i acc uri opt) (\<lambda>r. outcome n i cs (fst r))"
proof -
  have error: "leads P (make_call_error U i st) (\<lambda>r. outcome n i cs (fst r))" if "st \<noteq> PJ_SUCCESS" "\<And>v. P v \<Longrightarrow> tallied i cs v"
    for st and P :: "'a pjsua_var \<Rightarrow> bool"
    using presD [OF tallied_error [OF assms]] that
    by (auto simp: leads_def outcome_def make_call_error_def split_beta)
  have done': "leads P (ret (PJ_SUCCESS, int i)) (\<lambda>r. outcome n i cs (fst r))" if "\<And>v. P v \<Longrightarrow> outcome n i cs PJ_SUCCESS v"
    for P :: "'a pjsua_var \<Rightarrow> bool"
    by (rule leads_ret) (simp add: that)
  have ready: "leads (outcome n i cs st) (if st \<noteq> PJ_SUCCESS then make_call_error U i st else ret (PJ_SUCCESS, int i))
      (\<lambda>r. outcome n i cs (fst r))" for st
    by (intro leads_if error done') (auto simp: outcome_def)
  show ?thesis unfolding place_call_def
    by (intro leads_then [OF pres_spare [OF prepare_slot apart_prepare]] leads_then [OF pres_get_call] leads_then [OF pres_if]
        leads_bind [OF media_outcome ready] leads_prod leads_if error done' pres_ret
        pres_spare [OF make_media_init apart_media_init] assms)
      (auto intro: spare_tallied spare_outcome)
qed

section \<open>A slot in use\<close>

text \<open>
  The usual behaviour of what is below: the media functions do not tear down a media set-up that they have just begun, and
  a session whose first INVITE was sent reports that it is in the state CALLING, and no more.
\<close>

fun reports_calling :: "inv_notice \<Rightarrow> bool" where
  "reports_calling (StateChanged st ev cause) \<longleftrightarrow> st = INV_CALLING"
| "reports_calling (MediaUpdate st) \<longleftrightarrow> False"

definition stack_holds :: "'x sip \<Rightarrow> bool" where
  "stack_holds U \<longleftrightarrow>
     (\<forall>i uas v. \<not> med_ch_deinit (calls v ! i) \<longrightarrow> \<not> med_ch_deinit (calls (exec (sp_med_init U i uas) v) ! i))
     \<and> (\<forall>i v. \<not> med_ch_deinit (calls v ! i) \<longrightarrow> \<not> med_ch_deinit (calls (exec (sp_med_deinit U i) v) ! i))
     \<and> (\<forall>i x. fst (fst (sp_send U i MsgInvite x)) = PJ_SUCCESS \<longrightarrow>
          list_all reports_calling (snd (fst (sp_send U i MsgInvite x))))"

text \<open>The call has a dialog, and nothing has asked for it to be given up.\<close>

definition willing :: "nat \<Rightarrow> 'x pjsua_var \<Rightarrow> bool" where
  "willing i v \<longleftrightarrow> i < length (calls v) \<and> \<not> med_ch_deinit (calls v ! i) \<and> \<not> out_hangup (calls v ! i)"

definition engaged :: "nat \<Rightarrow> 'x pjsua_var \<Rightarrow> bool" where
  "engaged i v \<longleftrightarrow> willing i v \<and> call_async_dlg (calls v ! i)"

definition in_session_of :: "nat \<Rightarrow> 'x pjsua_var \<Rightarrow> bool" where
  "in_session_of i v \<longleftrightarrow> i < length (calls v) \<and> call_inv (calls v ! i) \<noteq> None"

definition in_use :: "nat \<Rightarrow> 'x pjsua_var \<Rightarrow> bool" where
  "in_use i v \<longleftrightarrow> i < length (calls v) \<and> \<not> call_free (calls v ! i)"

lemma willing_media:
  assumes "quiet m" "\<And>v. \<not> med_ch_deinit (calls v ! i) \<Longrightarrow> \<not> med_ch_deinit (calls (exec m v) ! i)"
  shows "pres (willing i) m" "pres (engaged i) m"
proof -
  have kept: "willing i (exec m v) \<and> call_async_dlg (calls (exec m v) ! i) = call_async_dlg (calls v ! i)" if v: "willing i v" for v
  proof -
    have "sig_view (exec m v) = sig_view v" using assms(1) by (simp add: quiet_def keeps_def)
    note view = sig_viewD(1,5) [OF this]
    note sig = sig_of_fields(3,17) [OF view(2) [of i]]
    show ?thesis using v assms(2) [of v] view(1) sig by (simp add: willing_def)
  qed
  then show "pres (willing i) m" "pres (engaged i) m" by (auto simp: pres_def engaged_def)
qed

lemma media_willing:
  assumes "media_quiet U" "stack_holds U"
  shows "pres (willing i) (sp_med_init U i uas)" "pres (engaged i) (sp_med_init U i uas)" "pres (willing i) (sp_med_deinit U i)"
  using assms(2) by (auto simp: stack_holds_def intro!: willing_media media_quietD [OF assms(1)])

lemma pres_willing_put:
  assumes "\<And>c. med_ch_deinit (f c) = med_ch_deinit c" "\<And>c. out_hangup (f c) = out_hangup c"
  shows "pres (willing i) (upd_call i f)"
  by (auto simp: pres_def willing_def assms)

lemma pres_engaged_put:
  assumes "\<And>c. med_ch_deinit (f c) = med_ch_deinit c" "\<And>c. out_hangup (f c) = out_hangup c"
    "\<And>c. call_async_dlg (f c) = call_async_dlg c"
  shows "pres (engaged i) (upd_call i f)"
  by (auto simp: pres_def engaged_def willing_def assms)

lemma willing_basic:
  "pres (willing i) (on_ext g)" "pres (engaged i) (on_ext h)" "neutral m \<Longrightarrow> pres (willing i) m"
proof -
  show "pres (willing i) (on_ext g)" "pres (engaged i) (on_ext h)"
    by (simp_all add: pres_def engaged_def willing_def)
  assume "neutral m"
  then have "calls (exec m v) = calls v" for v using neutralD [of m v] by (simp add: same_def tables_def)
  then show "pres (willing i) m" by (simp add: pres_def willing_def)
qed

lemma blank_willing: "leads (\<lambda>v. i < length (calls v)) (reset_call i) (\<lambda>_. willing i)"
  by (simp add: leads_def willing_def) (simp add: blank_call_def)

lemma media_init_willing:
  assumes "media_quiet U" "stack_holds U"
  shows "pres (willing i) (media_channel_init U i uas cb)" "pres (engaged i) (media_channel_init U i uas cb)"
  unfolding media_channel_init_def by (intro pres_intro media_willing pres_willing_put pres_engaged_put assms; simp)+

lemma prepared_engaged:
  assumes "media_quiet U" "stack_holds U"
  shows "leads (\<lambda>v. i < length (calls v)) (prepare_call H U i acc uri opt) (\<lambda>st v. st = PJ_SUCCESS \<longrightarrow> engaged i v)"
proof -
  have fail: "leads P (ret st) (\<lambda>st v. st = PJ_SUCCESS \<longrightarrow> engaged i v)" if "st \<noteq> PJ_SUCCESS" for st and P :: "'a pjsua_var \<Rightarrow> bool"
    by (rule leads_ret) (simp add: that)
  have async: "leads (willing i) (do { upd_call i (\<lambda>c. c\<lparr>secure_level := l, call_async_dlg := True\<rparr>); ret PJ_SUCCESS })
      (\<lambda>st v. st = PJ_SUCCESS \<longrightarrow> engaged i v)" for l
    by (auto simp: leads_def engaged_def willing_def)
  have dialog: "leads (willing i) (create_call_dialog H U i acc uri) (\<lambda>st v. st = PJ_SUCCESS \<longrightarrow> engaged i v)"
    unfolding create_call_dialog_def
    by (intro leads_then leads_if leads_prod fail async pres_get_acc pres_if pres_ret pres_gets willing_basic) simp_all
  have snd: "pres (willing i) (open_snd_for_call H i)"
    unfolding open_snd_for_call_def by (intro pres_intro willing_basic neutral_set_snd_dev)
  have setting: "pres (willing i) (apply_call_setting U i opt)"
    unfolding apply_call_setting_def by (intro pres_intro media_willing media_init_willing pres_willing_put assms) simp_all
  show ?thesis unfolding prepare_call_def
    by (intro leads_bind [OF blank_willing] leads_then [OF pres_get_acc] leads_then [OF pres_willing_put]
        leads_then [OF setting] leads_then [OF snd] leads_if fail dialog) simp_all
qed

lemma deliver_calling:
  assumes "in_session_of i v"
  shows "in_session_of i (exec (deliver H U i (StateChanged INV_CALLING ev cause)) v)"
  using assms
  by (cases ev) (auto simp: deliver_def in_session_def pjsua_call_on_state_changed_def finish_state_change_def
      notify_transferer_def tell_state_def in_session_of_def)

lemma deliveries_calling:
  assumes "list_all reports_calling ns" "in_session_of i v"
  shows "in_session_of i (exec (for_each ns (deliver H U i)) v)"
  using assms
proof (induction ns arbitrary: v)
  case (Cons nt ns)
  then obtain ev cause where nt: "nt = StateChanged INV_CALLING ev cause" by (cases nt) auto
  have "in_session_of i (exec (deliver H U i nt) v)" unfolding nt by (rule deliver_calling [OF Cons.prems(2)])
  then show ?case using Cons by (simp add: split_beta)
qed simp

lemma invite_in_use:
  assumes "media_quiet U" "stack_holds U"
  shows "leads (\<lambda>v. i < length (calls v)) (send_initial_invite H U i) (\<lambda>st v. st = PJ_SUCCESS \<longrightarrow> in_use i v)"
proof -
  have start: "leads (\<lambda>v. i < length (calls v)) (upd_call i (\<lambda>c. c\<lparr>call_inv := Some st, call_inv_cause := k, call_role_uas := b, call_attached := True\<rparr>))
      (\<lambda>_. in_session_of i)" for st k b
    by (auto simp: leads_def in_session_of_def)
  have keep: "pres (in_session_of i) (on_ext f)" "pres (in_session_of i) (modify (\<lambda>v. v\<lparr>call_cnt := call_cnt v + 1\<rparr>))"
    for f :: "'a \<Rightarrow> 'b \<times> 'a" by (simp_all add: pres_def in_session_of_def)
  have send: "leads (in_session_of i) (inv_send_msg H U i MsgInvite) (\<lambda>st v. st = PJ_SUCCESS \<longrightarrow> in_session_of i v)"
    unfolding leads_def
  proof (intro allI impI)
    fix v :: "'a pjsua_var"
    assume v: "in_session_of i v" and st: "result (inv_send_msg H U i MsgInvite) v = PJ_SUCCESS"
    obtain st ns x where sent: "sp_send U i MsgInvite (ext v) = ((st, ns), x)" by (metis surj_pair)
    then have "fst (fst (sp_send U i MsgInvite (ext v))) = PJ_SUCCESS" using st by (simp add: inv_send_msg_def split_beta)
    then have "list_all reports_calling ns" using assms(2) sent unfolding stack_holds_def by (metis fst_conv snd_conv)
    moreover have "in_session_of i (v\<lparr>ext := x\<rparr>)" using v by (simp add: in_session_of_def)
    ultimately show "in_session_of i (exec (inv_send_msg H U i MsgInvite) v)"
      using deliveries_calling sent by (simp add: inv_send_msg_def split_beta)
  qed
  have fail: "leads P (do { make_call_failed H U i session told; ret st }) (\<lambda>st v. st = PJ_SUCCESS \<longrightarrow> in_use i v)"
    if "st \<noteq> PJ_SUCCESS" for st session told and P :: "'a pjsua_var \<Rightarrow> bool"
    using that by (simp add: leads_def split_beta)
  have unsent: "leads P (do { upd_call i f; make_call_failed H U i session told; ret st }) (\<lambda>st v. st = PJ_SUCCESS \<longrightarrow> in_use i v)"
    if "st \<noteq> PJ_SUCCESS" for st f session told and P :: "'a pjsua_var \<Rightarrow> bool"
    using that by (simp add: leads_def split_beta)
  have sent: "leads (\<lambda>v. st = PJ_SUCCESS \<longrightarrow> in_session_of i v) (do { upd_call i (\<lambda>c. c\<lparr>med_ch_cb := None\<rparr>); ret PJ_SUCCESS })
      (\<lambda>st v. st = PJ_SUCCESS \<longrightarrow> in_use i v)" if "st = PJ_SUCCESS" for st
    using that by (auto simp: leads_def in_session_of_def in_use_def call_free_def)
  show ?thesis unfolding send_initial_invite_def
    by (intro leads_bind [OF start] leads_then [OF keep(1)] leads_then [OF keep(2)] leads_if fail leads_bind [OF send] unsent sent)
      simp_all
qed

lemma in_range_ext: "pres (\<lambda>v. i < length (calls v)) (on_ext f)"
  by (simp add: pres_def)

lemma media_in_use:
  assumes "media_quiet U" "stack_holds U"
  shows "leads (engaged i) (on_make_call_med_tp_complete H U i None) (\<lambda>st v. st = PJ_SUCCESS \<longrightarrow> in_use i v)"
proof -
  have fail: "leads P (do { make_call_failed H U i session told; ret st }) (\<lambda>st v. st = PJ_SUCCESS \<longrightarrow> in_use i v)"
    if "st \<noteq> PJ_SUCCESS" for st session told and P :: "'a pjsua_var \<Rightarrow> bool"
    using that by (simp add: leads_def split_beta)
  define invite where "invite = do {
       st \<leftarrow> on_ext (sp_inv_uac U i);
       if st \<noteq> PJ_SUCCESS then do { make_call_failed H U i False False; ret st }
       else do {
         st \<leftarrow> on_ext (sp_timer_init U i);
         if st \<noteq> PJ_SUCCESS then do { make_call_failed H U i True False; ret st }
         else send_initial_invite H U i
       }
     }"
  define rest where "rest opt = do {
       st \<leftarrow> (if has_flag (opt_flag opt) CALL_FLAG_NO_SDP_OFFER then ret PJ_SUCCESS
             else do { ((st, _), _) \<leftarrow> sp_med_sdp U i; ret st });
       if st \<noteq> PJ_SUCCESS then do { make_call_failed H U i False False; ret st } else invite
     }" for opt :: call_setting
  let ?len = "\<lambda>v :: 'a pjsua_var. i < length (calls v)"
  have sdp: "pres ?len (sp_med_sdp U i)"
    by (rule pres_quiet [OF media_quietD(3) [OF assms(1)]]) (auto dest: sig_viewD(1))
  then have sdp': "pres ?len (do { ((st, _), _) \<leftarrow> sp_med_sdp U i; ret st })" by (intro pres_intro)
  have inv: "leads ?len invite (\<lambda>st v. st = PJ_SUCCESS \<longrightarrow> in_use i v)"
    unfolding invite_def by (intro leads_then [OF in_range_ext] leads_if fail invite_in_use assms)
  have rest: "leads ?len (rest opt) (\<lambda>st v. st = PJ_SUCCESS \<longrightarrow> in_use i v)" for opt
    unfolding rest_def by (intro leads_then [OF pres_if] pres_ret sdp' leads_if fail inv)
  have "run_state (on_make_call_med_tp_complete H U i None) v = run_state (rest (call_opt (calls v ! i))) v" if "engaged i v" for v
    using that unfolding on_make_call_med_tp_complete_def rest_def invite_def by (simp add: engaged_def willing_def)
  then show ?thesis using leadsD [OF rest] by (simp add: leads_def engaged_def willing_def)
qed

lemma placed_in_use:
  assumes "media_quiet U" "stack_holds U"
  shows "leads (\<lambda>v. i < length (calls v)) (place_call H U i acc uri opt) (\<lambda>r v. fst r = PJ_SUCCESS \<longrightarrow> in_use i v)"
proof -
  have error: "leads P (make_call_error U i st) (\<lambda>r v. fst r = PJ_SUCCESS \<longrightarrow> in_use i v)" if "st \<noteq> PJ_SUCCESS"
    for st and P :: "'a pjsua_var \<Rightarrow> bool"
    using that by (simp add: leads_def make_call_error_def split_beta)
  have done': "leads P (ret (PJ_SUCCESS, int i)) (\<lambda>r v. fst r = PJ_SUCCESS \<longrightarrow> in_use i v)" if "\<And>v. P v \<Longrightarrow> in_use i v"
    for P :: "'a pjsua_var \<Rightarrow> bool"
    by (rule leads_ret) (simp add: that)
  have use': "engaged i v \<Longrightarrow> in_use i v" for v :: "'a pjsua_var" by (simp add: engaged_def willing_def in_use_def call_free_def)
  have ready: "leads (\<lambda>v. st = PJ_SUCCESS \<longrightarrow> in_use i v) (if st \<noteq> PJ_SUCCESS then make_call_error U i st else ret (PJ_SUCCESS, int i))
      (\<lambda>r v. fst r = PJ_SUCCESS \<longrightarrow> in_use i v)" for st
    by (intro leads_if error done') simp_all
  have media: "leads (engaged i) (do {
      c \<leftarrow> get_call i;
      (st, _) \<leftarrow> (if has_flag (opt_flag (call_opt c)) CALL_FLAG_NO_SDP_OFFER then ret (PJ_SUCCESS, 0)
                  else media_channel_init U i False (Some MakeCallCb));
      if st = PJ_SUCCESS then do {
        st \<leftarrow> on_make_call_med_tp_complete H U i None;
        if st \<noteq> PJ_SUCCESS then make_call_error U i st else ret (PJ_SUCCESS, int i)
      }
      else if st \<noteq> PJ_EPENDING then make_call_error U i st
      else ret (PJ_SUCCESS, int i)
    }) (\<lambda>r v. fst r = PJ_SUCCESS \<longrightarrow> in_use i v)"
    by (intro leads_then [OF pres_get_call] leads_then [OF pres_if] pres_ret media_init_willing(2) leads_prod leads_if
        leads_bind [OF media_in_use ready] error done' use' assms)
  have prepared: "leads (\<lambda>v. st = PJ_SUCCESS \<longrightarrow> engaged i v) (if st \<noteq> PJ_SUCCESS then make_call_error U i st else do {
      c \<leftarrow> get_call i;
      (st, _) \<leftarrow> (if has_flag (opt_flag (call_opt c)) CALL_FLAG_NO_SDP_OFFER then ret (PJ_SUCCESS, 0)
                  else media_channel_init U i False (Some MakeCallCb));
      if st = PJ_SUCCESS then do {
        st \<leftarrow> on_make_call_med_tp_complete H U i None;
        if st \<noteq> PJ_SUCCESS then make_call_error U i st else ret (PJ_SUCCESS, int i)
      }
      else if st \<noteq> PJ_EPENDING then make_call_error U i st
      else ret (PJ_SUCCESS, int i)
    }) (\<lambda>r v. fst r = PJ_SUCCESS \<longrightarrow> in_use i v)" for st
    by (intro leads_if error leads_pre [OF media]) simp_all
  show ?thesis unfolding place_call_def by (intro leads_bind [OF prepared_engaged prepared] assms)
qed

end
