(* ===== verification/Sig_Refused.thy ===== *)
theory Sig_Refused
  imports Sig_Apart
begin

text \<open>
  INVITE requests that are refused: the responses, and what a refusal leaves behind, before and after a session has
  been created for the request.
\<close>

section \<open>Refused requests\<close>

text \<open>The conditions under which an INVITE request is refused before a session is created, in order.\<close>

definition invite_refusal :: "rx_invite \<Rightarrow> 'x pjsua_var \<Rightarrow> int option" where
  "invite_refusal r v =
     (let acc = (case ri_replaced r of
                   Some k \<Rightarrow> call_acc_id (calls v ! k)
                 | None \<Rightarrow> pjsua_acc_find_for_incoming None (ri_msg r) v);
          sdp = (case ri_body r of Some b \<Rightarrow> if sb_err b = 0 then sb_sdp b else None | None \<Rightarrow> None)
      in if thread_quit_flag v then Some 480
         else if \<forall>c \<in> set (calls v). call_inv c \<noteq> None \<or> call_async_dlg c then Some 486
         else if fst (ri_replaces r) \<noteq> 0 then Some (case snd (ri_replaces r) of Some code \<Rightarrow> code | None \<Rightarrow> 500)
         else if ri_replaced r = None \<and> acc = -1 then Some 480
         else if ri_body r \<noteq> None \<and> sdp = None then Some (if sb_found (the (ri_body r)) then 400 else 415)
         else if sdp \<noteq> None \<and> s_media (the sdp) = [] then Some 400
         else if fst (ri_verify r acc) \<noteq> 0 then Some (case snd (ri_verify r acc) of Some code \<Rightarrow> code | None \<Rightarrow> 500)
         else None)"

text \<open>These are the conditions of the code.\<close>

lemma refusal_checks:
  "invite_refusal r v =
     (if thread_quit_flag v then Some 480
      else if \<forall>c \<in> set (calls v). \<not> call_free c then Some 486
      else if fst (ri_replaces r) \<noteq> PJ_SUCCESS then Some (code_or 500 (snd (ri_replaces r)))
      else if ri_replaced r = None \<and> incoming_account r v = PJSUA_INVALID_ID then Some 480
      else request_error r (incoming_account r v))"
proof -
  have free: "(call_inv c \<noteq> None \<or> call_async_dlg c) = (\<not> call_free c)" for c by (auto simp: call_free_def)
  have acc: "(case ri_replaced r of Some k \<Rightarrow> call_acc_id (calls v ! k) | None \<Rightarrow> pjsua_acc_find_for_incoming None (ri_msg r) v)
      = incoming_account r v"
    by (cases "ri_replaced r") (simp_all add: incoming_account_def)
  show ?thesis unfolding invite_refusal_def free acc
    by (cases "ri_body r") (auto simp: Let_def request_error_def body_error_def code_or_def split: option.splits)
qed

lemma incoming_account_kept:
  assumes "\<And>k. ri_replaced r = Some k \<Longrightarrow> calls w ! k = calls v ! k" "acc_cnt w = acc_cnt v" "accounts w = accounts v"
    "acc_ids w = acc_ids v" "default_acc w = default_acc v"
  shows "incoming_account r w = incoming_account r v"
proof -
  have "pjsua_acc_find_for_incoming None m w = pjsua_acc_find_for_incoming None m v" for m
    unfolding pjsua_acc_find_for_incoming_def pjsua_acc_is_valid_def assms(2-5) by (rule refl)
  then show ?thesis using assms(1) by (cases "ri_replaced r") (simp_all add: incoming_account_def)
qed

text \<open>What a refused request leaves behind: a response, and a slot that is free again.\<close>

definition refused :: "'x sip \<Rightarrow> int \<Rightarrow> nat \<Rightarrow> 'x pjsua_var \<Rightarrow> 'x pjsua_var \<Rightarrow> bool" where
  "refused U code i v w \<longleftrightarrow> ext w = sp_respond U code (ext v) \<and> app_log w = app_log v \<and> call_cnt w = call_cnt v
     \<and> apart i (calls v) w \<and> call_free (calls w ! i) \<and> \<not> call_attached (calls w ! i)"

lemma refused_data:
  assumes "refused U code i v w"
  shows "refused U code i v (put_call i (\<lambda>c. c\<lparr>incoming_data := b\<rparr>) w)"
proof -
  have "i < length (calls w)" using assms by (simp add: refused_def apart_def)
  then show ?thesis using assms by (simp add: refused_def apart_put call_free_def)
qed

lemma accept_refused:
  assumes "i < length (calls v)" "ri_replaced r \<noteq> Some i"
    "fst (ri_replaces r) \<noteq> PJ_SUCCESS \<and> code = code_or 500 (snd (ri_replaces r))
     \<or> fst (ri_replaces r) = PJ_SUCCESS \<and>
       (if ri_replaced r = None \<and> incoming_account r v = PJSUA_INVALID_ID then code = 480
        else request_error r (incoming_account r v) = Some code)"
  shows "refused U code i v (exec (accept_invite m H U app r i) v)"
proof -
  have acc: "incoming_account r (put_call i f v) = incoming_account r v" for f
    by (rule incoming_account_kept) (use assms(2) in \<open>auto simp: put_call_def\<close>)
  show ?thesis using assms(1,3)
    by (auto simp: accept_invite_def reject_request_def acc refused_def apart_def put_call_nth call_free_def
        split: option.splits)
qed

section \<open>Refusals with a session\<close>

text \<open>The other calls are as they were, no call has been announced, and this call does not replace one.\<close>

definition aside :: "nat \<Rightarrow> pjsua_call list \<Rightarrow> app_event list \<Rightarrow> 'x pjsua_var \<Rightarrow> bool" where
  "aside i cs l v \<longleftrightarrow> apart i cs v \<and> filter announces (app_log v) = l \<and> replaced_dlg (calls v ! i) = None"

lemma aside_in_table: "aside i cs l v \<Longrightarrow> i < length (calls v)"
  by (simp add: aside_def apart_def)

interpretation aside: call_property "aside i cs l" i for i cs l
proof
  fix v w :: "'a pjsua_var"
  assume eq: "sig_view w = sig_view v" and v: "aside i cs l v"
  then have "sig_of (calls w ! i) = sig_of (calls v ! i)" by (intro sig_viewD(5) [OF eq]) (simp add: aside_def apart_def)
  from sig_of_fields(15) [OF this] show "aside i cs l w"
    using v apart.view [OF eq] sig_viewD(4) [OF eq] by (simp add: aside_def)
next
  fix v :: "'a pjsua_var" and f
  assume "mild f" "aside i cs l v"
  then show "aside i cs l (put_call i f v)" using aside_in_table [of i cs l v] by (simp add: aside_def apart_put mild_def)
qed (auto simp: aside_def apart_put, auto simp: apart_def put_call_nth)

lemma pres_aside_put:
  assumes "\<And>c. replaced_dlg (f c) = replaced_dlg c"
  shows "pres (aside i cs l) (upd_call i f)"
  unfolding pres_def run_upd_call snd_conv
proof (intro allI impI)
  fix v :: "'a pjsua_var"
  assume "aside i cs l v"
  then show "aside i cs l (put_call i f v)" using aside_in_table [of i cs l v] by (simp add: aside_def apart_put assms)
qed

lemma aside_incoming_media:
  assumes "media_quiet U"
  shows "pres (aside i cs l) (on_incoming_call_med_tp_complete2 m H U i info)"
proof -
  have answers: "pres (aside i cs l) (do {
       c \<leftarrow> get_call i;
       case replaced_dlg c of
         Some r \<Rightarrow> do { process_incoming_call_replace H U i r; ret (Some (st, err, response)) }
       | None \<Rightarrow> do { ok \<leftarrow> process_pending_call_answer U (answer_fuel m H U) m i; ret (if ok then Some (st, err, response) else None) }
     })" for st err and response :: "int option"
    by (rule pres_bind_result [where Q = "\<lambda>c. replaced_dlg c = None", OF pres_get_call])
      (auto simp: aside_def [of i cs l] intro!: pres_bind pres_ret aside.pending_answers aside.answer_fuel assms)
  show ?thesis
    unfolding on_incoming_call_med_tp_complete2_def verify_request_def reject_session_def Let_def
    by (intro pres_intro aside.basic answers aside.sends aside.call_disconnect assms)
qed

lemma aside_session:
  assumes "media_quiet U"
  shows "pres (aside i cs l) (create_session U i acc)" "pres (aside i cs l) (init_incoming_media m H U i)"
    "pres (aside i cs l) (first_response H U i)"
proof -
  have drop: "pres (aside i cs l) (drop_session H U i code deinit)" for code deinit
    unfolding drop_session_def by (intro pres_intro pres_aside_put aside.basic aside.inv_terminate assms) simp_all
  have verify: "pres (aside i cs l) (verify_request U i tmp)" for tmp
    by (rule aside.pres_calm [OF quiet_verify [OF assms]])
  show "pres (aside i cs l) (create_session U i acc)"
    unfolding create_session_def by (intro pres_intro pres_aside_put aside.basic) simp_all
  show "pres (aside i cs l) (init_incoming_media m H U i)"
    unfolding init_incoming_media_def Let_def
    by (intro pres_intro verify drop aside.basic aside.media_init aside_incoming_media assms)
  show "pres (aside i cs l) (first_response H U i)"
    unfolding first_response_def Let_def by (intro pres_intro pres_aside_put drop aside.basic aside.sends assms) simp_all
qed

text \<open>The result of the last part is never a rejection.\<close>

lemma announced_accepted: "leads P (do { ok \<leftarrow> announce_call m H U app r acc i; ret (Inr ok) }) (\<lambda>res v. (\<exists>code. res = Inl code) \<longrightarrow> Q v)"
  by (simp add: leads_def split_beta)

lemma account_aside:
  assumes "media_quiet U"
  shows "leads (aside i cs l) (accept_for_account m H U app r acc i) (\<lambda>res v. (\<exists>code. res = Inl code) \<longrightarrow> aside i cs l v)"
proof -
  have kept: "leads (aside i cs l) (ret x) (\<lambda>res v. (\<exists>code. res = Inl code) \<longrightarrow> aside i cs l v)" for x :: "int + bool"
    by (rule leads_ret) simp
  show ?thesis unfolding accept_for_account_def reject_request_def
    by (intro leads_then leads_option leads_if kept announced_accepted pres_if pres_ret aside_session aside.basic assms)
qed

lemma account_empty:
  assumes "media_quiet U"
  shows "leads (clean n i) (accept_for_account (Suc m) H U app r acc i) (\<lambda>res v. (\<exists>code. res = Inl code) \<longrightarrow> empty_slot n i v)"
proof -
  let ?Q = "\<lambda>res v. (\<exists>code. res = Inl code) \<longrightarrow> empty_slot n i v"
  have kept: "leads (empty_slot n i) (ret x) (\<lambda>res v. (\<exists>code. res = Inl code) \<longrightarrow> empty_slot n i v)" for x :: "int + bool"
    by (rule leads_ret) simp
  have reject: "leads (empty_slot n i) (reject_request U code) (\<lambda>res v. (\<exists>code. res = Inl code) \<longrightarrow> empty_slot n i v)" for code
    unfolding reject_request_def by (intro leads_then pres_empty_ext kept)
  have answer: "leads (answered n i rejected) (case rejected of
      Some code \<Rightarrow> ret (Inl code)
    | None \<Rightarrow> do { ok \<leftarrow> announce_call (Suc m) H U app r acc i; ret (Inr ok) })
      (\<lambda>res v. (\<exists>code. res = Inl code) \<longrightarrow> empty_slot n i v)" for rejected
    by (intro leads_option announced_accepted leads_pre [OF kept]) (simp add: answered_def)
  have media: "leads (media_done n i media) (if media \<noteq> Inr True then ret media
      else do {
        rejected \<leftarrow> first_response H U i;
        case rejected of
          Some code \<Rightarrow> ret (Inl code)
        | None \<Rightarrow> do { ok \<leftarrow> announce_call (Suc m) H U app r acc i; ret (Inr ok) }
      }) (\<lambda>res v. (\<exists>code. res = Inl code) \<longrightarrow> empty_slot n i v)" for media
    by (intro leads_if leads_bind [OF leads_pre [OF first_response_slot [OF assms]] answer] leads_ret)
      (auto simp: media_done_def)
  have no_media: "leads (\<lambda>v. fresh n i v \<and> no_answers i v) (ret (Inr True)) (media_done n i)"
    by (rule leads_ret) (simp add: media_done_def)
  have init: "leads (\<lambda>v. fresh n i v \<and> no_answers i v)
      (if b then init_incoming_media (Suc m) H U i else ret (Inr True)) (media_done n i)" for b
    by (intro leads_if init_media_slot [OF assms] no_media)
  show ?thesis unfolding accept_for_account_def
    by (intro leads_bind [OF create_session_slot] leads_option leads_pre [OF reject]
        leads_bind [OF leads_pre [OF init] media]) simp_all
qed

lemma invite_turned_down:
  assumes "media_quiet U"
  shows "leads (\<lambda>v. unused n i v \<and> apart i cs v \<and> filter announces (app_log v) = l) (accept_invite (Suc m) H U app r i)
    (\<lambda>res v. (\<exists>code. res = Inl code) \<longrightarrow> empty_slot n i v \<and> aside i cs l v)"
proof -
  let ?R = "\<lambda>v. clean n i v \<and> aside i cs l v"
  have reset: "leads (\<lambda>v. unused n i v \<and> apart i cs v \<and> filter announces (app_log v) = l) (reset_call i)
      (\<lambda>_ v. clean n i v \<and> aside i cs l v)"
    using leadsD [OF reset_clean, of n i] apart.in_table by (fastforce simp: leads_def aside_def apart_put)
  have put: "pres (\<lambda>v. clean n i v \<and> aside i cs l v) (upd_call i f)" if "mild f" for f
    by (intro pres_conj pres_clean_mild aside.pres_mildly that)
  have reject: "leads (\<lambda>v. clean n i v \<and> aside i cs l v) (reject_request U code)
      (\<lambda>res v. (\<exists>code. res = Inl code) \<longrightarrow> empty_slot n i v \<and> aside i cs l v)" for code
    unfolding reject_request_def
    by (intro leads_then [OF pres_conj] clean_basic aside.basic leads_ret) (simp add: empty_unused)
  have account: "leads (\<lambda>v. clean n i v \<and> aside i cs l v) (accept_for_account (Suc m) H U app r acc i)
      (\<lambda>res v. (\<exists>code. res = Inl code) \<longrightarrow> empty_slot n i v \<and> aside i cs l v)" for acc
    using leadsD [OF account_empty [OF assms], of n i] leadsD [OF account_aside [OF assms], of i cs l]
    by (simp add: leads_def)
  show ?thesis unfolding accept_invite_def
    by (intro leads_bind [OF reset] leads_if leads_then leads_option leads_gets reject account put mild_fields pres_get_acc pres_gets)
qed

end
