(* ===== verification/Sig_Props.thy ===== *)
theory Sig_Props
  imports Sig_Demo Sig_Outgoing Sig_Refused
begin

text \<open>
  Properties of the call table and of setting up calls.
\<close>

section \<open>The call table\<close>

text \<open>
  C4. Whatever requests, reports of sessions, timeouts and media events happen, the number of calls is
  the number of sessions, and the calls the enumeration gives are exactly those with an INVITE session, each of
  them linked to its session, so that its reports reach the call.
\<close>

theorem call_table_invariant:
  assumes "media_quiet U" "invite_failure_reported U" "app_sound n app" "0 < n" "n < 2 ^ 31"
    "sig_reachable n m H U app v"
  shows "\<exists>ids. pjsua_enum_calls n v = Some ids \<and> distinct ids \<and> unat (call_cnt v) = length ids
    \<and> set ids = {k. valid_call_id k v \<and> call_inv (calls v ! nat k) \<noteq> None}
    \<and> set ids = {k. valid_call_id k v \<and> call_attached (calls v ! nat k)}"
proof -
  let ?idx = "filter (\<lambda>i. call_inv (calls v ! i) \<noteq> None) [0..<n]"
  have v: "tab n {} v" by (rule sig_reachable_table [OF assms(1-3,5,6)])
  then have len: "length (calls v) = n" by (simp add: tab_def)
  have "call_attached (calls v ! j) = (call_inv (calls v ! j) \<noteq> None)" if "j < n" for j
    using v that by (auto simp: tab_def sound_def slot_sound_def settled_def)
  then have same: "attached_calls v = set ?idx" using len by (auto simp: attached_calls_def)
  have enum: "pjsua_enum_calls n v = Some (map int ?idx)"
    using enum_calls_filter [of "calls v" n 0] assms(4) len by (simp add: pjsua_enum_calls_def)
  have cnt: "call_cnt v = of_nat (length ?idx)"
    using v same distinct_card [of ?idx] by (simp add: tab_def sound_def)
  have le: "length ?idx \<le> n" by (metis diff_zero length_filter_le length_upt)
  have "unat (call_cnt v) = length ?idx"
    unfolding cnt using le assms(5) by (simp only: unat_of_nat) (simp add: take_bit_nat_eq_self)
  moreover have "set (map int ?idx) = {k. valid_call_id k v \<and> call_inv (calls v ! nat k) \<noteq> None}"
    using set_enum_calls [of v n] assms(4) len enum by auto
  moreover have "{k. valid_call_id k v \<and> call_inv (calls v ! nat k) \<noteq> None}
      = {k. valid_call_id k v \<and> call_attached (calls v ! nat k)}"
    using \<open>\<And>j. j < n \<Longrightarrow> _\<close> len by (auto simp: valid_call_id_def)
  ultimately show ?thesis using enum by (intro exI [of _ "map int ?idx"]) (simp add: distinct_map)
qed

theorem call_table_invariant_witness:
  "\<exists>ids. pjsua_enum_calls 8 demo_refused = Some ids \<and> distinct ids \<and> unat (call_cnt demo_refused) = length ids
    \<and> set ids = {k. valid_call_id k demo_refused \<and> call_inv (calls demo_refused ! nat k) \<noteq> None}
    \<and> set ids = {k. valid_call_id k demo_refused \<and> call_attached (calls demo_refused ! nat k)}"
  by (rule call_table_invariant [OF demo_sip_quiet demo_sip_reports demo_app_sound _ _ demo_reachable(3)]) simp_all

text \<open>
  C17. A new call gets a free slot, the first one in cyclic order from the one after the
  slot the last search started at, and no slot is given only when every slot is in use; nothing else changes.
\<close>

theorem alloc_first_free:
  fixes v :: "'x pjsua_var"
  defines "n \<equiv> length (calls v)" and "s \<equiv> search_start v"
  assumes "run_state alloc_call_id v = (k, w)"
  shows "\<exists>next. w = v\<lparr>next_call_id := next\<rparr>
    \<and> (if k = PJSUA_INVALID_ID then next = int s \<and> (\<forall>j < n. \<not> call_free (calls v ! j))
       else next = int s + 1
         \<and> (\<exists>d < n. k = int ((s + d) mod n) \<and> call_free (calls v ! ((s + d) mod n))
              \<and> (\<forall>e < d. \<not> call_free (calls v ! ((s + e) mod n)))))"
proof (cases "found_slot v")
  case None
  then show ?thesis using assms(3) found_slot_None [OF None] by (auto simp: alloc_run n_def s_def)
next
  case (Some i)
  have s: "s \<le> n" "n \<noteq> 0 \<longrightarrow> s < n" by (auto simp: s_def n_def search_start_def)
  have i: "i < n" "call_free (calls v ! i)" using found_slot_free [OF Some] by (simp_all add: n_def)
  have "\<exists>d < n. i = (s + d) mod n \<and> (\<forall>e < d. \<not> call_free (calls v ! ((s + e) mod n)))"
  proof (cases "first_free (calls v) s (n - s)")
    case (Some j)
    note f = first_free_Some [OF Some]
    have "i = j" using Some \<open>found_slot v = Some i\<close> by (simp add: found_slot_def n_def s_def)
    then show ?thesis using f i s by (intro exI [of _ "i - s"]) auto
  next
    case None
    then have "first_free (calls v) 0 s = Some i" using \<open>found_slot v = Some i\<close> by (simp add: found_slot_def n_def s_def)
    note f = first_free_Some [OF this]
    have "\<not> call_free (calls v ! ((s + e) mod n))" if "e < n - s + i" for e
    proof (cases "s + e < n")
      case True
      then show ?thesis using first_free_None [OF None, of "s + e"] by simp
    next
      case False
      then have "(s + e) mod n = s + e - n" using that f(2) s i by (simp add: mod_if)
      moreover have "s + e - n < i" using that False s by arith
      ultimately show ?thesis using f(4) [of "s + e - n"] by simp
    qed
    moreover have "(s + (n - s + i)) mod n = i" using i s by simp
    ultimately show ?thesis using f(2) i s by (intro exI [of _ "n - s + i"]) auto
  qed
  then show ?thesis using assms(3) Some i by (auto simp: alloc_run n_def s_def)
qed

theorem alloc_first_free_witness:
  "\<exists>next. exec alloc_call_id demo_var = demo_var\<lparr>next_call_id := next\<rparr>
    \<and> (if (2 :: int) = PJSUA_INVALID_ID then next = int (search_start demo_var) \<and> (\<forall>j < 8. \<not> call_free (calls demo_var ! j))
       else next = int (search_start demo_var) + 1
         \<and> (\<exists>d < 8. 2 = int ((search_start demo_var + d) mod 8) \<and> call_free (calls demo_var ! ((search_start demo_var + d) mod 8))
              \<and> (\<forall>e < d. \<not> call_free (calls demo_var ! ((search_start demo_var + e) mod 8)))))"
proof -
  have len: "length (calls demo_var) = 8" by (simp add: demo_var_def)
  have run: "run_state alloc_call_id demo_var = (2, exec alloc_call_id demo_var)"
    by (simp add: alloc_run demo_slots)
  show ?thesis using alloc_first_free [OF run] unfolding len .
qed

section \<open>Outgoing calls\<close>

text \<open>
  C12. Making a call succeeds with the id of a slot that was free, and leaves all other calls as they were. The new
  call then has a session, linked to it, and counts as one more call; or it has no session yet, or no longer, and does not
  count; on a stack that behaves as usual its slot is in use. If it fails it returns no id and leaves the calls with a
  session and the free slots as they were, and the number of calls too, unless the INVITE could not be sent and the
  session did not report its end: then the number may stay one too high. Otherwise the table stays sound.
\<close>

theorem make_call_all_or_nothing:
  assumes "media_quiet U" "call_table_ok v"
    "run_state (pjsua_call_make_call H U acc uri opt) v = ((st, k), w)"
  shows "if st = PJ_SUCCESS
     then call_table_ok w
       \<and> (\<exists>i < length (calls v). k = int i \<and> call_free (calls v ! i)
         \<and> (\<forall>j < length (calls v). j \<noteq> i \<longrightarrow> sig_of (calls w ! j) = sig_of (calls v ! j))
         \<and> (if call_inv (calls w ! i) \<noteq> None then call_attached (calls w ! i) \<and> call_cnt w = call_cnt v + 1
            else \<not> call_attached (calls w ! i) \<and> call_cnt w = call_cnt v)
         \<and> (stack_holds U \<longrightarrow> \<not> call_free (calls w ! i)))
     else k = PJSUA_INVALID_ID \<and> same_calls v w
       \<and> (call_cnt w = call_cnt v \<or> call_cnt w = call_cnt v + 1 \<and> \<not> invite_failure_reported U)
       \<and> (invite_failure_reported U \<longrightarrow> call_table_ok w)"
proof -
  let ?n = "length (calls v)"
  have v: "sound {} v" using assms(2) by (simp add: call_table_ok_def)
  then have tv: "tab ?n {} v" by (simp add: tab_def)
  have reported: "sound {} w" if "invite_failure_reported U"
    using presD [OF make_call_table [OF assms(1) that] tv, of H acc uri opt] unfolding assms(3) by (simp add: tab_def)
  from assms(1,3) show ?thesis
  proof (cases rule: make_call_cases)
    case (refused x)
    have "call_cnt w = call_cnt v" using sig_viewD(2) [OF refused(1)] by simp
    then show ?thesis using same_calls_view [OF refused(1)] refused(2,3) reported by (simp add: call_table_ok_def)
  next
    case (slot i)
    let ?v = "v\<lparr>next_call_id := int (search_start v) + 1\<rparr>"
    have "unused ?n i v" by (rule free_slot_unused [OF tv slot(1,2)])
    then have "spare ?n i (calls v) ?v" using slot(1) by (simp add: spare_def unused_def detached_def tab_def apart_def)
    from leadsD [OF place_outcome [OF assms(1)] this, of H acc uri opt] have o: "outcome ?n i (calls v) st w"
      unfolding slot(4) by simp
    have ap: "apart i (calls v) w" using slot(3) by (simp add: placed_def)
    have "\<not> call_attached (calls v ! i)" using \<open>unused ?n i v\<close> by (simp add: unused_def detached_def)
    then have cnt: "call_cnt v = other_calls i (calls v)" using apart_count [OF tv apart_self [OF slot(1)]] by simp
    show ?thesis
    proof (cases "st = PJ_SUCCESS")
      case True
      then have w: "tab ?n {} w" using o by (simp add: outcome_def)
      then have at: "call_attached (calls w ! i) = (call_inv (calls w ! i) \<noteq> None)"
        using slot(1) by (auto simp: tab_def sound_def slot_sound_def settled_def)
      have "\<not> call_free (calls w ! i)" if "stack_holds U"
        using leadsD [OF placed_in_use [OF assms(1) that], of i ?v H acc uri opt] slot(1) True unfolding slot(4)
        by (simp add: in_use_def)
      then show ?thesis using True w at ap slot(1-3) cnt apart_count [OF w ap]
        by (auto simp: placed_def call_table_ok_def tab_def apart_def)
    next
      case False
      then have p: "k = PJSUA_INVALID_ID" "sig_of (calls w ! i) = sig_of blank_call"
        using slot(3) by (simp_all add: placed_def)
      note blank = sig_of_fields(1-3) [OF p(2)]
      have same: "same_calls v w" by (rule same_calls_apart [OF v ap slot(2)]) (simp_all add: call_free_def blank)
      have "call_cnt w = call_cnt v \<or> call_cnt w = call_cnt v + 1" using o False cnt by (simp add: outcome_def tallied_def)
      then show ?thesis using False p(1) same reported same_calls_count [OF same v] by (auto simp: call_table_ok_def)
    qed
  qed
qed

lemma demo_sip_holds: "stack_holds demo_sip"
  by (simp add: stack_holds_def demo_sip_fields)

theorem make_call_all_or_nothing_witness:
  "call_table_ok demo_called
    \<and> (\<exists>i < 8. 0 = int i \<and> call_free (calls demo_idle ! i)
         \<and> (\<forall>j < 8. j \<noteq> i \<longrightarrow> sig_of (calls demo_called ! j) = sig_of (calls demo_idle ! j))
         \<and> (if call_inv (calls demo_called ! i) \<noteq> None
            then call_attached (calls demo_called ! i) \<and> call_cnt demo_called = call_cnt demo_idle + 1
            else \<not> call_attached (calls demo_called ! i) \<and> call_cnt demo_called = call_cnt demo_idle)
         \<and> \<not> call_free (calls demo_called ! i))"
  using make_call_all_or_nothing [OF demo_sip_quiet demo_idle_table demo_called_run] demo_sip_holds
  by (simp add: demo_idle_fields)

text \<open>
  The number of calls does stay too high: on a stack that refuses to send the INVITE and reports nothing, a call that
  could not be made counts.
\<close>

definition demo_mute_sip :: "unit sip" where
  "demo_mute_sip = demo_sip\<lparr>sp_send := (\<lambda>_ m x. ((if m = MsgInvite then 70001 else 0, []), x))\<rparr>"

lemma call_count_leak:
  "let (r, w) = run_state (pjsua_call_make_call demo_hw demo_mute_sip 0 ''sip:bob@example.com'' None) demo_idle
   in r = (70001, PJSUA_INVALID_ID) \<and> call_cnt demo_idle = 0 \<and> call_cnt w = 1"
  by (simp add: make_call_eval make_call_failed_def make_call_error_def alloc_run demo_idle_slots demo_idle_fields
      demo_mute_sip_def demo_sip_fields demo_uac put_call_snd_port blank_eval split_beta sig_viewD(2) [OF idle_view])

section \<open>Incoming calls\<close>

text \<open>
  C15. An INVITE that pjsua cannot accept is answered with the one response of the first condition that fails
  (480 while shutting down, 486 with all slots in use, the verdict on its Replaces header or 500, 480 without an account,
  415 for a body without a session description, 400 for a description that is malformed or has no media, the verdict on
  its extensions or 500): one response is sent, the application hears nothing, and no call is left behind.
\<close>

theorem incoming_refused:
  assumes "call_table_ok v" "ri_is_invite r" "\<not> ri_in_dialog r"
    "\<forall>k. ri_replaced r = Some k \<longrightarrow> k < length (calls v) \<and> \<not> call_free (calls v ! k)"
    "invite_refusal r v = Some code" "run_state (pjsua_call_on_incoming m H U app r) v = (handled, w)"
  shows "handled \<and> ext w = sp_respond U code (ext v) \<and> app_log w = app_log v \<and> call_cnt w = call_cnt v \<and> same_calls v w"
proof (cases "thread_quit_flag v \<or> (\<forall>c \<in> set (calls v). \<not> call_free c)")
  case True
  then have "found_slot v = None" if "\<not> thread_quit_flag v"
    using found_slot_free [of v] that by (metis not_None_eq nth_mem)
  then show ?thesis using assms(2-6) True
    by (auto simp: pjsua_call_on_incoming_def refusal_checks alloc_run same_calls_def attached_calls_def split: if_splits)
next
  case False
  then obtain i where slot: "found_slot v = Some i" and i: "i < length (calls v)" "call_free (calls v ! i)"
    using found_slot_None [of v] found_slot_free [of v] by (metis in_set_conv_nth not_None_eq)
  let ?v = "v\<lparr>next_call_id := int (search_start v) + 1\<rparr>"
  have acc: "incoming_account r ?v = incoming_account r v" by (rule incoming_account_kept) simp_all
  have "refused U code i ?v (exec (accept_invite m H U app r i) ?v)"
    by (rule accept_refused) (use assms(4,5) i False in \<open>auto simp: acc refusal_checks split: if_splits\<close>)
  moreover have "w = put_call i (\<lambda>c. c\<lparr>incoming_data := False\<rparr>) (exec (accept_invite m H U app r i) ?v)" "handled"
    using assms(2,3,6) False slot
    by (auto simp: pjsua_call_on_incoming_def alloc_run incoming_data_freed_def split_beta)
  ultimately have "refused U code i ?v w" using refused_data by blast
  then have w: "refused U code i v w" by (simp add: refused_def)
  then have "same_calls v w" using assms(1) i(2) by (intro same_calls_apart) (auto simp: refused_def call_table_ok_def)
  then show ?thesis using w \<open>handled\<close> by (simp add: refused_def)
qed

definition demo_bad_body :: rx_invite where
  "demo_bad_body = demo_rx\<lparr>ri_body := Some \<lparr>sb_sdp = None, sb_err = 0, sb_found = True\<rparr>\<rparr>"

lemma demo_bad_body_refused: "invite_refusal demo_bad_body demo_idle = Some 400"
proof -
  have "incoming_account demo_bad_body demo_idle \<noteq> PJSUA_INVALID_ID"
    by (simp add: incoming_account_def demo_bad_body_def demo_rx_def pjsua_acc_find_for_incoming_def pjsua_acc_is_valid_def
        demo_idle_fields Let_def)
  then show ?thesis
    by (simp add: refusal_checks demo_idle_fields request_error_def body_error_def)
      (simp add: demo_bad_body_def demo_rx_def)
qed

theorem incoming_refused_witness:
  "(let m = pjsua_call_on_incoming 1 demo_hw demo_sip demo_app demo_bad_body; w = exec m demo_idle
    in result m demo_idle \<and> ext w = sp_respond demo_sip 400 (ext demo_idle) \<and> app_log w = app_log demo_idle
       \<and> call_cnt w = call_cnt demo_idle \<and> same_calls demo_idle w)"
  unfolding Let_def
  by (rule incoming_refused [OF demo_idle_table _ _ _ demo_bad_body_refused prod.collapse [symmetric]])
    (simp_all add: demo_bad_body_def demo_rx_def)

text \<open>
  C33. An INVITE request that is turned down later, when its session cannot be created, or its media or its first
  response fail, leaves nothing behind either: the slot is free again, the other calls, the table and the number of calls
  are as they were, and no incoming call has been announced to the application.
\<close>

theorem incoming_turned_down:
  assumes "media_quiet U" "call_table_ok v" "i < length (calls v)" "call_free (calls v ! i)"
    "run_state (accept_invite (Suc m) H U app r i) v = (Inl code, w)"
  shows "call_table_ok w \<and> call_cnt w = call_cnt v \<and> call_free (calls w ! i) \<and> same_calls v w
    \<and> filter announces (app_log w) = filter announces (app_log v)"
proof -
  let ?n = "length (calls v)"
  have v: "sound {} v" "tab ?n {} v" using assms(2) by (simp_all add: call_table_ok_def tab_def)
  have "unused ?n i v \<and> apart i (calls v) v \<and> filter announces (app_log v) = filter announces (app_log v)"
    using free_slot_unused [OF v(2) assms(3,4)] apart_self [OF assms(3)] by simp
  from leadsD [OF invite_turned_down [OF assms(1)] this, of m H app r]
  have w: "empty_slot ?n i w" "aside i (calls v) (filter announces (app_log v)) w" unfolding assms(5) by simp_all
  have e: "call_free (calls w ! i)" "\<not> call_attached (calls w ! i)" "sound {} w"
    using w(1) empty_table [OF w(1)] by (simp_all add: empty_slot_def unused_def detached_def tab_def)
  have same: "same_calls v w"
    by (rule same_calls_apart [OF v(1) _ assms(4) e(1,2)]) (use w(2) in \<open>simp add: aside_def\<close>)
  show ?thesis using w(2) e same same_calls_count [OF same v(1) e(3)] by (simp add: aside_def call_table_ok_def)
qed

text \<open>A stack whose session timer cannot be set up.\<close>

definition demo_no_timer :: "unit sip" where
  "demo_no_timer = demo_sip\<lparr>sp_timer_init := (\<lambda>_ x. (70001, x))\<rparr>"

lemma demo_no_timer_quiet: "media_quiet demo_no_timer"
  using demo_sip_quiet by (simp add: demo_no_timer_def media_quiet_def)

lemma demo_turned_down:
  "result (accept_invite (Suc 8) demo_hw demo_no_timer demo_app (demo_rx\<lparr>ri_body := None\<rparr>) 0) demo_idle = Inl 500"
proof -
  let ?r = "demo_rx\<lparr>ri_body := None\<rparr>"
  define a where "a = incoming_account ?r demo_idle"
  have valid: "c = 0 \<or> c = 1" if "pjsua_acc_is_valid c demo_idle" for c
  proof -
    have "c \<in> {0, 1, 2, 3}" using that by (auto simp: pjsua_acc_is_valid_def demo_idle_fields)
    then show ?thesis using that by (auto simp: pjsua_acc_is_valid_def demo_idle_fields free_acc_def)
  qed
  have a: "a = 0 \<or> a = 1"
    using valid by (auto simp: a_def incoming_account_def demo_rx_def pjsua_acc_find_for_incoming_def demo_idle_fields Let_def)
  have acc: "incoming_account ?r (put_call i f v) = incoming_account ?r v" for i f and v :: "unit pjsua_var"
    by (rule incoming_account_kept) (simp_all add: put_call_def demo_rx_def)
  have rx: "ri_replaces demo_rx = (0, None)" "request_error ?r a = None" "ri_offer ?r = None" "ri_replaced demo_rx = None"
    by (simp_all add: demo_rx_def request_error_def body_error_def ri_offer_def)
  show ?thesis using a
    by (auto simp: accept_invite_def accept_for_account_def rx acc a_def [symmetric] create_session_def first_response_def demo_no_timer_def
        demo_sip_fields demo_idle_fields demo_uac split_beta)
qed

theorem incoming_turned_down_witness:
  "(let w = exec (accept_invite (Suc 8) demo_hw demo_no_timer demo_app (demo_rx\<lparr>ri_body := None\<rparr>) 0) demo_idle
    in call_table_ok w \<and> call_cnt w = call_cnt demo_idle \<and> call_free (calls w ! 0) \<and> same_calls demo_idle w
       \<and> filter announces (app_log w) = filter announces (app_log demo_idle))"
proof -
  have run: "run_state (accept_invite (Suc 8) demo_hw demo_no_timer demo_app (demo_rx\<lparr>ri_body := None\<rparr>) 0) demo_idle
      = (Inl 500, exec (accept_invite (Suc 8) demo_hw demo_no_timer demo_app (demo_rx\<lparr>ri_body := None\<rparr>) 0) demo_idle)"
    using demo_turned_down by (metis prod.collapse)
  show ?thesis unfolding Let_def
    by (rule incoming_turned_down [OF demo_no_timer_quiet demo_idle_table _ _ run]) (simp_all add: demo_idle_fields)
qed

end
