(* ===== verification/Sig_Hush.thy ===== *)
theory Sig_Hush
  imports Sig_Apart
begin

text \<open>
  A call that has been hung up stays silent, whatever else happens to it and to the other calls: what the
  application is told of the call \<open>i\<close> never changes again.
\<close>

section \<open>Silence\<close>

definition call_events :: "int \<Rightarrow> 'x pjsua_var \<Rightarrow> app_event list" where
  "call_events k v = filter (\<lambda>e. about_call e = k) (app_log v)"

text \<open>The call is being hung up, or its slot is free, and then no media set-up can turn it into a call.\<close>

definition silent :: "pjsua_call \<Rightarrow> bool" where
  "silent c \<longleftrightarrow> hanging_up c \<or> call_free c \<and> med_ch_cb c \<noteq> Some MakeCallCb"

definition wired :: "nat \<Rightarrow> 'x pjsua_var \<Rightarrow> bool" where
  "wired n v \<longleftrightarrow> length (calls v) = n \<and> (\<forall>j < n. \<forall>r. replaced_dlg (calls v ! j) = Some r \<longrightarrow> r < n)"

definition hushed :: "nat \<Rightarrow> nat \<Rightarrow> app_event list \<Rightarrow> 'x pjsua_var \<Rightarrow> bool" where
  "hushed n i l v \<longleftrightarrow> i < n \<and> wired n v \<and> call_events (int i) v = l \<and> silent (calls v ! i)"

lemma hushed_view:
  assumes "sig_view w = sig_view v" "hushed n i l v"
  shows "hushed n i l w"
proof -
  note view = sig_viewD [OF assms(1)]
  have len: "length (calls v) = n" using assms(2) by (simp add: hushed_def wired_def)
  have "replaced_dlg (calls w ! j) = replaced_dlg (calls v ! j)" "silent (calls w ! j) = silent (calls v ! j)" if "j < n" for j
    using sig_of_fields(1,3,4,8,15) [OF view(5)] that len by (simp_all add: silent_def call_free_def)
  then show ?thesis using assms(2) view(1,4) by (simp add: hushed_def wired_def call_events_def)
qed

lemma hushed_put:
  assumes "hushed n i l v" "\<And>r. replaced_dlg (f (calls v ! j)) = Some r \<Longrightarrow> r < n"
    "j = i \<Longrightarrow> silent (f (calls v ! i))"
  shows "hushed n i l (put_call j f v)"
proof (cases "j < n")
  case True
  then show ?thesis using assms by (auto simp: hushed_def wired_def call_events_def put_call_nth)
next
  case False
  then have "put_call j f v = v" using assms(1) by (simp add: put_call_def list_update_beyond hushed_def wired_def)
  then show ?thesis using assms(1) by simp
qed

lemma hushed_replaced: "hushed n i l v \<Longrightarrow> j < n \<Longrightarrow> replaced_dlg (calls v ! j) = Some r \<Longrightarrow> r < n"
  by (simp add: hushed_def wired_def)

lemma pres_hushed_put:
  assumes "j < n" "\<And>c r. replaced_dlg (f c) = Some r \<Longrightarrow> replaced_dlg c = Some r \<or> r < n"
    "\<And>c. j = i \<Longrightarrow> silent c \<Longrightarrow> silent (f c)"
  shows "pres (hushed n i l) (upd_call j f)"
  unfolding pres_def run_upd_call snd_conv
proof (intro allI impI)
  fix v :: "'a pjsua_var"
  assume v: "hushed n i l v"
  show "hushed n i l (put_call j f v)"
  proof (rule hushed_put [OF v])
    show "r < n" if "replaced_dlg (f (calls v ! j)) = Some r" for r
      using assms(2) [OF that] hushed_replaced [OF v assms(1)] by blast
    show "j = i \<Longrightarrow> silent (f (calls v ! i))" using assms(3) v by (simp add: hushed_def)
  qed
qed

lemma hushed_fields [simp]:
  "hushed n i l (v\<lparr>call_cnt := x\<rparr>) = hushed n i l v" "hushed n i l (v\<lparr>ext := y\<rparr>) = hushed n i l v"
  "hushed n i l (v\<lparr>next_call_id := k\<rparr>) = hushed n i l v"
  "about_call e \<noteq> int i \<Longrightarrow> hushed n i l (v\<lparr>app_log := app_log v @ [e]\<rparr>) = hushed n i l v"
  by (simp_all add: hushed_def wired_def call_events_def)

lemma mild_silent: "mild f \<Longrightarrow> silent c \<Longrightarrow> silent (f c)"
  by (auto simp: mild_def silent_def call_free_def)

lemma hushed_reports:
  assumes "j < n"
  shows "call_reports (hushed n i l) j"
proof
  fix v w :: "'a pjsua_var"
  show "sig_view w = sig_view v \<Longrightarrow> hushed n i l v \<Longrightarrow> hushed n i l w" by (rule hushed_view)
  show "hushed n i l v \<Longrightarrow> j < length (calls v)" using assms by (simp add: hushed_def wired_def)
next
  fix v :: "'a pjsua_var" and f
  assume f: "mild f" and v: "hushed n i l v"
  show "hushed n i l (put_call j f v)"
    by (rule hushed_put [OF v]) (use v f hushed_replaced [OF v assms] in \<open>auto simp: mild_def hushed_def intro: mild_silent [OF f]\<close>)
next
  fix v :: "'a pjsua_var" and e
  assume "about_call e = int j" "\<not> hanging_up (calls v ! j)" "call_inv (calls v ! j) \<noteq> None" and v: "hushed n i l v"
  moreover from this have "j \<noteq> i" by (auto simp: hushed_def silent_def call_free_def)
  ultimately show "hushed n i l (v\<lparr>app_log := app_log v @ [e]\<rparr>)" by simp
next
  fix v :: "'a pjsua_var" and st k
  assume inv: "call_inv (calls v ! j) \<noteq> None" and v: "hushed n i l v"
  show "hushed n i l (put_call j (\<lambda>c. c\<lparr>call_inv := Some st, call_inv_cause := k\<rparr>) v)"
    by (rule hushed_put [OF v]) (use inv v hushed_replaced [OF v assms] in \<open>auto simp: hushed_def silent_def call_free_def\<close>)
next
  fix v :: "'a pjsua_var"
  assume "hushed n i l v"
  then show "hushed n i l (put_call j (\<lambda>_. blank_call) (v\<lparr>call_cnt := call_cnt v - 1\<rparr>))"
    by (intro hushed_put) (simp_all add: silent_def)
qed

interpretation hush: table_reports "hushed n i l" n for n i l
proof (rule table_reports.intro)
  fix j and v :: "'a pjsua_var" and r
  show "j < n \<Longrightarrow> call_reports (hushed n i l :: 'a pjsua_var \<Rightarrow> bool) j" by (rule hushed_reports)
  show "hushed n i l v \<Longrightarrow> j < n \<Longrightarrow> replaced_dlg (calls v ! j) = Some r \<Longrightarrow> r < n" by (rule hushed_replaced)
  show "hushed n i l v \<Longrightarrow> length (calls v) = n" by (simp add: hushed_def wired_def)
qed

text \<open>Hanging up: the silent call is left as it is, and another one is told of as itself.\<close>

lemma hushed_other:
  assumes "j < n" "j \<noteq> i"
  shows "call_property (hushed n i l) j"
  by (intro call_property.intro hushed_reports [OF assms(1)] call_property_axioms.intro) (use assms(2) in simp)

lemma hangup_again: "silent (calls v ! nat k) \<Longrightarrow> exec (pjsua_call_hangup H U k code) v = v"
  by (auto simp: pjsua_call_hangup_def silent_def Let_def)

lemma hushed_hangup:
  assumes "media_quiet U"
  shows "pres (hushed n i l) (pjsua_call_hangup H U k code)"
proof (rule hush.pres_valid [of k])
  assume k: "nat k < n"
  show "pres (hushed n i l) (pjsua_call_hangup H U k code)"
  proof (cases "nat k = i")
    case True
    have "hushed n i l (exec (pjsua_call_hangup H U k code) v)" if "hushed n i l v" for v :: "'a pjsua_var"
      using that True hangup_again [of v k H U code] by (simp add: hushed_def)
    then show ?thesis by (simp add: pres_def)
  qed (use call_property.hangup [OF hushed_other [OF k] assms refl] in simp)
qed (simp add: outside)

section \<open>The media of a call that is hung up\<close>

text \<open>The call \<open>j\<close> is set up while the call \<open>i\<close> is silent; they may be the same call.\<close>

definition calm :: "nat \<Rightarrow> nat \<Rightarrow> app_event list \<Rightarrow> nat \<Rightarrow> 'x pjsua_var \<Rightarrow> bool" where
  "calm n i l j v \<longleftrightarrow> hushed n i l v \<and> j < n \<and> (j = i \<longrightarrow> hanging_up (calls v ! i))"

lemma pres_calm_quiet: "quiet m \<Longrightarrow> pres (calm n i l j) m"
proof (rule pres_quiet)
  fix v w :: "'a pjsua_var"
  assume eq: "sig_view w = sig_view v" and v: "calm n i l j v"
  then have "sig_of (calls w ! i) = sig_of (calls v ! i)"
    by (intro sig_viewD(5) [OF eq]) (simp add: calm_def hushed_def wired_def)
  from sig_of_fields(4) [OF this] show "calm n i l j w" using v hushed_view [OF eq] by (simp add: calm_def)
qed

lemma pres_calm_put:
  assumes "\<And>c. replaced_dlg (f c) = replaced_dlg c" "\<And>c. hanging_up c \<Longrightarrow> hanging_up (f c)"
  shows "pres (calm n i l j) (upd_call j f)"
  unfolding pres_def run_upd_call snd_conv
proof (intro allI impI)
  fix v :: "'a pjsua_var"
  assume v: "calm n i l j v"
  then have h: "hushed n i l v" and j: "j < n" "j < length (calls v)" and hang: "j = i \<Longrightarrow> hanging_up (f (calls v ! i))"
    using assms(2) by (auto simp: calm_def hushed_def wired_def)
  have "hushed n i l (put_call j f v)"
    by (rule hushed_put [OF h]) (use hushed_replaced [OF h j(1)] hang in \<open>simp_all add: assms(1) silent_def\<close>)
  then show "calm n i l j (put_call j f v)" using j hang by (auto simp: calm_def)
qed

lemma pres_calm_state: "pres (calm n i l j) (tell_state j)"
  unfolding pres_def
proof (intro allI impI)
  fix v :: "'a pjsua_var"
  assume v: "calm n i l j v"
  then have "\<not> hanging_up (calls v ! j) \<Longrightarrow> j \<noteq> i" by (auto simp: calm_def)
  then show "calm n i l j (exec (tell_state j) v)" using v by (auto simp: tell_state_def calm_def)
qed

lemma pres_calm_count: "pres (calm n i l j) (modify (\<lambda>v. v\<lparr>call_cnt := call_cnt v + 1\<rparr>))"
  by (simp add: pres_def calm_def)

lemmas calm_basic = quiet_laws [THEN pres_calm_quiet] pres_calm_state pres_calm_count

lemma calm_session_over: "media_quiet U \<Longrightarrow> pres (calm n i l j) (inv_terminate H U j code False)"
  unfolding inv_terminate_def session_disconnected_def in_session_def
  by (intro pres_intro calm_basic pres_calm_put) simp_all

text \<open>The end of a failure: the slot is reset, whether or not the application is told.\<close>

lemma hushed_reset: "leads (hushed n i l) (reset_call j) (\<lambda>_. hushed n i l)"
  by (auto simp: leads_def silent_def intro: hushed_put)

lemma hushed_quiet: "quiet m \<Longrightarrow> pres (hushed n i l) m"
  by (erule pres_quiet) (rule hushed_view)

lemmas hushed_basic = quiet_laws [THEN hushed_quiet]

lemma hushed_over:
  "media_quiet U \<Longrightarrow> leads (hushed n i l) (do { sp_med_deinit U j; reset_call j; pjsua_check_snd_dev_idle }) (\<lambda>_. hushed n i l)"
  by (intro leads_then leads_bind [OF hushed_reset] leads_pres hushed_basic)

lemma calm_over:
  "media_quiet U \<Longrightarrow> leads (calm n i l j) (do { sp_med_deinit U j; reset_call j; pjsua_check_snd_dev_idle }) (\<lambda>_. hushed n i l)"
  by (rule leads_pre [OF hushed_over]) (simp_all add: calm_def)

lemma calm_failed:
  assumes "media_quiet U"
  shows "leads (calm n i l j) (make_call_failed H U j session told) (\<lambda>_. hushed n i l)"
  unfolding make_call_failed_def
  by (intro leads_then [OF pres_only_if] leads_then [OF pres_calm_put] calm_over assms pres_bind calm_basic pres_calm_put
      calm_session_over) simp_all

lemma hushed_dropped:
  assumes "media_quiet U" "j < n"
  shows "leads (hushed n i l) (do { upd_call j (\<lambda>c. c\<lparr>call_inv := None\<rparr>); make_call_failed H U j False True }) (\<lambda>_. hushed n i l)"
proof -
  note one = hush.reports [OF assms(2)]
  have drop: "pres (hushed n i l) (upd_call j (\<lambda>c. c\<lparr>call_inv := None\<rparr>))"
    by (rule pres_hushed_put [OF assms(2)]) (auto simp: silent_def call_free_def)
  have async: "pres (hushed n i l) (upd_call j (\<lambda>c. c\<lparr>call_async_dlg := False\<rparr>))"
    by (rule call_reports.pres_mildly [OF one]) (simp add: mild_def)
  show ?thesis unfolding make_call_failed_def only_if_def
    by (simp only: simp_thms if_False)
      (intro leads_then [OF drop] leads_then [OF pres_ret] leads_then [OF async] hushed_over assms(1))
qed

lemma calm_invited:
  assumes "media_quiet U" "j < n"
  shows "leads (calm n i l j) (send_initial_invite H U j) (\<lambda>_. hushed n i l)"
proof -
  note one = hush.reports [OF assms(2)]
  have fail: "leads (calm n i l j) (do { make_call_failed H U j True False; ret st }) (\<lambda>_. hushed n i l)" for st
    by (intro leads_bind [OF calm_failed] leads_ret assms)
  have send: "leads (calm n i l j) (inv_send_msg H U j MsgInvite) (\<lambda>_. hushed n i l)"
    by (rule leads_pre [OF leads_pres [OF call_reports.sends(1) [OF one assms(1)]]]) (simp add: calm_def)
  have unsent: "leads (hushed n i l) (do { upd_call j (\<lambda>c. c\<lparr>call_inv := None\<rparr>); make_call_failed H U j False True; ret st })
      (\<lambda>_. hushed n i l)" for st
    using leads_bind [OF hushed_dropped [OF assms] leads_ret [where x = st and Q = "\<lambda>_. hushed n i l"]] by (simp add: bind_assoc)
  have sent: "leads (hushed n i l) (do { upd_call j (\<lambda>c. c\<lparr>med_ch_cb := None\<rparr>); ret PJ_SUCCESS }) (\<lambda>_. hushed n i l)"
    by (intro leads_pres pres_bind call_reports.basic [OF one] pres_ret)
  show ?thesis unfolding send_initial_invite_def
    by (intro leads_then [OF pres_calm_put] leads_then [OF calm_basic(1)] leads_if fail leads_then [OF pres_calm_count]
        leads_bind [OF send] unsent sent) simp_all
qed

lemma calm_media:
  assumes "media_quiet U" "j < n"
  shows "leads (calm n i l j) (on_make_call_med_tp_complete H U j info) (\<lambda>_. hushed n i l)"
proof -
  have fail: "leads (calm n i l j) (do { make_call_failed H U j session told; ret st }) (\<lambda>_. hushed n i l)" for st session told
    by (intro leads_bind [OF calm_failed] leads_ret assms)
  show ?thesis unfolding on_make_call_med_tp_complete_def Let_def
    by (intro leads_then leads_if fail calm_invited assms pres_intro calm_basic pres_calm_put) simp_all
qed

lemma hushed_made:
  assumes "media_quiet U" "j < n"
  shows "leads (\<lambda>v. hushed n i l v \<and> med_ch_cb (calls v ! j) = Some MakeCallCb)
    (do { _ \<leftarrow> on_make_call_med_tp_complete H U j (Some info); ret () }) (\<lambda>_. hushed n i l)"
  by (intro leads_bind [OF leads_pre [OF calm_media]] leads_ret assms)
    (use assms(2) in \<open>auto simp: calm_def hushed_def silent_def\<close>)

section \<open>New calls in other slots\<close>

lemma pres_elsewhere:
  assumes "j < n" "j \<noteq> i" "\<And>c r. replaced_dlg (f c) = Some r \<Longrightarrow> replaced_dlg c = Some r \<or> r < n"
  shows "pres (hushed n i l) (upd_call j f)"
  by (rule pres_hushed_put) (use assms in simp_all)

lemma reset_elsewhere: "j < n \<Longrightarrow> j \<noteq> i \<Longrightarrow> pres (hushed n i l) (reset_call j)"
  unfolding reset_call_def by (rule pres_elsewhere) simp_all

lemma placed_elsewhere:
  assumes "media_quiet U" "j < n" "j \<noteq> i"
  shows "pres (hushed n i l) (place_call H U j acc uri opt)"
proof -
  note one = hush.reports [OF assms(2)] and put = pres_elsewhere [OF assms(2,3)] reset_elsewhere [OF assms(2,3)]
  have prepare: "pres (hushed n i l) (prepare_call H U j acc uri opt)"
    unfolding prepare_call_def open_snd_for_call_def create_call_dialog_def
    by (intro pres_intro put hushed_basic call_reports.apply_setting [OF one] assms(1) hushed_quiet quiet_neutral
        neutral_set_snd_dev) simp_all
  have init: "pres (hushed n i l) (media_channel_init U j uas cb)" for uas cb
    unfolding media_channel_init_def by (intro pres_intro put hushed_basic assms(1)) simp_all
  have error: "pres (hushed n i l) (make_call_error U j st)" for st
    unfolding make_call_error_def by (intro pres_intro put hushed_basic assms(1)) simp_all
  have ready: "pres (hushed n i l) (on_make_call_med_tp_complete H U j info)" for info
    using leads_pre [OF calm_media [OF assms(1,2), of i l H info], of "hushed n i l"] assms(2,3)
    by (auto simp: calm_def leads_def pres_def)
  show ?thesis unfolding place_call_def by (intro pres_intro prepare init error ready)
qed

lemma made_elsewhere:
  assumes "media_quiet U" "hushed n i l v" "found_slot v \<noteq> Some i"
  shows "hushed n i l (exec (pjsua_call_make_call H U acc uri opt) v)"
proof -
  have idle: "hushed n i l (exec pjsua_check_snd_dev_idle (v\<lparr>next_call_id := x\<rparr>))" "hushed n i l (exec pjsua_check_snd_dev_idle v)" for x
    using assms(2) by (auto intro!: presD [OF hushed_basic(3)])
  have place: "hushed n i l (exec (place_call H U j acc uri opt) (v\<lparr>next_call_id := x\<rparr>))" if "found_slot v = Some j" for j x
  proof (rule presD [OF placed_elsewhere [OF assms(1)]])
    show "j < n" using found_slot_free [OF that] assms(2) by (simp add: hushed_def wired_def)
    show "j \<noteq> i" using that assms(3) by auto
    show "hushed n i l (v\<lparr>next_call_id := x\<rparr>)" using assms(2) by simp
  qed
  show ?thesis using assms(2) idle place
    by (cases "found_slot v") (auto simp: pjsua_call_make_call_def alloc_run split_beta)
qed

lemma announced_elsewhere:
  assumes "media_quiet U" "j < n" "j \<noteq> i" "\<And>acc c. pres (hushed n i l) (app acc c)" "\<And>k. ri_replaced r = Some k \<Longrightarrow> k < n"
  shows "pres (hushed n i l) (announce_call m H U app r acc j)"
proof -
  note one = hush.reports [OF assms(2)] and put = pres_elsewhere [OF assms(2,3)]
  have replaces: "pres (hushed n i l) (if b then process_incoming_call_replace H U j k
      else upd_call j (\<lambda>c. c\<lparr>replaced_dlg := Some k\<rparr>))" if "ri_replaced r = Some k" for b k
    by (intro pres_if hush.replace_call put assms(1,2,5) that) (use assms(5) [OF that] in auto)
  have told: "pres (hushed n i l) (tell_app (AppIncomingCall acc (int j)))" using assms(3) by (simp add: pres_def)
  have count: "pres (hushed n i l) (modify (\<lambda>v. v\<lparr>call_cnt := call_cnt v + 1\<rparr>))" by (simp add: pres_def)
  have attach: "pres (hushed n i l) (upd_call j (\<lambda>c. c\<lparr>call_attached := True\<rparr>))" by (rule put) simp
  show ?thesis unfolding announce_call_def
    by (intro pres_bind attach count pres_get_call pres_option pres_ret replaces told assms(4) pres_if
        call_reports.pending_hangup [OF one] call_reports.pending_answers [OF one] call_reports.answer_fuel [OF one] assms(1))
qed

lemma accepted_elsewhere:
  assumes "media_quiet U" "j < n" "j \<noteq> i" "\<And>acc c. pres (hushed n i l) (app acc c)" "\<And>k. ri_replaced r = Some k \<Longrightarrow> k < n"
  shows "pres (hushed n i l) (accept_invite m H U app r j)"
proof -
  note one = hush.reports [OF assms(2)] and put = pres_elsewhere [OF assms(2,3)]
  have session: "pres (hushed n i l) (create_session U j acc)" for acc
    unfolding create_session_def by (intro pres_intro put hushed_basic) simp_all
  have drop: "pres (hushed n i l) (drop_session H U j code deinit)" for code deinit
    unfolding drop_session_def by (intro pres_intro put hushed_basic call_reports.inv_terminate [OF one] assms(1)) simp_all
  have verify: "pres (hushed n i l) (verify_request U j tmp)" for tmp
    by (rule hushed_quiet [OF quiet_verify [OF assms(1)]])
  have media: "pres (hushed n i l) (init_incoming_media m H U j)"
    unfolding init_incoming_media_def Let_def
    by (intro pres_intro verify drop hushed_basic call_reports.media_init [OF one] hush.incoming_media assms(1,2)) simp
  have response: "pres (hushed n i l) (first_response H U j)"
    unfolding first_response_def Let_def
    by (intro pres_intro put drop hushed_basic call_reports.sends [OF one] assms(1)) simp
  show ?thesis
    unfolding accept_invite_def accept_for_account_def reject_request_def
    by (intro pres_intro put reset_elsewhere hushed_basic session media response announced_elsewhere assms) simp_all
qed

lemma incoming_elsewhere:
  assumes "media_quiet U" "hushed n i l v" "found_slot v \<noteq> Some i" "\<And>acc c. pres (hushed n i l) (app acc c)"
    "\<And>k. ri_replaced r = Some k \<Longrightarrow> k < n"
  shows "hushed n i l (exec (pjsua_call_on_incoming m H U app r) v)"
proof -
  have slot: "hushed n i l (exec (incoming_data_freed j) (exec (accept_invite m H U app r j) (v\<lparr>next_call_id := x\<rparr>)))"
    if "found_slot v = Some j" for j x
  proof -
    have j: "j < n" "j \<noteq> i" using found_slot_free [OF that] that assms(2,3) by (auto simp: hushed_def wired_def)
    have "pres (hushed n i l) (accept_invite m H U app r j)"
      by (rule accepted_elsewhere [OF assms(1) j assms(4)]) (rule assms(5))
    moreover have "hushed n i l (v\<lparr>next_call_id := x\<rparr>)" using assms(2) by simp
    ultimately have "hushed n i l (exec (accept_invite m H U app r j) (v\<lparr>next_call_id := x\<rparr>))" by (rule presD)
    moreover have "pres (hushed n i l) (incoming_data_freed j)"
      unfolding incoming_data_freed_def by (rule pres_elsewhere [OF j]) simp
    ultimately show ?thesis by (rule presD [rotated])
  qed
  show ?thesis using assms(2) slot
    by (cases "found_slot v") (auto simp: pjsua_call_on_incoming_def alloc_run split_beta)
qed

section \<open>After a hang-up\<close>

text \<open>
  All that can happen while the slot of the call \<open>k\<close> is not given to a new call: every step of the system in
  which a new call, if there is one, finds another slot.
\<close>

inductive late_step ::
  "nat \<Rightarrow> 'x hw \<Rightarrow> 'x sip \<Rightarrow> (int \<Rightarrow> int \<Rightarrow> ('x, unit) pv_m) \<Rightarrow> int \<Rightarrow> 'x pjsua_var \<Rightarrow> 'x pjsua_var \<Rightarrow> bool"
  for m H U app k where
  late_call: "call_step m H U v w \<Longrightarrow> late_step m H U app k v w"
| late_new: "sig_step m H U app v w \<Longrightarrow> found_slot v \<noteq> Some (nat k) \<Longrightarrow> late_step m H U app k v w"

inductive_cases late_stepE: "late_step m H U app k v w"

text \<open>In its callback for an incoming call, the application only asks for things to happen to calls.\<close>

definition app_requests :: "nat \<Rightarrow> 'x hw \<Rightarrow> 'x sip \<Rightarrow> (int \<Rightarrow> int \<Rightarrow> ('x, unit) pv_m) \<Rightarrow> bool" where
  "app_requests m H U app \<longleftrightarrow> (\<forall>acc c v. (call_step m H U)\<^sup>*\<^sup>* v (exec (app acc c) v))"

lemma call_step_hushed:
  assumes "media_quiet U" "call_step m H U v w" "hushed n i l v"
  shows "hushed n i l w"
  by (rule hush.step_kept [OF assms hushed_view hushed_hangup [OF assms(1)] hushed_made [OF assms(1)]])

lemma app_hushed:
  assumes "media_quiet U" "app_requests m H U app"
  shows "pres (hushed n i l) (app acc c)"
proof -
  have "hushed n i l w" if "(call_step m H U)\<^sup>*\<^sup>* v w" "hushed n i l v" for v w
    using that by (induction rule: rtranclp_induct) (auto intro: call_step_hushed [OF assms(1)])
  then show ?thesis using assms(2) unfolding app_requests_def pres_def by blast
qed

lemma late_step_hushed:
  assumes "media_quiet U" "app_requests m H U app" "late_step m H U app (int i) v w" "hushed n i l v"
  shows "hushed n i l w"
  using assms(3)
proof cases
  case late_call
  then show ?thesis using call_step_hushed [OF assms(1) _ assms(4)] by blast
next
  case late_new
  have slot: "found_slot v \<noteq> Some i" using late_new(2) by simp
  show ?thesis using late_new(1)
  proof cases
    case step_call
    then show ?thesis using call_step_hushed [OF assms(1) _ assms(4)] by blast
  next
    case step_make_call
    then show ?thesis using made_elsewhere [OF assms(1,4) slot] by simp
  next
    case (step_incoming r)
    have "k < n" if "ri_replaced r = Some k" for k using step_incoming(2) that assms(4) by (simp add: hushed_def wired_def)
    then show ?thesis using incoming_elsewhere [OF assms(1,4) slot app_hushed [OF assms(1,2)]] step_incoming(1) by simp
  qed
qed

lemma late_steps_hushed:
  assumes "(late_step m H U app (int i))\<^sup>*\<^sup>* v w" "media_quiet U" "app_requests m H U app" "hushed n i l v"
  shows "hushed n i l w"
  using assms(1,4) by (induction rule: rtranclp_induct) (auto intro: late_step_hushed [OF assms(2,3)])

end
