(* ===== verification/Hangup_Props.thy ===== *)
theory Hangup_Props
  imports Sig_Demo Sig_Hush
begin

text \<open>
  Properties of hanging up: what the application is told, silence afterwards, and the end of the retries.
\<close>

section \<open>Hanging up\<close>

text \<open>What a hang-up does with a call that has a session or a dialog and is not being hung up.\<close>

definition hangup_steps :: "'x hw \<Rightarrow> 'x sip \<Rightarrow> nat \<Rightarrow> bool \<Rightarrow> int \<Rightarrow> ('x, pj_status) pv_m" where
  "hangup_steps H U i delay code = do {
     upd_call i (\<lambda>c. c\<lparr>last_code := code\<rparr>);
     stop_reinv_timer H i;
     (if delay
      then upd_call i (\<lambda>c. if call_inv c \<noteq> None \<and> call_role_uas c
                           then c\<lparr>inc_hangup := True, hanging_up := True\<rparr>
                           else c\<lparr>out_hangup := True, hanging_up := True\<rparr>)
      else do {
        sp_med_deinit U i;
        upd_call i (\<lambda>c. c\<lparr>hanging_up := True\<rparr>);
        pjsua_check_snd_dev_idle
      });
     c \<leftarrow> get_call i;
     tell_app (AppCallState (int i) (call_info_state c));
     c \<leftarrow> get_call i;
     only_if (call_inv c \<noteq> None \<and> \<not> delay) (call_inv_end_session H U i code);
     ret PJ_SUCCESS
   }"

lemma hangup_run:
  assumes "valid_call_id k v" "\<not> call_free (calls v ! nat k)" "\<not> hanging_up (calls v ! nat k)"
  shows "run_state (pjsua_call_hangup H U k code) v = run_state (hangup_steps H U (nat k)
      (med_ch_cb (calls v ! nat k) \<noteq> None \<and> call_inv (calls v ! nat k) = None \<or> call_inv (calls v ! nat k) = Some INV_NULL)
      (hangup_status code (calls v ! nat k))) v"
  using assms by (simp add: pjsua_call_hangup_def hangup_steps_def Let_def)

section \<open>What the application is told\<close>

text \<open>Before the hang-up reports, and once the call is marked.\<close>

definition unreported :: "nat \<Rightarrow> nat \<Rightarrow> app_event list \<Rightarrow> 'x pjsua_var \<Rightarrow> bool" where
  "unreported n i l v \<longleftrightarrow> i < n \<and> wired n v \<and> call_events (int i) v = l"

definition marked :: "nat \<Rightarrow> nat \<Rightarrow> app_event list \<Rightarrow> 'x pjsua_var \<Rightarrow> bool" where
  "marked n i l v \<longleftrightarrow> unreported n i l v \<and> hanging_up (calls v ! i)"

lemma wired_view: "sig_view w = sig_view v \<Longrightarrow> wired n v \<Longrightarrow> wired n w"
  using sig_viewD(1,5) sig_of_fields(15) unfolding wired_def by metis

lemma wired_put:
  assumes "wired n v" "\<And>c. replaced_dlg (f c) = replaced_dlg c"
  shows "wired n (put_call j f v)"
  using assms by (auto simp: wired_def put_call_nth)

lemma pres_unreported:
  "quiet m \<Longrightarrow> pres (unreported n i l) m"
  "(\<And>c. replaced_dlg (f c) = replaced_dlg c) \<Longrightarrow> pres (unreported n i l) (upd_call j f)"
proof -
  show "quiet m \<Longrightarrow> pres (unreported n i l) m"
  proof (rule pres_quiet)
    fix v w :: "'a pjsua_var"
    assume eq: "sig_view w = sig_view v" and v: "unreported n i l v"
    show "unreported n i l w" using v wired_view [OF eq] sig_viewD(4) [OF eq] by (simp add: unreported_def call_events_def)
  qed
  assume f: "\<And>c. replaced_dlg (f c) = replaced_dlg c"
  show "pres (unreported n i l) (upd_call j f)"
    by (simp add: pres_def unreported_def call_events_def wired_put f)
qed

lemmas unreported_basic = quiet_laws [THEN pres_unreported(1)] pres_unreported(2)

lemma marked_idle: "leads (marked n i l) pjsua_check_snd_dev_idle (\<lambda>_. marked n i l)"
proof (rule leads_pres, rule pres_quiet [OF quiet_laws(3)])
  fix v w :: "'a pjsua_var"
  assume eq: "sig_view w = sig_view v" and v: "marked n i l v"
  then have "sig_of (calls w ! i) = sig_of (calls v ! i)"
    by (intro sig_viewD(5) [OF eq]) (simp add: marked_def unreported_def wired_def)
  from sig_of_fields(4) [OF this] show "marked n i l w"
    using v wired_view [OF eq] sig_viewD(4) [OF eq] by (simp add: marked_def unreported_def call_events_def)
qed

lemma mark_call:
  assumes "\<And>c. hanging_up (f c)" "\<And>c. replaced_dlg (f c) = replaced_dlg c"
  shows "leads (unreported n i l) (upd_call i f) (\<lambda>_. marked n i l)"
proof (rule leads_upd)
  fix v :: "'a pjsua_var"
  assume "unreported n i l v"
  moreover from this have "wired n (put_call i f v)" by (intro wired_put assms) (simp add: unreported_def)
  moreover from \<open>unreported n i l v\<close> have "i < length (calls v)" by (simp add: unreported_def wired_def)
  ultimately show "marked n i l (put_call i f v)" by (simp add: marked_def unreported_def call_events_def assms(1))
qed

lemma report_marked:
  assumes "media_quiet U"
  shows "leads (marked n i l) (do {
      c \<leftarrow> get_call i;
      tell_app (AppCallState (int i) (call_info_state c));
      c \<leftarrow> get_call i;
      only_if (call_inv c \<noteq> None \<and> b) (call_inv_end_session H U i code);
      ret st
    }) (\<lambda>r v. r = st \<and> hushed n i (l @ [AppCallState (int i) INV_DISCONNECTED]) v)"
  unfolding leads_def
proof (intro allI impI)
  fix v :: "'a pjsua_var"
  assume v: "marked n i l v"
  let ?l = "l @ [AppCallState (int i) INV_DISCONNECTED]" and ?e = "AppCallState (int i) INV_DISCONNECTED"
  have i: "i < n" using v by (simp add: marked_def unreported_def)
  have "pres (hushed n i ?l) (do { c \<leftarrow> get_call i; only_if (call_inv c \<noteq> None \<and> b) (call_inv_end_session H U i code); ret st })"
    by (intro pres_intro call_reports.end_session [OF hush.reports [OF i]] assms)
  moreover have "hushed n i ?l (v\<lparr>app_log := app_log v @ [?e]\<rparr>)"
    using v by (simp add: hushed_def silent_def marked_def unreported_def wired_def call_events_def)
  ultimately have "hushed n i ?l (exec (do { c \<leftarrow> get_call i; only_if (call_inv c \<noteq> None \<and> b) (call_inv_end_session H U i code); ret st })
      (v\<lparr>app_log := app_log v @ [?e]\<rparr>))" by (rule presD)
  moreover have "call_info_state (calls v ! i) = INV_DISCONNECTED" using v by (simp add: marked_def call_info_state_def)
  ultimately show "result (do {
      c \<leftarrow> get_call i;
      tell_app (AppCallState (int i) (call_info_state c));
      c \<leftarrow> get_call i;
      only_if (call_inv c \<noteq> None \<and> b) (call_inv_end_session H U i code);
      ret st
    }) v = st \<and> hushed n i ?l (exec (do {
      c \<leftarrow> get_call i;
      tell_app (AppCallState (int i) (call_info_state c));
      c \<leftarrow> get_call i;
      only_if (call_inv c \<noteq> None \<and> b) (call_inv_end_session H U i code);
      ret st
    }) v)" by (simp add: split_beta only_if_def if_distrib cong: if_cong)
qed

lemma hangup_hushed:
  assumes "media_quiet U" "wired n v" "valid_call_id k v" "\<not> call_free (calls v ! nat k)" "\<not> hanging_up (calls v ! nat k)"
  shows "result (pjsua_call_hangup H U k code) v = PJ_SUCCESS"
    "hushed n (nat k) (call_events k v @ [AppCallState k INV_DISCONNECTED]) (exec (pjsua_call_hangup H U k code) v)"
proof -
  let ?i = "nat k" and ?l = "call_events k v"
  have mark: "leads (unreported n ?i ?l) (if delay
      then upd_call ?i (\<lambda>c. if call_inv c \<noteq> None \<and> call_role_uas c
                           then c\<lparr>inc_hangup := True, hanging_up := True\<rparr>
                           else c\<lparr>out_hangup := True, hanging_up := True\<rparr>)
      else do { sp_med_deinit U ?i; upd_call ?i (\<lambda>c. c\<lparr>hanging_up := True\<rparr>); pjsua_check_snd_dev_idle })
      (\<lambda>_. marked n ?i ?l)" for delay
    by (rule leads_if, rule mark_call, simp, simp,
        rule leads_then [OF unreported_basic(5) [OF assms(1)]], rule leads_bind [OF mark_call marked_idle], simp_all)
  have "leads (unreported n ?i ?l) (hangup_steps H U ?i delay c)
      (\<lambda>r w. r = PJ_SUCCESS \<and> hushed n ?i (?l @ [AppCallState (int ?i) INV_DISCONNECTED]) w)" for delay c
    unfolding hangup_steps_def stop_reinv_timer_def
    by (intro leads_then [OF unreported_basic(9)] leads_then leads_bind [OF mark report_marked [OF assms(1)]] pres_intro
        unreported_basic) simp_all
  moreover have k: "int ?i = k" "?i < n" using assms(2,3) by (auto simp: valid_call_id_def wired_def)
  then have "unreported n ?i ?l v" using assms(2) by (simp add: unreported_def)
  ultimately show "result (pjsua_call_hangup H U k code) v = PJ_SUCCESS"
    "hushed n ?i (?l @ [AppCallState k INV_DISCONNECTED]) (exec (pjsua_call_hangup H U k code) v)"
    using k hangup_run [OF assms(3-5)] by (auto simp: leads_def)
qed

text \<open>
  C6. Hanging up a call that is not being hung up succeeds and tells the application once that the
  call is disconnected; and it hears nothing more of that call, whatever happens afterwards to this call and the
  others - requests, reports of the sessions, asynchronous media set-ups that end, timers, new calls - until
  the call's slot is given to a new call.
\<close>

theorem silent_after_hangup:
  assumes "media_quiet U" "app_requests m H U app" "call_table_ok v" "valid_call_id k v"
    "\<not> call_free (calls v ! nat k)" "\<not> hanging_up (calls v ! nat k)"
    "(late_step m H U app k)\<^sup>*\<^sup>* (exec (pjsua_call_hangup H U k code) v) w"
  shows "result (pjsua_call_hangup H U k code) v = PJ_SUCCESS
    \<and> filter (\<lambda>e. about_call e = k) (app_log w) =
        filter (\<lambda>e. about_call e = k) (app_log v) @ [AppCallState k INV_DISCONNECTED]"
proof -
  have wired: "wired (length (calls v)) v"
    using assms(3) by (auto simp: wired_def call_table_ok_def sound_def slot_sound_def)
  have k: "int (nat k) = k" using assms(4) by (simp add: valid_call_id_def)
  note hang = hangup_hushed [OF assms(1) wired assms(4-6)]
  have "hushed (length (calls v)) (nat k) (call_events k v @ [AppCallState k INV_DISCONNECTED]) w"
    by (rule late_steps_hushed [OF _ assms(1,2) hang(2)]) (unfold k, rule assms(7))
  then show ?thesis using hang(1) k by (simp add: hushed_def call_events_def)
qed

lemma below_eight: "(\<forall>j < 8. P j) = (P 0 \<and> P 1 \<and> P 2 \<and> P 3 \<and> P 4 \<and> P 5 \<and> P 6 \<and> P (7 :: nat))"
  by (simp add: numeral_eq_Suc All_less_Suc2)

lemma demo_table: "call_table_ok demo_var"
proof -
  have len: "length (calls demo_var) = 8" by (simp add: demo_calls)
  have at: "\<forall>j < 8. call_attached (calls demo_var ! j) = (j < 2)"
    unfolding below_eight by (simp add: demo_calls demo_call_def)
  then have "attached_calls demo_var = {..<2}" unfolding attached_calls_def len by auto
  then have "call_cnt demo_var = of_nat (card (attached_calls demo_var))" by (simp add: demo_calls)
  moreover have "\<forall>j < 8. slot_sound 8 (calls demo_var ! j) \<and> settled (calls demo_var ! j)"
    unfolding below_eight by (simp add: demo_calls demo_call_def slot_sound_def settled_def)
  ultimately show ?thesis unfolding call_table_ok_def sound_def len by simp
qed

definition demo_hung_up :: "unit pjsua_var" where
  "demo_hung_up = exec (pjsua_call_hangup demo_hw demo_sip 0 0) demo_var"

lemma demo_hangup_ready:
  "valid_call_id 0 demo_var" "\<not> call_free (calls demo_var ! nat 0)" "\<not> hanging_up (calls demo_var ! nat 0)"
  by (simp_all add: valid_call_id_def demo_calls call_free_def demo_call_def blank_call_def)

lemma demo_app_requests: "app_requests m demo_hw demo_sip demo_app"
proof -
  have "(call_step m demo_hw demo_sip)\<^sup>*\<^sup>* v (exec (demo_app acc c) v)" for acc c v
    using r_into_rtranclp [of "call_step m demo_hw demo_sip", OF step_hangup [where k = c and code = 486]]
    by (simp add: demo_app_def split_beta)
  then show ?thesis by (simp add: app_requests_def)
qed

theorem silent_after_hangup_witness:
  "result (pjsua_call_hangup demo_hw demo_sip 0 0) demo_var = PJ_SUCCESS
   \<and> filter (\<lambda>e. about_call e = 0) (app_log (exec (media_channel_done (Suc 8) demo_hw demo_sip 0 (0, 0)) demo_hung_up))
       = filter (\<lambda>e. about_call e = 0) (app_log demo_var) @ [AppCallState 0 INV_DISCONNECTED]"
proof -
  have "tab 8 {} demo_var" using demo_table by (simp add: tab_def call_table_ok_def demo_calls)
  then have "tab 8 {} demo_hung_up" unfolding demo_hung_up_def by (rule presD [OF whole.hangup [OF demo_sip_quiet]])
  then have "0 < length (calls demo_hung_up)" by (simp add: tab_def)
  then have "(late_step 8 demo_hw demo_sip demo_app 0)\<^sup>*\<^sup>* demo_hung_up
      (exec (media_channel_done (Suc 8) demo_hw demo_sip 0 (0, 0)) demo_hung_up)"
    by (intro r_into_rtranclp late_call step_media_done)
  from silent_after_hangup [OF demo_sip_quiet demo_app_requests demo_table demo_hangup_ready this [unfolded demo_hung_up_def]]
  show ?thesis unfolding demo_hung_up_def .
qed

section \<open>Retries\<close>

text \<open>One attempt to end a session that refuses to end: the attempt is counted, or it is the last.\<close>

definition refusing :: "'x sip \<Rightarrow> bool" where
  "refusing U \<longleftrightarrow> (\<forall>i code x. fst (fst (sp_end U i code x)) \<noteq> PJ_SUCCESS)"

definition ending :: "nat \<Rightarrow> nat \<Rightarrow> u32 \<Rightarrow> 'x pjsua_var \<Rightarrow> bool" where
  "ending n i r v \<longleftrightarrow> dialling n i v \<and> call_inv (calls v ! i) \<noteq> None \<and> call_inv (calls v ! i) \<noteq> Some INV_DISCONNECTED
     \<and> hangup_retry (calls v ! i) = r"

lemma ending_put:
  assumes "ending n i r v" "mild f" "hangup_retry (f (calls v ! i)) = s"
  shows "ending n i s (put_call i f v)"
proof -
  have "dialling n i v" "i < length (calls v)" using assms(1) calling.in_table by (auto simp: ending_def)
  then show ?thesis using assms calling.mildly [of f n i v] by (simp add: ending_def mild_def)
qed

lemma ending_ext [simp]: "ending n i r (v\<lparr>ext := e\<rparr>) = ending n i r v"
  by (simp add: ending_def dialling_def tab_def)

lemma pres_ending:
  "pres (ending n i r) (on_ext f)" "pres (ending n i r) (upd_ext g)" "pres (ending n i r) (call_timer H t ms)"
  "pres (ending n i r) (upd_call i (\<lambda>c. c\<lparr>hangup_timer := x\<rparr>))" "pres (ending n i r) (upd_call i (\<lambda>c. c\<lparr>hangup_code := y\<rparr>))"
proof -
  have same: "ending n i r (put_call i f v)" if "ending n i r v" "mild f" "\<And>c. hangup_retry (f c) = hangup_retry c"
    for f and v :: "'z pjsua_var"
    using ending_put [OF that(1,2) refl] that(1,3) by (simp add: ending_def)
  show "pres (ending n i r) (on_ext f)" "pres (ending n i r) (upd_ext g)" by (simp_all add: pres_def)
  show "pres (ending n i r) (call_timer H t ms)" by (simp add: pres_def call_timer_def split_beta)
  show "pres (ending n i r) (upd_call i (\<lambda>c. c\<lparr>hangup_timer := x\<rparr>))" by (auto simp: pres_def intro!: same)
  show "pres (ending n i r) (upd_call i (\<lambda>c. c\<lparr>hangup_code := y\<rparr>))" by (auto simp: pres_def intro!: same)
qed

lemma refused_end:
  assumes "refusing U"
  shows "leads (ending n i r) (send_end H U i code) (\<lambda>st v. st \<noteq> PJ_SUCCESS \<and> ending n i r v)"
  using assms by (auto simp: leads_def send_end_def refusing_def split_beta)

lemma last_attempt:
  assumes "media_quiet U"
  shows "leads (ending n i r) (inv_terminate H U i code True) (\<lambda>_. vacated i)"
  unfolding leads_def
proof (intro allI impI)
  fix v :: "'a pjsua_var"
  assume v: "ending n i r v"
  obtain d x where d: "sp_terminate U i code (ext v) = (d, x)" by (metis surj_pair)
  let ?v = "v\<lparr>ext := x\<rparr>" and ?f = "\<lambda>c. c\<lparr>call_inv := Some INV_DISCONNECTED, call_inv_cause := snd d\<rparr>"
  have e: "ending n i r ?v" using v by simp
  then have dial: "dialling n i ?v" and inv: "call_inv (calls ?v ! i) \<noteq> None" by (simp_all add: ending_def)
  have dw: "dialling n i (put_call i ?f ?v)" by (rule calling.moved [OF inv dial])
  have "call_attached (calls ?v ! i)" "i < length (calls ?v)" using dial inv calling.in_table by (auto simp: dialling_def tab_def)
  then have "call_attached (calls (put_call i ?f ?v) ! i)" by simp
  from disconnected_gone [OF assms dw this]
  have "vacated i (exec (on_disconnected H U i (fst d)) (put_call i ?f ?v))" .
  then show "vacated i (exec (inv_terminate H U i code True) v)"
    using d v by (simp add: inv_terminate_def session_disconnected_def in_session_def ending_def)
qed

text \<open>
  The attempt has been counted and the hang-up timer is running: pjsua has marked it, and it is in the timer heap
  (\<open>armed\<close>, which the heap makes true when the timer is scheduled).
\<close>

definition due :: "('x \<Rightarrow> bool) \<Rightarrow> nat \<Rightarrow> nat \<Rightarrow> u32 \<Rightarrow> 'x pjsua_var \<Rightarrow> bool" where
  "due armed n i r v \<longleftrightarrow> ending n i r v \<and> hangup_timer (calls v ! i) \<and> armed (ext v)"

definition tried :: "('x \<Rightarrow> bool) \<Rightarrow> nat \<Rightarrow> nat \<Rightarrow> u32 \<Rightarrow> 'x pjsua_var \<Rightarrow> bool" where
  "tried armed n i r v \<longleftrightarrow> (if r \<ge> CALL_HANGUP_MAX_RETRY then vacated i v else due armed n i (r + 1) v)"

definition arms :: "'x hw \<Rightarrow> nat \<Rightarrow> ('x \<Rightarrow> bool) \<Rightarrow> bool" where
  "arms H i armed \<longleftrightarrow> (\<forall>d x. armed (snd (hw_schedule_timer H (HangupTimer i) d x)))"

lemma rearmed:
  assumes "ending n i r v" "arms H i armed"
  shows "due armed n i (r + 1) (exec (do {
      only_if b (upd_call i (\<lambda>c. c\<lparr>hangup_code := y\<rparr>));
      upd_call i (\<lambda>c. c\<lparr>hangup_timer := True\<rparr>);
      call_timer H (HangupTimer i) ms;
      upd_call i (\<lambda>c. c\<lparr>hangup_retry := hangup_retry c + 1\<rparr>)
    }) v)"
proof -
  define u where "u = exec (do {
      only_if b (upd_call i (\<lambda>c. c\<lparr>hangup_code := y\<rparr>));
      upd_call i (\<lambda>c. c\<lparr>hangup_timer := True\<rparr>)
    }) v"
  define w where "w = exec (call_timer H (HangupTimer i) ms) u"
  have i: "i < length (calls v)" using assms(1) calling.in_table by (auto simp: ending_def)
  have "pres (ending n i r) (do {
      only_if b (upd_call i (\<lambda>c. c\<lparr>hangup_code := y\<rparr>));
      upd_call i (\<lambda>c. c\<lparr>hangup_timer := True\<rparr>)
    })" by (intro pres_intro pres_ending)
  then have u: "ending n i r u" unfolding u_def using assms(1) by (rule presD)
  then have w: "ending n i r w" unfolding w_def by (rule presD [OF pres_ending(3)])
  have "hangup_timer (calls u ! i)" using i by (cases b) (simp_all add: u_def)
  moreover have "calls w = calls u" "armed (ext w)"
    using assms(2) by (simp_all add: w_def call_timer_def split_beta arms_def)
  moreover have "i < length (calls w)" using w calling.in_table by (auto simp: ending_def)
  moreover have "ending n i (r + 1) (put_call i (\<lambda>c. c\<lparr>hangup_retry := hangup_retry c + 1\<rparr>) w)"
    by (rule ending_put [OF w]) (use w in \<open>simp_all add: ending_def\<close>)
  ultimately have "due armed n i (r + 1) (put_call i (\<lambda>c. c\<lparr>hangup_retry := hangup_retry c + 1\<rparr>) w)"
    by (simp add: due_def)
  then show ?thesis by (simp add: w_def u_def split_beta)
qed

lemma retried:
  assumes "media_quiet U" "arms H i armed"
  shows "leads (ending n i r) (retry_end H U i code) (\<lambda>_. tried armed n i r)"
  unfolding leads_def
proof (intro allI impI)
  fix v :: "'a pjsua_var"
  assume v: "ending n i r v"
  then have "hangup_retry (calls v ! i) = r" by (simp add: ending_def)
  then show "tried armed n i r (exec (retry_end H U i code) v)"
    using leadsD [OF last_attempt [OF assms(1)] v] rearmed [OF v assms(2)]
    by (cases "r \<ge> CALL_HANGUP_MAX_RETRY") (simp_all add: retry_end_def tried_def)
qed

lemma attempt:
  assumes "media_quiet U" "refusing U" "arms H i armed"
  shows "leads (ending n i r) (call_inv_end_session H U i code) (\<lambda>_. tried armed n i r)"
proof -
  have cancel: "pres (ending n i r) (only_if b (do { upd_ext g; upd_call i (\<lambda>c. c\<lparr>hangup_timer := False\<rparr>) }))" for b g
    by (intro pres_intro pres_ending)
  have fail: "leads (\<lambda>v. st \<noteq> PJ_SUCCESS \<and> ending n i r v) (do {
      c \<leftarrow> get_call i;
      only_if (st \<noteq> PJ_SUCCESS \<and> call_inv c \<noteq> None) (retry_end H U i code)
    }) (\<lambda>_. tried armed n i r)" for st code
    using retried [OF assms(1,3), of n r code] by (simp add: leads_def) (simp add: ending_def)
  show ?thesis unfolding call_inv_end_session_def Let_def
    by (intro leads_then [OF pres_get_call] leads_then [OF cancel] leads_bind [OF refused_end [OF assms(2)]] fail)
qed

lemma timer_attempt:
  assumes "media_quiet U" "refusing U" "arms H i armed"
  shows "leads (ending n i r) (hangup_timer_cb H U i) (\<lambda>_. tried armed n i r)"
  unfolding leads_def
proof (intro allI impI)
  fix v :: "'a pjsua_var"
  let ?w = "put_call i (\<lambda>c. c\<lparr>hangup_timer := False\<rparr>) v"
  assume v: "ending n i r v"
  then have w: "ending n i r ?w" using presD [OF pres_ending(4)] by fastforce
  then have "call_inv (calls ?w ! i) \<noteq> None" "call_inv (calls v ! i) \<noteq> None" using v by (simp_all add: ending_def)
  then show "tried armed n i r (exec (hangup_timer_cb H U i) v)"
    using leadsD [OF attempt [OF assms] w, of "hangup_code (calls ?w ! i)"]
    by (auto simp: hangup_timer_cb_def call_free_def split_beta)
qed

text \<open>The hang-up timer of the call fires when it is running, and then its callback runs.\<close>

inductive timer_fires :: "'x hw \<Rightarrow> 'x sip \<Rightarrow> ('x \<Rightarrow> bool) \<Rightarrow> nat \<Rightarrow> 'x pjsua_var \<Rightarrow> 'x pjsua_var \<Rightarrow> bool"
  for H U armed i where
  fires: "hangup_timer (calls v ! i) \<Longrightarrow> armed (ext v) \<Longrightarrow> timer_fires H U armed i v (exec (hangup_timer_cb H U i) v)"

lemma attempts_end:
  assumes "media_quiet U" "refusing U" "arms H i armed" "i < length cs"
  shows "due armed n i r v \<Longrightarrow> r \<le> CALL_HANGUP_MAX_RETRY \<Longrightarrow> tab n {} v \<Longrightarrow> apart i cs v \<Longrightarrow>
    \<exists>w. (timer_fires H U armed i ^^ (5 - unat r)) v w \<and> vacated i w \<and> tab n {} w \<and> apart i cs w"
proof (induction "4 - unat r" arbitrary: r v)
  case (0 r v)
  then have r: "r = CALL_HANGUP_MAX_RETRY" by (simp add: word_le_nat_alt word_unat_eq_iff)
  let ?w = "exec (hangup_timer_cb H U i) v"
  have "tried armed n i r ?w" using leadsD [OF timer_attempt [OF assms(1-3)]] "0.prems"(1) by (simp add: due_def)
  moreover have "timer_fires H U armed i v ?w" using "0.prems"(1) by (intro fires) (simp_all add: due_def)
  moreover have "tab n {} ?w" "apart i cs ?w"
    using "0.prems"(1,3,4) by (auto intro!: presD [OF call_reports.hangup_timer_cb [OF whole.reports assms(1)]]
        presD [OF apart.hangup_timer_cb [OF assms(1)]] simp: due_def ending_def dialling_def)
  ultimately show ?case using r by (intro exI [of _ ?w]) (simp add: tried_def eq_OO)
next
  case (Suc k r v)
  then have less: "r < CALL_HANGUP_MAX_RETRY" by (simp add: word_less_nat_alt)
  then have r: "unat (r + 1) = Suc (unat r)" by (simp add: unat_word_ariths word_less_nat_alt)
  let ?u = "exec (hangup_timer_cb H U i) v"
  have "tried armed n i r ?u" using leadsD [OF timer_attempt [OF assms(1-3)]] Suc.prems(1) by (simp add: due_def)
  then have "due armed n i (r + 1) ?u" using less by (simp add: tried_def)
  moreover have "tab n {} ?u" "apart i cs ?u"
    using Suc.prems(1,3,4) by (auto intro!: presD [OF call_reports.hangup_timer_cb [OF whole.reports assms(1)]]
        presD [OF apart.hangup_timer_cb [OF assms(1)]] simp: due_def ending_def dialling_def)
  moreover have "k = 4 - unat (r + 1)" "r + 1 \<le> CALL_HANGUP_MAX_RETRY"
    using Suc.hyps(2) r less by (auto simp: word_le_nat_alt word_less_nat_alt)
  ultimately obtain w where w: "(timer_fires H U armed i ^^ (5 - unat (r + 1))) ?u w" "vacated i w" "tab n {} w" "apart i cs w"
    using Suc.hyps(1) by blast
  have "timer_fires H U armed i v ?u" using Suc.prems(1) by (intro fires) (simp_all add: due_def)
  then have "(timer_fires H U armed i ^^ Suc (5 - unat (r + 1))) v w" using w(1) by (rule relpowp_Suc_I2)
  moreover have "5 - unat r = Suc (5 - unat (r + 1))" using less r by (simp add: word_less_nat_alt)
  ultimately show ?case using w by auto
qed

text \<open>The hang-up is the first attempt.\<close>

lemma ending_told: "pres (ending n i r) (tell_app e)"
  by (simp add: pres_def ending_def dialling_def tab_def)

lemma pres_ending_put:
  assumes "mild f" "\<And>c. hangup_retry (f c) = hangup_retry c"
  shows "pres (ending n i r) (upd_call i f)"
  unfolding pres_def run_upd_call snd_conv
proof (intro allI impI)
  fix v :: "'a pjsua_var"
  assume v: "ending n i r v"
  show "ending n i r (put_call i f v)"
    by (rule ending_put [OF v assms(1)]) (use v assms(2) in \<open>simp add: ending_def\<close>)
qed

lemma ending_quiet: "quiet m \<Longrightarrow> pres (ending n i r) m"
proof (rule pres_quiet)
  fix v w :: "'a pjsua_var"
  assume eq: "sig_view w = sig_view v" and v: "ending n i r v"
  then have "sig_of (calls w ! i) = sig_of (calls v ! i)"
    using calling.in_table by (intro sig_viewD(5) [OF eq]) (auto simp: ending_def)
  from sig_of_fields(1,10) [OF this] show "ending n i r w" using v calling.view [OF eq] by (simp add: ending_def)
qed

lemma first_attempt:
  assumes "media_quiet U" "refusing U" "arms H i armed"
  shows "leads (ending n i r) (hangup_steps H U i False code) (\<lambda>_. tried armed n i r)"
proof -
  have last: "leads (ending n i r) (do {
      c \<leftarrow> get_call i;
      only_if (call_inv c \<noteq> None \<and> \<not> False) (call_inv_end_session H U i code);
      ret PJ_SUCCESS
    }) (\<lambda>_. tried armed n i r)"
    using attempt [OF assms, of n r code] by (simp add: leads_def split_beta) (simp add: ending_def)
  show ?thesis unfolding hangup_steps_def stop_reinv_timer_def if_False
    by (intro leads_then pres_intro pres_ending pres_ending_put ending_told ending_quiet quiet_laws mild_fields last assms(1))
      simp_all
qed

lemma count_after:
  assumes "tab n {} v" "tab n {} w" "apart i (calls v) w" "call_attached (calls v ! i)" "\<not> call_attached (calls w ! i)"
  shows "call_cnt w = call_cnt v - 1"
proof -
  have i: "i \<in> attached_calls v" using assms(3,4) by (auto simp: apart_def attached_calls_def)
  have "call_attached (calls w ! j) = (j \<noteq> i \<and> call_attached (calls v ! j))" if "j < length (calls v)" for j
    using assms(3,5) that sig_of_fields(2) [of "calls w ! j" "calls v ! j"] by (cases "j = i") (auto simp: apart_def)
  then have "attached_calls w = attached_calls v - {i}" using assms(3) by (auto simp: attached_calls_def apart_def)
  moreover have "card (attached_calls v) = Suc (card (attached_calls v - {i}))"
    using i by (metis card.remove finite_attached)
  ultimately show ?thesis using assms(1,2) by (simp add: tab_def sound_def)
qed

text \<open>
  C16. Hanging up a call whose session refuses to end does not keep its slot for ever. The hang-up is the first
  attempt and leaves the hang-up timer running; each of the next three times it fires makes another attempt and leaves
  it running again; the fourth ends the session, and then the slot is free and the number of calls counts one less.
\<close>

theorem hangup_gives_up:
  assumes "media_quiet U" "refusing U" "call_table_ok v" "valid_call_id k v" "call_inv (calls v ! nat k) = Some st"
    "st \<noteq> INV_NULL" "st \<noteq> INV_DISCONNECTED" "\<not> hanging_up (calls v ! nat k)" "hangup_retry (calls v ! nat k) = 0"
    "\<forall>d x. armed (snd (hw_schedule_timer H (HangupTimer (nat k)) d x))"
  shows "\<exists>w. (timer_fires H U armed (nat k) ^^ 4) (exec (pjsua_call_hangup H U k code) v) w
    \<and> call_free (calls w ! nat k) \<and> \<not> call_attached (calls w ! nat k)
    \<and> call_table_ok w \<and> call_cnt w = call_cnt v - 1"
proof -
  let ?n = "length (calls v)" and ?i = "nat k" and ?w = "exec (pjsua_call_hangup H U k code) v"
  have v: "tab ?n {} v" using assms(3) by (simp add: call_table_ok_def tab_def)
  have i: "?i < ?n" using assms(4) by (auto simp: valid_call_id_def)
  have at: "call_attached (calls v ! ?i)" using v i assms(5) by (auto simp: tab_def sound_def settled_def)
  have "ending ?n ?i 0 v"
    using v i at assms(5,7,9) sound_mono [of "{}" v "{?i}"] by (auto simp: ending_def dialling_def tab_def)
  moreover have arms: "arms H ?i armed" using assms(10) by (simp add: arms_def)
  moreover have "?w = exec (hangup_steps H U ?i False (hangup_status code (calls v ! ?i))) v"
    using hangup_run [OF assms(4) _ assms(8), of H U code] assms(5,6) by (simp add: call_free_def)
  ultimately have "due armed ?n ?i 1 ?w" using leadsD [OF first_attempt [OF assms(1,2)]] by (fastforce simp: tried_def)
  moreover have "tab ?n {} ?w" by (rule presD [OF whole.hangup [OF assms(1)] v])
  moreover have "apart ?i (calls v) ?w"
    by (rule presD [OF apart.hangup [OF assms(1) refl]]) (rule apart_self [OF i])
  ultimately obtain w where w: "(timer_fires H U armed ?i ^^ (5 - unat (1 :: u32))) ?w w" "vacated ?i w" "tab ?n {} w"
      "apart ?i (calls v) w"
    using attempts_end [OF assms(1,2) arms i] by fastforce
  moreover have "\<not> call_attached (calls w ! ?i)"
    using w(2,3) by (auto simp: vacated_def call_free_def tab_def sound_def slot_sound_def)
  ultimately show ?thesis using count_after [OF v w(3,4) at]
    by (intro exI [of _ w]) (simp add: vacated_def tab_def call_table_ok_def)
qed

definition demo_stubborn :: "unit sip" where
  "demo_stubborn = demo_sip\<lparr>sp_end := (\<lambda>_ _ x. ((70001, False), x))\<rparr>"

lemma demo_stubborn_quiet: "media_quiet demo_stubborn" "refusing demo_stubborn"
  using demo_sip_quiet by (simp_all add: demo_stubborn_def media_quiet_def refusing_def)

theorem hangup_gives_up_witness:
  "\<exists>w. (timer_fires demo_hw demo_stubborn (\<lambda>_. True) (nat 0) ^^ 4) (exec (pjsua_call_hangup demo_hw demo_stubborn 0 0) demo_var) w
    \<and> call_free (calls w ! nat 0) \<and> \<not> call_attached (calls w ! nat 0)
    \<and> call_table_ok w \<and> call_cnt w = call_cnt demo_var - 1"
  by (rule hangup_gives_up [OF demo_stubborn_quiet demo_table, of _ INV_CONFIRMED])
    (simp_all add: valid_call_id_def demo_calls demo_call_def blank_call_def)

end
