(* ===== verification/Pj_Timer.thy ===== *)
theory Pj_Timer
  imports Pj_Time
begin

text \<open>
  The timer heap of pjlib (pjlib/src/pj/timer.c), with copies of the entries and without linked lists, as the
  default configuration has it. An entry is the application's object: a pointer to it is its number in the
  memory \<open>th_entries\<close>. A pointer to a copy is its index in \<^verbatim>\<open>timer_dups\<close>; 0 is never used, and stands for NULL.
  Callbacks, user data and group locks are numbers, with 0 for a NULL callback.
\<close>

section \<open>Comparing times\<close>

definition tv_gt :: "time_val \<Rightarrow> time_val \<Rightarrow> bool" where
  "tv_gt s t \<longleftrightarrow> tv_sec s > tv_sec t \<or> tv_sec s = tv_sec t \<and> tv_msec s > tv_msec t"

definition tv_gte :: "time_val \<Rightarrow> time_val \<Rightarrow> bool" where
  "tv_gte s t \<longleftrightarrow> tv_gt s t \<or> tv_sec s = tv_sec t \<and> tv_msec s = tv_msec t"

definition tv_lt :: "time_val \<Rightarrow> time_val \<Rightarrow> bool" where
  "tv_lt s t \<longleftrightarrow> \<not> tv_gte s t"

definition tv_lte :: "time_val \<Rightarrow> time_val \<Rightarrow> bool" where
  "tv_lte s t \<longleftrightarrow> \<not> tv_gt s t"

definition tv_add :: "time_val \<Rightarrow> time_val \<Rightarrow> time_val" where
  "tv_add s t = pj_time_val_normalize \<lparr>tv_sec = tv_sec s + tv_sec t, tv_msec = tv_msec s + tv_msec t\<rparr>"

definition tv_sub :: "time_val \<Rightarrow> time_val \<Rightarrow> time_val" where
  "tv_sub s t = pj_time_val_normalize \<lparr>tv_sec = tv_sec s - tv_sec t, tv_msec = tv_msec s - tv_msec t\<rparr>"

section \<open>The heap\<close>

record timer_entry =
  te_user_data :: nat
  te_id :: int
  te_cb :: nat
  te_timer_id :: int

record timer_dup =
  td_dup :: timer_entry
  td_entry :: nat
  td_value :: time_val
  td_grp_lock :: "nat option"

text \<open>\<open>th_world\<close> is the state of the clock, the group locks and what else callbacks use.\<close>

record 'x timer_heap =
  th_max_size :: nat
  th_cur_size :: nat
  th_max_per_poll :: u32
  th_heap :: "nat list"
  th_ids :: "int list"
  th_dups :: "timer_dup list"
  th_freelist :: int
  th_entries :: "nat \<Rightarrow> timer_entry"
  th_world :: 'x

text \<open>The clock, the reference counters of group locks, and the callbacks, called with their entry.\<close>

record 'x timer_env =
  env_tick :: "'x \<Rightarrow> time_val \<times> 'x"
  env_add_ref :: "nat \<Rightarrow> 'x \<Rightarrow> 'x"
  env_dec_ref :: "nat \<Rightarrow> 'x \<Rightarrow> 'x"
  env_callback :: "nat \<Rightarrow> nat \<Rightarrow> 'x timer_heap \<Rightarrow> 'x timer_heap"

abbreviation PJ_ENOTFOUND :: pj_status where "PJ_ENOTFOUND \<equiv> 70006"
abbreviation PJ_MAXINT32 :: int where "PJ_MAXINT32 \<equiv> 2147483647"
abbreviation MAX_TIMED_OUT_PER_POLL :: u32 where "MAX_TIMED_OUT_PER_POLL \<equiv> 64"

definition heap_parent :: "nat \<Rightarrow> nat" where
  "heap_parent x = (if x = 0 then 0 else (x - 1) div 2)"

definition heap_left :: "nat \<Rightarrow> nat" where
  "heap_left x = x + x + 1"

definition upd_entry :: "nat \<Rightarrow> (timer_entry \<Rightarrow> timer_entry) \<Rightarrow> 'x timer_heap \<Rightarrow> 'x timer_heap" where
  "upd_entry e f ht = ht\<lparr>th_entries := (th_entries ht)(e := f (th_entries ht e))\<rparr>"

definition upd_dup :: "nat \<Rightarrow> (timer_dup \<Rightarrow> timer_dup) \<Rightarrow> 'x timer_heap \<Rightarrow> 'x timer_heap" where
  "upd_dup n f ht = ht\<lparr>th_dups := (th_dups ht)[n := f (th_dups ht ! n)]\<rparr>"

definition dup_id :: "'x timer_heap \<Rightarrow> nat \<Rightarrow> int" where
  "dup_id ht n = te_timer_id (td_dup (th_dups ht ! n))"

definition node_value :: "'x timer_heap \<Rightarrow> nat \<Rightarrow> time_val" where
  "node_value ht n = td_value (th_dups ht ! n)"

definition copy_node :: "nat \<Rightarrow> nat \<Rightarrow> 'x timer_heap \<Rightarrow> 'x timer_heap" where
  "copy_node slot node ht =
     ht\<lparr>th_heap := (th_heap ht)[slot := node], th_ids := (th_ids ht)[nat (dup_id ht node) := int slot]\<rparr>"

definition pop_freelist :: "'x timer_heap \<Rightarrow> int \<times> 'x timer_heap" where
  "pop_freelist ht =
     (let new_id = th_freelist ht in (new_id, ht\<lparr>th_freelist := - (th_ids ht ! nat new_id)\<rparr>))"

definition push_freelist :: "int \<Rightarrow> 'x timer_heap \<Rightarrow> 'x timer_heap" where
  "push_freelist old_id ht =
     ht\<lparr>th_ids := (th_ids ht)[nat old_id := - th_freelist ht], th_freelist := old_id\<rparr>"

lemma copy_node_sizes [simp]:
  "th_cur_size (copy_node s n ht) = th_cur_size ht" "th_dups (copy_node s n ht) = th_dups ht"
  by (simp_all add: copy_node_def)

text \<open>The callers pass the left child and the parent of the slot.\<close>

definition smaller_child :: "'x timer_heap \<Rightarrow> nat \<Rightarrow> nat" where
  "smaller_child ht child =
     (if child + 1 < th_cur_size ht
         \<and> tv_lt (node_value ht (th_heap ht ! (child + 1))) (node_value ht (th_heap ht ! child))
      then child + 1 else child)"

function reheap_down :: "nat \<Rightarrow> nat \<Rightarrow> 'x timer_heap \<Rightarrow> 'x timer_heap" where
  "reheap_down moved slot ht =
     (if heap_left slot < th_cur_size ht then
        let child = smaller_child ht (heap_left slot)
        in if tv_lt (node_value ht (th_heap ht ! child)) (node_value ht moved)
           then reheap_down moved child (copy_node slot (th_heap ht ! child) ht)
           else copy_node slot moved ht
      else copy_node slot moved ht)"
  by pat_completeness auto
termination
  by (relation "measure (\<lambda>(moved, slot, ht). th_cur_size ht - slot)")
     (auto simp: smaller_child_def heap_left_def)

function reheap_up :: "nat \<Rightarrow> nat \<Rightarrow> 'x timer_heap \<Rightarrow> 'x timer_heap" where
  "reheap_up moved slot ht =
     (if slot > 0 \<and> tv_lt (node_value ht moved) (node_value ht (th_heap ht ! heap_parent slot))
      then reheap_up moved (heap_parent slot) (copy_node slot (th_heap ht ! heap_parent slot) ht)
      else copy_node slot moved ht)"
  by pat_completeness auto
termination
  by (relation "measure (\<lambda>(moved, slot, ht). slot)") (auto simp: heap_parent_def)

declare reheap_down.simps [simp del] reheap_up.simps [simp del]

definition remove_node :: "nat \<Rightarrow> 'x timer_heap \<Rightarrow> nat \<times> 'x timer_heap" where
  "remove_node slot ht =
     (let removed = th_heap ht ! slot;
          ht = push_freelist (dup_id ht removed) ht;
          ht = ht\<lparr>th_cur_size := th_cur_size ht - 1\<rparr>;
          ht = upd_entry (td_entry (th_dups ht ! removed)) (\<lambda>t. t\<lparr>te_timer_id := -1\<rparr>) ht;
          ht = upd_dup removed (\<lambda>d. d\<lparr>td_dup := (td_dup d)\<lparr>te_timer_id := -1\<rparr>\<rparr>) ht
      in (removed,
          if slot < th_cur_size ht then
            let moved = th_heap ht ! th_cur_size ht;
                ht = copy_node slot moved ht
            in if tv_gte (node_value ht moved) (node_value ht (th_heap ht ! heap_parent slot))
               then reheap_down moved slot ht else reheap_up moved slot ht
          else ht))"

definition blank_dup :: timer_dup where
  "blank_dup = \<lparr>td_dup = \<lparr>te_user_data = 0, te_id = 0, te_cb = 0, te_timer_id = 0\<rparr>, td_entry = 0,
     td_value = \<lparr>tv_sec = 0, tv_msec = 0\<rparr>, td_grp_lock = None\<rparr>"

definition free_ids :: "nat \<Rightarrow> nat \<Rightarrow> int list" where
  "free_ids lo hi = map (\<lambda>i. - int (i + 1)) [lo..<hi]"

definition grow_heap :: "'x timer_heap \<Rightarrow> 'x timer_heap" where
  "grow_heap ht =
     (let new_size = th_max_size ht * 2
      in ht\<lparr>th_heap := take (th_cur_size ht) (th_heap ht) @ replicate (new_size - th_cur_size ht) 0,
            th_dups := th_dups ht @ replicate (th_max_size ht) blank_dup,
            th_ids := th_ids ht @ free_ids (th_max_size ht) new_size,
            th_max_size := new_size\<rparr>)"

definition insert_node :: "nat \<Rightarrow> time_val \<Rightarrow> 'x timer_heap \<Rightarrow> 'x timer_heap" where
  "insert_node e future ht =
     (let ht = (if th_cur_size ht + 2 \<ge> th_max_size ht then grow_heap ht else ht);
          node = nat (te_timer_id (th_entries ht e));
          ht = upd_dup node (\<lambda>_. \<lparr>td_dup = th_entries ht e, td_entry = e, td_value = future, td_grp_lock = None\<rparr>) ht;
          ht = reheap_up node (th_cur_size ht) ht
      in ht\<lparr>th_cur_size := th_cur_size ht + 1\<rparr>)"

definition schedule_entry :: "nat \<Rightarrow> time_val \<Rightarrow> 'x timer_heap \<Rightarrow> pj_status \<times> 'x timer_heap" where
  "schedule_entry e future ht =
     (if th_cur_size ht < th_max_size ht then
        let (new_id, ht) = pop_freelist ht;
            ht = upd_entry e (\<lambda>t. t\<lparr>te_timer_id := new_id\<rparr>) ht
        in (PJ_SUCCESS, insert_node e future ht)
      else (-1, ht))"

text \<open>
  \<^verbatim>\<open>cancel\<close>, whose callers never ask for the callback. A failed assertion does nothing in a release build.
\<close>

definition cancel_entry :: "nat \<Rightarrow> 'x timer_heap \<Rightarrow> int \<times> 'x timer_heap" where
  "cancel_entry e ht =
     (let i = te_timer_id (th_entries ht e);
          stale = upd_entry e (\<lambda>t. t\<lparr>te_timer_id := -1\<rparr>) ht
      in if i < 1 \<or> i \<ge> int (th_max_size ht) then (0, stale)
         else let slot = th_ids ht ! nat i
         in if slot < 0 then (0, stale)
            else if e \<noteq> td_entry (th_dups ht ! (th_heap ht ! nat slot)) then (0, stale)
            else (1, snd (remove_node (nat slot) ht)))"

section \<open>The interface\<close>

definition pj_timer_heap_create :: "nat \<Rightarrow> (nat \<Rightarrow> timer_entry) \<Rightarrow> 'x \<Rightarrow> 'x timer_heap" where
  "pj_timer_heap_create room entries world =
     (let max_size = room + 2
      in \<lparr>th_max_size = max_size, th_cur_size = 0, th_max_per_poll = MAX_TIMED_OUT_PER_POLL,
          th_heap = replicate max_size 0, th_ids = free_ids 0 max_size, th_dups = replicate max_size blank_dup,
          th_freelist = 1, th_entries = entries, th_world = world\<rparr>)"

definition pj_timer_heap_set_max_timed_out_per_poll :: "u32 \<Rightarrow> 'x timer_heap \<Rightarrow> u32 \<times> 'x timer_heap" where
  "pj_timer_heap_set_max_timed_out_per_poll count ht = (th_max_per_poll ht, ht\<lparr>th_max_per_poll := count\<rparr>)"

definition pj_timer_entry_init :: "nat \<Rightarrow> int \<Rightarrow> nat \<Rightarrow> nat \<Rightarrow> 'x timer_heap \<Rightarrow> 'x timer_heap" where
  "pj_timer_entry_init e i user_data cb =
     upd_entry e (\<lambda>_. \<lparr>te_user_data = user_data, te_id = i, te_cb = cb, te_timer_id = -1\<rparr>)"

definition pj_timer_entry_running :: "timer_entry \<Rightarrow> bool" where
  "pj_timer_entry_running t \<longleftrightarrow> te_timer_id t \<ge> 1"

definition tick :: "'x timer_env \<Rightarrow> 'x timer_heap \<Rightarrow> time_val \<times> 'x timer_heap" where
  "tick E ht = (let (now, w) = env_tick E (th_world ht) in (now, ht\<lparr>th_world := w\<rparr>))"

definition upd_world :: "('x \<Rightarrow> 'x) \<Rightarrow> 'x timer_heap \<Rightarrow> 'x timer_heap" where
  "upd_world f ht = ht\<lparr>th_world := f (th_world ht)\<rparr>"

text \<open>The id the entry gets, if one is given, and the group lock.\<close>

definition schedule_w_grp_lock ::
  "'x timer_env \<Rightarrow> nat \<Rightarrow> time_val \<Rightarrow> int option \<Rightarrow> nat option \<Rightarrow> 'x timer_heap \<Rightarrow> pj_status \<times> 'x timer_heap" where
  "schedule_w_grp_lock E e delay id_val grp_lock ht =
     (if te_cb (th_entries ht e) = 0 then (PJ_EINVAL, ht)
      else let (now, ht) = tick E ht;
               expires = tv_add now delay
      in if pj_timer_entry_running (th_entries ht e) then (PJ_EINVALIDOP, ht)
         else let (status, ht) = schedule_entry e expires ht
         in if status \<noteq> PJ_SUCCESS then (status, ht)
            else let node = nat (te_timer_id (th_entries ht e));
                     ht = (case id_val of None \<Rightarrow> ht
                           | Some i \<Rightarrow> upd_dup node (\<lambda>d. d\<lparr>td_dup := (td_dup d)\<lparr>te_id := i\<rparr>\<rparr>)
                                        (upd_entry e (\<lambda>t. t\<lparr>te_id := i\<rparr>) ht));
                     ht = upd_dup node (\<lambda>d. d\<lparr>td_grp_lock := grp_lock\<rparr>) ht
                 in (status, case grp_lock of None \<Rightarrow> ht | Some l \<Rightarrow> upd_world (env_add_ref E l) ht))"

definition pj_timer_heap_schedule ::
  "'x timer_env \<Rightarrow> nat \<Rightarrow> time_val \<Rightarrow> 'x timer_heap \<Rightarrow> pj_status \<times> 'x timer_heap" where
  "pj_timer_heap_schedule E e delay = schedule_w_grp_lock E e delay None None"

definition pj_timer_heap_schedule_w_grp_lock ::
  "'x timer_env \<Rightarrow> nat \<Rightarrow> time_val \<Rightarrow> int \<Rightarrow> nat option \<Rightarrow> 'x timer_heap \<Rightarrow> pj_status \<times> 'x timer_heap" where
  "pj_timer_heap_schedule_w_grp_lock E e delay id_val lock = schedule_w_grp_lock E e delay (Some id_val) lock"

text \<open>
  The copy whose group lock \<^verbatim>\<open>cancel_timer\<close> reads is indexed by the timer id of the entry, which is -1 for an
  entry that is not running: a read before the array, whose value is not used.
\<close>

definition lock_of :: "'x timer_heap \<Rightarrow> nat \<Rightarrow> nat option" where
  "lock_of ht e =
     (let i = te_timer_id (th_entries ht e)
      in if 0 \<le> i \<and> nat i < length (th_dups ht) then td_grp_lock (th_dups ht ! nat i) else None)"

definition cancel_timer :: "'x timer_env \<Rightarrow> nat \<Rightarrow> int option \<Rightarrow> 'x timer_heap \<Rightarrow> int \<times> 'x timer_heap" where
  "cancel_timer E e id_val ht =
     (let grp_lock = lock_of ht e;
          (count, ht) = cancel_entry e ht
      in if count > 0 then
           let ht = (case id_val of None \<Rightarrow> ht | Some i \<Rightarrow> upd_entry e (\<lambda>t. t\<lparr>te_id := i\<rparr>) ht)
           in (count, case grp_lock of None \<Rightarrow> ht | Some l \<Rightarrow> upd_world (env_dec_ref E l) ht)
         else (count, ht))"

definition pj_timer_heap_cancel :: "'x timer_env \<Rightarrow> nat \<Rightarrow> 'x timer_heap \<Rightarrow> int \<times> 'x timer_heap" where
  "pj_timer_heap_cancel E e = cancel_timer E e None"

definition pj_timer_heap_cancel_if_active ::
  "'x timer_env \<Rightarrow> nat \<Rightarrow> int \<Rightarrow> 'x timer_heap \<Rightarrow> int \<times> 'x timer_heap" where
  "pj_timer_heap_cancel_if_active E e id_val = cancel_timer E e (Some id_val)"

text \<open>
  One round of the loop of \<^verbatim>\<open>pj_timer_heap_poll\<close>: the entry removed and what its callback does. An entry whose callback
  or user data has changed is not called.
\<close>

definition fire_root :: "'x timer_env \<Rightarrow> 'x timer_heap \<Rightarrow> 'x timer_heap" where
  "fire_root E ht =
     (let (node, ht) = remove_node 0 ht;
          d = th_dups ht ! node;
          e = td_entry d;
          ht = upd_dup node (\<lambda>d. d\<lparr>td_grp_lock := None\<rparr>) ht;
          valid = (te_cb (td_dup d) = te_cb (th_entries ht e) \<and> te_user_data (td_dup d) = te_user_data (th_entries ht e));
          ht = (if valid \<and> te_cb (th_entries ht e) \<noteq> 0 then env_callback E (te_cb (th_entries ht e)) e ht else ht)
      in if valid then (case td_grp_lock d of None \<Rightarrow> ht | Some l \<Rightarrow> upd_world (env_dec_ref E l) ht) else ht)"

lemma u32_limit: "unat (w :: u32) < 4294967296"
  using unsigned_less [where 'a = nat, of w] by simp

definition root_time :: "'x timer_heap \<Rightarrow> time_val" where
  "root_time ht = node_value ht (th_heap ht ! 0)"

text \<open>
  The loop, with the local variables \<^verbatim>\<open>count\<close>, \<^verbatim>\<open>now\<close> and \<^verbatim>\<open>min_time_node\<close>. It ends, since \<^verbatim>\<open>count\<close> grows and stays below an
  unsigned limit.
\<close>

function poll_loop ::
  "'x timer_env \<Rightarrow> nat \<Rightarrow> time_val \<Rightarrow> time_val \<Rightarrow> 'x timer_heap \<Rightarrow> (nat \<times> time_val) \<times> 'x timer_heap" where
  "poll_loop E count now min_time ht =
     (if th_cur_size ht \<noteq> 0 \<and> tv_lte min_time now \<and> count < unat (th_max_per_poll ht) then
        let ht = fire_root E ht
        in if th_cur_size ht \<noteq> 0
           then let min_time = root_time ht; (now, ht) = tick E ht in poll_loop E (count + 1) now min_time ht
           else poll_loop E (count + 1) now min_time ht
      else ((count, now), ht))"
  by pat_completeness auto
termination
proof (relation "measure (\<lambda>(E, count, now, min_time, ht). 2 ^ 32 - count)", goal_cases)
  case (2 E count now min_time ht ht')
  then show ?case using u32_limit [of "th_max_per_poll ht"] by auto
next
  case (3 E count now min_time ht ht')
  then show ?case using u32_limit [of "th_max_per_poll ht"] by auto
qed simp

declare poll_loop.simps [simp del]

text \<open>The number of timers that expired, and the delay until the next one, if the caller wants it.\<close>

definition next_delay :: "'x timer_env \<Rightarrow> nat \<Rightarrow> time_val \<Rightarrow> 'x timer_heap \<Rightarrow> time_val \<times> 'x timer_heap" where
  "next_delay E count now ht =
     (if th_cur_size ht = 0 then (\<lparr>tv_sec = PJ_MAXINT32, tv_msec = PJ_MAXINT32\<rparr>, ht)
      else let first = root_time ht;
               (now, ht) = (if count > 0 then tick E ht else (now, ht));
               d = tv_sub first now
      in (if tv_sec d < 0 \<or> tv_msec d < 0 then \<lparr>tv_sec = 0, tv_msec = 0\<rparr> else d, ht))"

definition pj_timer_heap_poll ::
  "'x timer_env \<Rightarrow> bool \<Rightarrow> 'x timer_heap \<Rightarrow> (nat \<times> time_val option) \<times> 'x timer_heap" where
  "pj_timer_heap_poll E want_delay ht =
     (if th_cur_size ht = 0 \<and> want_delay
      then ((0, Some \<lparr>tv_sec = PJ_MAXINT32, tv_msec = PJ_MAXINT32\<rparr>), ht)
      else let (now, ht) = tick E ht;
               ((count, now), ht) =
                 poll_loop E 0 now (if th_cur_size ht \<noteq> 0 then root_time ht else \<lparr>tv_sec = 0, tv_msec = 0\<rparr>) ht
      in if want_delay then let (d, ht) = next_delay E count now ht in ((count, Some d), ht)
         else ((count, None), ht))"

definition pj_timer_heap_count :: "'x timer_heap \<Rightarrow> nat" where
  "pj_timer_heap_count ht = th_cur_size ht"

definition pj_timer_heap_earliest_time :: "'x timer_heap \<Rightarrow> pj_status \<times> time_val option" where
  "pj_timer_heap_earliest_time ht =
     (if th_cur_size ht = 0 then (PJ_ENOTFOUND, None) else (PJ_SUCCESS, Some (root_time ht)))"

end
