(* ===== verification/Timer_Order.thy ===== *)
theory Timer_Order
  imports Pj_Timer "HOL-Library.Multiset" "HOL-Library.Product_Lexorder"
begin

text \<open>
  The order of the timer heap: moving a node up or down its path restores the heap order, keeps the nodes, and
  keeps the array of slots in step.
\<close>

section \<open>Times as pairs\<close>

definition key :: "time_val \<Rightarrow> int \<times> int" where
  "key t = (tv_sec t, tv_msec t)"

lemma tv_key:
  "tv_gt s t \<longleftrightarrow> key t < key s" "tv_gte s t \<longleftrightarrow> key t \<le> key s" "tv_lt s t \<longleftrightarrow> key s < key t" "tv_lte s t \<longleftrightarrow> key s \<le> key t"
  by (auto simp: tv_gt_def tv_gte_def tv_lt_def tv_lte_def key_def)

abbreviation nkey :: "'x timer_heap \<Rightarrow> nat \<Rightarrow> int \<times> int" where
  "nkey ht n \<equiv> key (node_value ht n)"

section \<open>Heap order on a list\<close>

text \<open>\<open>v\<close> is the key of a node; the first \<open>N\<close> nodes of \<open>L\<close> are in use.\<close>

definition ordered :: "(nat \<Rightarrow> 'k :: linorder) \<Rightarrow> nat \<Rightarrow> nat list \<Rightarrow> bool" where
  "ordered v N L \<longleftrightarrow> (\<forall>i < N. 0 < i \<longrightarrow> v (L ! heap_parent i) \<le> v (L ! i))"

text \<open>Ordered but for the slot \<open>s\<close>, whose node may be too small, or too great.\<close>

definition up_ok :: "(nat \<Rightarrow> 'k :: linorder) \<Rightarrow> nat \<Rightarrow> nat list \<Rightarrow> nat \<Rightarrow> bool" where
  "up_ok v N L s \<longleftrightarrow> (\<forall>i < N. 0 < i \<longrightarrow> i \<noteq> s \<longrightarrow> v (L ! heap_parent i) \<le> v (L ! i))
     \<and> (\<forall>i < N. 0 < i \<longrightarrow> heap_parent i = s \<longrightarrow> v (L ! heap_parent s) \<le> v (L ! i))"

definition down_ok :: "(nat \<Rightarrow> 'k :: linorder) \<Rightarrow> nat \<Rightarrow> nat list \<Rightarrow> nat \<Rightarrow> bool" where
  "down_ok v N L s \<longleftrightarrow> (\<forall>i < N. 0 < i \<longrightarrow> heap_parent i \<noteq> s \<longrightarrow> v (L ! heap_parent i) \<le> v (L ! i))
     \<and> (0 < s \<longrightarrow> (\<forall>i < N. 0 < i \<longrightarrow> heap_parent i = s \<longrightarrow> v (L ! heap_parent s) \<le> v (L ! i)))"

abbreviation swap :: "'a list \<Rightarrow> nat \<Rightarrow> nat \<Rightarrow> 'a list" where
  "swap L i j \<equiv> L[i := L ! j, j := L ! i]"

lemma heap_parent_less: "0 < i \<Longrightarrow> heap_parent i < i"
  by (simp add: heap_parent_def)

lemma heap_parent_iff: "0 < i \<Longrightarrow> heap_parent i = s \<longleftrightarrow> i = heap_left s \<or> i = heap_left s + 1"
  by (simp add: heap_parent_def heap_left_def) presburger

lemma heap_parent_neq: "0 < i \<Longrightarrow> heap_parent i \<noteq> i"
  using heap_parent_less [of i] by simp

lemma up_ok_swap:
  assumes "up_ok v N L s" "0 < s" "s < N" "N \<le> length L" "v (L ! s) < v (L ! heap_parent s)"
  shows "up_ok v N (swap L s (heap_parent s)) (heap_parent s)"
proof -
  let ?p = "heap_parent s" and ?M = "swap L s (heap_parent s)"
  have p: "?p < s" "?p < length L" "s < length L" using assms(2-4) heap_parent_less [of s] by auto
  have M: "?M ! i = (if i = ?p then L ! s else if i = s then L ! ?p else L ! i)" for i
    using p by (auto simp: nth_list_update)
  have 1: "v (L ! heap_parent i) \<le> v (L ! i)" if "i < N" "0 < i" "i \<noteq> s" for i
    using assms(1) that by (simp add: up_ok_def)
  have 2: "v (L ! ?p) \<le> v (L ! i)" if "i < N" "0 < i" "heap_parent i = s" for i
    using assms(1) that by (simp add: up_ok_def)
  have first: "v (?M ! heap_parent i) \<le> v (?M ! i)" if i: "i < N" "0 < i" "i \<noteq> ?p" for i
  proof (cases "i = s")
    case True
    then show ?thesis using assms(5) p by (simp add: M less_imp_le)
  next
    case False
    then show ?thesis using 1 [OF i(1,2)] 2 [OF i(1,2)] i assms(5) by (auto simp: M intro: order_trans less_imp_le)
  qed
  have "v (?M ! heap_parent ?p) \<le> v (?M ! i)" if i: "i < N" "0 < i" "heap_parent i = ?p" for i
  proof (cases "?p = 0")
    case True
    then have "heap_parent ?p = ?p" by (simp add: heap_parent_def)
    moreover have "i \<noteq> ?p" using i(2) True by simp
    ultimately show ?thesis using first [OF i(1,2)] i(3) by simp
  next
    case False
    then have pp: "heap_parent ?p < ?p" by (simp add: heap_parent_less)
    have a: "v (L ! heap_parent ?p) \<le> v (L ! ?p)" using 1 [of ?p] False p assms(3) by simp
    have "i \<noteq> ?p" using i(2,3) False heap_parent_less [of ?p] by auto
    moreover have "v (L ! ?p) \<le> v (L ! i)" if "i \<noteq> s" using 1 [OF i(1,2) that] i(3) by simp
    ultimately show ?thesis using a pp p by (auto simp: M intro: order_trans)
  qed
  then show ?thesis using first by (auto simp: up_ok_def)
qed

lemma up_ok_done:
  assumes "up_ok v N L s" "s = 0 \<or> v (L ! heap_parent s) \<le> v (L ! s)"
  shows "ordered v N L"
  using assms by (auto simp: up_ok_def ordered_def)

lemma down_ok_swap:
  assumes "down_ok v N L s" "c < N" "0 < c" "heap_parent c = s" "N \<le> length L" "v (L ! c) < v (L ! s)"
    "\<And>i. i < N \<Longrightarrow> 0 < i \<Longrightarrow> heap_parent i = s \<Longrightarrow> v (L ! c) \<le> v (L ! i)"
  shows "down_ok v N (swap L s c) c"
proof -
  let ?M = "swap L s c"
  have c: "s < c" "c < length L" "s < length L" using assms(2-5) heap_parent_less [of c] by auto
  have M: "?M ! i = (if i = c then L ! s else if i = s then L ! c else L ! i)" for i
    using c by (auto simp: nth_list_update)
  have 1: "v (L ! heap_parent i) \<le> v (L ! i)" if "i < N" "0 < i" "heap_parent i \<noteq> s" for i
    using assms(1) that by (simp add: down_ok_def)
  have 2: "v (L ! heap_parent s) \<le> v (L ! c)" if "0 < s" using assms(1-4) that by (simp add: down_ok_def)
  have "v (?M ! heap_parent i) \<le> v (?M ! i)" if i: "i < N" "0 < i" "heap_parent i \<noteq> c" for i
  proof (cases "heap_parent i = s")
    case True
    have "i \<noteq> s" using heap_parent_neq [OF i(2)] True by simp
    then show ?thesis using assms(6,7) i True c by (auto simp: M less_imp_le)
  next
    case False
    then show ?thesis using 1 [OF i(1,2)] 2 i c assms(4) by (auto simp: M)
  qed
  moreover have "v (?M ! heap_parent c) \<le> v (?M ! i)" if i: "i < N" "0 < i" "heap_parent i = c" for i
  proof -
    have "i \<noteq> c" "i \<noteq> s" using i(2,3) c heap_parent_less [of i] by auto
    then show ?thesis using 1 [OF i(1,2)] i(3) c assms(4) by (simp add: M)
  qed
  ultimately show ?thesis by (auto simp: down_ok_def)
qed

lemma down_ok_done:
  assumes "down_ok v N L s" "\<And>i. i < N \<Longrightarrow> 0 < i \<Longrightarrow> heap_parent i = s \<Longrightarrow> v (L ! s) \<le> v (L ! i)"
  shows "ordered v N L"
  unfolding ordered_def
proof (intro allI impI)
  fix i assume "i < N" "0 < i"
  then show "v (L ! heap_parent i) \<le> v (L ! i)"
    using assms by (cases "heap_parent i = s") (auto simp: down_ok_def)
qed

lemma ordered_root:
  assumes "ordered v N L"
  shows "i < N \<Longrightarrow> v (L ! 0) \<le> v (L ! i)"
proof (induction i rule: less_induct)
  case (less i)
  show ?case
  proof (cases "i = 0")
    case False
    then have "v (L ! 0) \<le> v (L ! heap_parent i)" using less heap_parent_less [of i] by simp
    also have "\<dots> \<le> v (L ! i)" using assms less.prems False by (simp add: ordered_def)
    finally show ?thesis .
  qed simp
qed

end
