(* ===== verification/Timer_Laws.thy ===== *)
theory Timer_Laws
  imports Timer_Order
begin

text \<open>
  The nodes of the timer heap and the array of their slots, what restoring the order does to them, the list of free
  ids, and the invariant of the heap, which every operation keeps.
\<close>

section \<open>Nodes and slots\<close>

definition node_ok :: "'x timer_heap \<Rightarrow> nat \<Rightarrow> bool" where
  "node_ok ht n \<longleftrightarrow> n < length (th_heap ht) \<and> dup_id ht n = int n"

definition linked :: "nat \<Rightarrow> 'x timer_heap \<Rightarrow> bool" where
  "linked N ht \<longleftrightarrow> N \<le> length (th_heap ht) \<and> length (th_ids ht) = length (th_heap ht)
     \<and> (\<forall>i < N. node_ok ht (th_heap ht ! i) \<and> th_ids ht ! (th_heap ht ! i) = int i)"

text \<open>The same, but for the slot \<open>s\<close>, which the node \<open>m\<close> is about to fill.\<close>

definition linked_but :: "nat \<Rightarrow> nat \<Rightarrow> nat \<Rightarrow> 'x timer_heap \<Rightarrow> bool" where
  "linked_but N m s ht \<longleftrightarrow> s < N \<and> N \<le> length (th_heap ht) \<and> length (th_ids ht) = length (th_heap ht) \<and> node_ok ht m
     \<and> (\<forall>i < N. i \<noteq> s \<longrightarrow> node_ok ht (th_heap ht ! i) \<and> th_ids ht ! (th_heap ht ! i) = int i \<and> m \<noteq> th_heap ht ! i)"

lemma copied:
  "th_heap (copy_node s n ht) = (th_heap ht)[s := n]"
  "th_ids (copy_node s n ht) = (th_ids ht)[nat (dup_id ht n) := int s]"
  "node_ok (copy_node s n ht) k = node_ok ht k"
  by (simp_all add: node_ok_def copy_node_def dup_id_def)

lemma linked_inj: "linked N ht \<Longrightarrow> i < N \<Longrightarrow> j < N \<Longrightarrow> th_heap ht ! i = th_heap ht ! j \<Longrightarrow> i = j"
  by (metis linked_def of_nat_eq_iff)

lemma linked_distinct:
  assumes "linked N ht"
  shows "distinct (take N (th_heap ht))"
  using linked_inj [OF assms] assms by (auto simp: distinct_conv_nth linked_def)

lemma linked_but_inj:
  "linked_but N m s ht \<Longrightarrow> i < N \<Longrightarrow> j < N \<Longrightarrow> i \<noteq> s \<Longrightarrow> j \<noteq> s \<Longrightarrow> th_heap ht ! i = th_heap ht ! j \<Longrightarrow> i = j"
  by (metis linked_but_def of_nat_eq_iff)

lemma linked_but_move:
  assumes "linked_but N m s ht" "p < N" "p \<noteq> s"
  shows "linked_but N m p (copy_node s (th_heap ht ! p) ht)"
proof -
  note l = assms(1) [unfolded linked_but_def]
  let ?ht = "copy_node s (th_heap ht ! p) ht"
  have p: "th_heap ht ! p < length (th_heap ht)" "dup_id ht (th_heap ht ! p) = int (th_heap ht ! p)"
    using l assms(2,3) by (auto simp: node_ok_def)
  have "node_ok ht (th_heap ?ht ! i) \<and> th_ids ?ht ! (th_heap ?ht ! i) = int i \<and> m \<noteq> th_heap ?ht ! i"
    if i: "i < N" "i \<noteq> p" for i
  proof (cases "i = s")
    case True
    then show ?thesis using l p assms(2,3) by (simp add: copied)
  next
    case False
    then have "th_heap ht ! i \<noteq> th_heap ht ! p" using linked_but_inj [OF assms(1) i(1) assms(2) False assms(3)] i(2) by auto
    then show ?thesis using l p i False by (simp add: copied)
  qed
  then show ?thesis using l assms(2) by (simp add: linked_but_def copied)
qed

lemma linked_fill:
  assumes "linked_but N m s ht"
  shows "linked N (copy_node s m ht)"
proof -
  note l = assms [unfolded linked_but_def]
  have m: "m < length (th_heap ht)" "dup_id ht m = int m" using l by (auto simp: node_ok_def)
  have "node_ok ht (th_heap (copy_node s m ht) ! i) \<and> th_ids (copy_node s m ht) ! (th_heap (copy_node s m ht) ! i) = int i"
    if "i < N" for i
    using l m that by (cases "i = s") (simp_all add: copied nth_list_update)
  then show ?thesis using l by (simp add: linked_def copied)
qed

section \<open>Restoring the order\<close>

definition rearranged :: "nat \<Rightarrow> nat list \<Rightarrow> 'x timer_heap \<Rightarrow> 'x timer_heap \<Rightarrow> bool" where
  "rearranged N L ht ht' \<longleftrightarrow>
     ht' = ht\<lparr>th_heap := th_heap ht', th_ids := th_ids ht'\<rparr> \<and> length (th_heap ht') = length (th_heap ht)
     \<and> linked N ht' \<and> ordered (nkey ht) N (th_heap ht') \<and> mset (take N (th_heap ht')) = mset (take N L)
     \<and> (\<forall>j. j \<notin> set (take N L) \<longrightarrow> th_ids ht' ! j = th_ids ht ! j)"

lemma filled:
  assumes "linked_but N m s ht" "ordered (nkey ht) N ((th_heap ht)[s := m])"
  shows "rearranged N ((th_heap ht)[s := m]) ht (copy_node s m ht)"
proof -
  have m: "dup_id ht m = int m" "s < N" "N \<le> length (th_heap ht)" using assms(1) by (auto simp: linked_but_def node_ok_def)
  then have "m \<in> set (take N ((th_heap ht)[s := m]))" by (metis length_take list_update_beyond min.absorb2 set_update_memI take_update_swap)
  then show ?thesis
    using linked_fill [OF assms(1)] assms(2) m
    by (simp add: rearranged_def copied) (metis copy_node_def m(1) nat_int nth_list_update_neq)
qed

lemma mset_take_swap:
  assumes "i < N" "j < N" "N \<le> length L"
  shows "mset (take N (swap L i j)) = mset (take N L)" "set (take N (swap L i j)) = set (take N L)"
proof -
  have "take N (swap L i j) = swap (take N L) i j" using assms by (simp add: take_update_swap)
  then show "mset (take N (swap L i j)) = mset (take N L)" using assms mset_swap [of j "take N L" i] by simp
  then show "set (take N (swap L i j)) = set (take N L)" by (rule mset_eq_setD)
qed

lemma moved:
  assumes "linked_but N m s ht" "p < N" "p \<noteq> s" "L = (th_heap ht)[s := m]" "ht' = copy_node s (th_heap ht ! p) ht"
  shows "(th_heap ht')[p := m] = swap L s p" "linked_but N m p ht'" "nkey ht' = nkey ht"
    "rearranged N ((th_heap ht')[p := m]) ht' ht'' \<Longrightarrow> rearranged N L ht ht''"
proof -
  note l = assms(1) [unfolded linked_but_def]
  have p: "dup_id ht (th_heap ht ! p) = int (th_heap ht ! p)" using l assms(2,3) by (auto simp: node_ok_def)
  show L: "(th_heap ht')[p := m] = swap L s p" using l assms(2,3) by (simp add: assms(4,5) copied)
  show "linked_but N m p ht'" unfolding assms(5) by (rule linked_but_move [OF assms(1-3)])
  show key: "nkey ht' = nkey ht" by (simp add: assms(5) node_value_def)
  note same = mset_take_swap [of s N p L]
  have "take N L ! p \<in> set (take N L)" by (rule nth_mem) (use l assms(2,4) in simp)
  then have in_L: "th_heap ht ! p \<in> set (take N L)" using assms(2-4) by simp
  assume r: "rearranged N ((th_heap ht')[p := m]) ht' ht''"
  have "ht'' = ht'\<lparr>th_heap := th_heap ht'', th_ids := th_ids ht''\<rparr>" using r unfolding rearranged_def by (elim conjE)
  also have "\<dots> = ht\<lparr>th_heap := th_heap ht'', th_ids := th_ids ht''\<rparr>" by (simp add: assms(5) copy_node_def)
  finally have frame: "ht'' = ht\<lparr>th_heap := th_heap ht'', th_ids := th_ids ht''\<rparr>" .
  have nodes: "mset (take N (th_heap ht'')) = mset (take N L)" using r same(1) l assms(2,4) by (simp add: rearranged_def L)
  have "th_ids ht'' ! j = th_ids ht ! j" if "j \<notin> set (take N L)" for j
  proof -
    have "th_ids ht'' ! j = th_ids ht' ! j" using r that same(2) l assms(2,4) by (simp add: rearranged_def L)
    moreover have "j \<noteq> th_heap ht ! p" using that in_L by auto
    ultimately show ?thesis using p by (simp add: assms(5) copy_node_def)
  qed
  then show "rearranged N L ht ht''"
    unfolding rearranged_def
    by (intro conjI frame nodes allI impI) (use r key in \<open>simp_all add: rearranged_def assms(5) copied\<close>)
qed

lemma reheap_up_spec:
  "linked_but N m s ht \<Longrightarrow> up_ok (nkey ht) N ((th_heap ht)[s := m]) s \<Longrightarrow>
   rearranged N ((th_heap ht)[s := m]) ht (reheap_up m s ht)"
proof (induction m s ht rule: reheap_up.induct)
  case (1 m s ht)
  let ?p = "heap_parent s" and ?L = "(th_heap ht)[s := m]"
  note l = "1.prems"(1) [unfolded linked_but_def]
  have s: "?L ! s = m" using l by simp
  show ?case
  proof (cases "0 < s \<and> nkey ht m < nkey ht (th_heap ht ! ?p)")
    case True
    then have p: "?p < N" "?p \<noteq> s" "?L ! ?p = th_heap ht ! ?p" using l heap_parent_less [of s] by auto
    note m = moved [OF "1.prems"(1) p(1,2) refl refl]
    have "up_ok (nkey ht) N (swap ?L s ?p) ?p"
      by (rule up_ok_swap [OF "1.prems"(2)]) (use True p s l in auto)
    then have "rearranged N ((th_heap (copy_node s (th_heap ht ! ?p) ht))[?p := m]) (copy_node s (th_heap ht ! ?p) ht)
        (reheap_up m ?p (copy_node s (th_heap ht ! ?p) ht))"
      using True by (intro "1.IH") (simp_all only: m tv_key simp_thms)
    from m(4) [OF this] show ?thesis using True by (subst reheap_up.simps) (simp add: tv_key)
  next
    case False
    have "ordered (nkey ht) N ?L"
      by (rule up_ok_done [OF "1.prems"(2)]) (use False s heap_parent_neq [of s] in \<open>cases "s = 0", simp_all add: not_less\<close>)
    then show ?thesis using filled [OF "1.prems"(1)] False by (subst reheap_up.simps) (auto simp: tv_key)
  qed
qed

lemma smaller_child_spec:
  assumes "heap_left s < th_cur_size ht"
  shows "smaller_child ht (heap_left s) < th_cur_size ht" "heap_parent (smaller_child ht (heap_left s)) = s"
    "0 < smaller_child ht (heap_left s)"
    "i < th_cur_size ht \<Longrightarrow> 0 < i \<Longrightarrow> heap_parent i = s \<Longrightarrow>
      nkey ht (th_heap ht ! smaller_child ht (heap_left s)) \<le> nkey ht (th_heap ht ! i)"
proof -
  show pos: "0 < smaller_child ht (heap_left s)" by (simp add: smaller_child_def heap_left_def)
  show "smaller_child ht (heap_left s) < th_cur_size ht" using assms by (simp add: smaller_child_def)
  show "heap_parent (smaller_child ht (heap_left s)) = s"
    by (simp add: heap_parent_iff [OF pos]) (simp add: smaller_child_def)
  assume "i < th_cur_size ht" "0 < i" "heap_parent i = s"
  then show "nkey ht (th_heap ht ! smaller_child ht (heap_left s)) \<le> nkey ht (th_heap ht ! i)"
    by (auto simp: smaller_child_def heap_parent_iff tv_key)
qed

lemma reheap_down_spec:
  "linked_but (th_cur_size ht) m s ht \<Longrightarrow> down_ok (nkey ht) (th_cur_size ht) ((th_heap ht)[s := m]) s \<Longrightarrow>
   rearranged (th_cur_size ht) ((th_heap ht)[s := m]) ht (reheap_down m s ht)"
proof (induction m s ht rule: reheap_down.induct)
  case (1 m s ht)
  let ?N = "th_cur_size ht" and ?L = "(th_heap ht)[s := m]" and ?c = "smaller_child ht (heap_left s)"
  note l = "1.prems"(1) [unfolded linked_but_def]
  have s: "?L ! s = m" using l by simp
  have other: "?L ! i = th_heap ht ! i" if "0 < i" "heap_parent i = s" for i using heap_parent_neq [OF that(1)] that(2) by auto
  have stay: "rearranged ?N ?L ht (copy_node s m ht)"
    if "\<And>i. i < ?N \<Longrightarrow> 0 < i \<Longrightarrow> heap_parent i = s \<Longrightarrow> nkey ht m \<le> nkey ht (th_heap ht ! i)"
    using that by (intro filled "1.prems"(1) down_ok_done [OF "1.prems"(2)]) (simp add: s other)
  show ?case
  proof (cases "heap_left s < ?N")
    case left: True
    note c = smaller_child_spec [OF left]
    show ?thesis
    proof (cases "nkey ht (th_heap ht ! ?c) < nkey ht m")
      case True
      have cs: "?c \<noteq> s" using heap_parent_neq [OF c(3)] c(2) by simp
      note m = moved [OF "1.prems"(1) c(1) cs refl refl]
      have "down_ok (nkey ht) ?N (swap ?L s ?c) ?c"
        by (rule down_ok_swap [OF "1.prems"(2) c(1) c(3) c(2)]) (use True l c(4) in \<open>simp_all add: s other c\<close>)
      then have "rearranged ?N ((th_heap (copy_node s (th_heap ht ! ?c) ht))[?c := m]) (copy_node s (th_heap ht ! ?c) ht)
          (reheap_down m ?c (copy_node s (th_heap ht ! ?c) ht))"
        using "1.IH" [OF left refl] m(2) True by (simp only: m copy_node_sizes tv_key simp_thms)
      from m(4) [OF this] show ?thesis using True left by (subst reheap_down.simps) (simp add: tv_key Let_def)
    next
      case False
      then have "nkey ht m \<le> nkey ht (th_heap ht ! i)" if "i < ?N" "0 < i" "heap_parent i = s" for i
        using c(4) [OF that] by simp
      then have "rearranged ?N ?L ht (copy_node s m ht)" by (rule stay)
      then show ?thesis using False left by (subst reheap_down.simps) (simp add: tv_key Let_def)
    qed
  next
    case False
    then have "rearranged ?N ?L ht (copy_node s m ht)" by (intro stay) (auto simp: heap_parent_iff)
    then show ?thesis using False by (subst reheap_down.simps) simp
  qed
qed

end
