(* ===== verification/Timer_Inv.thy ===== *)
theory Timer_Inv
  imports Timer_Laws
begin

text \<open>
  The invariant of the timer heap, and inserting and removing a node in terms of the timers that are pending.
\<close>

section \<open>The invariant\<close>

definition nodes :: "'x timer_heap \<Rightarrow> nat set" where
  "nodes ht = set (take (th_cur_size ht) (th_heap ht))"

abbreviation node_entry :: "'x timer_heap \<Rightarrow> nat \<Rightarrow> nat" where
  "node_entry ht n \<equiv> td_entry (th_dups ht ! n)"

abbreviation timer_id :: "'x timer_heap \<Rightarrow> nat \<Rightarrow> int" where
  "timer_id ht e \<equiv> te_timer_id (th_entries ht e)"

text \<open>The list of free ids, which starts at \<open>f\<close> and ends at \<open>z\<close>.\<close>

fun chain :: "int list \<Rightarrow> int \<Rightarrow> nat list \<Rightarrow> nat \<Rightarrow> bool" where
  "chain ids f [] z \<longleftrightarrow> f = int z"
| "chain ids f (n # ns) z \<longleftrightarrow> f = int n \<and> chain ids (- (ids ! n)) ns z"

text \<open>The ids in \<open>R\<close> are neither free nor in use.\<close>

definition core :: "nat set \<Rightarrow> 'x timer_heap \<Rightarrow> bool" where
  "core R ht \<longleftrightarrow> length (th_heap ht) = th_max_size ht \<and> length (th_dups ht) = th_max_size ht
     \<and> linked (th_cur_size ht) ht \<and> ordered (nkey ht) (th_cur_size ht) (th_heap ht) \<and> 0 \<notin> nodes ht
     \<and> (\<exists>free. chain (th_ids ht) (th_freelist ht) free (th_max_size ht) \<and> distinct free
          \<and> set free = {1..<th_max_size ht} - nodes ht - R)
     \<and> (\<forall>n \<in> nodes ht. timer_id ht (node_entry ht n) = int n)"

definition timers_ok :: "'x timer_heap \<Rightarrow> bool" where
  "timers_ok ht \<longleftrightarrow> core {} ht \<and> th_cur_size ht + 2 \<le> th_max_size ht
     \<and> (\<forall>e. pj_timer_entry_running (th_entries ht e) \<longrightarrow> e \<in> node_entry ht ` nodes ht)"

text \<open>The timers that are pending: the time and the group lock of each entry.\<close>

definition pending :: "'x timer_heap \<Rightarrow> nat \<rightharpoonup> time_val \<times> nat option" where
  "pending ht = map_of (map (\<lambda>n. (node_entry ht n, node_value ht n, td_grp_lock (th_dups ht ! n)))
                         (take (th_cur_size ht) (th_heap ht)))"

lemma chain_cong: "\<forall>n \<in> set ns. ids ! n = ids' ! n \<Longrightarrow> chain ids f ns z = chain ids' f ns z"
  by (induction ns arbitrary: f) auto

lemma chain_append: "chain ids f ns m \<Longrightarrow> chain ids (int m) ms z \<Longrightarrow> chain ids f (ns @ ms) z"
  by (induction ns arbitrary: f) auto

lemma chain_upt: "\<forall>i. lo \<le> i \<and> i < hi \<longrightarrow> ids ! i = - int (i + 1) \<Longrightarrow> lo \<le> hi \<Longrightarrow> chain ids (int lo) [lo..<hi] hi"
proof (induction "hi - lo" arbitrary: lo)
  case (Suc d)
  then have "[lo..<hi] = lo # [Suc lo..<hi]" by (simp add: upt_conv_Cons)
  moreover have "chain ids (int (Suc lo)) [Suc lo..<hi] hi" by (rule Suc.hyps(1)) (use Suc.prems Suc.hyps(2) in auto)
  moreover have "ids ! lo = - int (lo + 1)" using Suc.prems(1) Suc.hyps(2) by auto
  ultimately show ?case by (simp add: add.commute)
qed simp

lemma coreI:
  assumes "length (th_heap ht) = th_max_size ht" "length (th_dups ht) = th_max_size ht" "linked (th_cur_size ht) ht"
    "ordered (nkey ht) (th_cur_size ht) (th_heap ht)" "0 \<notin> nodes ht"
    "chain (th_ids ht) (th_freelist ht) free (th_max_size ht)" "distinct free"
    "set free = {1..<th_max_size ht} - nodes ht - R" "\<forall>n \<in> nodes ht. timer_id ht (node_entry ht n) = int n"
  shows "core R ht"
  using assms unfolding core_def by blast

lemma core_facts:
  assumes "core R ht"
  shows "th_cur_size ht \<le> th_max_size ht" "length (th_ids ht) = th_max_size ht"
    "distinct (take (th_cur_size ht) (th_heap ht))" "n \<in> nodes ht \<Longrightarrow> 1 \<le> n \<and> n < th_max_size ht \<and> dup_id ht n = int n"
proof -
  have l: "linked (th_cur_size ht) ht" and len: "length (th_heap ht) = th_max_size ht" using assms by (simp_all add: core_def)
  show "th_cur_size ht \<le> th_max_size ht" "length (th_ids ht) = th_max_size ht" using l len by (simp_all add: linked_def)
  show "distinct (take (th_cur_size ht) (th_heap ht))" by (rule linked_distinct [OF l])
  assume n: "n \<in> nodes ht"
  then have "n \<noteq> 0" using assms by (auto simp: core_def)
  with n show "1 \<le> n \<and> n < th_max_size ht \<and> dup_id ht n = int n"
    using l len by (auto simp: nodes_def in_set_conv_nth linked_def node_ok_def)
qed

lemma node_entry_inj:
  assumes "core R ht"
  shows "inj_on (node_entry ht) (nodes ht)"
proof (rule inj_onI)
  fix m n assume "m \<in> nodes ht" "n \<in> nodes ht" "node_entry ht m = node_entry ht n"
  then show "m = n" using assms by (metis core_def of_nat_eq_iff)
qed

lemma pending_iff:
  assumes "core R ht"
  shows "pending ht e = Some a \<longleftrightarrow>
    (\<exists>n \<in> nodes ht. node_entry ht n = e \<and> a = (node_value ht n, td_grp_lock (th_dups ht ! n)))"
proof -
  have "distinct (map fst (map (\<lambda>n. (node_entry ht n, node_value ht n, td_grp_lock (th_dups ht ! n)))
      (take (th_cur_size ht) (th_heap ht))))"
    using core_facts(3) [OF assms] node_entry_inj [OF assms] by (simp add: distinct_map comp_def nodes_def)
  from map_of_eq_Some_iff [OF this] show ?thesis unfolding pending_def nodes_def by auto
qed

lemma pending_node:
  "core R ht \<Longrightarrow> n \<in> nodes ht \<Longrightarrow> node_entry ht n = e \<Longrightarrow>
   pending ht e = Some (node_value ht n, td_grp_lock (th_dups ht ! n))"
  by (auto simp: pending_iff)

lemma pending_dom: "core R ht \<Longrightarrow> dom (pending ht) = node_entry ht ` nodes ht"
  by (auto simp: dom_def pending_iff)

lemma timers_core: "timers_ok ht \<Longrightarrow> core {} ht"
  by (simp add: timers_ok_def)

lemma timers_running:
  assumes "timers_ok ht"
  shows "pj_timer_entry_running (th_entries ht e) \<longleftrightarrow> e \<in> dom (pending ht)"
proof
  assume "e \<in> dom (pending ht)"
  moreover have "dom (pending ht) = node_entry ht ` nodes ht" by (rule pending_dom [OF timers_core [OF assms]])
  ultimately obtain n where n: "n \<in> nodes ht" "node_entry ht n = e" by auto
  then have "timer_id ht e = int n" using assms by (auto simp: timers_ok_def core_def)
  then show "pj_timer_entry_running (th_entries ht e)"
    using core_facts(4) [of "{}" ht n] assms n by (auto simp: timers_ok_def pj_timer_entry_running_def)
next
  have "dom (pending ht) = node_entry ht ` nodes ht" by (rule pending_dom [OF timers_core [OF assms]])
  then show "pj_timer_entry_running (th_entries ht e) \<Longrightarrow> e \<in> dom (pending ht)" using assms by (auto simp: timers_ok_def)
qed

section \<open>Operations that only touch other parts\<close>

lemma same_heap:
  assumes "th_heap ht' = th_heap ht" "th_ids ht' = th_ids ht" "th_cur_size ht' = th_cur_size ht"
    "th_max_size ht' = th_max_size ht" "th_freelist ht' = th_freelist ht"
    "length (th_dups ht') = length (th_dups ht)" "\<And>n. dup_id ht' n = dup_id ht n" "\<And>n. node_entry ht' n = node_entry ht n"
    "\<And>n. node_value ht' n = node_value ht n" "\<And>e. timer_id ht' e = timer_id ht e"
  shows "core R ht' = core R ht" "timers_ok ht' = timers_ok ht" "nodes ht' = nodes ht"
    "(\<And>n. td_grp_lock (th_dups ht' ! n) = td_grp_lock (th_dups ht ! n)) \<Longrightarrow> pending ht' = pending ht"
proof -
  have "linked N ht' = linked N ht" for N by (simp add: linked_def node_ok_def assms)
  moreover show n: "nodes ht' = nodes ht" by (simp add: nodes_def assms)
  ultimately show core: "core R ht' = core R ht" for R by (simp add: core_def assms)
  show "timers_ok ht' = timers_ok ht" by (simp add: timers_ok_def core n assms pj_timer_entry_running_def)
  show "pending ht' = pending ht" if "\<And>n. td_grp_lock (th_dups ht' ! n) = td_grp_lock (th_dups ht ! n)"
    by (simp add: pending_def assms that)
qed

section \<open>Removing a node\<close>

text \<open>What \<^verbatim>\<open>remove_node\<close> does before it restores the order.\<close>

definition detach :: "nat \<Rightarrow> 'x timer_heap \<Rightarrow> 'x timer_heap" where
  "detach n ht =
     upd_dup n (\<lambda>d. d\<lparr>td_dup := (td_dup d)\<lparr>te_timer_id := -1\<rparr>\<rparr>)
       (upd_entry (node_entry ht n) (\<lambda>t. t\<lparr>te_timer_id := -1\<rparr>)
         (push_freelist (dup_id ht n) ht\<lparr>th_cur_size := th_cur_size ht - 1\<rparr>))"

lemma kept_in_update: "g (f (xs ! n)) = g (xs ! n) \<Longrightarrow> g (xs[n := f (xs ! n)] ! k) = g (xs ! k)"
  by (cases "n < length xs") (auto simp: nth_list_update list_update_beyond not_less)

lemma detach_fields [simp]:
  "th_cur_size (detach n ht) = th_cur_size ht - 1" "th_max_size (detach n ht) = th_max_size ht"
  "th_heap (detach n ht) = th_heap ht" "th_ids (detach n ht) = (th_ids ht)[nat (dup_id ht n) := - th_freelist ht]"
  "th_freelist (detach n ht) = dup_id ht n" "length (th_dups (detach n ht)) = length (th_dups ht)"
  "th_entries (detach n ht) = (th_entries ht)(node_entry ht n := (th_entries ht (node_entry ht n))\<lparr>te_timer_id := -1\<rparr>)"
  "th_world (detach n ht) = th_world ht" "th_max_per_poll (detach n ht) = th_max_per_poll ht"
  by (simp_all add: detach_def upd_dup_def upd_entry_def push_freelist_def)

lemma detach_dups [simp]:
  "node_value (detach n ht) k = node_value ht k" "node_entry (detach n ht) k = node_entry ht k"
  "td_grp_lock (th_dups (detach n ht) ! k) = td_grp_lock (th_dups ht ! k)"
  "te_cb (td_dup (th_dups (detach n ht) ! k)) = te_cb (td_dup (th_dups ht ! k))"
  "te_user_data (td_dup (th_dups (detach n ht) ! k)) = te_user_data (td_dup (th_dups ht ! k))"
proof -
  let ?f = "\<lambda>d. d\<lparr>td_dup := (td_dup d)\<lparr>te_timer_id := -1\<rparr>\<rparr>"
  have d: "th_dups (detach n ht) = (th_dups ht)[n := ?f (th_dups ht ! n)]"
    by (simp add: detach_def upd_dup_def upd_entry_def push_freelist_def)
  show "node_value (detach n ht) k = node_value ht k" "node_entry (detach n ht) k = node_entry ht k"
    "td_grp_lock (th_dups (detach n ht) ! k) = td_grp_lock (th_dups ht ! k)"
    "te_cb (td_dup (th_dups (detach n ht) ! k)) = te_cb (td_dup (th_dups ht ! k))"
    "te_user_data (td_dup (th_dups (detach n ht) ! k)) = te_user_data (td_dup (th_dups ht ! k))"
    unfolding node_value_def d
    by (rule kept_in_update [where f = ?f], simp)
      (rule kept_in_update [where f = ?f], simp,
       rule kept_in_update [where f = ?f], simp,
       rule kept_in_update [where f = ?f and g = "\<lambda>d. te_cb (td_dup d)"], simp,
       rule kept_in_update [where f = ?f and g = "\<lambda>d. te_user_data (td_dup d)"], simp)
qed

lemma dup_id_detach: "k \<noteq> n \<Longrightarrow> dup_id (detach n ht) k = dup_id ht k"
  by (simp add: detach_def upd_dup_def upd_entry_def push_freelist_def dup_id_def)

lemma remove_node_eq:
  "remove_node slot ht =
     (let n = th_heap ht ! slot; ht1 = detach n ht; moved = th_heap ht ! (th_cur_size ht - 1); ht2 = copy_node slot moved ht1
      in (n, if slot < th_cur_size ht - 1
             then if nkey ht2 (th_heap ht2 ! heap_parent slot) \<le> nkey ht2 moved
                  then reheap_down moved slot ht2 else reheap_up moved slot ht2
             else ht1))"
  by (simp add: remove_node_def Let_def detach_def push_freelist_def tv_key)
     (simp add: upd_dup_def upd_entry_def)

lemma set_take_erase:
  assumes "distinct (take (Suc N) H)" "slot \<le> N" "N < length H"
  shows "set (take N (H[slot := H ! N])) = set (take (Suc N) H) - {H ! slot}"
proof -
  have split: "take (Suc N) H = take N H @ [H ! N]" using assms(3) by (simp add: take_Suc_conv_app_nth)
  show ?thesis
  proof (cases "slot = N")
    case True
    then show ?thesis using assms(1) unfolding split by auto
  next
    case False
    then have "slot < length (take N H)" using assms(2,3) by simp
    from set_update_distinct [OF _ this, of "H ! N"] nth_mem [OF this] show ?thesis
      using assms False unfolding split by (auto simp: take_update_swap)
  qed
qed

text \<open>What is left in place around the heap when its order has been restored.\<close>

definition reordered :: "'x timer_heap \<Rightarrow> nat set \<Rightarrow> 'x timer_heap \<Rightarrow> bool" where
  "reordered ht ns ht' \<longleftrightarrow> ht' = ht\<lparr>th_heap := th_heap ht', th_ids := th_ids ht'\<rparr>
     \<and> length (th_heap ht') = length (th_heap ht) \<and> nodes ht' = ns \<and> linked (th_cur_size ht) ht'
     \<and> ordered (nkey ht) (th_cur_size ht) (th_heap ht') \<and> (\<forall>j. j \<notin> ns \<longrightarrow> th_ids ht' ! j = th_ids ht ! j)"

lemma reorderedI:
  assumes "rearranged N L ht1 ht'" "ht1 = ht\<lparr>th_heap := th_heap ht1, th_ids := th_ids ht1\<rparr>"
    "length (th_heap ht1) = length (th_heap ht)" "N = th_cur_size ht" "set (take N L) = ns"
    "\<And>j. j \<notin> ns \<Longrightarrow> th_ids ht1 ! j = th_ids ht ! j"
  shows "reordered ht ns ht'"
proof -
  note r = assms(1) [unfolded rearranged_def]
  have f: "ht' = ht\<lparr>th_heap := th_heap ht', th_ids := th_ids ht'\<rparr>"
  proof -
    have "ht' = ht1\<lparr>th_heap := th_heap ht', th_ids := th_ids ht'\<rparr>" using r by (elim conjE)
    also have "\<dots> = ht\<lparr>th_heap := th_heap ht', th_ids := th_ids ht'\<rparr>" by (subst assms(2)) simp
    finally show ?thesis .
  qed
  then have cur: "th_cur_size ht' = th_cur_size ht" by (metis timer_heap.ext_inject timer_heap.surjective timer_heap.update_convs(4,5))
  have dups: "th_dups ht1 = th_dups ht" by (subst assms(2)) simp
  have "nodes ht' = ns"
    using r mset_eq_setD assms(4,5) cur by (metis nodes_def)
  then show ?thesis unfolding reordered_def
    by (intro conjI f) (use r assms(3-6) dups in \<open>simp_all add: node_value_def\<close>)
qed

lemma node_value_copy [simp]: "node_value (copy_node s n ht) k = node_value ht k"
  by (simp add: node_value_def)

lemma remove_node_reordered:
  assumes "core R ht" "slot < th_cur_size ht" "n = th_heap ht ! slot"
  shows "\<exists>ht'. remove_node slot ht = (n, ht') \<and> reordered (detach n ht) (nodes ht - {n}) ht'"
proof -
  define N where "N = th_cur_size ht - 1"
  let ?H = "th_heap ht" and ?ht1 = "detach n ht" and ?m = "th_heap ht ! N"
  have cur: "th_cur_size ht = Suc N" using assms(2) by (simp add: N_def)
  note c = assms(1) [unfolded core_def cur] and f = core_facts [OF assms(1)]
  have l: "linked (Suc N) ht" and len: "length ?H = th_max_size ht" "length (th_ids ht) = th_max_size ht" "Suc N \<le> length ?H"
    using c f(1,2) cur by simp_all
  have in_nodes: "?H ! i \<in> nodes ht" if "i \<le> N" for i
    using that len by (auto simp: nodes_def cur in_set_conv_nth intro!: exI [of _ i])
  have n: "n \<in> nodes ht" "dup_id ht n = int n" using in_nodes [of slot] f(4) assms(2,3) cur by auto
  have erase: "set (take N (?H[slot := ?m])) = nodes ht - {n}"
    using set_take_erase [of N ?H slot] f(3) assms(2,3) len cur by (simp add: nodes_def)
  have other: "?H ! i \<noteq> n" if "i \<le> N" "i \<noteq> slot" for i
    using linked_inj [OF l, of i slot] that assms(2,3) cur by auto
  have node1: "node_ok ?ht1 (?H ! i) \<and> th_ids ?ht1 ! (?H ! i) = int i" if "i \<le> N" "i \<noteq> slot" for i
    using l that other [OF that] n by (simp add: linked_def node_ok_def dup_id_detach)
  have ord: "nkey ht (?H ! heap_parent i) \<le> nkey ht (?H ! i)" if "i \<le> N" "0 < i" for i
    using c that by (auto simp: ordered_def)
  show ?thesis
  proof (cases "slot < N")
    case False
    then have slot: "slot = N" using assms(2) cur by simp
    have "linked N ?ht1" using node1 len slot by (auto simp: linked_def)
    moreover have "ordered (nkey ?ht1) N ?H" using ord by (simp add: ordered_def)
    ultimately have "reordered ?ht1 (nodes ht - {n}) ?ht1"
      using erase cur slot by (simp add: reordered_def nodes_def)
    then show ?thesis using cur False assms(3) by (simp add: remove_node_eq Let_def)
  next
    case True
    let ?ht2 = "copy_node slot ?m ?ht1"
    let ?ht' = "if nkey ?ht2 (th_heap ?ht2 ! heap_parent slot) \<le> nkey ?ht2 ?m
                then reheap_down ?m slot ?ht2 else reheap_up ?m slot ?ht2"
    have run: "remove_node slot ht = (n, ?ht')" using True cur assms(3) by (simp add: remove_node_eq Let_def)
    have key: "nkey ?ht2 = nkey ht" by simp
    have H2: "th_heap ?ht2 = ?H[slot := ?m]" "th_cur_size ?ht2 = N" by (simp_all add: copied cur)
    have m: "?m \<noteq> n" "node_ok ?ht1 ?m" "?m \<in> nodes ht - {n}"
      using other [of N] node1 [of N] in_nodes [of N] True by auto
    have but: "linked_but N ?m slot ?ht2"
    proof -
      have "?m \<noteq> ?H ! i" if "i < N" "i \<noteq> slot" for i using linked_inj [OF l, of N i] that by auto
      moreover have "dup_id ?ht1 ?m = int ?m" using m(2) by (simp add: node_ok_def)
      moreover have "node_ok ?ht1 (?H ! i)" "th_ids ?ht1 ! (?H ! i) = int i" if "i < N" "i \<noteq> slot" for i
        using node1 [of i] that by simp_all
      ultimately show ?thesis using m(2) len True by (simp add: linked_but_def copied del: detach_fields(4)) simp
    qed
    have H: "(th_heap ?ht2)[slot := ?m] = ?H[slot := ?m]" by (simp add: H2)
    have par: "?H[slot := ?m] ! heap_parent i = ?H ! heap_parent i" if "heap_parent i \<noteq> slot" for i using that by simp
    have child: "nkey ht (?H ! heap_parent slot) \<le> nkey ht (?H ! i)" if "i < N" "0 < i" "heap_parent i = slot" "0 < slot" for i
      using ord [of i] ord [of slot] that True by (auto intro: order_trans)
    have "rearranged N (?H[slot := ?m]) ?ht2 ?ht'"
    proof (cases "nkey ?ht2 (th_heap ?ht2 ! heap_parent slot) \<le> nkey ?ht2 ?m")
      case down: True
      have "down_ok (nkey ?ht2) N (?H[slot := ?m]) slot"
        unfolding down_ok_def key
      proof (intro conjI allI impI)
        fix i assume i: "i < N" "0 < i" "heap_parent i \<noteq> slot"
        show "nkey ht (?H[slot := ?m] ! heap_parent i) \<le> nkey ht (?H[slot := ?m] ! i)"
          using down ord [of i] i len True by (cases "i = slot") (simp_all add: key H2)
      next
        fix i assume "0 < slot" "i < N" "0 < i" "heap_parent i = slot"
        then show "nkey ht (?H[slot := ?m] ! heap_parent slot) \<le> nkey ht (?H[slot := ?m] ! i)"
          using child heap_parent_neq [of slot] heap_parent_neq [of i] by simp
      qed
      then show ?thesis using reheap_down_spec [of ?ht2 ?m slot] but down by (simp add: H2 cur)
    next
      case up: False
      have slot: "0 < slot"
      proof (rule ccontr)
        assume "\<not> 0 < slot"
        then have "th_heap ?ht2 ! heap_parent slot = ?m" using True len by (simp add: copied heap_parent_def)
        then show False using up by simp
      qed
      then have less: "nkey ht ?m < nkey ht (?H ! heap_parent slot)"
        using up heap_parent_neq [of slot] by (simp add: H2 not_le)
      have "up_ok (nkey ?ht2) N (?H[slot := ?m]) slot"
        unfolding up_ok_def key
      proof (intro conjI allI impI)
        fix i assume i: "i < N" "0 < i" "i \<noteq> slot"
        then show "nkey ht (?H[slot := ?m] ! heap_parent i) \<le> nkey ht (?H[slot := ?m] ! i)"
          using less child [of i] ord [of i] len True slot
          by (cases "heap_parent i = slot") (auto intro: order_trans less_imp_le)
      next
        fix i assume "i < N" "0 < i" "heap_parent i = slot"
        then show "nkey ht (?H[slot := ?m] ! heap_parent slot) \<le> nkey ht (?H[slot := ?m] ! i)"
          using child slot heap_parent_neq [of slot] heap_parent_neq [of i] by simp
      qed
      then show ?thesis using reheap_up_spec [of N ?m slot ?ht2] but up by (simp add: H2)
    qed
    then have "reordered ?ht1 (nodes ht - {n}) ?ht'"
    proof (rule reorderedI)
      show "?ht2 = ?ht1\<lparr>th_heap := th_heap ?ht2, th_ids := th_ids ?ht2\<rparr>" by (simp add: copy_node_def)
      show "th_ids ?ht2 ! j = th_ids ?ht1 ! j" if "j \<notin> nodes ht - {n}" for j
      proof -
        have "j \<noteq> ?m" using that m(3) by blast
        moreover have "dup_id ?ht1 ?m = int ?m" using m(2) by (simp add: node_ok_def)
        ultimately show ?thesis by (simp add: copied)
      qed
    qed (simp_all add: copied cur erase)
    then show ?thesis using run by blast
  qed
qed

lemma reordered_fields:
  assumes "reordered ht ns ht'"
  shows "th_cur_size ht' = th_cur_size ht" "th_max_size ht' = th_max_size ht" "th_freelist ht' = th_freelist ht"
    "th_dups ht' = th_dups ht" "th_entries ht' = th_entries ht" "th_world ht' = th_world ht"
    "th_max_per_poll ht' = th_max_per_poll ht" "nkey ht' = nkey ht" "nodes ht' = ns"
proof -
  have "ht' = ht\<lparr>th_heap := th_heap ht', th_ids := th_ids ht'\<rparr>" using assms unfolding reordered_def by (elim conjE)
  then show "th_cur_size ht' = th_cur_size ht" "th_max_size ht' = th_max_size ht" "th_freelist ht' = th_freelist ht"
    "th_dups ht' = th_dups ht" "th_entries ht' = th_entries ht" "th_world ht' = th_world ht"
    "th_max_per_poll ht' = th_max_per_poll ht"
    by (metis timer_heap.ext_inject timer_heap.surjective timer_heap.update_convs(4,5))+
  then show "nkey ht' = nkey ht" by (simp add: node_value_def)
  show "nodes ht' = ns" using assms by (simp add: reordered_def)
qed

lemma pending_eqI:
  assumes "core R ht"
    "\<And>e a. (\<exists>n \<in> nodes ht. node_entry ht n = e \<and> a = (node_value ht n, td_grp_lock (th_dups ht ! n))) \<longleftrightarrow> f e = Some a"
  shows "pending ht = f"
proof
  fix e show "pending ht e = f e" using assms(2) [of e] pending_iff [OF assms(1), of e] by (metis not_Some_eq)
qed

text \<open>Removing a node: the entry it stands for is no longer pending, and nothing else changes.\<close>

lemma remove_node_spec:
  assumes "core {} ht" "slot < th_cur_size ht" "remove_node slot ht = (n, ht')"
  shows "n = th_heap ht ! slot" "n \<in> nodes ht" "core {} ht'" "nodes ht' = nodes ht - {n}"
    "pending ht' = (pending ht)(node_entry ht n := None)"
    "th_entries ht' = (th_entries ht)(node_entry ht n := (th_entries ht (node_entry ht n))\<lparr>te_timer_id := -1\<rparr>)"
    "th_cur_size ht' = th_cur_size ht - 1" "th_max_size ht' = th_max_size ht" "th_dups ht' = th_dups (detach n ht)"
    "th_world ht' = th_world ht" "th_max_per_poll ht' = th_max_per_poll ht"
proof -
  let ?ht1 = "detach n ht"
  show n: "n = th_heap ht ! slot" using assms(3) by (simp add: remove_node_eq Let_def)
  note c = assms(1) [unfolded core_def] and f = core_facts [OF assms(1)]
  show in_nodes: "n \<in> nodes ht"
    unfolding n nodes_def using assms(2) c by (auto simp: in_set_conv_nth linked_def intro!: exI [of _ slot])
  then have id: "dup_id ht n = int n" "1 \<le> n" "n < th_max_size ht" using f(4) by auto
  have r: "reordered ?ht1 (nodes ht - {n}) ht'" using remove_node_reordered [OF assms(1,2) n] assms(3) by simp
  note k = reordered_fields [OF r]
  show cur: "th_cur_size ht' = th_cur_size ht - 1" and "th_max_size ht' = th_max_size ht" "th_dups ht' = th_dups ?ht1"
    "th_world ht' = th_world ht" "th_max_per_poll ht' = th_max_per_poll ht" and nodes: "nodes ht' = nodes ht - {n}"
    and entries: "th_entries ht' = (th_entries ht)(node_entry ht n := (th_entries ht (node_entry ht n))\<lparr>te_timer_id := -1\<rparr>)"
    using k by simp_all
  have same: "node_entry ht' j = node_entry ht j" "td_grp_lock (th_dups ht' ! j) = td_grp_lock (th_dups ht ! j)"
    "node_value ht' j = node_value ht j" for j
    using detach_dups [of n ht j] by (simp_all only: k(4) node_value_def)
  obtain free where free: "chain (th_ids ht) (th_freelist ht) free (th_max_size ht)" "distinct free"
      "set free = {1..<th_max_size ht} - nodes ht"
    using c by auto
  have "chain (th_ids ht') (- (th_ids ht' ! n)) free (th_max_size ht)"
  proof -
    have ids: "th_ids ht' ! j = th_ids ?ht1 ! j" if "j \<notin> nodes ht - {n}" for j using r that by (simp add: reordered_def)
    from ids [of n] have n: "- (th_ids ht' ! n) = th_freelist ht" using id f(2) by simp
    have "\<forall>j \<in> set free. th_ids ht ! j = th_ids ht' ! j"
    proof
      fix j assume "j \<in> set free"
      then have "j \<notin> nodes ht" "j \<noteq> n" using free(3) in_nodes by auto
      then show "th_ids ht ! j = th_ids ht' ! j" using ids [of j] id by simp
    qed
    from chain_cong [OF this] show ?thesis using free(1) unfolding n by simp
  qed
  then have ch: "chain (th_ids ht') (th_freelist ht') (n # free) (th_max_size ht')" using k(2,3) id by simp
  have free': "distinct (n # free)" "set (n # free) = {1..<th_max_size ht'} - nodes ht' - {}"
    using free in_nodes id k(2) nodes by auto
  have ti: "\<forall>j \<in> nodes ht'. te_timer_id (th_entries ht' (node_entry ht' j)) = int j"
  proof
    fix j assume "j \<in> nodes ht'"
    then have j: "j \<in> nodes ht" "j \<noteq> n" using nodes by simp_all
    then have "node_entry ht j \<noteq> node_entry ht n" using node_entry_inj [OF assms(1)] in_nodes by (auto dest: inj_onD)
    then show "te_timer_id (th_entries ht' (node_entry ht' j)) = int j" using c j by (simp add: entries same)
  qed
  show core: "core {} ht'"
    by (rule coreI [OF _ _ _ _ _ ch free' ti]) (use r k nodes c in \<open>simp_all add: reordered_def\<close>)
  show "pending ht' = (pending ht)(node_entry ht n := None)"
  proof (rule pending_eqI [OF core])
    fix e a
    have "node_entry ht j \<noteq> node_entry ht n" if "j \<in> nodes ht" "j \<noteq> n" for j
      using node_entry_inj [OF assms(1)] in_nodes that by (auto dest: inj_onD)
    then show "(\<exists>j \<in> nodes ht'. node_entry ht' j = e \<and> a = (node_value ht' j, td_grp_lock (th_dups ht' ! j)))
        \<longleftrightarrow> ((pending ht)(node_entry ht n := None)) e = Some a"
      using pending_iff [OF assms(1), of e a] in_nodes by (auto simp: same nodes)
  qed
qed

end
