(* ===== verification/Timer_Sched.thy ===== *)
theory Timer_Sched
  imports Timer_Inv
begin

text \<open>
  Scheduling and cancelling timers in terms of the timers that are pending.
\<close>

section \<open>Inserting a node\<close>

definition fresh_dup :: "nat \<Rightarrow> time_val \<Rightarrow> 'x timer_heap \<Rightarrow> timer_dup" where
  "fresh_dup e t ht = \<lparr>td_dup = th_entries ht e, td_entry = e, td_value = t, td_grp_lock = None\<rparr>"

lemma upd_dup_fields [simp]:
  "th_heap (upd_dup k f ht) = th_heap ht" "th_ids (upd_dup k f ht) = th_ids ht" "th_cur_size (upd_dup k f ht) = th_cur_size ht"
  "th_max_size (upd_dup k f ht) = th_max_size ht" "th_freelist (upd_dup k f ht) = th_freelist ht"
  "th_entries (upd_dup k f ht) = th_entries ht" "th_world (upd_dup k f ht) = th_world ht"
  "th_max_per_poll (upd_dup k f ht) = th_max_per_poll ht" "nodes (upd_dup k f ht) = nodes ht"
  "th_dups (upd_dup k f ht) = (th_dups ht)[k := f (th_dups ht ! k)]"
  by (simp_all add: upd_dup_def nodes_def)

lemma insert_core:
  assumes "core {k} ht" "k \<notin> nodes ht" "1 \<le> k" "k < th_max_size ht" "th_cur_size ht < th_max_size ht"
    "timer_id ht e = int k" "e \<notin> node_entry ht ` nodes ht"
    "ht3 = upd_dup k (\<lambda>_. fresh_dup e t ht) ht" "ht4 = reheap_up k (th_cur_size ht) ht3\<lparr>th_cur_size := th_cur_size ht + 1\<rparr>"
  shows "core {} ht4" "nodes ht4 = insert k (nodes ht)" "pending ht4 = (pending ht)(e \<mapsto> (t, None))"
    "th_cur_size ht4 = th_cur_size ht + 1" "th_max_size ht4 = th_max_size ht" "th_entries ht4 = th_entries ht"
    "th_world ht4 = th_world ht" "th_max_per_poll ht4 = th_max_per_poll ht"
    "node_entry ht4 k = e" "n \<in> nodes ht \<Longrightarrow> node_entry ht4 n = node_entry ht n"
proof -
  let ?N = "th_cur_size ht"
  note c = assms(1) [unfolded core_def] and f = core_facts [OF assms(1)]
  have dups: "th_dups ht3 = (th_dups ht)[k := fresh_dup e t ht]" by (simp add: assms(8))
  have k: "th_dups ht3 ! k = fresh_dup e t ht" "dup_id ht3 k = int k"
    using c assms(4,6) by (simp_all add: dups dup_id_def fresh_dup_def)
  have other: "th_dups ht3 ! n = th_dups ht ! n" if "n \<noteq> k" for n using that by (simp add: dups)
  have node: "th_heap ht ! i \<in> nodes ht" "th_heap ht ! i \<noteq> k" if "i < ?N" for i
  proof -
    show "th_heap ht ! i \<in> nodes ht" using that c f(1) by (auto simp: nodes_def in_set_conv_nth intro!: exI [of _ i])
    then show "th_heap ht ! i \<noteq> k" using assms(2) by auto
  qed
  have l: "linked ?N ht" and len: "length (th_heap ht) = th_max_size ht" "length (th_dups ht) = th_max_size ht"
    and ord: "ordered (nkey ht) ?N (th_heap ht)" using c by simp_all
  have but: "linked_but (?N + 1) k ?N ht3"
    unfolding linked_but_def
  proof (intro conjI allI impI)
    show "node_ok ht3 k" using k assms(4,8) len by (simp add: node_ok_def)
    fix i assume i: "i < ?N + 1" "i \<noteq> ?N"
    then have "i < ?N" by simp
    then show "node_ok ht3 (th_heap ht3 ! i)" "th_ids ht3 ! (th_heap ht3 ! i) = int i" "k \<noteq> th_heap ht3 ! i"
      using l node [of i] other [of "th_heap ht ! i"] by (auto simp: linked_def node_ok_def dup_id_def assms(8))
  qed (use assms(5,8) len f(2) in simp_all)
  have "up_ok (nkey ht3) (?N + 1) ((th_heap ht3)[?N := k]) ?N"
    unfolding up_ok_def
  proof (intro conjI allI impI)
    fix i assume "i < ?N + 1" "0 < i" "i \<noteq> ?N"
    then have i: "i < ?N" "0 < i" "heap_parent i < ?N" using heap_parent_less [of i] by auto
    then show "nkey ht3 ((th_heap ht3)[?N := k] ! heap_parent i) \<le> nkey ht3 ((th_heap ht3)[?N := k] ! i)"
      using ord node(2) [of i] node(2) [of "heap_parent i"] by (simp add: ordered_def assms(8) node_value_def)
  next
    fix i assume "i < ?N + 1" "0 < i" "heap_parent i = ?N"
    then show "nkey ht3 ((th_heap ht3)[?N := k] ! heap_parent ?N) \<le> nkey ht3 ((th_heap ht3)[?N := k] ! i)"
      using heap_parent_less [of i] by simp
  qed
  from reheap_up_spec [OF but this]
  have r: "rearranged (?N + 1) ((th_heap ht)[?N := k]) ht3 (reheap_up k ?N ht3)" by (simp add: assms(8))
  note r' = r [unfolded rearranged_def]
  have frame: "reheap_up k ?N ht3 = ht3\<lparr>th_heap := th_heap ht4, th_ids := th_ids ht4\<rparr>"
    using r' by (simp add: assms(9))
  have ht4: "ht4 = ht3\<lparr>th_heap := th_heap ht4, th_ids := th_ids ht4, th_cur_size := ?N + 1\<rparr>"
    using assms(9) unfolding frame by simp
  have other_fields: "th_dups ht4 = th_dups ht3" "th_freelist ht4 = th_freelist ht" "th_entries ht4 = th_entries ht"
    "th_max_size ht4 = th_max_size ht" "th_cur_size ht4 = ?N + 1" "th_world ht4 = th_world ht"
    "th_max_per_poll ht4 = th_max_per_poll ht"
    by (subst ht4, simp add: assms(8))+
  then show "th_cur_size ht4 = ?N + 1" "th_max_size ht4 = th_max_size ht" "th_entries ht4 = th_entries ht"
    "th_world ht4 = th_world ht" "th_max_per_poll ht4 = th_max_per_poll ht" by simp_all
  have "take (?N + 1) ((th_heap ht)[?N := k]) = take ?N (th_heap ht) @ [k]"
    using assms(5) len by (simp add: take_Suc_conv_app_nth)
  then have "set (take (?N + 1) ((th_heap ht)[?N := k])) = insert k (nodes ht)" by (simp add: nodes_def)
  moreover have "mset (take (?N + 1) (th_heap ht4)) = mset (take (?N + 1) ((th_heap ht)[?N := k]))"
    using r' by (simp add: assms(9))
  ultimately show nodes: "nodes ht4 = insert k (nodes ht)"
    using mset_eq_setD unfolding nodes_def other_fields by metis
  have entry: "node_entry ht4 n = (if n = k then e else node_entry ht n)"
    "node_value ht4 n = (if n = k then t else node_value ht n)"
    "td_grp_lock (th_dups ht4 ! n) = (if n = k then None else td_grp_lock (th_dups ht ! n))" for n
    using k(1) other [of n] by (simp_all add: other_fields node_value_def fresh_dup_def)
  then show "node_entry ht4 k = e" "n \<in> nodes ht \<Longrightarrow> node_entry ht4 n = node_entry ht n" using assms(2) by auto
  have nkey4: "nkey ht4 = nkey ht3" by (simp add: node_value_def other_fields)
  obtain free where free: "chain (th_ids ht) (th_freelist ht) free (th_max_size ht)" "distinct free"
      "set free = {1..<th_max_size ht} - nodes ht - {k}" using c by blast
  have "\<forall>j \<in> set free. th_ids ht ! j = th_ids ht4 ! j"
  proof
    fix j assume "j \<in> set free"
    then have "j \<notin> set (take (?N + 1) ((th_heap ht)[?N := k]))"
      using free(3) \<open>set (take (?N + 1) ((th_heap ht)[?N := k])) = insert k (nodes ht)\<close> by auto
    then show "th_ids ht ! j = th_ids ht4 ! j" using r' by (simp add: assms(8,9))
  qed
  then have ch: "chain (th_ids ht4) (th_freelist ht4) free (th_max_size ht4)"
    using free(1) chain_cong unfolding other_fields by metis
  have free': "set free = {1..<th_max_size ht4} - nodes ht4 - {}" using free(3) by (auto simp: other_fields nodes)
  have ti: "\<forall>n \<in> nodes ht4. timer_id ht4 (node_entry ht4 n) = int n"
    using c assms(2,6) by (auto simp: nodes entry other_fields(3))
  have "linked (?N + 1) (reheap_up k ?N ht3)" using r' by simp
  then have "linked (?N + 1) ht4" by (simp add: assms(9) linked_def node_ok_def dup_id_def)
  moreover have "length (th_heap ht4) = th_max_size ht4"
    using r' len unfolding other_fields by (simp add: assms(8,9))
  moreover have "ordered (nkey ht4) (?N + 1) (th_heap ht4)" using r' unfolding nkey4 by (simp add: assms(9))
  moreover have "length (th_dups ht4) = th_max_size ht4" using len unfolding other_fields dups by simp
  moreover have "0 \<notin> nodes ht4" using c assms(3) by (simp add: nodes)
  ultimately show core: "core {} ht4"
    using coreI [OF _ _ _ _ _ ch free(2) free' ti] unfolding other_fields(5) by blast
  show "pending ht4 = (pending ht)(e \<mapsto> (t, None))"
  proof (rule pending_eqI [OF core])
    fix e' a
    show "(\<exists>n \<in> nodes ht4. node_entry ht4 n = e' \<and> a = (node_value ht4 n, td_grp_lock (th_dups ht4 ! n)))
        \<longleftrightarrow> ((pending ht)(e \<mapsto> (t, None))) e' = Some a"
      using pending_iff [OF assms(1), of e' a] assms(2,7) by (auto simp: nodes entry)
  qed
qed

section \<open>Growing\<close>

lemma free_ids_nth: "i < hi - lo \<Longrightarrow> free_ids lo hi ! i = - int (lo + i + 1)"
  by (simp add: free_ids_def)

lemma length_free_ids [simp]: "length (free_ids lo hi) = hi - lo"
  by (simp add: free_ids_def)

lemma grow_core:
  assumes "core R ht" "1 \<le> th_max_size ht" "\<forall>k \<in> R. k < th_max_size ht"
  shows "core R (grow_heap ht)" "nodes (grow_heap ht) = nodes ht" "pending (grow_heap ht) = pending ht"
    "n \<in> nodes ht \<Longrightarrow> node_entry (grow_heap ht) n = node_entry ht n"
    "th_cur_size (grow_heap ht) = th_cur_size ht" "th_max_size (grow_heap ht) = 2 * th_max_size ht"
    "th_entries (grow_heap ht) = th_entries ht" "th_world (grow_heap ht) = th_world ht"
    "th_max_per_poll (grow_heap ht) = th_max_per_poll ht"
proof -
  let ?g = "grow_heap ht" and ?N = "th_cur_size ht" and ?M = "th_max_size ht"
  note c = assms(1) [unfolded core_def] and f = core_facts [OF assms(1)]
  show fields: "th_cur_size ?g = ?N" "th_max_size ?g = 2 * ?M" "th_entries ?g = th_entries ht"
    "th_world ?g = th_world ht" "th_max_per_poll ?g = th_max_per_poll ht"
    by (simp_all add: grow_heap_def Let_def)
  have sizes: "length (th_heap ?g) = 2 * ?M" "length (th_ids ?g) = 2 * ?M" "length (th_dups ?g) = 2 * ?M"
    using c f(1,2) by (simp_all add: grow_heap_def Let_def)
  have heap: "take ?N (th_heap ?g) = take ?N (th_heap ht)" "i < ?N \<Longrightarrow> th_heap ?g ! i = th_heap ht ! i" for i
    using c f(1) by (simp_all add: grow_heap_def Let_def nth_append)
  show nodes: "nodes ?g = nodes ht" by (simp add: nodes_def fields heap)
  have same: "th_dups ?g ! n = th_dups ht ! n" "th_ids ?g ! n = th_ids ht ! n" if "n < ?M" for n
    using that c f(2) by (simp_all add: grow_heap_def Let_def nth_append)
  have node: "th_dups ?g ! n = th_dups ht ! n" "th_ids ?g ! n = th_ids ht ! n" if "n \<in> nodes ht" for n
    using same f(4) [OF that] by simp_all
  then show "n \<in> nodes ht \<Longrightarrow> node_entry ?g n = node_entry ht n" by simp
  obtain free where free: "chain (th_ids ht) (th_freelist ht) free ?M" "distinct free" "set free = {1..<?M} - nodes ht - R"
    using c by blast
  have in_nodes: "th_heap ht ! i \<in> nodes ht" if "i < ?N" for i
    using that c f(1) by (auto simp: nodes_def in_set_conv_nth intro!: exI [of _ i])
  have "chain (th_ids ?g) (th_freelist ht) free ?M"
    using free(1) chain_cong [of free "th_ids ht" "th_ids ?g"] same(2) free(3) by fastforce
  moreover have "chain (th_ids ?g) (int ?M) [?M..<2 * ?M] (2 * ?M)"
    using f(2) by (intro chain_upt) (auto simp: grow_heap_def Let_def nth_append free_ids_nth)
  ultimately have ch: "chain (th_ids ?g) (th_freelist ?g) (free @ [?M..<2 * ?M]) (th_max_size ?g)"
    unfolding fields using chain_append by (simp add: grow_heap_def Let_def)
  have "nodes ht \<subseteq> {..<?M}" "R \<subseteq> {..<?M}" using f(4) assms(3) by auto
  then have "distinct (free @ [?M..<2 * ?M])" "set (free @ [?M..<2 * ?M]) = {1..<th_max_size ?g} - nodes ?g - R"
    using free(2,3) assms(2) by (auto simp: fields nodes)
  moreover have "\<forall>n \<in> nodes ?g. timer_id ?g (node_entry ?g n) = int n" using c node by (auto simp: nodes fields)
  moreover have "ordered (nkey ?g) ?N (th_heap ?g)"
    unfolding ordered_def
  proof (intro allI impI)
    fix i assume i: "i < ?N" "0 < i"
    then have p: "heap_parent i < ?N" using heap_parent_less [of i] by simp
    have "nkey ht (th_heap ht ! heap_parent i) \<le> nkey ht (th_heap ht ! i)" using c i by (simp add: ordered_def)
    then show "nkey ?g (th_heap ?g ! heap_parent i) \<le> nkey ?g (th_heap ?g ! i)"
      using node in_nodes [OF i(1)] in_nodes [OF p] heap(2) [OF i(1)] heap(2) [OF p] by (simp add: node_value_def)
  qed
  moreover have "linked ?N ?g"
    unfolding linked_def
  proof (intro conjI allI impI)
    fix i assume i: "i < ?N"
    note n = in_nodes [OF i]
    show "node_ok ?g (th_heap ?g ! i)" "th_ids ?g ! (th_heap ?g ! i) = int i"
      using c i f(4) [OF n] node [OF n] sizes(1) unfolding heap(2) [OF i] by (simp_all add: node_ok_def dup_id_def linked_def)
  qed (use sizes f(1) in simp_all)
  ultimately show core: "core R ?g"
    using coreI [OF _ _ _ _ _ ch] c sizes unfolding fields nodes by simp
  show "pending ?g = pending ht"
    unfolding pending_def fields heap using node by (auto simp: nodes_def node_value_def intro!: arg_cong [where f = map_of])
qed

section \<open>Scheduling\<close>

lemma upd_entry_fields [simp]:
  "th_heap (upd_entry e f ht) = th_heap ht" "th_ids (upd_entry e f ht) = th_ids ht" "th_cur_size (upd_entry e f ht) = th_cur_size ht"
  "th_max_size (upd_entry e f ht) = th_max_size ht" "th_freelist (upd_entry e f ht) = th_freelist ht"
  "th_dups (upd_entry e f ht) = th_dups ht" "th_world (upd_entry e f ht) = th_world ht"
  "th_max_per_poll (upd_entry e f ht) = th_max_per_poll ht" "nodes (upd_entry e f ht) = nodes ht"
  "th_entries (upd_entry e f ht) = (th_entries ht)(e := f (th_entries ht e))" "pending (upd_entry e f ht) = pending ht"
  by (simp_all add: upd_entry_def nodes_def pending_def node_value_def)

text \<open>The first free id is taken, and the entry gets it.\<close>

lemma pop_core:
  assumes "timers_ok ht" "\<not> pj_timer_entry_running (th_entries ht e)"
    "pop_freelist ht = (i, ht1)" "ht2 = upd_entry e (\<lambda>t. t\<lparr>te_timer_id := i\<rparr>) ht1"
  shows "\<exists>k. i = int k \<and> 1 \<le> k \<and> k < th_max_size ht \<and> k \<notin> nodes ht \<and> core {k} ht2"
    "nodes ht2 = nodes ht" "pending ht2 = pending ht" "\<And>n. node_entry ht2 n = node_entry ht n"
    "th_entries ht2 = (th_entries ht)(e := (th_entries ht e)\<lparr>te_timer_id := i\<rparr>)"
    "th_cur_size ht2 = th_cur_size ht" "th_max_size ht2 = th_max_size ht" "th_world ht2 = th_world ht"
    "th_max_per_poll ht2 = th_max_per_poll ht" "e \<notin> node_entry ht ` nodes ht"
proof -
  note ok = assms(1) [unfolded timers_ok_def] and c = timers_core [OF assms(1), unfolded core_def]
    and f = core_facts [OF timers_core [OF assms(1)]]
  have i: "i = th_freelist ht" "ht1 = ht\<lparr>th_freelist := - (th_ids ht ! nat i)\<rparr>" using assms(3) by (auto simp: pop_freelist_def Let_def)
  show fields: "nodes ht2 = nodes ht" "pending ht2 = pending ht" "\<And>n. node_entry ht2 n = node_entry ht n"
    "th_entries ht2 = (th_entries ht)(e := (th_entries ht e)\<lparr>te_timer_id := i\<rparr>)"
    "th_cur_size ht2 = th_cur_size ht" "th_max_size ht2 = th_max_size ht" "th_world ht2 = th_world ht"
    "th_max_per_poll ht2 = th_max_per_poll ht"
    by (simp_all add: assms(4) i(2) upd_entry_def nodes_def pending_def node_value_def)
  show e: "e \<notin> node_entry ht ` nodes ht"
    using timers_running [OF assms(1), of e] assms(2) pending_dom [OF timers_core [OF assms(1)]] by simp
  obtain free where free: "chain (th_ids ht) (th_freelist ht) free (th_max_size ht)" "distinct free"
      "set free = {1..<th_max_size ht} - nodes ht" using c by auto
  have "card (nodes ht) = th_cur_size ht" using f(3) distinct_card c f(1) unfolding nodes_def by fastforce
  moreover have "finite (nodes ht)" by (simp add: nodes_def)
  moreover have "th_cur_size ht + 2 \<le> th_max_size ht" "card {1..<th_max_size ht} = th_max_size ht - 1" using ok by simp_all
  ultimately have "0 < card (set free)"
    using diff_card_le_card_Diff [of "nodes ht" "{1..<th_max_size ht}"] unfolding free(3) by linarith
  then obtain k ks where k: "free = k # ks" by (cases free) auto
  then have ch: "chain (th_ids ht) (th_freelist ht2) ks (th_max_size ht)" and ik: "i = int k"
    using free(1) i by (simp_all add: assms(4))
  have kk: "1 \<le> k" "k < th_max_size ht" "k \<notin> nodes ht" using free(3) k by auto
  have "\<forall>n \<in> nodes ht2. timer_id ht2 (node_entry ht2 n) = int n" using c e by (auto simp: fields)
  moreover have "distinct ks" "set ks = {1..<th_max_size ht2} - nodes ht2 - {k}" using free k by (auto simp: fields)
  moreover have heap: "th_heap ht2 = th_heap ht" "th_dups ht2 = th_dups ht" "th_ids ht2 = th_ids ht"
    by (simp_all add: assms(4) i(2))
  moreover from heap have "linked (th_cur_size ht2) ht2 = linked (th_cur_size ht) ht" "nkey ht2 = nkey ht"
    by (simp_all add: fields linked_def node_ok_def dup_id_def node_value_def)
  ultimately have "core {k} ht2"
    using coreI [where ht = ht2 and free = ks and R = "{k}"] c ch by (simp add: fields)
  then show "\<exists>k. i = int k \<and> 1 \<le> k \<and> k < th_max_size ht \<and> k \<notin> nodes ht \<and> core {k} ht2" using ik kk by blast
qed

lemma reheap_up_cur: "th_cur_size (reheap_up m s ht) = th_cur_size ht"
  by (induction m s ht rule: reheap_up.induct) (subst reheap_up.simps, simp)

lemma schedule_entry_spec:
  assumes "timers_ok ht" "\<not> pj_timer_entry_running (th_entries ht e)"
  obtains k ht' where "schedule_entry e t ht = (PJ_SUCCESS, ht')" "timers_ok ht'" "pending ht' = (pending ht)(e \<mapsto> (t, None))"
    "th_entries ht' = (th_entries ht)(e := (th_entries ht e)\<lparr>te_timer_id := int k\<rparr>)" "k \<in> nodes ht'" "node_entry ht' k = e"
    "th_world ht' = th_world ht" "th_max_per_poll ht' = th_max_per_poll ht"
proof -
  obtain i ht1 where pop: "pop_freelist ht = (i, ht1)" by fastforce
  define ht2 where "ht2 = upd_entry e (\<lambda>t. t\<lparr>te_timer_id := i\<rparr>) ht1"
  note p = pop_core [OF assms pop ht2_def] and ok = assms(1) [unfolded timers_ok_def]
  obtain k where k: "i = int k" "1 \<le> k" "k < th_max_size ht" "k \<notin> nodes ht" "core {k} ht2" using p(1) by blast
  define ht3 where "ht3 = (if th_cur_size ht2 + 2 \<ge> th_max_size ht2 then grow_heap ht2 else ht2)"
  note g = grow_core [OF k(5)]
  have h3: "core {k} ht3" "nodes ht3 = nodes ht" "pending ht3 = pending ht" "n \<in> nodes ht \<Longrightarrow> node_entry ht3 n = node_entry ht n"
    "th_cur_size ht3 = th_cur_size ht" "th_cur_size ht3 + 2 < th_max_size ht3" "th_max_size ht \<le> th_max_size ht3"
    "th_entries ht3 = th_entries ht2" "th_world ht3 = th_world ht" "th_max_per_poll ht3 = th_max_per_poll ht" for n
    using g k ok p unfolding ht3_def by auto
  define ht4 where "ht4 = upd_dup k (\<lambda>_. fresh_dup e t ht3) ht3"
  define ht5 where "ht5 = reheap_up k (th_cur_size ht3) ht4\<lparr>th_cur_size := th_cur_size ht3 + 1\<rparr>"
  have id: "timer_id ht3 e = int k" by (simp add: h3(8) p(5) k(1))
  have out: "e \<notin> node_entry ht3 ` nodes ht3" using p(10) h3(2,4) by auto
  note s = insert_core [OF h3(1) _ k(2) _ _ id out ht4_def ht5_def]
  have side: "k \<notin> nodes ht3" "k < th_max_size ht3" "th_cur_size ht3 < th_max_size ht3" using k h3(2,6,7) by simp_all
  note s = s [OF side]
  have "th_cur_size ht < th_max_size ht" using ok by simp
  moreover have "insert_node e t ht2 = ht5"
    unfolding insert_node_def Let_def ht3_def [symmetric] id nat_int fresh_dup_def [symmetric] ht4_def [symmetric]
    by (simp add: ht5_def reheap_up_cur ht4_def)
  ultimately have run: "schedule_entry e t ht = (PJ_SUCCESS, ht5)"
    by (simp add: schedule_entry_def pop Let_def ht2_def)
  have "e' \<in> node_entry ht5 ` nodes ht5" if "pj_timer_entry_running (th_entries ht5 e')" for e'
  proof (cases "e' = e")
    case True
    then show ?thesis using s(2,9) by auto
  next
    case False
    then have "pj_timer_entry_running (th_entries ht e')" using that by (simp add: s(6) h3(8) p(5))
    then have "e' \<in> node_entry ht ` nodes ht" using ok by blast
    then show ?thesis using s(2,10) h3(2,4) by auto
  qed
  then have "timers_ok ht5" using s(1,4,5) h3(6) by (simp add: timers_ok_def)
  then show ?thesis
    by (intro that [of ht5 k] run) (use s h3 p k in simp_all)
qed

text \<open>What the functions of the interface do to the time and the group lock of an entry.\<close>

lemma pending_set_lock:
  assumes "core {} ht" "k \<in> nodes ht" "node_entry ht k = e" "pending ht e = Some (t, l0)"
    "td_entry (f (th_dups ht ! k)) = e" "td_value (f (th_dups ht ! k)) = td_value (th_dups ht ! k)"
    "te_timer_id (td_dup (f (th_dups ht ! k))) = te_timer_id (td_dup (th_dups ht ! k))"
    "td_grp_lock (f (th_dups ht ! k)) = l"
  shows "core {} (upd_dup k f ht)" "pending (upd_dup k f ht) = (pending ht)(e \<mapsto> (t, l))"
    "timers_ok ht \<Longrightarrow> timers_ok (upd_dup k f ht)"
proof -
  let ?h = "upd_dup k f ht"
  have k: "k < length (th_dups ht)" using core_facts(4) [OF assms(1,2)] assms(1) by (simp add: core_def)
  have lock: "td_grp_lock (th_dups ?h ! n) = (if n = k then l else td_grp_lock (th_dups ht ! n))" for n
    using k assms(8) by (simp add: nth_list_update)
  have same: "dup_id ?h n = dup_id ht n" "node_entry ?h n = node_entry ht n" "node_value ?h n = node_value ht n" for n
    using assms(3,5-7) k by (cases "k = n"; simp add: dup_id_def node_value_def)+
  note s = same_heap [of ?h ht, OF _ _ _ _ _ _ same]
  show core: "core {} ?h" and "timers_ok ht \<Longrightarrow> timers_ok ?h" using s(1,2) assms(1) by simp_all
  show "pending ?h = (pending ht)(e \<mapsto> (t, l))"
  proof (rule pending_eqI [OF core])
    fix e' a
    have only: "node_entry ht n = e \<longleftrightarrow> n = k" if "n \<in> nodes ht" for n
      using node_entry_inj [OF assms(1)] assms(2,3) that by (auto dest: inj_onD)
    have t: "node_value ht k = t" using assms(4) pending_node [OF assms(1-3)] by simp
    show "(\<exists>n \<in> nodes ?h. node_entry ?h n = e' \<and> a = (node_value ?h n, td_grp_lock (th_dups ?h ! n)))
        \<longleftrightarrow> ((pending ht)(e \<mapsto> (t, l))) e' = Some a"
    proof (cases "e' = e")
      case True
      then show ?thesis using only assms(2,3) t by (auto simp: same lock simp del: upd_dup_fields(10))
    next
      case False
      then show ?thesis
        using pending_iff [OF assms(1), of e' a] assms(2,3) by (auto simp: same lock simp del: upd_dup_fields(10))
    qed
  qed
qed

lemma world_same:
  "core R (ht\<lparr>th_world := w\<rparr>) = core R ht" "timers_ok (ht\<lparr>th_world := w\<rparr>) = timers_ok ht"
  "nodes (ht\<lparr>th_world := w\<rparr>) = nodes ht" "pending (ht\<lparr>th_world := w\<rparr>) = pending ht"
  by (rule same_heap; simp add: dup_id_def node_value_def)+

lemma upd_world_eq: "upd_world f ht = ht\<lparr>th_world := f (th_world ht)\<rparr>"
  by (simp add: upd_world_def)

lemma entry_same:
  assumes "te_timer_id (f (th_entries ht e)) = timer_id ht e"
  shows "core R (upd_entry e f ht) = core R ht" "timers_ok (upd_entry e f ht) = timers_ok ht"
  by (rule same_heap; simp add: dup_id_def node_value_def assms)+

definition set_id :: "int option \<Rightarrow> timer_entry \<Rightarrow> timer_entry" where
  "set_id id_val t = (case id_val of None \<Rightarrow> t | Some i \<Rightarrow> t\<lparr>te_id := i\<rparr>)"

lemma set_id_fields [simp]:
  "te_timer_id (set_id i t) = te_timer_id t" "te_cb (set_id i t) = te_cb t" "te_user_data (set_id i t) = te_user_data t"
  by (simp_all add: set_id_def split: option.split)

lemma schedule_spec:
  assumes "timers_ok ht" "te_cb (th_entries ht e) \<noteq> 0" "\<not> pj_timer_entry_running (th_entries ht e)"
    "env_tick E (th_world ht) = (now, w)"
  obtains k ht' where "schedule_w_grp_lock E e delay id_val lock ht = (PJ_SUCCESS, ht')" "timers_ok ht'"
    "pending ht' = (pending ht)(e \<mapsto> (tv_add now delay, lock))"
    "th_entries ht' = (th_entries ht)(e := set_id id_val ((th_entries ht e)\<lparr>te_timer_id := int k\<rparr>))"
    "th_world ht' = (case lock of None \<Rightarrow> w | Some l \<Rightarrow> env_add_ref E l w)" "th_max_per_poll ht' = th_max_per_poll ht"
proof -
  let ?t = "tv_add now delay" and ?h = "ht\<lparr>th_world := w\<rparr>"
  have ok: "timers_ok ?h" "\<not> pj_timer_entry_running (th_entries ?h e)" using assms(1,3) by (simp_all add: world_same)
  obtain k h1 where run: "schedule_entry e ?t ?h = (PJ_SUCCESS, h1)" and h1: "timers_ok h1"
      "pending h1 = (pending ht)(e \<mapsto> (?t, None))"
      "th_entries h1 = (th_entries ht)(e := (th_entries ht e)\<lparr>te_timer_id := int k\<rparr>)" "k \<in> nodes h1" "node_entry h1 k = e"
      "th_world h1 = w" "th_max_per_poll h1 = th_max_per_poll ht"
    by (rule schedule_entry_spec [OF ok, of ?t]) (erule that, simp_all add: world_same)
  define h2 where "h2 = (case id_val of None \<Rightarrow> h1
      | Some i \<Rightarrow> upd_dup k (\<lambda>d. d\<lparr>td_dup := (td_dup d)\<lparr>te_id := i\<rparr>\<rparr>) (upd_entry e (\<lambda>t. t\<lparr>te_id := i\<rparr>) h1))"
  have "timers_ok h2 \<and> pending h2 = (pending ht)(e \<mapsto> (?t, None)) \<and> k \<in> nodes h2 \<and> node_entry h2 k = e
      \<and> th_world h2 = w \<and> th_entries h2 = (th_entries ht)(e := set_id id_val ((th_entries ht e)\<lparr>te_timer_id := int k\<rparr>))
      \<and> th_max_per_poll h2 = th_max_per_poll ht"
  proof (cases id_val)
    case None
    then show ?thesis using h1 by (simp add: h2_def set_id_def)
  next
    case (Some i)
    let ?f = "\<lambda>d. d\<lparr>td_dup := (td_dup d)\<lparr>te_id := i\<rparr>\<rparr>" and ?u = "upd_entry e (\<lambda>t. t\<lparr>te_id := i\<rparr>) h1"
    have u: "timers_ok ?u" "core {} ?u" "k \<in> nodes ?u" "node_entry ?u k = e" "pending ?u e = Some (?t, None)"
      using h1 timers_core [OF h1(1)] by (simp_all add: entry_same)
    have l: "td_grp_lock (th_dups ?u ! k) = None" using pending_node [OF u(2-4)] u(5) by simp
    note p = pending_set_lock [OF u(2-5), of ?f None]
    have "k < length (th_dups ?u)" using core_facts(4) [OF u(2,3)] u(2) by (simp add: core_def)
    then have "node_entry h2 k = e" using u(4) by (simp add: h2_def Some)
    then show ?thesis
      using p u l h1 by (simp add: h2_def Some set_id_def)
  qed
  then have h2: "timers_ok h2" "pending h2 = (pending ht)(e \<mapsto> (?t, None))" "k \<in> nodes h2" "node_entry h2 k = e" "th_world h2 = w"
    "th_entries h2 = (th_entries ht)(e := set_id id_val ((th_entries ht e)\<lparr>te_timer_id := int k\<rparr>))"
    "th_max_per_poll h2 = th_max_per_poll ht" by simp_all
  define h3 where "h3 = upd_dup k (\<lambda>d. d\<lparr>td_grp_lock := lock\<rparr>) h2"
  have h3: "timers_ok h3" "pending h3 = (pending ht)(e \<mapsto> (?t, lock))"
    using pending_set_lock [OF timers_core [OF h2(1)] h2(3,4), of ?t None "\<lambda>d. d\<lparr>td_grp_lock := lock\<rparr>" lock] h2
    by (simp_all add: h3_def)
  have fields: "th_entries h3 = th_entries h2" "th_world h3 = w" "th_max_per_poll h3 = th_max_per_poll ht"
    using h2 by (simp_all add: h3_def)
  have "nat (timer_id h1 e) = k" using h1(3) by simp
  then have "schedule_w_grp_lock E e delay id_val lock ht
      = (PJ_SUCCESS, case lock of None \<Rightarrow> h3 | Some l \<Rightarrow> upd_world (env_add_ref E l) h3)"
    using assms(2-4) run
    by (cases id_val; cases lock; simp add: schedule_w_grp_lock_def tick_def Let_def h2_def h3_def)
  then show ?thesis
    by (rule that [of _ k]) (use h2 h3 fields in \<open>simp_all add: upd_world_eq world_same split: option.split\<close>)
qed

lemma schedule_refused:
  assumes "env_tick E (th_world ht) = (now, w)"
  shows "te_cb (th_entries ht e) = 0 \<Longrightarrow> schedule_w_grp_lock E e delay id_val lock ht = (PJ_EINVAL, ht)"
    "te_cb (th_entries ht e) \<noteq> 0 \<Longrightarrow> pj_timer_entry_running (th_entries ht e) \<Longrightarrow>
     schedule_w_grp_lock E e delay id_val lock ht = (PJ_EINVALIDOP, ht\<lparr>th_world := w\<rparr>)"
  using assms by (simp_all add: schedule_w_grp_lock_def tick_def)

section \<open>Cancelling\<close>

lemma pending_nodeE:
  assumes "timers_ok ht" "pending ht e = Some (t, l)"
  obtains n slot where "n \<in> nodes ht" "node_entry ht n = e" "timer_id ht e = int n" "td_grp_lock (th_dups ht ! n) = l"
    "slot < th_cur_size ht" "th_heap ht ! slot = n" "th_ids ht ! n = int slot"
proof -
  note c = timers_core [OF assms(1)]
  obtain n where n: "n \<in> nodes ht" "node_entry ht n = e" "td_grp_lock (th_dups ht ! n) = l"
    using assms(2) pending_iff [OF c] by auto
  then obtain slot where slot: "slot < th_cur_size ht" "th_heap ht ! slot = n"
    by (auto simp: nodes_def in_set_conv_nth)
  then have "th_ids ht ! n = int slot" "timer_id ht e = int n" using c n by (auto simp: core_def linked_def)
  then show ?thesis using that n slot by blast
qed

lemma timers_ok_removed:
  assumes "timers_ok ht" "slot < th_cur_size ht" "remove_node slot ht = (n, ht')"
  shows "timers_ok ht'"
proof -
  note r = remove_node_spec [OF timers_core [OF assms(1)] assms(2,3)] and ok = assms(1) [unfolded timers_ok_def]
  have "e \<in> node_entry ht' ` nodes ht'" if "pj_timer_entry_running (th_entries ht' e)" for e
  proof -
    have e: "e \<noteq> node_entry ht n" using that by (auto simp: r(6) pj_timer_entry_running_def)
    then have "e \<in> node_entry ht ` nodes ht" using that ok by (simp add: r(6))
    then obtain k where "k \<in> nodes ht" "node_entry ht k = e" by blast
    moreover from this e have "k \<noteq> n" by auto
    ultimately show ?thesis by (intro image_eqI [of _ _ k]) (simp_all add: r(4,9))
  qed
  moreover have "th_cur_size ht' + 2 \<le> th_max_size ht'" using r(7,8) ok assms(2) by linarith
  ultimately show ?thesis using r(3) by (simp add: timers_ok_def)
qed

lemma cancel_entry_pending:
  assumes "timers_ok ht" "pending ht e = Some (t, l)"
  obtains ht' where "cancel_entry e ht = (1, ht')" "timers_ok ht'" "pending ht' = (pending ht)(e := None)"
    "th_entries ht' = (th_entries ht)(e := (th_entries ht e)\<lparr>te_timer_id := -1\<rparr>)" "th_world ht' = th_world ht"
    "th_max_per_poll ht' = th_max_per_poll ht" "lock_of ht e = l"
proof -
  obtain n slot where n: "n \<in> nodes ht" "node_entry ht n = e" "timer_id ht e = int n" "td_grp_lock (th_dups ht ! n) = l"
      "slot < th_cur_size ht" "th_heap ht ! slot = n" "th_ids ht ! n = int slot"
    by (rule pending_nodeE [OF assms])
  note c = timers_core [OF assms(1)]
  obtain m ht' where rm: "remove_node slot ht = (m, ht')" by fastforce
  note r = remove_node_spec [OF c n(5) rm]
  have b: "1 \<le> n" "n < th_max_size ht" "length (th_dups ht) = th_max_size ht"
    using core_facts(4) [OF c n(1)] c by (simp_all add: core_def)
  have "cancel_entry e ht = (1, ht')"
    using n b rm by (simp add: cancel_entry_def Let_def)
  moreover have "lock_of ht e = l" using n b by (simp add: lock_of_def)
  ultimately show ?thesis
    by (intro that [of ht'] timers_ok_removed [OF assms(1) n(5) rm]) (use r n in simp_all)
qed

lemma cancel_entry_idle:
  assumes "timers_ok ht" "pending ht e = None"
  shows "cancel_entry e ht = (0, upd_entry e (\<lambda>t. t\<lparr>te_timer_id := -1\<rparr>) ht)"
    "timers_ok (upd_entry e (\<lambda>t. t\<lparr>te_timer_id := -1\<rparr>) ht)"
proof -
  have e: "\<not> pj_timer_entry_running (th_entries ht e)" "e \<notin> node_entry ht ` nodes ht"
    using timers_running [OF assms(1), of e] assms(2) pending_dom [OF timers_core [OF assms(1)]] by auto
  then show "cancel_entry e ht = (0, upd_entry e (\<lambda>t. t\<lparr>te_timer_id := -1\<rparr>) ht)"
    by (simp add: cancel_entry_def pj_timer_entry_running_def)
  show "timers_ok (upd_entry e (\<lambda>t. t\<lparr>te_timer_id := -1\<rparr>) ht)"
    using assms(1) e unfolding timers_ok_def core_def
    by (auto simp: linked_def node_ok_def dup_id_def node_value_def pj_timer_entry_running_def)
qed

lemma cancel_spec:
  assumes "timers_ok ht" "pending ht e = Some (t, l)"
  obtains ht' where "cancel_timer E e id_val ht = (1, ht')" "timers_ok ht'" "pending ht' = (pending ht)(e := None)"
    "th_entries ht' = (th_entries ht)(e := set_id id_val ((th_entries ht e)\<lparr>te_timer_id := -1\<rparr>))"
    "th_world ht' = (case l of None \<Rightarrow> th_world ht | Some k \<Rightarrow> env_dec_ref E k (th_world ht))"
    "th_max_per_poll ht' = th_max_per_poll ht"
proof -
  obtain h1 where h1: "cancel_entry e ht = (1, h1)" "timers_ok h1" "pending h1 = (pending ht)(e := None)"
    "th_entries h1 = (th_entries ht)(e := (th_entries ht e)\<lparr>te_timer_id := -1\<rparr>)" "th_world h1 = th_world ht"
    "th_max_per_poll h1 = th_max_per_poll ht" "lock_of ht e = l"
    by (rule cancel_entry_pending [OF assms])
  define h2 where "h2 = (case id_val of None \<Rightarrow> h1 | Some i \<Rightarrow> upd_entry e (\<lambda>t. t\<lparr>te_id := i\<rparr>) h1)"
  have h2: "timers_ok h2" "pending h2 = (pending ht)(e := None)" "th_world h2 = th_world ht"
    "th_entries h2 = (th_entries ht)(e := set_id id_val ((th_entries ht e)\<lparr>te_timer_id := -1\<rparr>))"
    "th_max_per_poll h2 = th_max_per_poll ht"
    using h1 by (simp_all add: h2_def set_id_def entry_same split: option.split)
  have "cancel_timer E e id_val ht = (1, case l of None \<Rightarrow> h2 | Some k \<Rightarrow> upd_world (env_dec_ref E k) h2)"
    using h1 by (cases l; cases id_val; simp add: cancel_timer_def Let_def h2_def)
  then show ?thesis
    by (rule that) (use h2 in \<open>simp_all add: upd_world_eq world_same split: option.split\<close>)
qed

lemma cancel_idle:
  assumes "timers_ok ht" "pending ht e = None"
  shows "cancel_timer E e id_val ht = (0, upd_entry e (\<lambda>t. t\<lparr>te_timer_id := -1\<rparr>) ht)"
  using cancel_entry_idle [OF assms] by (simp add: cancel_timer_def)

text \<open>All cases of scheduling and cancelling, in terms of the pending timers.\<close>

lemma schedule_pending:
  fixes ht :: "'x timer_heap"
  assumes "timers_ok ht"
  shows "timers_ok (snd (schedule_w_grp_lock E e d id_val lock ht))
    \<and> pending (snd (schedule_w_grp_lock E e d id_val lock ht)) =
        (if te_cb (th_entries ht e) \<noteq> 0 \<and> pending ht e = None
         then (pending ht)(e \<mapsto> (tv_add (fst (env_tick E (th_world ht))) d, lock)) else pending ht)"
proof -
  obtain now w where tick: "env_tick E (th_world ht) = (now, w)" by fastforce
  note refused = schedule_refused [OF tick, of e d id_val lock]
  have run: "pj_timer_entry_running (th_entries ht e) \<longleftrightarrow> pending ht e \<noteq> None" using timers_running [OF assms, of e] by auto
  show ?thesis
  proof (cases "te_cb (th_entries ht e) \<noteq> 0 \<and> pending ht e = None")
    case True
    then have cb: "te_cb (th_entries ht e) \<noteq> 0" and idle: "\<not> pj_timer_entry_running (th_entries ht e)" using run by simp_all
    obtain k ht' where "schedule_w_grp_lock E e d id_val lock ht = (PJ_SUCCESS, ht')" "timers_ok ht'"
        "pending ht' = (pending ht)(e \<mapsto> (tv_add now d, lock))"
      by (rule schedule_spec [OF assms cb idle tick])
    then show ?thesis using True tick by simp
  next
    case False
    then show ?thesis using refused run assms by (cases "te_cb (th_entries ht e) = 0") (auto simp: world_same)
  qed
qed

lemma cancel_pending:
  fixes ht :: "'x timer_heap"
  assumes "timers_ok ht"
  shows "timers_ok (snd (cancel_timer E e id_val ht)) \<and> pending (snd (cancel_timer E e id_val ht)) = (pending ht)(e := None)
    \<and> (\<forall>e'. te_cb (th_entries (snd (cancel_timer E e id_val ht)) e') = te_cb (th_entries ht e'))"
proof (cases "pending ht e")
  case None
  then show ?thesis using cancel_idle [OF assms None] cancel_entry_idle(2) [OF assms None] by (simp add: fun_upd_idem)
next
  case (Some a)
  obtain t l where "a = (t, l)" by fastforce
  with Some have p: "pending ht e = Some (t, l)" by simp
  obtain ht' where "cancel_timer E e id_val ht = (1, ht')" "timers_ok ht'" "pending ht' = (pending ht)(e := None)"
      "th_entries ht' = (th_entries ht)(e := set_id id_val ((th_entries ht e)\<lparr>te_timer_id := -1\<rparr>))"
    by (rule cancel_spec [OF assms p])
  then show ?thesis by simp
qed

section \<open>The contract of a set of timers\<close>

text \<open>
  What a client that arms and disarms timers relies on: \<open>pend\<close> are the armed ones, \<open>due\<close> what arming one
  notes of it.
\<close>

locale timer_queue =
  fixes ok :: "'s \<Rightarrow> bool" and pend :: "'s \<Rightarrow> 'e \<rightharpoonup> 'a" and ready :: "'e \<Rightarrow> 's \<Rightarrow> bool"
    and arm :: "'e \<Rightarrow> 'd \<Rightarrow> 's \<Rightarrow> 's" and due :: "'d \<Rightarrow> 's \<Rightarrow> 'a" and disarm :: "'e \<Rightarrow> 's \<Rightarrow> 's"
  assumes arm_ok: "ok s \<Longrightarrow> ok (arm e d s)"
    and arm_idle: "ok s \<Longrightarrow> ready e s \<Longrightarrow> pend s e = None \<Longrightarrow> pend (arm e d s) = (pend s)(e \<mapsto> due d s)"
    and arm_running: "ok s \<Longrightarrow> pend s e \<noteq> None \<Longrightarrow> pend (arm e d s) = pend s"
    and disarm_ok: "ok s \<Longrightarrow> ok (disarm e s)"
    and disarm_pend: "ok s \<Longrightarrow> pend (disarm e s) = (pend s)(e := None)"
    and disarm_ready: "ok s \<Longrightarrow> ready e (disarm e' s) = ready e s"
begin

lemma rearm: "ok s \<Longrightarrow> ready e s \<Longrightarrow> pend (arm e d (disarm e s)) = (pend s)(e \<mapsto> due d (disarm e s))"
  by (simp add: arm_idle disarm_ok disarm_pend disarm_ready)

lemma arm_disarm: "ok s \<Longrightarrow> pend s e = None \<Longrightarrow> ready e s \<Longrightarrow> pend (disarm e (arm e d s)) = pend s"
  by (simp add: arm_idle disarm_pend arm_ok fun_upd_idem)

lemma disarm_twice: "ok s \<Longrightarrow> pend (disarm e (disarm e s)) = pend (disarm e s)"
  by (simp add: disarm_ok disarm_pend)

lemma disarm_all:
  "ok s \<Longrightarrow> ok (fold disarm es s) \<and> pend (fold disarm es s) = (pend s) |` (- set es)"
proof (induction es arbitrary: s)
  case (Cons e es)
  then have "ok (disarm e s)" by (simp add: disarm_ok)
  from Cons.IH [OF this] show ?case using Cons.prems by (auto simp: disarm_pend restrict_map_def)
qed (simp add: restrict_map_def)

end

interpretation timers: timer_queue timers_ok pending "\<lambda>e ht. te_cb (th_entries ht e) \<noteq> 0"
  "\<lambda>e d ht. snd (pj_timer_heap_schedule E e d ht)" "\<lambda>d ht. (tv_add (fst (env_tick E (th_world ht))) d, None)"
  "\<lambda>e ht. snd (pj_timer_heap_cancel E e ht)" for E :: "'x timer_env"
  by unfold_locales
    (auto simp: pj_timer_heap_schedule_def pj_timer_heap_cancel_def schedule_pending cancel_pending)

end
