(* ===== verification/Timer_Poll.thy ===== *)
theory Timer_Poll
  imports Timer_Sched
begin

text \<open>
  Polling the timer heap: what one round does, and the order in which timers expire.
\<close>

section \<open>One round\<close>

lemma upd_dup_outside:
  assumes "timers_ok ht" "n \<notin> nodes ht"
  shows "timers_ok (upd_dup n f ht)" "pending (upd_dup n f ht) = pending ht"
proof -
  let ?h = "upd_dup n f ht"
  have node: "th_dups ?h ! k = th_dups ht ! k" if "k \<in> nodes ht" for k
    using that assms(2) by (metis nth_list_update_neq upd_dup_fields(10))
  then have same: "dup_id ?h k = dup_id ht k" "node_value ?h k = node_value ht k" "node_entry ?h k = node_entry ht k"
    if "k \<in> nodes ht" for k using that by (simp_all only: dup_id_def node_value_def)
  note c = timers_core [OF assms(1), unfolded core_def]
  have in_nodes: "th_heap ht ! i \<in> nodes ht" if "i < th_cur_size ht" for i
    using that c by (auto simp: nodes_def in_set_conv_nth linked_def intro!: exI [of _ i])
  obtain free where free: "chain (th_ids ht) (th_freelist ht) free (th_max_size ht)" "distinct free"
      "set free = {1..<th_max_size ht} - nodes ht - {}" using c by blast
  have "core {} ?h"
  proof (rule coreI [where free = free])
    show "linked (th_cur_size ?h) ?h"
      unfolding linked_def
    proof (intro conjI allI impI)
      fix i assume "i < th_cur_size ?h"
      then have i: "i < th_cur_size ht" by simp
      then have "node_ok ht (th_heap ht ! i)" "th_ids ht ! (th_heap ht ! i) = int i" using c by (simp_all add: linked_def)
      then show "node_ok ?h (th_heap ?h ! i)" "th_ids ?h ! (th_heap ?h ! i) = int i"
        using same(1) [OF in_nodes [OF i]] by (simp_all add: node_ok_def)
    qed (use c in \<open>simp_all add: linked_def\<close>)
    have "heap_parent i < th_cur_size ht" if "i < th_cur_size ht" "0 < i" for i using heap_parent_less [of i] that by simp
    then show "ordered (nkey ?h) (th_cur_size ?h) (th_heap ?h)" using c in_nodes same by (simp add: ordered_def)
    show "\<forall>n \<in> nodes ?h. timer_id ?h (node_entry ?h n) = int n" using c same by simp
  qed (use c free in simp_all)
  moreover have "node_entry ?h ` nodes ht = node_entry ht ` nodes ht" by (rule image_cong [OF refl]) (simp only: same)
  ultimately show "timers_ok ?h" using assms(1) unfolding timers_ok_def by simp
  show "pending ?h = pending ht"
    unfolding pending_def using node same by (auto simp only: nodes_def upd_dup_fields intro!: arg_cong [where f = map_of] map_cong)
qed

definition root :: "'x timer_heap \<Rightarrow> nat" where
  "root ht = node_entry ht (th_heap ht ! 0)"

text \<open>The copy of an entry agrees with the entry, so that its callback is called.\<close>

definition intact :: "'x timer_heap \<Rightarrow> nat \<Rightarrow> bool" where
  "intact ht n \<longleftrightarrow> te_cb (td_dup (th_dups ht ! n)) = te_cb (th_entries ht (node_entry ht n))
     \<and> te_user_data (td_dup (th_dups ht ! n)) = te_user_data (th_entries ht (node_entry ht n))"

lemma root_earliest:
  assumes "timers_ok ht" "th_cur_size ht \<noteq> 0"
  shows "\<exists>l. pending ht (root ht) = Some (root_time ht, l)" "pending ht e = Some (t, l) \<Longrightarrow> key (root_time ht) \<le> key t"
proof -
  note c = timers_core [OF assms(1)]
  have "th_heap ht ! 0 \<in> nodes ht"
    using c assms(2) by (auto simp: nodes_def in_set_conv_nth core_def linked_def intro!: exI [of _ 0])
  from pending_node [OF c this refl] show "\<exists>l. pending ht (root ht) = Some (root_time ht, l)"
    by (simp add: root_def root_time_def)
  assume "pending ht e = Some (t, l)"
  then obtain n where n: "n \<in> nodes ht" "t = node_value ht n" using pending_iff [OF c] by auto
  then obtain i where i: "i < th_cur_size ht" "n = th_heap ht ! i" by (auto simp: nodes_def in_set_conv_nth)
  have "ordered (nkey ht) (th_cur_size ht) (th_heap ht)" using c by (simp add: core_def)
  from ordered_root [OF this i(1)] show "key (root_time ht) \<le> key t" using n(2) i(2) by (simp add: root_time_def)
qed

lemma fire_root_spec:
  assumes "timers_ok ht" "th_cur_size ht \<noteq> 0" "intact ht (th_heap ht ! 0)" "te_cb (th_entries ht (root ht)) \<noteq> 0"
  obtains h l where "fire_root E ht = (let h = env_callback E (te_cb (th_entries ht (root ht))) (root ht) h
      in case l of None \<Rightarrow> h | Some k \<Rightarrow> upd_world (env_dec_ref E k) h)"
    "pending ht (root ht) = Some (root_time ht, l)" "timers_ok h" "pending h = (pending ht)(root ht := None)"
    "th_entries h = (th_entries ht)(root ht := (th_entries ht (root ht))\<lparr>te_timer_id := -1\<rparr>)"
    "th_world h = th_world ht" "th_max_per_poll h = th_max_per_poll ht" "nodes h = nodes ht - {th_heap ht ! 0}"
    "\<And>n. n \<in> nodes h \<Longrightarrow> node_entry h n = node_entry ht n \<and> te_cb (td_dup (th_dups h ! n)) = te_cb (td_dup (th_dups ht ! n))
        \<and> te_user_data (td_dup (th_dups h ! n)) = te_user_data (td_dup (th_dups ht ! n))"
proof -
  have pos: "0 < th_cur_size ht" using assms(2) by simp
  obtain n h1 where rm: "remove_node 0 ht = (n, h1)" by fastforce
  note c = timers_core [OF assms(1)] and r = remove_node_spec [OF timers_core [OF assms(1)] pos rm]
  define h where "h = upd_dup n (\<lambda>d. d\<lparr>td_grp_lock := None\<rparr>) h1"
  have out: "n \<notin> nodes h1" by (simp add: r(4))
  have e: "root ht = node_entry ht n" by (simp add: root_def r(1))
  have l: "pending ht (root ht) = Some (root_time ht, td_grp_lock (th_dups ht ! n))"
    using pending_node [OF c r(2) refl] by (simp add: e root_time_def r(1))
  have ok: "timers_ok h" "pending h = (pending ht)(root ht := None)"
    using upd_dup_outside [OF timers_ok_removed [OF assms(1) pos rm] out] by (simp_all add: h_def r(5) e)
  have "te_cb (th_entries h1 (node_entry ht n)) = te_cb (th_entries ht (node_entry ht n))"
    "te_user_data (th_entries h1 (node_entry ht n)) = te_user_data (th_entries ht (node_entry ht n))"
    by (simp_all add: r(6))
  then have "fire_root E ht = (let h = env_callback E (te_cb (th_entries ht (root ht))) (root ht) h
      in case td_grp_lock (th_dups ht ! n) of None \<Rightarrow> h | Some k \<Rightarrow> upd_world (env_dec_ref E k) h)"
    using assms(3,4) rm
    by (cases "td_grp_lock (th_dups ht ! n)";
        simp add: fire_root_def Let_def r(9) intact_def e r(1) [symmetric] h_def)
  then show ?thesis
  proof (rule that [OF _ l ok])
    show "nodes h = nodes ht - {th_heap ht ! 0}" using r(1,4) by (simp add: h_def)
    show "node_entry h k = node_entry ht k \<and> te_cb (td_dup (th_dups h ! k)) = te_cb (td_dup (th_dups ht ! k))
        \<and> te_user_data (td_dup (th_dups h ! k)) = te_user_data (td_dup (th_dups ht ! k))" if "k \<in> nodes h" for k
      using that out by (cases "k = n") (simp_all add: h_def r(9))
  qed (simp_all add: h_def r(6,10,11) e)
qed

section \<open>The loop\<close>

text \<open>An environment in which time stands still and callbacks only note that they are called.\<close>

definition log_env :: "time_val \<Rightarrow> nat list timer_env" where
  "log_env now = \<lparr>env_tick = (\<lambda>w. (now, w)), env_add_ref = (\<lambda>_ w. w), env_dec_ref = (\<lambda>_ w. w),
     env_callback = (\<lambda>_ e. upd_world (\<lambda>w. w @ [e]))\<rparr>"

definition due_timers :: "time_val \<Rightarrow> 'x timer_heap \<Rightarrow> nat set" where
  "due_timers now ht = {e. \<exists>t l. pending ht e = Some (t, l) \<and> key t \<le> key now}"

definition time_of :: "'x timer_heap \<Rightarrow> nat \<Rightarrow> int \<times> int" where
  "time_of ht e = (case pending ht e of None \<Rightarrow> (0, 0) | Some (t, _) \<Rightarrow> key t)"

definition all_intact :: "'x timer_heap \<Rightarrow> bool" where
  "all_intact ht \<longleftrightarrow> (\<forall>n \<in> nodes ht. intact ht n \<and> te_cb (th_entries ht (node_entry ht n)) \<noteq> 0)"

lemma log_round:
  assumes "timers_ok ht" "th_cur_size ht \<noteq> 0" "all_intact ht"
  shows "timers_ok (fire_root (log_env now) ht)" "all_intact (fire_root (log_env now) ht)"
    "pending (fire_root (log_env now) ht) = (pending ht)(root ht := None)"
    "th_world (fire_root (log_env now) ht) = th_world ht @ [root ht]"
    "th_max_per_poll (fire_root (log_env now) ht) = th_max_per_poll ht"
proof -
  have c: "core {} ht" by (rule timers_core [OF assms(1)])
  have n0: "th_heap ht ! 0 \<in> nodes ht"
    using c assms(2) by (auto simp: nodes_def in_set_conv_nth core_def linked_def intro!: exI [of _ 0])
  then have i: "intact ht (th_heap ht ! 0)" "te_cb (th_entries ht (root ht)) \<noteq> 0"
    using assms(3) by (simp_all add: all_intact_def root_def)
  obtain h l where f: "fire_root (log_env now) ht =
      (let h = env_callback (log_env now) (te_cb (th_entries ht (root ht))) (root ht) h
       in case l of None \<Rightarrow> h | Some k \<Rightarrow> upd_world (env_dec_ref (log_env now) k) h)"
    and h: "timers_ok h" "pending h = (pending ht)(root ht := None)"
    "th_entries h = (th_entries ht)(root ht := (th_entries ht (root ht))\<lparr>te_timer_id := -1\<rparr>)"
    "th_world h = th_world ht" "th_max_per_poll h = th_max_per_poll ht" "nodes h = nodes ht - {th_heap ht ! 0}"
    "\<And>n. n \<in> nodes h \<Longrightarrow> node_entry h n = node_entry ht n \<and> te_cb (td_dup (th_dups h ! n)) = te_cb (td_dup (th_dups ht ! n))
        \<and> te_user_data (td_dup (th_dups h ! n)) = te_user_data (td_dup (th_dups ht ! n))"
    by (rule fire_root_spec [OF assms(1,2) i]) blast
  have eq: "fire_root (log_env now) ht = h\<lparr>th_world := th_world ht @ [root ht]\<rparr>"
    unfolding f by (cases l) (simp_all add: log_env_def upd_world_def h(4))
  have "all_intact h"
    unfolding all_intact_def
  proof
    fix n assume n: "n \<in> nodes h"
    then have "n \<in> nodes ht" using h(6) by simp
    then show "intact h n \<and> te_cb (th_entries h (node_entry h n)) \<noteq> 0"
      using assms(3) h(7) [OF n] i(2) by (simp add: all_intact_def intact_def h(3))
  qed
  then show "all_intact (fire_root (log_env now) ht)" by (simp add: eq all_intact_def intact_def world_same)
  show "timers_ok (fire_root (log_env now) ht)" "pending (fire_root (log_env now) ht) = (pending ht)(root ht := None)"
    "th_world (fire_root (log_env now) ht) = th_world ht @ [root ht]"
    "th_max_per_poll (fire_root (log_env now) ht) = th_max_per_poll ht"
    using h by (simp_all add: eq world_same)
qed

text \<open>What a number of rounds in a row has fired.\<close>

definition fired :: "'x timer_heap \<Rightarrow> time_val \<Rightarrow> nat list \<Rightarrow> 'x timer_heap \<Rightarrow> bool" where
  "fired ht now fs ht' \<longleftrightarrow> distinct fs \<and> set fs \<subseteq> due_timers now ht \<and> pending ht' = pending ht |` (- set fs)
     \<and> sorted (map (time_of ht) fs) \<and> (\<forall>e \<in> dom (pending ht) - set fs. \<forall>f \<in> set fs. time_of ht f \<le> time_of ht e)"

lemma fired_cons:
  assumes "fired h1 now fs ht'" "timers_ok ht" "th_cur_size ht \<noteq> 0" "key (root_time ht) \<le> key now"
    "pending h1 = (pending ht)(root ht := None)"
  shows "fired ht now (root ht # fs) ht'"
proof -
  note f = assms(1) [unfolded fired_def]
  obtain l where r: "pending ht (root ht) = Some (root_time ht, l)" using root_earliest(1) [OF assms(2,3)] by blast
  have least: "time_of ht (root ht) \<le> time_of ht e" if "e \<in> dom (pending ht)" for e
    using root_earliest(2) [OF assms(2,3)] that r by (auto simp: time_of_def)
  have same: "time_of h1 e = time_of ht e" if "e \<noteq> root ht" for e using that by (simp add: time_of_def assms(5))
  have sub: "set fs \<subseteq> due_timers now ht - {root ht}" using f by (auto simp: due_timers_def assms(5) split: if_splits)
  then have same_times: "map (time_of h1) fs = map (time_of ht) fs" using same by auto
  have dom: "set fs \<subseteq> dom (pending ht)" using sub by (auto simp: due_timers_def)
  have "sorted (map (time_of h1) fs)" using f by simp
  moreover have first: "\<forall>x \<in> set fs. time_of ht (root ht) \<le> time_of ht x" using least dom by blast
  ultimately have "sorted (map (time_of ht) (root ht # fs))" unfolding same_times by simp
  moreover have "pending ht' = pending ht |` (- set (root ht # fs))"
    using f by (auto simp: assms(5) restrict_map_def fun_eq_iff)
  moreover have "root ht \<in> due_timers now ht" using r assms(4) by (simp add: due_timers_def)
  moreover have "\<forall>e \<in> dom (pending ht) - set (root ht # fs). \<forall>k \<in> set fs. time_of ht k \<le> time_of ht e"
  proof (intro ballI)
    fix e k assume e: "e \<in> dom (pending ht) - set (root ht # fs)" and k: "k \<in> set fs"
    have "e \<in> dom (pending h1) - set fs" using e by (auto simp: assms(5))
    then have "time_of h1 k \<le> time_of h1 e" using f k by blast
    moreover have "k \<noteq> root ht" using sub k by blast
    ultimately show "time_of ht k \<le> time_of ht e" using same [of e] same [of k] e by simp
  qed
  ultimately show ?thesis unfolding fired_def using f sub least by auto
qed

lemma no_timers:
  assumes "timers_ok ht" "th_cur_size ht = 0"
  shows "pending ht = Map.empty"
  using assms(2) by (simp add: pending_def)

lemma poll_fires:
  assumes "timers_ok ht" "all_intact ht" "th_cur_size ht \<noteq> 0 \<Longrightarrow> min_time = root_time ht" "cnt \<le> unat (th_max_per_poll ht)"
  shows "\<exists>fs ht'. poll_loop (log_env now) cnt now min_time ht = ((cnt + length fs, now), ht')
    \<and> timers_ok ht' \<and> th_world ht' = th_world ht @ fs \<and> fired ht now fs ht' \<and> cnt + length fs \<le> unat (th_max_per_poll ht)
    \<and> (due_timers now ht' = {} \<or> cnt + length fs = unat (th_max_per_poll ht))"
  using assms
proof (induction "unat (th_max_per_poll ht) - cnt" arbitrary: cnt min_time ht)
  case 0
  then have "\<not> cnt < unat (th_max_per_poll ht)" by simp
  then have "poll_loop (log_env now) cnt now min_time ht = ((cnt, now), ht)" by (simp add: poll_loop.simps)
  then show ?case using 0 by (intro exI [of _ "[]"] exI [of _ ht]) (simp add: fired_def restrict_map_def)
next
  case (Suc d)
  show ?case
  proof (cases "th_cur_size ht \<noteq> 0 \<and> key min_time \<le> key now")
    case False
    then have "poll_loop (log_env now) cnt now min_time ht = ((cnt, now), ht)"
      by (subst poll_loop.simps) (auto simp: tv_key)
    moreover have "due_timers now ht = {}"
    proof (cases "th_cur_size ht = 0")
      case True
      then show ?thesis using no_timers [OF Suc.prems(1)] by (simp add: due_timers_def)
    next
      case cur: False
      then show ?thesis
        using False Suc.prems(3) root_earliest(2) [OF Suc.prems(1) cur] by (fastforce simp: due_timers_def)
    qed
    ultimately show ?thesis using Suc.prems
      by (intro exI [of _ "[]"] exI [of _ ht]) (simp add: fired_def restrict_map_def)
  next
    case True
    then have cur: "th_cur_size ht \<noteq> 0" and soon: "key (root_time ht) \<le> key now" using Suc.prems(3) by simp_all
    have less: "cnt < unat (th_max_per_poll ht)" using Suc.hyps(2) by simp
    let ?h = "fire_root (log_env now) ht" and ?min = "if th_cur_size (fire_root (log_env now) ht) \<noteq> 0
      then root_time (fire_root (log_env now) ht) else min_time"
    note r = log_round [OF Suc.prems(1) cur Suc.prems(2), of now]
    have run: "poll_loop (log_env now) cnt now min_time ht = poll_loop (log_env now) (cnt + 1) now ?min ?h"
      by (subst poll_loop.simps) (use True less in \<open>simp add: tv_key Let_def tick_def log_env_def\<close>)
    have "\<exists>fs ht'. poll_loop (log_env now) (cnt + 1) now ?min ?h = ((cnt + 1 + length fs, now), ht')
      \<and> timers_ok ht' \<and> th_world ht' = th_world ?h @ fs \<and> fired ?h now fs ht'
      \<and> cnt + 1 + length fs \<le> unat (th_max_per_poll ?h)
      \<and> (due_timers now ht' = {} \<or> cnt + 1 + length fs = unat (th_max_per_poll ?h))"
      by (rule Suc.hyps(1)) (use Suc.hyps(2) r less in simp_all)
    then obtain fs ht' where IH: "poll_loop (log_env now) (cnt + 1) now ?min ?h = ((cnt + 1 + length fs, now), ht')"
      "timers_ok ht'" "th_world ht' = th_world ?h @ fs" "fired ?h now fs ht'" "cnt + 1 + length fs \<le> unat (th_max_per_poll ?h)"
      "due_timers now ht' = {} \<or> cnt + 1 + length fs = unat (th_max_per_poll ?h)" by blast
    have "fired ht now (root ht # fs) ht'" by (rule fired_cons [OF IH(4) Suc.prems(1) cur soon r(3)])
    then show ?thesis using IH r run by (intro exI [of _ "root ht # fs"] exI [of _ ht']) simp
  qed
qed

end
