(* ===== verification/Timer_Props.thy ===== *)
theory Timer_Props
  imports Timer_Poll
begin

text \<open>
  The properties of the timer heap: its invariant over any run of its operations, what scheduling and cancelling do to
  the pending timers, and the order in which a poll calls the callbacks.
\<close>

section \<open>Runs of operations\<close>

datatype timer_cmd =
  Schedule nat time_val "int option" "nat option"
| Cancel nat "int option"
| Poll bool
| Limit u32

fun run_cmd :: "'x timer_env \<Rightarrow> timer_cmd \<Rightarrow> 'x timer_heap \<Rightarrow> 'x timer_heap" where
  "run_cmd E (Schedule e delay id_val lock) ht = snd (schedule_w_grp_lock E e delay id_val lock ht)"
| "run_cmd E (Cancel e id_val) ht = snd (cancel_timer E e id_val ht)"
| "run_cmd E (Poll want) ht = snd (pj_timer_heap_poll E want ht)"
| "run_cmd E (Limit n) ht = snd (pj_timer_heap_set_max_timed_out_per_poll n ht)"

text \<open>Callbacks that use the heap by its operations keep its invariant.\<close>

definition sound :: "'x timer_env \<Rightarrow> bool" where
  "sound E \<longleftrightarrow> (\<forall>k e ht. timers_ok ht \<longrightarrow> timers_ok (env_callback E k e ht))"

lemma tick_ok [simp]: "tick E ht = (now, h) \<Longrightarrow> timers_ok h = timers_ok ht"
  by (auto simp: tick_def world_same split: prod.splits)

lemma fire_root_ok:
  assumes "timers_ok ht" "th_cur_size ht \<noteq> 0" "sound E"
  shows "timers_ok (fire_root E ht)"
proof -
  obtain n h where rm: "remove_node 0 ht = (n, h)" by fastforce
  have pos: "0 < th_cur_size ht" using assms(2) by simp
  have "n \<notin> nodes h" using remove_node_spec [OF timers_core [OF assms(1)] pos rm] by simp
  from upd_dup_outside(1) [OF timers_ok_removed [OF assms(1) pos rm] this]
  have "timers_ok (upd_dup n (\<lambda>d. d\<lparr>td_grp_lock := None\<rparr>) h)" .
  then show ?thesis using assms(3)
    by (simp add: fire_root_def rm Let_def sound_def upd_world_eq world_same split: option.split)
qed

lemma poll_loop_ok:
  assumes "sound E" "timers_ok ht"
  shows "timers_ok (snd (poll_loop E cnt now min_time ht))"
  using assms
proof (induction E cnt now min_time ht rule: poll_loop.induct)
  case (1 E cnt now min_time ht)
  show ?case
  proof (cases "th_cur_size ht \<noteq> 0 \<and> tv_lte min_time now \<and> cnt < unat (th_max_per_poll ht)")
    case True
    let ?h = "fire_root E ht"
    have ok: "timers_ok ?h" using fire_root_ok 1(3,4) True by blast
    obtain now' h' where t: "tick E ?h = (now', h')" by fastforce
    show ?thesis
    proof (cases "th_cur_size ?h = 0")
      case empty: True
      then show ?thesis using 1(2) [OF True refl _ 1(3) ok] by (subst poll_loop.simps) (simp add: True)
    next
      case False
      then show ?thesis using 1(1) [OF True refl _ refl t [symmetric] refl 1(3)] ok t
        by (subst poll_loop.simps) (simp add: True Let_def)
    qed
  next
    case False
    show ?thesis by (subst poll_loop.simps) (simp only: False if_False snd_conv 1(4))
  qed
qed

lemma next_delay_ok: "timers_ok (snd (next_delay E cnt now ht)) = timers_ok ht"
  by (auto simp: next_delay_def Let_def split: prod.split)

lemma poll_ok:
  assumes "sound E" "timers_ok ht"
  shows "timers_ok (snd (pj_timer_heap_poll E want ht))"
proof -
  obtain now h where t: "tick E ht = (now, h)" by fastforce
  let ?m = "if th_cur_size h \<noteq> 0 then root_time h else \<lparr>tv_sec = 0, tv_msec = 0\<rparr>"
  obtain cnt now' h' where l: "poll_loop E 0 now ?m h = ((cnt, now'), h')" by (metis surj_pair)
  have "timers_ok h'" using poll_loop_ok [OF assms(1), of h 0 now ?m] t l assms(2) by simp
  moreover obtain d h2 where "next_delay E cnt now' h' = (d, h2)" by fastforce
  moreover from this have "timers_ok h2 = timers_ok h'" using next_delay_ok [of E cnt now' h'] by simp
  ultimately show ?thesis using assms(2) t l by (simp add: pj_timer_heap_poll_def Let_def)
qed

lemma create_ok:
  assumes "\<And>e. \<not> pj_timer_entry_running (entries e)"
  shows "timers_ok (pj_timer_heap_create room entries w)"
proof -
  let ?h = "pj_timer_heap_create room entries w"
  have f: "th_cur_size ?h = 0" "th_max_size ?h = room + 2" "th_ids ?h = free_ids 0 (room + 2)" "th_freelist ?h = 1"
    "length (th_heap ?h) = room + 2" "length (th_dups ?h) = room + 2" "th_entries ?h = entries"
    by (simp_all add: pj_timer_heap_create_def Let_def)
  have "chain (th_ids ?h) (th_freelist ?h) [1..<room + 2] (th_max_size ?h)"
    using chain_upt [of 1 "room + 2" "th_ids ?h"] by (simp add: f free_ids_nth)
  moreover have none: "nodes ?h = {}" by (simp add: nodes_def f)
  moreover have "linked (th_cur_size ?h) ?h" "ordered (nkey ?h) (th_cur_size ?h) (th_heap ?h)"
    using f by (simp_all add: linked_def ordered_def)
  moreover have "set [1..<room + 2] = {1..<th_max_size ?h} - nodes ?h - {}" by (simp only: set_upt f none) simp
  ultimately have "core {} ?h"
    by (intro coreI [where free = "[1..<room + 2]"]) (simp_all add: f del: upt_Suc)
  then show ?thesis using assms by (simp add: timers_ok_def f none)
qed

lemma limit_ok: "timers_ok (ht\<lparr>th_max_per_poll := n\<rparr>) = timers_ok ht"
  by (rule same_heap) (simp_all add: dup_id_def node_value_def)

lemma run_cmd_ok: "sound E \<Longrightarrow> timers_ok ht \<Longrightarrow> timers_ok (run_cmd E c ht)"
  by (cases c) (simp_all add: schedule_pending cancel_pending poll_ok limit_ok
      pj_timer_heap_set_max_timed_out_per_poll_def)

lemma run_cmds_ok: "sound E \<Longrightarrow> timers_ok ht \<Longrightarrow> timers_ok (fold (run_cmd E) cs ht)"
  by (induction cs arbitrary: ht) (simp_all add: run_cmd_ok)

lemma count_pending:
  assumes "timers_ok ht"
  shows "pj_timer_heap_count ht = card (dom (pending ht))"
proof -
  note c = timers_core [OF assms]
  have "card (dom (pending ht)) = card (nodes ht)"
    unfolding pending_dom [OF c] by (rule card_image [OF node_entry_inj [OF c]])
  also have "\<dots> = th_cur_size ht"
    using core_facts(1,3) [OF c] c distinct_card [OF core_facts(3) [OF c]] by (simp add: nodes_def core_def)
  finally show ?thesis by (simp add: pj_timer_heap_count_def)
qed

lemma earliest_pending:
  assumes "timers_ok ht"
  shows "case pj_timer_heap_earliest_time ht of
      (s, None) \<Rightarrow> s = PJ_ENOTFOUND \<and> pending ht = Map.empty
    | (s, Some t) \<Rightarrow> s = PJ_SUCCESS \<and> (\<exists>e l. pending ht e = Some (t, l))
        \<and> (\<forall>e t' l. pending ht e = Some (t', l) \<longrightarrow> tv_lte t t')"
  using root_earliest [OF assms] no_timers [OF assms] by (auto simp: pj_timer_heap_earliest_time_def tv_key)

text \<open>A clock that counts seconds, and callbacks that set their timer again, in 10 seconds.\<close>

definition clock_env :: "int timer_env" where
  "clock_env = \<lparr>env_tick = (\<lambda>w. (\<lparr>tv_sec = w, tv_msec = 0\<rparr>, w + 1)), env_add_ref = (\<lambda>_ w. w),
     env_dec_ref = (\<lambda>_ w. w), env_callback = (\<lambda>_ _ ht. ht)\<rparr>"

definition rearm_env :: "int timer_env" where
  "rearm_env = clock_env\<lparr>env_callback := (\<lambda>_ e ht. snd (pj_timer_heap_schedule clock_env e \<lparr>tv_sec = 10, tv_msec = 0\<rparr> ht))\<rparr>"

definition demo_entries :: "nat \<Rightarrow> timer_entry" where
  "demo_entries e = \<lparr>te_user_data = e, te_id = 0, te_cb = 7, te_timer_id = -1\<rparr>"

lemma demo_facts: "sound rearm_env" "\<not> pj_timer_entry_running (demo_entries e)" "te_cb (demo_entries e) = 7"
  by (simp_all add: sound_def rearm_env_def pj_timer_heap_schedule_def schedule_pending demo_entries_def
      pj_timer_entry_running_def)

section \<open>The invariant\<close>

text \<open>
  C9. Starting from a new heap and entries that are not running, after any scheduling, cancelling
  and polling, by the application and, in polls, by callbacks that keep the heap's invariant: the array is a binary heap whose nodes, ids and
  free list agree, the count is the number of pending timers, an entry is running just when it is pending, and the
  earliest time reported is the smallest one pending, if there is one.
\<close>

theorem timer_heap_invariant:
  assumes "\<forall>e. \<not> pj_timer_entry_running (entries e)" "sound E"
  shows "let ht = fold (run_cmd E) cs (pj_timer_heap_create room entries w)
    in timers_ok ht \<and> pj_timer_heap_count ht = card (dom (pending ht))
       \<and> (\<forall>e. pj_timer_entry_running (th_entries ht e) \<longleftrightarrow> pending ht e \<noteq> None)
       \<and> (case pj_timer_heap_earliest_time ht of
            (s, None) \<Rightarrow> s = PJ_ENOTFOUND \<and> pending ht = Map.empty
          | (s, Some t) \<Rightarrow> s = PJ_SUCCESS \<and> (\<exists>e l. pending ht e = Some (t, l))
              \<and> (\<forall>e t' l. pending ht e = Some (t', l) \<longrightarrow> tv_lte t t'))"
proof -
  have ok: "timers_ok (fold (run_cmd E) cs (pj_timer_heap_create room entries w))"
    using assms by (intro run_cmds_ok create_ok) simp_all
  then show ?thesis
    using count_pending [OF ok] timers_running [OF ok] earliest_pending [OF ok] unfolding Let_def domIff by blast
qed

theorem timer_heap_invariant_witness:
  "let ht = fold (run_cmd rearm_env)
     [Schedule 1 \<lparr>tv_sec = 5, tv_msec = 0\<rparr> None None, Schedule 2 \<lparr>tv_sec = 1, tv_msec = 0\<rparr> (Some 9) None, Poll True,
      Schedule 3 \<lparr>tv_sec = 9, tv_msec = 1000\<rparr> None None, Poll False, Cancel 1 None]
     (pj_timer_heap_create 1 demo_entries 0)
   in timers_ok ht \<and> card (dom (pending ht)) = 2 \<and> pj_timer_entry_running (th_entries ht 2)"
proof -
  let ?cs = "[Schedule 1 \<lparr>tv_sec = 5, tv_msec = 0\<rparr> None None, Schedule 2 \<lparr>tv_sec = 1, tv_msec = 0\<rparr> (Some 9) None, Poll True,
      Schedule 3 \<lparr>tv_sec = 9, tv_msec = 1000\<rparr> None None, Poll False, Cancel 1 None]"
  have "pj_timer_heap_count (fold (run_cmd rearm_env) ?cs (pj_timer_heap_create 1 demo_entries 0)) = 2"
    "pj_timer_entry_running (th_entries (fold (run_cmd rearm_env) ?cs (pj_timer_heap_create 1 demo_entries 0)) 2)"
    by code_simp+
  then show ?thesis
    using timer_heap_invariant [of demo_entries rearm_env ?cs 1 0] demo_facts by (simp only: Let_def) simp
qed

section \<open>Scheduling and cancelling\<close>

text \<open>
  C19. Scheduling an entry: one without a callback is refused and nothing changes; one that is running is
  refused, and only the clock has been read; any other becomes pending for the current time plus the delay with the
  given group lock, on which a reference is taken, and no other timer changes. The heap is never full: it grows.
\<close>

theorem timer_schedule:
  assumes "timers_ok ht" "env_tick E (th_world ht) = (now, w)"
  shows "case schedule_w_grp_lock E e delay id_val lock ht of (s, ht') \<Rightarrow>
    if te_cb (th_entries ht e) = 0 then s = PJ_EINVAL \<and> ht' = ht
    else if pending ht e \<noteq> None then s = PJ_EINVALIDOP \<and> ht' = ht\<lparr>th_world := w\<rparr>
    else s = PJ_SUCCESS \<and> timers_ok ht' \<and> pending ht' = (pending ht)(e \<mapsto> (tv_add now delay, lock))
      \<and> th_world ht' = (case lock of None \<Rightarrow> w | Some l \<Rightarrow> env_add_ref E l w)
      \<and> (\<forall>i. id_val = Some i \<longrightarrow> te_id (th_entries ht' e) = i) \<and> th_max_per_poll ht' = th_max_per_poll ht
      \<and> (\<forall>e'. e' \<noteq> e \<longrightarrow> th_entries ht' e' = th_entries ht e')"
proof -
  note refused = schedule_refused [OF assms(2), of e delay id_val lock]
  have run: "pj_timer_entry_running (th_entries ht e) \<longleftrightarrow> pending ht e \<noteq> None" using timers_running [OF assms(1)] by auto
  show ?thesis
  proof (cases "te_cb (th_entries ht e) \<noteq> 0 \<and> pending ht e = None")
    case True
    then have "te_cb (th_entries ht e) \<noteq> 0" "\<not> pj_timer_entry_running (th_entries ht e)" using run by simp_all
    then obtain k ht' where "schedule_w_grp_lock E e delay id_val lock ht = (PJ_SUCCESS, ht')" "timers_ok ht'"
      "pending ht' = (pending ht)(e \<mapsto> (tv_add now delay, lock))"
      "th_entries ht' = (th_entries ht)(e := set_id id_val ((th_entries ht e)\<lparr>te_timer_id := int k\<rparr>))"
      "th_world ht' = (case lock of None \<Rightarrow> w | Some l \<Rightarrow> env_add_ref E l w)" "th_max_per_poll ht' = th_max_per_poll ht"
      by (rule schedule_spec [OF assms(1) _ _ assms(2)])
    then show ?thesis using True by (simp add: set_id_def)
  next
    case False
    then show ?thesis using refused run by (cases "te_cb (th_entries ht e) = 0") auto
  qed
qed

definition demo_heap :: "int timer_heap" where
  "demo_heap = pj_timer_heap_create 1 demo_entries 0"

lemma demo_heap_ok: "timers_ok demo_heap"
  unfolding demo_heap_def by (rule create_ok) (rule demo_facts)

theorem timer_schedule_witness:
  "\<exists>ht. schedule_w_grp_lock clock_env 4 \<lparr>tv_sec = 1, tv_msec = 2500\<rparr> (Some 8) (Some 3) demo_heap = (PJ_SUCCESS, ht)
     \<and> pending ht = [4 \<mapsto> (\<lparr>tv_sec = 3, tv_msec = 500\<rparr>, Some 3)]"
proof -
  have h: "pending demo_heap = Map.empty" "te_cb (th_entries demo_heap 4) = 7"
    "env_tick clock_env (th_world demo_heap) = (\<lparr>tv_sec = 0, tv_msec = 0\<rparr>, 1)"
    "tv_add \<lparr>tv_sec = 0, tv_msec = 0\<rparr> \<lparr>tv_sec = 1, tv_msec = 2500\<rparr> = \<lparr>tv_sec = 3, tv_msec = 500\<rparr>"
    by (simp add: demo_heap_def pj_timer_heap_create_def pending_def) (code_simp+)
  obtain s ht where run: "schedule_w_grp_lock clock_env 4 \<lparr>tv_sec = 1, tv_msec = 2500\<rparr> (Some 8) (Some 3) demo_heap = (s, ht)"
    by fastforce
  from timer_schedule [OF demo_heap_ok h(3), where e = 4 and delay = "\<lparr>tv_sec = 1, tv_msec = 2500\<rparr>"
      and id_val = "Some 8" and lock = "Some 3"]
  show ?thesis using h by (simp add: run)
qed

text \<open>
  C20. Cancelling an entry, whatever state it is in, leaves it not pending and not running, and touches no
  other timer; the result is 1 if it was pending, and then the reference on its group lock is released, and 0 if not. So a pending
  timer can be armed afresh, arming and cancelling one that was idle changes no pending timer, and cancelling all
  the entries of a list leaves just the other timers.
\<close>

theorem timer_cancel:
  assumes "timers_ok ht"
  shows "(case cancel_timer E e id_val ht of (n, ht') \<Rightarrow>
      timers_ok ht' \<and> pending ht' = (pending ht)(e := None) \<and> \<not> pj_timer_entry_running (th_entries ht' e)
      \<and> (case pending ht e of
           None \<Rightarrow> n = 0 \<and> th_world ht' = th_world ht
         | Some (t, l) \<Rightarrow> n = 1 \<and> th_world ht' = (case l of None \<Rightarrow> th_world ht | Some k \<Rightarrow> env_dec_ref E k (th_world ht))))
    \<and> (te_cb (th_entries ht e) \<noteq> 0 \<longrightarrow>
         pending (snd (pj_timer_heap_schedule E e delay (snd (pj_timer_heap_cancel E e ht))))
           = (pending ht)(e \<mapsto> (tv_add (fst (env_tick E (th_world (snd (pj_timer_heap_cancel E e ht))))) delay, None)))
    \<and> (te_cb (th_entries ht e) \<noteq> 0 \<and> pending ht e = None \<longrightarrow>
         pending (snd (pj_timer_heap_cancel E e (snd (pj_timer_heap_schedule E e delay ht)))) = pending ht)
    \<and> pending (fold (\<lambda>e ht. snd (pj_timer_heap_cancel E e ht)) es ht) = pending ht |` (- set es)"
    (is "?cancel \<and> ?rearm \<and> ?undo \<and> ?all")
proof (intro conjI impI)
  show ?cancel
  proof (cases "pending ht e")
    case None
    then show ?thesis using cancel_idle [OF assms None] cancel_entry_idle(2) [OF assms None]
      by (simp add: fun_upd_idem pj_timer_entry_running_def)
  next
    case (Some a)
    obtain t l where "a = (t, l)" by fastforce
    with Some have p: "pending ht e = Some (t, l)" by simp
    obtain ht' where "cancel_timer E e id_val ht = (1, ht')" "timers_ok ht'" "pending ht' = (pending ht)(e := None)"
        "th_entries ht' = (th_entries ht)(e := set_id id_val ((th_entries ht e)\<lparr>te_timer_id := -1\<rparr>))"
        "th_world ht' = (case l of None \<Rightarrow> th_world ht | Some k \<Rightarrow> env_dec_ref E k (th_world ht))"
      by (rule cancel_spec [OF assms p])
    then show ?thesis by (simp add: p pj_timer_entry_running_def)
  qed
qed (use timers.rearm [OF assms] timers.arm_disarm [OF assms] timers.disarm_all [OF assms] in simp_all)

theorem timer_cancel_witness:
  "pending (snd (pj_timer_heap_cancel clock_env 4
     (snd (pj_timer_heap_schedule clock_env 4 \<lparr>tv_sec = 1, tv_msec = 0\<rparr> demo_heap)))) = pending demo_heap"
proof -
  have "te_cb (th_entries demo_heap 4) \<noteq> 0" "pending demo_heap 4 = None"
    by (simp_all add: demo_heap_def pj_timer_heap_create_def pending_def demo_facts)
  then show ?thesis using timer_cancel [OF demo_heap_ok, where E = clock_env and e = 4] by blast
qed

section \<open>Polling\<close>

text \<open>
  C10. A poll of the heap with entries that are as they were scheduled, at a fixed time: it calls the callbacks of distinct timers that are due, each
  once, in the order of their times, none before one that is earlier; these are no longer pending and
  the others stay as they were. It stops only when no timer is due or the limit per poll is reached, and
  returns how many it called and, if asked to, how long it is until the next timer.
\<close>

theorem poll_in_order:
  assumes "timers_ok ht" "all_intact ht"
  shows "\<exists>fs d ht'. pj_timer_heap_poll (log_env now) want ht = ((length fs, d), ht') \<and> timers_ok ht'
    \<and> th_world ht' = th_world ht @ fs \<and> distinct fs \<and> set fs \<subseteq> due_timers now ht
    \<and> pending ht' = pending ht |` (- set fs) \<and> sorted (map (time_of ht) fs)
    \<and> (\<forall>e \<in> dom (pending ht) - set fs. \<forall>f \<in> set fs. time_of ht f \<le> time_of ht e)
    \<and> length fs \<le> unat (th_max_per_poll ht) \<and> (due_timers now ht' = {} \<or> length fs = unat (th_max_per_poll ht))
    \<and> d = (if \<not> want then None else Some (case pj_timer_heap_earliest_time ht' of
              (_, None) \<Rightarrow> \<lparr>tv_sec = PJ_MAXINT32, tv_msec = PJ_MAXINT32\<rparr>
            | (_, Some t) \<Rightarrow> let d = tv_sub t now in if tv_sec d < 0 \<or> tv_msec d < 0 then \<lparr>tv_sec = 0, tv_msec = 0\<rparr> else d))"
proof -
  let ?m = "if th_cur_size ht \<noteq> 0 then root_time ht else \<lparr>tv_sec = 0, tv_msec = 0\<rparr>"
  obtain fs ht' where l: "poll_loop (log_env now) 0 now ?m ht = ((length fs, now), ht')" "timers_ok ht'"
      "th_world ht' = th_world ht @ fs" "fired ht now fs ht'" "length fs \<le> unat (th_max_per_poll ht)"
      "due_timers now ht' = {} \<or> length fs = unat (th_max_per_poll ht)"
    using poll_fires [OF assms, of ?m 0 now] by auto
  have t: "tick (log_env now) h = (now, h)" for h by (simp add: tick_def log_env_def)
  show ?thesis
  proof (cases "th_cur_size ht = 0 \<and> want")
    case True
    then have none: "pending ht = Map.empty" using no_timers [OF assms(1)] by simp
    show ?thesis
      by (rule exI [of _ "[]"], rule exI, rule exI [of _ ht])
        (use True none assms(1) in \<open>simp add: pj_timer_heap_poll_def pj_timer_heap_earliest_time_def due_timers_def\<close>)
  next
    case False
    let ?d = "if \<not> want then None else Some (case pj_timer_heap_earliest_time ht' of
              (_, None) \<Rightarrow> \<lparr>tv_sec = PJ_MAXINT32, tv_msec = PJ_MAXINT32\<rparr>
            | (_, Some t) \<Rightarrow> let d = tv_sub t now in if tv_sec d < 0 \<or> tv_msec d < 0 then \<lparr>tv_sec = 0, tv_msec = 0\<rparr> else d)"
    have "pj_timer_heap_poll (log_env now) want ht = ((length fs, ?d), ht')"
      unfolding pj_timer_heap_poll_def t Let_def if_not_P [OF False] prod.case l(1)
      by (cases "th_cur_size ht' = 0"; cases want)
        (simp_all add: t next_delay_def pj_timer_heap_earliest_time_def Let_def)
    then show ?thesis using l(2-6) unfolding fired_def by blast
  qed
qed

text \<open>Three timers, of which two are due after 7 seconds.\<close>

definition busy_heap :: "nat list timer_heap" where
  "busy_heap = fold (run_cmd (log_env \<lparr>tv_sec = 0, tv_msec = 0\<rparr>))
     [Schedule 1 \<lparr>tv_sec = 6, tv_msec = 0\<rparr> None None, Schedule 2 \<lparr>tv_sec = 5, tv_msec = 900\<rparr> None (Some 4),
      Schedule 3 \<lparr>tv_sec = 8, tv_msec = 0\<rparr> None None]
     (pj_timer_heap_create 0 demo_entries [])"

theorem poll_in_order_witness:
  "timers_ok (snd (pj_timer_heap_poll (log_env \<lparr>tv_sec = 7, tv_msec = 0\<rparr>) True busy_heap))
   \<and> th_world (snd (pj_timer_heap_poll (log_env \<lparr>tv_sec = 7, tv_msec = 0\<rparr>) True busy_heap)) = [2, 1]"
proof -
  have "sound (log_env t)" for t by (simp add: sound_def log_env_def upd_world_eq world_same)
  then have ok: "timers_ok busy_heap"
    unfolding busy_heap_def by (intro run_cmds_ok create_ok) (simp_all add: demo_facts)
  have intact: "all_intact busy_heap" by code_simp
  have "th_world (snd (pj_timer_heap_poll (log_env \<lparr>tv_sec = 7, tv_msec = 0\<rparr>) True busy_heap)) = [2, 1]" by code_simp
  then show ?thesis using poll_in_order [OF ok intact, of "\<lparr>tv_sec = 7, tv_msec = 0\<rparr>" True] by auto
qed

end
