(* ===== verification/Spec2Isabelle.thy ===== *)
theory Spec2Isabelle
  imports Bridge_Props Recording_Props Conference_Props Incoming_Props Call_Props Account_Props Blf_Props
    Stats_Props Audio_Props Lifecycle_Props System_Props Acc_Props Reg_Props Sig_Props Hangup_Props Timer_Props
begin

text \<open>
  PacketDial is a softphone: a Flutter interface, a Rust core, and a C shim
  (\<^verbatim>\<open>src/core_rust/src/shim/pjsip_shim.c\<close> and \<^verbatim>\<open>.h\<close>) through which Rust drives the vendored PJSIP
  2.14.1 (\<^verbatim>\<open>src/engine_pjsip/pjproject\<close>). This development models the shim completely, and the part of
  PJSIP that carries the shim's own guarantees: pjsua's accounts and their registration (\<^verbatim>\<open>pjsua_acc.c\<close>), the life of calls
  (\<^verbatim>\<open>pjsua_call.c\<close>), conference wrappers, sound device selection, file recorders, call queries and buddy list (\<^verbatim>\<open>pjsua_aud.c\<close>, \<^verbatim>\<open>pjsua_call.c\<close>,
  \<^verbatim>\<open>pjsua_pres.c\<close>), the port table and connections of the conference bridge
  (\<^verbatim>\<open>pjmedia/src/pjmedia/conference.c\<close>), and the timer heap on which all delayed work runs (\<^verbatim>\<open>pjlib/src/pj/timer.c\<close>).

  \<^bold>\<open>How the parts interact.\<close> Rust calls a \<^verbatim>\<open>pd_*\<close> function from one of its threads; the function registers the
  thread, checks its arguments, calls pjsua and returns a status. pjsua calls back on its own threads
  (registration, incoming call, call and media state, transactions, transfer progress, buddies, log); the
  shim turns these into calls of the function pointers Rust installed with \<^verbatim>\<open>pd_init\<close>. The shim's state is
  the C globals. pjsua's state is reached only through pjsua's functions.

  \<^bold>\<open>The state and its representation.\<close>
  \<^item> \<open>Shim_State\<close>: the record \<open>shim\<close> of the globals, generic in pjsua's state \<open>env\<close>. A callback pointer is a flag
    (non-NULL or not), and a call through it appends an event to \<open>trace\<close>; the model alone has \<open>trace\<close>,
    \<open>cur_thread\<close>. Every function is a state monad \<open>shim_m\<close>.
  \<^item> \<open>Pjsua_Api\<close>: the record \<open>pjsua\<close> of the pjsua functions the shim calls. The shim's definitions take it as an
    argument, so they are about every pjsua; \<open>Pjsua_Model\<close> fills in the modelled functions and leaves the
    others to a base record \<open>B\<close>.
  \<^item> \<open>Pjsua_Vars\<close>: the part of \<^verbatim>\<open>pjsua_var\<close> the modelled functions use, and the record \<open>hw\<close> of the modules below
    (device streams, WAV writers, resamplers, URI parsing and printing, client registrations, transports,
    timers, presence), which are parameters. \<open>Pjsua_Acc_Data\<close>: accounts and their configurations; a timer is the
    flag \<^verbatim>\<open>id\<close> of its entry, a client registration or transport its handle.
  \<^item> \<open>Pjsua_Call_Data\<close>: call settings, waiting answers, session descriptions, events for the application. A call
    (\<open>pjsua_call\<close> in \<open>Pjsua_Vars\<close>) has its INVITE session as the state it is in, or none. \<open>Pjsua_Sig\<close> has the record \<open>sip\<close> of
    the dialogs, sessions and media channels below, which are parameters: what a session reports while a
    message is sent is a list of notices that \<open>deliver\<close> gives to pjsua in order.
  \<^item> \<open>Conf_Bridge\<close>: \<open>pjmedia_conf\<close> with its ports, listener arrays and counters at 32 bits.
  \<^item> \<open>Pj_Timer\<close>: \<open>timer_heap\<close> with the application's entries as a memory, since callers and the heap share them: a
    pointer to an entry is its number, one to a copy its index. \<open>timer_env\<close> has the clock, the group locks and the
    callbacks, which are parameters. The default configuration, with copies and without linked lists. The accounts and calls
    above keep a timer as the flag of its entry; they are not connected to this heap.

  \<^bold>\<open>Which theory models which code.\<close>
  \<^item> \<open>Prelude\<close>: C strings, \<^verbatim>\<open>snprintf\<close>, array helpers (\<^verbatim>\<open>pj_array_erase\<close>), the monad, the calculus \<open>keeps\<close>.
  \<^item> \<open>Shim_Audio\<close>, \<open>Shim_Callbacks\<close>, \<open>Shim_Lifecycle\<close>, \<open>Shim_Accounts\<close>, \<open>Shim_Calls\<close>, \<open>Shim_Recording\<close>,
    \<open>Shim_Stats\<close>: the functions of \<^verbatim>\<open>pjsip_shim.c\<close>, one definition per function (long ones in the parts their
    comments name).
  \<^item> \<open>Pjsua_Acc\<close>: the account table (add, delete, describe, enumerate, choose). \<open>Pjsua_Reg\<close>: registering, retrying
    after a failure, keep-alive. \<open>Pjsua_Nat\<close>: the callback of a registration, with the correction of the Contact
    behind a NAT, service routes and lost transports. \<open>Pj_Time\<close>: \<^verbatim>\<open>pj_time_val_normalize\<close> for times whose seconds
    stay within C's \<^verbatim>\<open>long\<close>; \<open>Pj_Long\<close>: the same code at the width of \<^verbatim>\<open>long\<close>, and when the two agree.
  \<^item> \<open>Pjsua_Sig\<close>: the slots of calls, reports of a session, hanging up and its retries. \<open>Pjsua_Dial\<close>: outgoing calls and
    answers. \<open>Pjsua_Incoming\<close>: incoming calls. \<open>Pjsua_Midcall\<close>: hold, re-INVITE, UPDATE, transfers, DTMF.
    \<open>Sig_System\<close>: all of these as the steps of a call table.
  \<^item> \<open>Pjsua_Calls\<close>, \<open>Pjsua_Snd\<close>, \<open>Pjsua_Aud\<close>, \<open>Pjsua_Buddy\<close>: pjsua's functions. \<open>Conf_Bridge\<close>: the bridge.
  \<^item> \<open>Pj_Timer\<close>: every operation of \<^verbatim>\<open>timer.c\<close> on timers, each as one definition, the loop of the poll in three.
  \<^item> \<open>Shim_System\<close>: all requests and callbacks as a datatype of commands, the step relation \<open>shim_step\<close> and the
    states a session can reach after a successful \<^verbatim>\<open>pd_init\<close>.

  \<^bold>\<open>Interfaces.\<close> \<open>Interfaces\<close> states what the shim relies on as locales: \<open>bridge\<close> (a directed graph of slots) and
  \<open>recorders\<close> (owners of slots); \<open>Recording_Laws\<close> and \<open>Conference_Laws\<close> prove the shim's recording and
  switching over them (\<open>recording\<close>, \<open>switching\<close>), and \<open>Pjsua_Model\<close> interprets all four on pjsua's own functions.
  \<open>Account_Store\<close> has the contract of a keyed setting (\<open>account_store\<close>), interpreted on the four settings.
  \<open>Sig_Table\<close> states what a property of one call needs to survive everything its session can do (\<open>call_reports\<close>,
  and \<open>call_property\<close> with hanging up), and \<open>Sig_Incoming\<close> what one of the table needs (\<open>table_reports\<close>, \<open>table_property\<close>);
  \<open>Sig_System\<close> runs through all steps once under the latter two. They are interpreted on the soundness of the table, its weaker
  forms while a call is being set up, the calls an operation leaves alone, and the silence of a call that was hung up.
  \<open>Timer_Sched\<close> has the contract of a set of timers (\<open>timer_queue\<close>), interpreted on the heap.

  \<^bold>\<open>What the lemmas show.\<close>
  \<^item> \<open>Conf_Laws\<close>, \<open>Bridge_Props\<close>: the bridge is a graph with exact counters; every operation refines one on graphs.
  \<^item> \<open>Pjsua_Laws\<close>, \<open>Recorder_Laws\<close>: pjsua's wrappers and the recorder table in terms of that graph; commands that
    only move the sound device change neither (\<open>neutral\<close>).
  \<^item> \<open>Recording_Props\<close>, \<open>Conference_Props\<close>, \<open>Incoming_Props\<close>, \<open>Call_Props\<close>, \<open>Account_Props\<close>, \<open>Blf_Props\<close>,
    \<open>Stats_Props\<close>, \<open>Audio_Props\<close>, \<open>Lifecycle_Props\<close>: the functional behaviour of the requests and callbacks, errors
    included. \<open>Shim_Laws\<close> has the calculus of commands that only log.
  \<^item> \<open>Acc_Laws\<close>, \<open>Reg_Laws\<close>: what the registration code may do to an account (\<open>gentle\<close>, \<open>stable\<close>) and that every
    part of it keeps each stable property. \<open>Acc_Table\<close>: the invariant of the account table and the exact effect of
    adding and deleting. \<open>Acc_Props\<close>, \<open>Reg_Props\<close>: properties of accounts through the shim, and of registration.
  \<^item> \<open>Sig_Table\<close>, \<open>Sig_Setup\<close>, \<open>Sig_Incoming\<close>: every operation keeps the call table sound. \<open>Sig_Apart\<close>: making and receiving a
    call leave the other calls alone. \<open>Sig_Outgoing\<close>: the number of calls and the slot after an attempt to make a call.
    \<open>Sig_Refused\<close>: which INVITE requests are refused, and what that leaves behind. \<open>Sig_Hush\<close>: no step of the system lets the
    application hear of a call that has been hung up. \<open>Sig_Props\<close>, \<open>Hangup_Props\<close>: properties of the table, of setting up calls and of
    hanging up. \<open>Sig_Demo\<close> has a concrete SIP stack for their hypotheses. The calculus \<open>leads\<close> (\<open>Prelude\<close>) carries
    postconditions, as \<open>pres\<close> carries invariants.
  \<^item> \<open>Timer_Order\<close>, \<open>Timer_Laws\<close>: moving a node up or down restores the order of the heap and its links. \<open>Timer_Inv\<close>: the
    invariant \<open>timers_ok\<close>, with the free list of ids, and the abstraction \<open>pending\<close>, a map from entries to times and locks.
    \<open>Timer_Sched\<close>, \<open>Timer_Poll\<close>: the operations refine updates of that map. \<open>Timer_Props\<close>: properties of runs.
  \<^item> \<open>Shim_Safety\<close>, \<open>Ownership\<close>, \<open>System_Props\<close>: invariants of every reachable state: buffers and events are bounded,
    and the recorders in use in pjsua are exactly those of the recorded calls.

  \<^bold>\<open>Bounds and termination.\<close> All loops of the modelled code are over finite arrays and are structural
  recursions; the only others are the carry of \<^verbatim>\<open>pj_time_val_normalize\<close>, the sifting and the poll of the timer heap, which have measures
  (a poll ends although callbacks may add timers: it counts up to an unsigned limit), and the queue of answers. Answers that wait for the media are given by a loop over a
  queue that an answer can extend, nested in the answer itself: \<open>pending_loop\<close> and \<open>answer_fuel\<close> bound the nesting
  and the loop by fuel, and running out is the result \<open>NoFuel\<close>. Counters
  of packets, bytes, ports and connections are 32-bit words; statuses and ids are ints the code never lets
  overflow, and floats are exact rationals with infinities and not-a-number.

  \<^bold>\<open>Assumptions.\<close> Each callback and request is one step: PJSIP's locks serialise them, and the shim's globals
  are not otherwise protected. The answer to a REGISTER is a later step, the callback of the client registration;
  what pjsua calls from account code outside it (hanging up, \<^verbatim>\<open>on_reg_state\<close>, the steps of a change of the IP
  address) is an argument. The factor 0.8 of the keep-alive interval is exact. The limits of accounts and calls
  are those of \<^verbatim>\<open>engine_pjsip/pjproject_config_site.h\<close> (4 and 8). Memory pools and locks succeed, those of the timer heap included. Properties of whole sessions assume that
  printing a message respects its buffer (\<open>print_ok\<close>) or that the functions in the base record leave
  recorders alone (\<open>base_ok\<close>); those of calls assume that media channels leave the call table alone (\<open>media_quiet\<close>), that a
  first INVITE that cannot be sent is reported as disconnected (\<open>invite_failure_reported\<close>; \<open>call_count_leak\<close> shows what happens
  otherwise), that an INVITE that is sent is reported as calling (\<open>stack_holds\<close>), that the application's callback
  uses pjsua's functions (\<open>app_sound\<close>, \<open>app_requests\<close>) and that scheduling a timer puts it in the timer heap; \<open>Demo\<close> has the concrete environment on which the hypotheses hold.

  Seconds of timers do not overflow, and memory that the timer heap allocates without clearing it reads as zero; none is read before it is written.

  \<^bold>\<open>Not modelled.\<close> pjsua's start-up (\<^verbatim>\<open>pjsua_core.c\<close>); of \<^verbatim>\<open>pjsua_call.c\<close> the callback of the re-INVITE timer and
  pending re-INVITEs, trickle ICE, forked dialogs, offers, re-INVITEs and REFERs received, instant messages and dumps;
  the shim's environment keeps calls as the functions of its base record; modifying
  an account, local accounts and online status (the rest of \<^verbatim>\<open>pjsua_acc.c\<close>), the SIP stack, codecs, streams and devices are the base record and \<open>hw\<close>; the audio path of
  the bridge (\<^verbatim>\<open>get_frame\<close>, \<^verbatim>\<open>put_frame\<close>) is not modelled. The Rust core, the Flutter application and the
  vendored samples are other programs.
\<close>

end
